(* ===== verification/Prelude.thy ===== *)
theory Prelude
  imports Main "HOL-Library.Char_ord" "HOL-Library.List_Lexorder"
begin

text \<open>
  Shared vocabulary of the development: the exceptions of the Python sources as a datatype,
  the collections of simplification rules the component theories add to, Python dictionaries
  as strictly sorted association lists, and the few string functions of the Python library
  (\<open>split\<close>, \<open>join\<close>, \<open>isspace\<close>, decimal numerals) the modelled code calls.
\<close>

section \<open>Exceptions and results\<close>

datatype pyerr =
    ValueError | KeyError | TypeError | AttributeError | IndexError | RuntimeError
  | DuplicateIDError | ObjectNotFoundError
  | ParserError string nat
  | BackendError
  | DNSLookupError | DNSTimeout
  | SIPCoreError | PublicationETagError

type_synonym 'a result = "pyerr + 'a"

text \<open>Sequencing: the first exception wins, as it does when a Python block raises.\<close>

definition bindR :: "'a result \<Rightarrow> ('a \<Rightarrow> 'b result) \<Rightarrow> 'b result" where
  "bindR r f = (case r of Inl e \<Rightarrow> Inl e | Inr a \<Rightarrow> f a)"

lemma bindR_simps [simp]: "bindR (Inl e) f = Inl e" "bindR (Inr a) f = f a"
  by (simp_all add: bindR_def)

lemma bindR_eq_Inr: "bindR r f = Inr b \<longleftrightarrow> (\<exists>a. r = Inr a \<and> f a = Inr b)"
  by (cases r) auto

fun mapR :: "('a \<Rightarrow> 'b result) \<Rightarrow> 'a list \<Rightarrow> 'b list result" where
  "mapR f [] = Inr []"
| "mapR f (x # xs) = bindR (f x) (\<lambda>y. bindR (mapR f xs) (\<lambda>ys. Inr (y # ys)))"

lemma mapR_Inr_id: "(\<And>x. x \<in> set xs \<Longrightarrow> f (g x) = Inr x) \<Longrightarrow> mapR f (map g xs) = Inr xs"
  by (induction xs) auto

lemma mapR_eq_Inr: "mapR f xs = Inr ys \<longleftrightarrow> list_all2 (\<lambda>x y. f x = Inr y) xs ys"
  by (induction xs arbitrary: ys) (auto simp: bindR_eq_Inr list_all2_Cons1)

section \<open>Dictionaries\<close>

text \<open>
  A Python dictionary is a list of key/value pairs in strictly increasing key order. The
  order is a canonical representation: two dictionaries with the same items are the same
  list (\<open>dwf_ext\<close>), so equality of models is equality of dictionaries, and iteration over
  \<open>sorted(d.iteritems())\<close> is iteration over the list.
\<close>

type_synonym ('k, 'v) dict = "('k \<times> 'v) list"

fun dset :: "'k::linorder \<Rightarrow> 'v \<Rightarrow> ('k, 'v) dict \<Rightarrow> ('k, 'v) dict" where
  "dset k v [] = [(k, v)]"
| "dset k v ((a, b) # d) =
     (if k < a then (k, v) # (a, b) # d else if k = a then (k, v) # d else (a, b) # dset k v d)"

definition ddel :: "'k \<Rightarrow> ('k, 'v) dict \<Rightarrow> ('k, 'v) dict" where
  "ddel k d = filter (\<lambda>p. fst p \<noteq> k) d"

definition dwf :: "('k::linorder, 'v) dict \<Rightarrow> bool" where
  "dwf d = sorted_wrt (<) (map fst d)"

abbreviation dkeys :: "('k, 'v) dict \<Rightarrow> 'k set" where
  "dkeys d \<equiv> fst ` set d"

lemma map_of_dset: "map_of (dset k v d) = (map_of d)(k \<mapsto> v)"
  by (induction d rule: dset.induct [where ?a0.0 = k and ?a1.0 = v, case_names nil cons])
    (auto simp: fun_eq_iff)

lemma map_of_ddel: "map_of (ddel k d) = (map_of d)(k := None)"
  by (induction d) (auto simp: ddel_def fun_eq_iff)

lemma set_dset: "set (dset k v d) \<subseteq> insert (k, v) (set d)"
  by (induction k v d rule: dset.induct) auto

lemma keys_dset: "fst ` set (dset k v d) = insert k (fst ` set d)"
  by (induction k v d rule: dset.induct) auto

lemma dset_not_Nil [simp]: "dset k v d \<noteq> []"
  by (cases "(k, v, d)" rule: dset.cases) auto

lemma dwf_Nil [simp]: "dwf []"
  by (simp add: dwf_def)

lemma dwf_Cons: "dwf ((k, v) # d) \<longleftrightarrow> (\<forall>k' \<in> fst ` set d. k < k') \<and> dwf d"
  by (auto simp: dwf_def)

lemma dwf_dset: "dwf d \<Longrightarrow> dwf (dset k v d)"
proof (induction k v d rule: dset.induct)
  case (2 k v a b d)
  then show ?case
    by (auto simp: dwf_Cons keys_dset not_less_iff_gr_or_eq intro: less_trans)
qed (simp add: dwf_Cons)

lemma dwf_filter: "dwf d \<Longrightarrow> dwf (filter P d)"
  by (induction d) (auto simp: dwf_Cons)

lemma dwf_ddel: "dwf d \<Longrightarrow> dwf (ddel k d)"
  by (simp add: ddel_def dwf_filter)

lemma dwf_distinct: "dwf d \<Longrightarrow> distinct (map fst d)"
  by (simp add: dwf_def strict_sorted_iff)

lemma map_of_eq_Some: "dwf d \<Longrightarrow> map_of d k = Some v \<longleftrightarrow> (k, v) \<in> set d"
  using dwf_distinct by fastforce

lemma map_of_filter_key: "map_of (filter (\<lambda>p. P (fst p)) d) k = (if P k then map_of d k else None)"
  by (induction d) auto

lemma dwf_ext:
  assumes "dwf d" "dwf e" "map_of d = map_of e"
  shows "d = e"
proof -
  have "set d = set e"
    using assms by (auto simp: map_of_eq_Some [symmetric])
  moreover have "map fst d = map fst e"
    using assms(1,2) \<open>set d = set e\<close>
    by (metis dwf_def list.set_map sorted_list_of_set.idem_if_sorted_distinct strict_sorted_iff)
  ultimately show ?thesis
    using assms dwf_distinct
    by (metis (no_types, lifting) map_fst_zip map_of_zip_inject zip_map_fst_snd length_map)
qed

lemma dwf_fold_dset: "dwf d \<Longrightarrow> dwf (fold (\<lambda>(k, v). dset k v) e d)"
  by (induction e arbitrary: d) (auto simp: dwf_dset)

lemma map_of_fold_dset:
  "distinct (map fst e) \<Longrightarrow> map_of (fold (\<lambda>(k, v). dset k v) e d) = map_of d ++ map_of e"
proof (induction e arbitrary: d)
  case (Cons p e)
  obtain k v where p: "p = (k, v)" by (cases p)
  with Cons.prems have k: "k \<notin> dom (map_of e)" by (simp add: dom_map_of_conv_image_fst)
  have "map_of (fold (\<lambda>(k, v). dset k v) (p # e) d) = (map_of d)(k \<mapsto> v) ++ map_of e"
    using Cons p by (simp add: map_of_dset)
  also have "\<dots> = map_of d ++ map_of (p # e)"
    unfolding p map_of.simps fst_conv snd_conv map_add_upd using k by (rule map_add_upd_left)
  finally show ?case .
qed simp

lemma fold_dset_Nil: "dwf e \<Longrightarrow> fold (\<lambda>(k, v). dset k v) e [] = e"
  by (rule dwf_ext) (simp_all add: dwf_fold_dset map_of_fold_dset dwf_distinct)

text \<open>
  The interface the components use: what a lookup returns after a write and after a
  deletion. The laws a client needs (order of independent writes, overwriting, deleting what
  was just written) are proved once from them.
\<close>

locale dictionary =
  fixes look :: "'m \<Rightarrow> 'k \<Rightarrow> 'v option"
    and put :: "'k \<Rightarrow> 'v \<Rightarrow> 'm \<Rightarrow> 'm"
    and del :: "'k \<Rightarrow> 'm \<Rightarrow> 'm"
    and wf :: "'m \<Rightarrow> bool"
  assumes look_put: "look (put k v m) = (look m)(k \<mapsto> v)"
    and look_del: "look (del k m) = (look m)(k := None)"
    and wf_put: "wf m \<Longrightarrow> wf (put k v m)"
    and wf_del: "wf m \<Longrightarrow> wf (del k m)"
    and ext: "wf m \<Longrightarrow> wf n \<Longrightarrow> look m = look n \<Longrightarrow> m = n"
begin

lemma put_commute: "wf m \<Longrightarrow> k \<noteq> l \<Longrightarrow> put k v (put l w m) = put l w (put k v m)"
  by (rule ext) (auto simp: wf_put look_put fun_upd_twist)

lemma put_put: "wf m \<Longrightarrow> put k v (put k w m) = put k v m"
  by (rule ext) (auto simp: wf_put look_put)

lemma put_same: "wf m \<Longrightarrow> look m k = Some v \<Longrightarrow> put k v m = m"
  by (rule ext) (auto simp: wf_put look_put)

lemma del_put: "wf m \<Longrightarrow> look m k = None \<Longrightarrow> del k (put k v m) = m"
  by (rule ext) (auto simp: wf_put wf_del look_put look_del)

lemma del_put_again: "wf m \<Longrightarrow> put k v (del k m) = put k v m"
  by (rule ext) (auto simp: wf_put wf_del look_put look_del)

lemma del_absent: "wf m \<Longrightarrow> look m k = None \<Longrightarrow> del k m = m"
  by (rule ext) (auto simp: wf_del look_del)

end

interpretation pd: dictionary map_of dset ddel dwf
  by unfold_locales (auto simp: map_of_dset map_of_ddel dwf_dset dwf_ddel intro: dwf_ext)

end
