(* ===== verification/Config_Tree.thy ===== *)
theory Config_Tree
  imports Prelude
begin

text \<open>
  The tree of settings kept by \<open>ConfigurationManager\<close>
  (\<open>sipsimple/configuration/__init__.py\<close>): nested dictionaries whose leaves are \<open>None\<close>, a
  unicode string or a list of strings, as \<open>IConfigurationBackend\<close> documents them. The
  recursive helpers \<open>_get\<close>, \<open>_insert\<close>, \<open>_pop\<close>, \<open>_update\<close> and
  \<open>_update_dict\<close> mutate the tree in place, so each returns its result (or the exception)
  together with the tree it leaves behind.
\<close>

section \<open>The tree\<close>

datatype leaf = LNone | LText string | LList "string list"

datatype cfg = CLeaf leaf | CDict "(string \<times> cfg) list"

type_synonym cdict = "(string, cfg) dict"

text \<open>Keys of a path: a \<open>PersistentKey\<close> keeps its (possibly empty) container alive.\<close>

datatype key = PlainKey string | PersistentKey string

fun key_name :: "key \<Rightarrow> string" where
  "key_name (PlainKey s) = s"
| "key_name (PersistentKey s) = s"

fun persistent :: "key \<Rightarrow> bool" where
  "persistent (PlainKey s) = False"
| "persistent (PersistentKey s) = True"

text \<open>Python's truth value of a node (\<open>not data_subtree\<close>).\<close>

fun falsy :: "cfg \<Rightarrow> bool" where
  "falsy (CLeaf LNone) = True"
| "falsy (CLeaf (LText s)) = (s = [])"
| "falsy (CLeaf (LList xs)) = (xs = [])"
| "falsy (CDict d) = (d = [])"

text \<open>What an object hands to \<open>update\<close>: the result of \<open>__getstate__\<close>.\<close>

datatype newval =
    NDefault
  | NItems "(string \<times> newval) list"
  | NDict "(string \<times> newval) list"
  | NLeaf leaf

fun wf_cfg :: "cfg \<Rightarrow> bool" where
  "wf_cfg (CLeaf l) = True"
| "wf_cfg (CDict d) = (dwf d \<and> (\<forall>p \<in> set d. wf_cfg (snd p)))"

fun wf_newval :: "newval \<Rightarrow> bool" where
  "wf_newval (NItems d) = (dwf d \<and> (\<forall>p \<in> set d. wf_newval (snd p)))"
| "wf_newval (NDict d) = (dwf d \<and> (\<forall>p \<in> set d. wf_newval (snd p)))"
| "wf_newval NDefault = True"
| "wf_newval (NLeaf l) = True"

abbreviation wf_cdict :: "cdict \<Rightarrow> bool" where
  "wf_cdict d \<equiv> wf_cfg (CDict d)"

section \<open>The recursive helpers of ConfigurationManager\<close>

text \<open>
  \<open>key.pop(0)\<close> on an empty list raises \<open>IndexError\<close>; indexing a leaf with a string
  raises \<open>TypeError\<close>; a method of \<open>dict\<close> that the leaf's type does not have raises
  \<open>AttributeError\<close>.
\<close>

fun cm_get :: "cfg \<Rightarrow> key list \<Rightarrow> cfg result" where
  "cm_get t [] = Inl IndexError"
| "cm_get (CLeaf l) (k # ks) = Inl TypeError"
| "cm_get (CDict d) (k # ks) =
     (case map_of d (key_name k) of
        None \<Rightarrow> Inl KeyError
      | Some sub \<Rightarrow> if ks \<noteq> [] then cm_get sub ks else Inr sub)"

text \<open>\<open>dict.update(data)\<close> for any node \<open>data\<close>: a dictionary, or an iterable of pairs.\<close>

fun update_pairs :: "cdict \<Rightarrow> string list \<Rightarrow> unit result \<times> cdict" where
  "update_pairs d [] = (Inr (), d)"
| "update_pairs d ([a, b] # xs) = update_pairs (dset [a] (CLeaf (LText [b])) d) xs"
| "update_pairs d (_ # xs) = (Inl ValueError, d)"

fun py_dict_update :: "cdict \<Rightarrow> cfg \<Rightarrow> unit result \<times> cdict" where
  "py_dict_update d (CDict e) = (Inr (), fold (\<lambda>(k, v). dset k v) e d)"
| "py_dict_update d (CLeaf LNone) = (Inl TypeError, d)"
| "py_dict_update d (CLeaf (LText s)) = (if s = [] then Inr () else Inl ValueError, d)"
| "py_dict_update d (CLeaf (LList xs)) = update_pairs d xs"

fun cm_insert :: "cfg \<Rightarrow> key list \<Rightarrow> cfg \<Rightarrow> unit result \<times> cfg" where
  "cm_insert t [] data = (Inl IndexError, t)"
| "cm_insert (CLeaf l) (k # ks) data = (Inl AttributeError, CLeaf l)"
| "cm_insert (CDict d) (k # ks) data =
     (let sub = (case map_of d (key_name k) of None \<Rightarrow> CDict [] | Some s \<Rightarrow> s);
          (r, sub') =
            (if ks \<noteq> [] then cm_insert sub ks data
             else case sub of
                    CLeaf l \<Rightarrow> (Inl AttributeError, CLeaf l)
                  | CDict e \<Rightarrow> (case py_dict_update e data of (r, e') \<Rightarrow> (r, CDict e')))
      in (r, CDict (dset (key_name k) sub' d)))"

fun cm_pop :: "cfg \<Rightarrow> key list \<Rightarrow> cfg result \<times> cfg" where
  "cm_pop t [] = (Inl IndexError, t)"
| "cm_pop (CLeaf l) (k # ks) = (Inl TypeError, CLeaf l)"
| "cm_pop (CDict d) (k # ks) =
     (case map_of d (key_name k) of
        None \<Rightarrow> (Inl KeyError, CDict d)
      | Some sub \<Rightarrow>
          if ks \<noteq> [] then
            (case cm_pop sub ks of
               (Inl e, sub') \<Rightarrow> (Inl e, CDict (dset (key_name k) sub' d))
             | (Inr data, sub') \<Rightarrow>
                 (Inr data,
                  if \<not> persistent k \<and> falsy sub' then CDict (ddel (key_name k) d)
                  else CDict (dset (key_name k) sub' d)))
          else (Inr sub, CDict (ddel (key_name k) d)))"

text \<open>
  \<open>_update_dict\<close>. The loop over \<open>new_data.iteritems()\<close> touches each key once, so its
  order does not matter (\<open>map_of_update_dict\<close> below); the model visits the keys in
  increasing order.
\<close>

definition subdict :: "cdict \<Rightarrow> string \<Rightarrow> cdict" where
  "subdict d k = (case map_of d k of Some (CDict e) \<Rightarrow> e | _ \<Rightarrow> [])"

definition put_or_drop :: "string \<Rightarrow> cdict \<Rightarrow> cdict \<Rightarrow> cdict" where
  "put_or_drop k e d = (if e = [] then ddel k d else dset k (CDict e) d)"

fun update_dict :: "cdict \<Rightarrow> (string \<times> newval) list \<Rightarrow> cdict" where
  "update_dict old [] = old"
| "update_dict old ((k, NDefault) # new) = update_dict (ddel k old) new"
| "update_dict old ((k, NItems v) # new) =
     (let key_subtree = filter (\<lambda>p. fst p \<in> dkeys v) (subdict old k)
      in update_dict (put_or_drop k (update_dict key_subtree v) old) new)"
| "update_dict old ((k, NDict v) # new) =
     update_dict (put_or_drop k (update_dict (subdict old k) v) old) new"
| "update_dict old ((k, NLeaf v) # new) = update_dict (dset k (CLeaf v) old) new"

text \<open>
  Using a leaf where \<open>_update_dict\<close> needs a dictionary raises at the first item: the
  exception is \<open>AttributeError\<close> where the first thing the branch does with it is a missing
  method, \<open>TypeError\<close> where it indexes it or tests membership.
\<close>

fun update_leaf_error :: "leaf \<Rightarrow> string \<times> newval \<Rightarrow> pyerr" where
  "update_leaf_error (LList xs) (k, NDefault) = TypeError"
| "update_leaf_error l (k, NDefault) = AttributeError"
| "update_leaf_error l (k, NItems v) = TypeError"
| "update_leaf_error l (k, NLeaf v) = TypeError"
| "update_leaf_error LNone (k, NDict v) = TypeError"
| "update_leaf_error (LText s) (k, NDict v) =
     (if \<exists>p \<in> set [0..<Suc (length s)]. take (length k) (drop p s) = k then TypeError else AttributeError)"
| "update_leaf_error (LList xs) (k, NDict v) = (if k \<in> set xs then TypeError else AttributeError)"

fun update_node :: "cfg \<Rightarrow> (string \<times> newval) list \<Rightarrow> unit result \<times> cfg" where
  "update_node (CDict d) new = (Inr (), CDict (update_dict d new))"
| "update_node (CLeaf l) [] = (Inr (), CLeaf l)"
| "update_node (CLeaf l) (p # new) = (Inl (update_leaf_error l p), CLeaf l)"

fun cm_update :: "cfg \<Rightarrow> key list \<Rightarrow> (string \<times> newval) list \<Rightarrow> unit result \<times> cfg" where
  "cm_update t [] data = (Inl IndexError, t)"
| "cm_update (CLeaf l) (k # ks) data = (Inl AttributeError, CLeaf l)"
| "cm_update (CDict d) (k # ks) data =
     (let sub = (case map_of d (key_name k) of None \<Rightarrow> CDict [] | Some s \<Rightarrow> s);
          (r, sub') = (if ks \<noteq> [] then cm_update sub ks data else update_node sub data)
      in case r of
           Inl e \<Rightarrow> (Inl e, CDict (dset (key_name k) sub' d))
         | Inr u \<Rightarrow>
             (Inr (), if \<not> persistent k \<and> falsy sub' then CDict (ddel (key_name k) d)
                      else CDict (dset (key_name k) sub' d)))"

section \<open>What update does to each key\<close>

text \<open>The new value of one key, from its old value: the specification of \<open>_update_dict\<close>.\<close>

definition node_dict :: "cfg option \<Rightarrow> cdict" where
  "node_dict v = (case v of Some (CDict e) \<Rightarrow> e | _ \<Rightarrow> [])"

definition some_dict :: "cdict \<Rightarrow> cfg option" where
  "some_dict e = (if e = [] then None else Some (CDict e))"

fun upd_val :: "cfg option \<Rightarrow> newval \<Rightarrow> cfg option" where
  "upd_val old NDefault = None"
| "upd_val old (NLeaf l) = Some (CLeaf l)"
| "upd_val old (NDict v) = some_dict (update_dict (node_dict old) v)"
| "upd_val old (NItems v) =
     some_dict (update_dict (filter (\<lambda>p. fst p \<in> dkeys v) (node_dict old)) v)"

lemma subdict_node_dict: "subdict d k = node_dict (map_of d k)"
  by (simp add: subdict_def node_dict_def)

lemma map_of_put_or_drop: "map_of (put_or_drop k e d) = (map_of d)(k := some_dict e)"
  by (simp add: put_or_drop_def some_dict_def map_of_ddel map_of_dset)

lemma dwf_put_or_drop: "dwf d \<Longrightarrow> dwf (put_or_drop k e d)"
  by (simp add: put_or_drop_def dwf_ddel dwf_dset)

lemma update_dict_Cons:
  "map_of (update_dict old ((k, v) # new)) =
     map_of (update_dict
       (case upd_val (map_of old k) v of None \<Rightarrow> ddel k old | Some c \<Rightarrow> dset k c old) new)"
  by (cases v)
    (auto simp: Let_def put_or_drop_def some_dict_def subdict_node_dict)

lemma map_of_update_dict:
  "distinct (map fst new) \<Longrightarrow>
   map_of (update_dict old new) k =
     (case map_of new k of None \<Rightarrow> map_of old k | Some v \<Rightarrow> upd_val (map_of old k) v)"
proof (induction new arbitrary: old)
  case Nil
  show ?case by simp
next
  case (Cons p new)
  obtain l v where p: "p = (l, v)" by (cases p)
  let ?old = "case upd_val (map_of old l) v of None \<Rightarrow> ddel l old | Some c \<Rightarrow> dset l c old"
  have old: "map_of ?old = (map_of old)(l := upd_val (map_of old l) v)"
    by (auto simp: map_of_ddel map_of_dset split: option.split)
  have "map_of new l = None"
    using Cons.prems p by (simp add: map_of_eq_None_iff)
  then show ?case
    using Cons.IH [of ?old] Cons.prems unfolding p update_dict_Cons
    by (auto simp: old split: option.split)
qed

lemma dwf_update_dict: "dwf old \<Longrightarrow> dwf (update_dict old new)"
  by (induction old new rule: update_dict.induct)
    (auto simp: dwf_ddel dwf_dset dwf_put_or_drop Let_def)

section \<open>Well-formed trees stay well-formed\<close>

lemmas wf_cdict_iff = wf_cfg.simps(2)

declare wf_cfg.simps(2) [simp del]

lemma wf_cdict_Nil [simp]: "wf_cdict []"
  by (simp add: wf_cdict_iff)

lemma wf_cdict_lookup: "wf_cdict d \<Longrightarrow> map_of d k = Some c \<Longrightarrow> wf_cfg c"
  by (fastforce simp: wf_cdict_iff dest: map_of_SomeD)

lemma wf_cdict_dset: "wf_cdict d \<Longrightarrow> wf_cfg c \<Longrightarrow> wf_cdict (dset k c d)"
  using set_dset [of k c d] by (fastforce simp: dwf_dset wf_cdict_iff)

lemma wf_cdict_filter: "wf_cdict d \<Longrightarrow> wf_cdict (filter P d)"
  by (auto simp: dwf_filter wf_cdict_iff)

lemma wf_cdict_ddel: "wf_cdict d \<Longrightarrow> wf_cdict (ddel k d)"
  unfolding ddel_def by (rule wf_cdict_filter)

lemma wf_cdict_subdict: "wf_cdict d \<Longrightarrow> wf_cdict (subdict d k)"
  unfolding subdict_def by (auto split: option.split cfg.split dest!: wf_cdict_lookup)

lemma wf_cdict_put_or_drop: "wf_cdict d \<Longrightarrow> wf_cdict e \<Longrightarrow> wf_cdict (put_or_drop k e d)"
  by (simp add: put_or_drop_def wf_cdict_ddel wf_cdict_dset)

lemma wf_cdict_update_dict: "wf_cdict old \<Longrightarrow> wf_cdict (update_dict old new)"
proof (induction old new rule: update_dict.induct)
  case (3 old k v new)
  then show ?case
    by (simp add: Let_def wf_cdict_put_or_drop wf_cdict_filter wf_cdict_subdict)
qed (simp_all add: wf_cdict_ddel wf_cdict_dset wf_cdict_put_or_drop wf_cdict_subdict
      )

lemmas wf_cdict_intros =
  wf_cdict_dset wf_cdict_ddel wf_cdict_filter wf_cdict_subdict wf_cdict_put_or_drop
  wf_cdict_update_dict

lemma wf_update_pairs: "wf_cdict d \<Longrightarrow> update_pairs d xs = (r, d') \<Longrightarrow> wf_cdict d'"
  by (induction d xs rule: update_pairs.induct)
    (auto simp: wf_cdict_dset)

lemma wf_fold_dset:
  "wf_cdict d \<Longrightarrow> \<forall>p \<in> set e. wf_cfg (snd p) \<Longrightarrow> wf_cdict (fold (\<lambda>(k, v). dset k v) e d)"
  by (induction e arbitrary: d) (auto simp: wf_cdict_dset)

lemma wf_py_dict_update:
  assumes "wf_cdict d" "wf_cfg data" "py_dict_update d data = (r, d')"
  shows "wf_cdict d'"
proof (cases "(d, data)" rule: py_dict_update.cases)
  case (1 d0 e)
  then show ?thesis
    using assms wf_fold_dset [of d e] by (auto simp: wf_cdict_iff [of e])
qed (use assms wf_update_pairs in auto)

lemma wf_cm_get: "wf_cfg t \<Longrightarrow> cm_get t ks = Inr c \<Longrightarrow> wf_cfg c"
  by (induction t ks rule: cm_get.induct)
    (auto split: option.splits if_splits dest: wf_cdict_lookup)

lemma wf_child:
  "wf_cdict d \<Longrightarrow> wf_cfg (case map_of d k of None \<Rightarrow> CDict [] | Some s \<Rightarrow> s)"
  by (simp add: wf_cdict_lookup split: option.split)

lemma wf_cm_insert: "wf_cfg t \<Longrightarrow> wf_cfg data \<Longrightarrow> wf_cfg (snd (cm_insert t ks data))"
proof (induction t ks data rule: cm_insert.induct)
  case (3 d k ks data)
  let ?sub = "case map_of d (key_name k) of None \<Rightarrow> CDict [] | Some s \<Rightarrow> s"
  have sub: "wf_cfg ?sub"
    using "3.prems"(1) by (rule wf_child)
  show ?case
  proof (cases "ks = []")
    case True
    show ?thesis
    proof (cases ?sub)
      case (CLeaf l)
      with True "3.prems" show ?thesis by (simp add: wf_cdict_dset)
    next
      case (CDict e)
      obtain r e' where upd: "py_dict_update e data = (r, e')" by fastforce
      with CDict sub "3.prems" have "wf_cdict e'" by (metis wf_py_dict_update)
      with True CDict upd "3.prems" show ?thesis by (simp add: wf_cdict_dset)
    qed
  next
    case False
    obtain r sub' where ins: "cm_insert ?sub ks data = (r, sub')" by fastforce
    with "3.IH" [OF refl False] sub "3.prems" have "wf_cfg sub'" by simp
    with False ins "3.prems" show ?thesis by (simp add: wf_cdict_dset)
  qed
qed simp_all

lemma wf_cm_pop:
  "wf_cfg t \<Longrightarrow> wf_cfg (snd (cm_pop t ks)) \<and> (\<forall>c. fst (cm_pop t ks) = Inr c \<longrightarrow> wf_cfg c)"
proof (induction t ks rule: cm_pop.induct)
  case (3 d k ks)
  show ?case
  proof (cases "map_of d (key_name k)")
    case None
    with 3 show ?thesis by simp
  next
    case (Some sub)
    then have sub: "wf_cfg sub"
      using "3.prems" wf_cdict_lookup by blast
    show ?thesis
    proof (cases "ks = []")
      case True
      with Some sub "3.prems" show ?thesis
        by (simp add: wf_cdict_ddel)
    next
      case False
      with "3.IH" [OF Some False sub] Some "3.prems" show ?thesis
        by (auto split: prod.split sum.split intro!: wf_cdict_dset wf_cdict_ddel
           )
    qed
  qed
qed simp_all

lemma wf_update_node: "wf_cfg t \<Longrightarrow> wf_cfg (snd (update_node t new))"
  by (induction t new rule: update_node.induct)
    (simp_all add: wf_cdict_update_dict)

lemma wf_cm_update: "wf_cfg t \<Longrightarrow> wf_cfg (snd (cm_update t ks data))"
proof (induction t ks data rule: cm_update.induct)
  case (3 d k ks data)
  let ?sub = "case map_of d (key_name k) of None \<Rightarrow> CDict [] | Some s \<Rightarrow> s"
  have sub: "wf_cfg ?sub"
    using "3.prems"(1) by (rule wf_child)
  have "wf_cfg (snd (if ks \<noteq> [] then cm_update ?sub ks data else update_node ?sub data))"
    using "3.IH" [OF refl] sub wf_update_node by auto
  with "3.prems" show ?case
    by (auto simp: Let_def split: prod.split sum.split intro!: wf_cdict_dset wf_cdict_ddel
       )
qed simp_all

section \<open>Reading back: the same path and the other paths\<close>

text \<open>Two paths diverge when neither is a prefix of the other.\<close>

fun diverge :: "key list \<Rightarrow> key list \<Rightarrow> bool" where
  "diverge (k # ks) (l # ls) = (key_name k \<noteq> key_name l \<or> diverge ks ls)"
| "diverge ks ls = False"

lemma diverge_sym: "diverge ks ls = diverge ls ks"
  by (induction ks ls rule: diverge.induct) auto

lemma diverge_not_Nil: "diverge ks ls \<Longrightarrow> ks \<noteq> [] \<and> ls \<noteq> []"
  by (cases "(ks, ls)" rule: diverge.cases) auto

lemma cm_get_empty [simp]: "cm_get (CDict []) ks = Inl (if ks = [] then IndexError else KeyError)"
  by (cases ks) auto

lemma child_get:
  "ks \<noteq> [] \<Longrightarrow> cm_get (case map_of d k of None \<Rightarrow> CDict [] | Some s \<Rightarrow> s) ks =
     (case map_of d k of None \<Rightarrow> Inl KeyError | Some s \<Rightarrow> cm_get s ks)"
  by (simp split: option.split)

lemma cm_update_dict:
  "ks \<noteq> [] \<Longrightarrow> cm_update t ks data = (Inr u, t') \<Longrightarrow> \<exists>d. t' = CDict d"
  by (cases "(t, ks, data)" rule: cm_update.cases)
    (auto simp: Let_def split: prod.splits sum.splits if_splits)

lemma cm_pop_dict: "cm_pop t ks = (Inr c, t') \<Longrightarrow> \<exists>d. t' = CDict d"
  by (cases "(t, ks)" rule: cm_pop.cases)
    (auto split: prod.splits sum.splits if_splits option.splits)

lemma falsy_dict: "falsy (CDict d) \<longleftrightarrow> d = []"
  by simp

text \<open>The node an update works on, and the one it leaves.\<close>

definition base_node :: "cfg \<Rightarrow> key list \<Rightarrow> cfg" where
  "base_node t ks = (case cm_get t ks of Inl e \<Rightarrow> CDict [] | Inr c \<Rightarrow> c)"

lemma base_node_child:
  "ks \<noteq> [] \<Longrightarrow>
   base_node (CDict d) (k # ks) =
     base_node (case map_of d (key_name k) of None \<Rightarrow> CDict [] | Some s \<Rightarrow> s) ks"
  by (simp add: base_node_def child_get split: option.split)

lemma cm_get_update:
  "ks \<noteq> [] \<Longrightarrow> cm_update t ks data = (Inr u, t') \<Longrightarrow>
   cm_get t' ks =
     (let new = snd (update_node (base_node t ks) data)
      in if \<not> persistent (last ks) \<and> falsy new then Inl KeyError else Inr new)"
proof (induction t ks data arbitrary: t' rule: cm_update.induct)
  case (3 d k ks data)
  let ?sub = "case map_of d (key_name k) of None \<Rightarrow> CDict [] | Some s \<Rightarrow> s"
  show ?case
  proof (cases "ks = []")
    case True
    obtain r sub' where upd: "update_node ?sub data = (r, sub')" by fastforce
    have "base_node (CDict d) [k] = ?sub"
      by (simp add: base_node_def split: option.split)
    with upd have new: "snd (update_node (base_node (CDict d) [k]) data) = sub'" by simp
    show ?thesis
      using "3.prems" True upd
      by (auto simp: new Let_def map_of_dset map_of_ddel split: sum.splits if_splits)
  next
    case False
    obtain r sub' where upd: "cm_update ?sub ks data = (r, sub')" by fastforce
    then have r: "r = Inr u"
      using "3.prems"(2) False by (cases r) auto
    then obtain e where sub': "sub' = CDict e"
      using cm_update_dict [OF False] upd by blast
    have "cm_get sub' ks =
        (let new = snd (update_node (base_node ?sub ks) data)
         in if \<not> persistent (last ks) \<and> falsy new then Inl KeyError else Inr new)"
      using "3.IH" [OF refl False False] upd r by blast
    then show ?thesis
      using "3.prems"(2) False upd r sub'
      by (auto simp: base_node_child [OF False] map_of_dset map_of_ddel split: if_splits)
  qed
qed simp_all

lemma cm_update_frame: "diverge ks ls \<Longrightarrow> cm_get (snd (cm_update t ks data)) ls = cm_get t ls"
proof (induction t ks data arbitrary: ls rule: cm_update.induct)
  case (3 d k ks data)
  let ?sub = "case map_of d (key_name k) of None \<Rightarrow> CDict [] | Some s \<Rightarrow> s"
  obtain l ls' where ls: "ls = l # ls'"
    using "3.prems" diverge_not_Nil by (cases ls) auto
  obtain r sub' where upd:
      "(if ks \<noteq> [] then cm_update ?sub ks data else update_node ?sub data) = (r, sub')"
    by fastforce
  show ?case
  proof (cases "key_name k = key_name l")
    case False
    with upd ls show ?thesis
      by (auto simp: Let_def map_of_dset map_of_ddel split: sum.split prod.split)
  next
    case True
    with "3.prems" ls have div: "diverge ks ls'" by simp
    with diverge_not_Nil have ne: "ks \<noteq> []" "ls' \<noteq> []" by auto
    have IH: "cm_get sub' ls' = cm_get ?sub ls'"
      using "3.IH" [OF refl ne(1) div] upd ne by simp
    show ?thesis
    proof (cases r)
      case (Inl e)
      with upd ls True ne IH show ?thesis
        by (simp add: map_of_dset child_get split: option.split)
    next
      case (Inr v)
      with upd ne obtain e where "sub' = CDict e"
        using cm_update_dict by fastforce
      with Inr upd ls True ne IH show ?thesis
        by (auto simp add: map_of_dset map_of_ddel child_get split: option.split)
    qed
  qed
qed (auto dest: diverge_not_Nil)

text \<open>Taking a node out, and putting a node in.\<close>

lemma cm_pop_result: "fst (cm_pop t ks) = cm_get t ks"
  by (induction t ks rule: cm_pop.induct)
    (auto split: option.splits prod.splits sum.splits)

lemma cm_pop_error: "wf_cfg t \<Longrightarrow> cm_pop t ks = (Inl e, t') \<Longrightarrow> t' = t"
proof (induction t ks arbitrary: t' rule: cm_pop.induct)
  case (3 d k ks)
  show ?case
  proof (cases "map_of d (key_name k)")
    case None
    with "3.prems" show ?thesis by simp
  next
    case (Some sub)
    with "3.prems" obtain sub' where ks: "ks \<noteq> []" and pop: "cm_pop sub ks = (Inl e, sub')"
      and t': "t' = CDict (dset (key_name k) sub' d)"
      by (auto split: prod.splits sum.splits if_splits)
    have "wf_cfg sub"
      using "3.prems"(1) Some by (rule wf_cdict_lookup)
    then have "sub' = sub"
      using "3.IH" [OF Some ks] pop by blast
    with t' Some "3.prems"(1) show ?thesis
      by (simp add: pd.put_same wf_cdict_iff)
  qed
qed auto

lemma cm_get_pop: "cm_pop t ks = (Inr c, t') \<Longrightarrow> cm_get t' ks = Inl KeyError"
proof (induction t ks arbitrary: t' rule: cm_pop.induct)
  case (3 d k ks)
  then show ?case
    by (auto simp: map_of_dset map_of_ddel split: option.splits prod.splits sum.splits if_splits)
qed auto

lemma cm_pop_frame: "diverge ks ls \<Longrightarrow> cm_get (snd (cm_pop t ks)) ls = cm_get t ls"
proof (induction t ks arbitrary: ls rule: cm_pop.induct)
  case (3 d k ks)
  obtain l ls' where ls: "ls = l # ls'"
    using "3.prems" diverge_not_Nil by (cases ls) auto
  show ?case
  proof (cases "map_of d (key_name k)")
    case None
    then show ?thesis by simp
  next
    case (Some sub)
    obtain r sub' where pop: "cm_pop sub ks = (r, sub')" by fastforce
    show ?thesis
    proof (cases "key_name k = key_name l")
      case False
      with Some pop ls show ?thesis
        by (auto simp: map_of_dset map_of_ddel split: sum.split)
    next
      case True
      with "3.prems" ls have div: "diverge ks ls'" by simp
      with diverge_not_Nil have ne: "ks \<noteq> []" "ls' \<noteq> []" by auto
      have IH: "cm_get sub' ls' = cm_get sub ls'"
        using "3.IH" [OF Some ne(1) div] pop by simp
      have "r = Inr c \<Longrightarrow> \<exists>e. sub' = CDict e" for c
        using cm_pop_dict pop by blast
      with Some pop ls True ne IH show ?thesis
        by (cases r) (auto simp: map_of_dset map_of_ddel)
    qed
  qed
qed (auto dest: diverge_not_Nil)

text \<open>The dictionary an insertion merges into.\<close>

definition base_dict :: "cfg \<Rightarrow> key list \<Rightarrow> cdict" where
  "base_dict t ks = (case cm_get t ks of Inr (CDict e) \<Rightarrow> e | _ \<Rightarrow> [])"

lemma cm_get_insert:
  "ks \<noteq> [] \<Longrightarrow> cm_insert t ks data = (Inr u, t') \<Longrightarrow>
   cm_get t' ks = Inr (CDict (snd (py_dict_update (base_dict t ks) data)))"
proof (induction t ks data arbitrary: t' rule: cm_insert.induct)
  case (3 d k ks data)
  let ?sub = "case map_of d (key_name k) of None \<Rightarrow> CDict [] | Some s \<Rightarrow> s"
  show ?case
  proof (cases "ks = []")
    case True
    have "?sub = CDict e \<Longrightarrow> base_dict (CDict d) [k] = e" for e
      by (auto simp: base_dict_def split: option.splits)
    with True "3.prems"(2) show ?thesis
      by (auto simp: map_of_dset Let_def split: cfg.splits prod.splits)
  next
    case False
    obtain r sub' where ins: "cm_insert ?sub ks data = (r, sub')" by fastforce
    have "base_dict (CDict d) (k # ks) = base_dict ?sub ks"
      using False by (simp add: base_dict_def child_get split: option.split)
    with "3.IH" [OF refl False False] ins "3.prems"(2) False show ?thesis
      by (auto simp: map_of_dset)
  qed
qed simp_all

lemma cm_insert_frame: "diverge ks ls \<Longrightarrow> cm_get (snd (cm_insert t ks data)) ls = cm_get t ls"
proof (induction t ks data arbitrary: ls rule: cm_insert.induct)
  case (3 d k ks data)
  let ?sub = "case map_of d (key_name k) of None \<Rightarrow> CDict [] | Some s \<Rightarrow> s"
  obtain l ls' where ls: "ls = l # ls'"
    using "3.prems" diverge_not_Nil by (cases ls) auto
  show ?case
  proof (cases "key_name k = key_name l")
    case False
    with ls show ?thesis
      by (auto simp: Let_def map_of_dset split: prod.split)
  next
    case True
    with "3.prems" ls have div: "diverge ks ls'" by simp
    with diverge_not_Nil have ne: "ks \<noteq> []" "ls' \<noteq> []" by auto
    have "cm_get (snd (cm_insert ?sub ks data)) ls' = cm_get ?sub ls'"
      using "3.IH" [OF refl ne(1) div] .
    with ls True ne show ?thesis
      by (auto simp: Let_def map_of_dset child_get split: prod.split option.split)
  qed
qed (auto dest: diverge_not_Nil)

end
