(* ===== verification/Setting.thy ===== *)
theory Setting
  imports Config_Tree
begin

text \<open>
  The setting descriptors of \<open>sipsimple/configuration/__init__.py\<close>: \<open>Setting\<close>,
  \<open>RuntimeSetting\<close>, \<open>CorrelatedSetting\<close>. A descriptor keeps three weak maps from objects to
  values; each operation only touches the entries of the object it is called on, so the state
  is the cell of one object: its current value, its last saved value and its dirty flag. A
  missing entry is the outer \<open>None\<close>, Python's \<open>None\<close> the inner one.
\<close>

section \<open>Descriptors and cells\<close>

text \<open>
  What the descriptor is created with: the type (its constructor \<open>coerce\<close> on a foreign value,
  and the conversions of a value to and from the configuration tree), the default, and whether
  \<open>None\<close> is allowed.
\<close>

record ('v, 'r) setting =
  coerce :: "'r \<Rightarrow> 'v result"
  to_state :: "'v \<Rightarrow> leaf"
  from_state :: "cfg \<Rightarrow> 'v result"
  default_value :: "'v option"
  nillable :: bool

record 'v cell =
  values_at :: "'v option option"
  oldvalues_at :: "'v option option"
  dirty_at :: bool

definition cell_init :: "'v cell" where
  "cell_init = \<lparr>values_at = None, oldvalues_at = None, dirty_at = False\<rparr>"

definition setting_init ::
  "('r \<Rightarrow> 'v result) \<Rightarrow> ('v \<Rightarrow> leaf) \<Rightarrow> (cfg \<Rightarrow> 'v result) \<Rightarrow> 'v option \<Rightarrow> bool \<Rightarrow> ('v, 'r) setting result" where
  "setting_init c t f default_v nil =
     (if default_v = None \<and> \<not> nil then Inl TypeError
      else Inr \<lparr>coerce = c, to_state = t, from_state = f, default_value = default_v, nillable = nil\<rparr>)"

text \<open>What is assigned: the marker \<open>DefaultValue\<close>, \<open>None\<close>, a value of the type, or another.\<close>

datatype ('v, 'r) assigned = AssignDefault | AssignNone | AssignTyped 'v | AssignRaw 'r

definition or_default :: "'v option \<Rightarrow> 'v option option \<Rightarrow> 'v option" where
  "or_default d v = (case v of None \<Rightarrow> d | Some x \<Rightarrow> x)"

definition setting_get :: "('v, 'r) setting \<Rightarrow> 'v cell \<Rightarrow> 'v option" where
  "setting_get s c = or_default (default_value s) (values_at c)"

definition setting_get_old :: "('v, 'r) setting \<Rightarrow> 'v cell \<Rightarrow> 'v option" where
  "setting_get_old s c = or_default (default_value s) (oldvalues_at c)"

definition coerce_assigned :: "('v, 'r) setting \<Rightarrow> ('v, 'r) assigned \<Rightarrow> 'v option result" where
  "coerce_assigned s a =
     (case a of
        AssignTyped v \<Rightarrow> Inr (Some v)
      | AssignRaw r \<Rightarrow> bindR (coerce s r) (\<lambda>v. Inr (Some v))
      | _ \<Rightarrow> Inr None)"

definition store_value :: "'v option \<Rightarrow> 'v cell \<Rightarrow> 'v cell" where
  "store_value v c =
     (if values_at c = Some v then c
      else c\<lparr>values_at := Some v, dirty_at := (oldvalues_at c \<noteq> Some v)\<rparr>)"

definition setting_set ::
  "('v, 'r) setting \<Rightarrow> ('v, 'r) assigned \<Rightarrow> 'v cell \<Rightarrow> unit result \<times> 'v cell" where
  "setting_set s a c =
     (case a of
        AssignNone \<Rightarrow> if \<not> nillable s then (Inl ValueError, c) else (Inr (), store_value None c)
      | AssignDefault \<Rightarrow>
          (Inr (), if values_at c \<noteq> None
                   then c\<lparr>values_at := None, dirty_at := (oldvalues_at c \<noteq> None)\<rparr> else c)
      | _ \<Rightarrow>
          (case coerce_assigned s a of
             Inl e \<Rightarrow> (Inl e, c)
           | Inr v \<Rightarrow> (Inr (), store_value v c)))"

definition setting_getstate :: "('v, 'r) setting \<Rightarrow> 'v cell \<Rightarrow> newval" where
  "setting_getstate s c =
     (case values_at c of
        None \<Rightarrow> NDefault
      | Some None \<Rightarrow> NLeaf LNone
      | Some (Some v) \<Rightarrow> NLeaf (to_state s v))"

definition setting_setstate ::
  "('v, 'r) setting \<Rightarrow> cfg \<Rightarrow> 'v cell \<Rightarrow> unit result \<times> 'v cell" where
  "setting_setstate s value c =
     (if value = CLeaf LNone \<and> \<not> nillable s then (Inl ValueError, c)
      else case (if value = CLeaf LNone then Inr None
                 else bindR (from_state s value) (\<lambda>v. Inr (Some v))) of
        Inl e \<Rightarrow> (Inl e, c)
      | Inr v \<Rightarrow> (Inr (), c\<lparr>values_at := Some v, oldvalues_at := Some v, dirty_at := False\<rparr>))"

datatype 'v modified_value = ModifiedValue (mv_old: "'v option") (mv_new: "'v option")

definition setting_get_modified ::
  "('v, 'r) setting \<Rightarrow> 'v cell \<Rightarrow> 'v modified_value option \<times> 'v cell" where
  "setting_get_modified s c =
     ((if dirty_at c then
         Some (ModifiedValue (or_default (default_value s) (oldvalues_at c))
                             (or_default (default_value s) (values_at c)))
       else None),
      c\<lparr>oldvalues_at := values_at c, dirty_at := False\<rparr>)"

definition setting_undo :: "'v cell \<Rightarrow> 'v cell" where
  "setting_undo c = c\<lparr>values_at := oldvalues_at c, dirty_at := False\<rparr>"

text \<open>\<open>RuntimeSetting\<close> overrides the two conversions; \<open>CorrelatedSetting\<close> checks first.\<close>

definition runtime_getstate :: "('v, 'r) setting \<Rightarrow> 'v cell \<Rightarrow> newval" where
  "runtime_getstate s c = NDefault"

definition runtime_setstate :: "('v, 'r) setting \<Rightarrow> cfg \<Rightarrow> 'v cell \<Rightarrow> unit result \<times> 'v cell" where
  "runtime_setstate s value c = (Inr (), c)"

definition correlated_set ::
  "(('v, 'r) assigned \<Rightarrow> 'w \<Rightarrow> unit result) \<Rightarrow> ('v, 'r) setting \<Rightarrow> 'w \<Rightarrow> ('v, 'r) assigned \<Rightarrow> 'v cell \<Rightarrow>
    unit result \<times> 'v cell" where
  "correlated_set validator s sibling a c =
     (case validator a sibling of
        Inl e \<Rightarrow> (Inl e, c)
      | Inr u \<Rightarrow> setting_set s a c)"

section \<open>Runs\<close>

datatype ('v, 'r) setting_op =
    OpSet "('v, 'r) assigned"
  | OpSetState cfg
  | OpGetModified
  | OpUndo

fun setting_step :: "('v, 'r) setting \<Rightarrow> ('v, 'r) setting_op \<Rightarrow> 'v cell \<Rightarrow> 'v cell" where
  "setting_step s (OpSet a) c = snd (setting_set s a c)"
| "setting_step s (OpSetState v) c = snd (setting_setstate s v c)"
| "setting_step s OpGetModified c = snd (setting_get_modified s c)"
| "setting_step s OpUndo c = setting_undo c"

definition setting_run :: "('v, 'r) setting \<Rightarrow> ('v, 'r) setting_op list \<Rightarrow> 'v cell" where
  "setting_run s ops = fold (setting_step s) ops cell_init"

text \<open>
  The dirty flag says exactly whether the current entry differs from the saved one, and a
  setting that is not nillable never holds \<open>None\<close>.
\<close>

definition cell_ok :: "('v, 'r) setting \<Rightarrow> 'v cell \<Rightarrow> bool" where
  "cell_ok s c =
     ((dirty_at c \<longleftrightarrow> values_at c \<noteq> oldvalues_at c) \<and>
      (nillable s \<or> values_at c \<noteq> Some None \<and> oldvalues_at c \<noteq> Some None))"

lemma cell_ok_init: "cell_ok s cell_init"
  by (simp add: cell_ok_def cell_init_def)

lemma store_value_ok: "cell_ok s c \<Longrightarrow> nillable s \<or> v \<noteq> None \<Longrightarrow> cell_ok s (store_value v c)"
  by (auto simp: cell_ok_def store_value_def)

lemma coerce_assigned_Some:
  "coerce_assigned s a = Inr v \<Longrightarrow> a = AssignNone \<or> a = AssignDefault \<or> v \<noteq> None"
  by (cases a) (auto simp: coerce_assigned_def bindR_eq_Inr)

lemma setting_set_ok: "cell_ok s c \<Longrightarrow> cell_ok s (snd (setting_set s a c))"
proof (cases a)
  case AssignDefault
  then show "cell_ok s c \<Longrightarrow> ?thesis"
    by (cases "oldvalues_at c") (auto simp: setting_set_def cell_ok_def)
qed (auto simp: setting_set_def store_value_ok split: sum.split dest!: coerce_assigned_Some)

lemma setting_step_ok: "cell_ok s c \<Longrightarrow> cell_ok s (setting_step s op c)"
proof (cases op)
  case (OpSet a)
  then show "cell_ok s c \<Longrightarrow> ?thesis" by (simp add: setting_set_ok)
qed (auto simp: setting_setstate_def setting_get_modified_def setting_undo_def cell_ok_def
    bindR_eq_Inr split: sum.split)

lemma setting_run_ok: "cell_ok s (setting_run s ops)"
proof -
  have "cell_ok s c \<Longrightarrow> cell_ok s (fold (setting_step s) ops c)" for c
    by (induction ops arbitrary: c) (auto intro: setting_step_ok)
  then show ?thesis by (simp add: setting_run_def cell_ok_init)
qed

section \<open>The interface of a setting's type\<close>

text \<open>
  What \<open>__getstate__\<close> and \<open>__setstate__\<close> rely on: a value converted to the configuration
  tree is not \<open>None\<close> there and converts back to itself, and whatever converts from the tree
  is a valid value.
\<close>

locale setting_type =
  fixes to_state :: "'v \<Rightarrow> leaf"
    and from_state :: "cfg \<Rightarrow> 'v result"
    and valid :: "'v \<Rightarrow> bool"
  assumes from_to: "valid v \<Longrightarrow> from_state (CLeaf (to_state v)) = Inr v"
    and to_not_None: "valid v \<Longrightarrow> to_state v \<noteq> LNone"
    and from_valid: "from_state x = Inr v \<Longrightarrow> valid v"
begin

text \<open>Saved and loaded into a fresh object, a setting has the same value and is clean.\<close>

lemma restore_setting:
  assumes "\<And>v. values_at c = Some (Some v) \<Longrightarrow> valid v" "cell_ok s c"
    and "Setting.to_state s = to_state" "Setting.from_state s = from_state"
  shows "case setting_getstate s c of
           NDefault \<Rightarrow> setting_get s cell_init = setting_get s c
         | NLeaf l \<Rightarrow>
             \<exists>c'. setting_setstate s (CLeaf l) cell_init = (Inr (), c') \<and>
               setting_get s c' = setting_get s c \<and> \<not> dirty_at c'
         | _ \<Rightarrow> False"
proof (cases "values_at c")
  case None
  then show ?thesis
    by (simp add: setting_getstate_def setting_get_def or_default_def cell_init_def)
next
  case (Some v)
  show ?thesis
  proof (cases v)
    case None
    with Some assms(2) show ?thesis
      by (auto simp: setting_getstate_def setting_setstate_def setting_get_def or_default_def
          cell_ok_def)
  next
    case (Some w)
    with \<open>values_at c = Some v\<close> assms(1) have w: "valid w" by simp
    then show ?thesis
      using Some \<open>values_at c = Some v\<close> assms(3,4) from_to [OF w] to_not_None [OF w]
      by (simp add: setting_getstate_def setting_setstate_def setting_get_def or_default_def)
  qed
qed

text \<open>All values a run leaves in the cell are valid when the assigned ones are.\<close>

definition cell_valid :: "'v cell \<Rightarrow> bool" where
  "cell_valid c =
     ((\<forall>v. values_at c = Some (Some v) \<longrightarrow> valid v) \<and> (\<forall>v. oldvalues_at c = Some (Some v) \<longrightarrow> valid v))"

lemma step_valid:
  assumes "Setting.from_state s = from_state" "cell_valid c"
    and "\<And>a v. op = OpSet a \<Longrightarrow> coerce_assigned s a = Inr (Some v) \<Longrightarrow> valid v"
  shows "cell_valid (setting_step s op c)"
proof (cases op)
  case (OpSet a)
  have st: "cell_valid (store_value w c)" if "\<And>v. w = Some v \<Longrightarrow> valid v" for w
    using assms(2) that by (simp add: cell_valid_def store_value_def)
  have v: "cell_valid (snd (case coerce_assigned s a of Inl e \<Rightarrow> (Inl e, c) | Inr v \<Rightarrow> (Inr (), store_value v c)))"
    using assms(2,3) OpSet st by (cases "coerce_assigned s a") simp_all
  show ?thesis
  proof (cases a)
    case AssignDefault
    then show ?thesis
      using assms(2) OpSet by (simp add: setting_set_def cell_valid_def)
  next
    case AssignNone
    then show ?thesis using assms(2) OpSet st [of None] by (simp add: setting_set_def)
  qed (use v OpSet in \<open>simp_all add: setting_set_def\<close>)
next
  case (OpSetState x)
  then show ?thesis
    using assms(1,2) from_valid
    by (auto simp: setting_setstate_def cell_valid_def bindR_eq_Inr split: sum.split)
qed (use assms(2) in \<open>simp_all add: cell_valid_def setting_get_modified_def setting_undo_def\<close>)

lemma run_valid:
  assumes "Setting.from_state s = from_state"
    and "\<And>a v. OpSet a \<in> set ops \<Longrightarrow> coerce_assigned s a = Inr (Some v) \<Longrightarrow> valid v"
  shows "cell_valid (setting_run s ops)"
proof -
  have "set xs \<subseteq> set ops \<Longrightarrow> cell_valid c \<Longrightarrow> cell_valid (fold (setting_step s) xs c)" for xs c
  proof (induction xs arbitrary: c)
    case (Cons x xs)
    then have "cell_valid (setting_step s x c)"
      by (intro step_valid [OF assms(1)] assms(2)) auto
    with Cons show ?case by simp
  qed simp
  moreover have "cell_valid cell_init" by (simp add: cell_valid_def cell_init_def)
  ultimately show ?thesis by (simp add: setting_run_def)
qed

lemmas restore_run = restore_setting [OF _ setting_run_ok]

end

section \<open>Properties\<close>


end
