(* ===== verification/Config_Manager.thy ===== *)
theory Config_Manager
  imports Config_Tree
begin

text \<open>
  \<open>ConfigurationManager\<close> of \<open>sipsimple/configuration/__init__.py\<close>: the singleton that keeps the
  tree of settings and the backend it is loaded from and saved to. The backend is any object
  that provides \<open>IConfigurationBackend\<close>; it appears as the two operations \<open>load\<close> and
  \<open>save\<close> on a state \<open>'b\<close> (the file, or the object in memory).
\<close>

section \<open>State and operations\<close>

record 'b manager =
  cm_backend :: "'b option"
  cm_data :: cfg

definition manager_init :: "'b manager" where
  "manager_init = \<lparr>cm_backend = None, cm_data = CLeaf LNone\<rparr>"

text \<open>\<open>SIPApplication.storage.configuration_backend\<close>: an object that may not be a backend.\<close>

datatype 'b storage_object = ProvidesBackend 'b | OtherObject

definition manager_start ::
  "('b \<Rightarrow> cfg result) \<Rightarrow> 'b storage_object option \<Rightarrow> 'b manager \<Rightarrow> unit result \<times> 'b manager" where
  "manager_start load storage m =
     (if cm_backend m \<noteq> None then (Inl RuntimeError, m)
      else case storage of
        None \<Rightarrow> (Inl RuntimeError, m)
      | Some OtherObject \<Rightarrow> (Inl TypeError, m)
      | Some (ProvidesBackend b) \<Rightarrow>
          (case load b of
             Inl e \<Rightarrow> (Inl e, m)
           | Inr data \<Rightarrow> (Inr (), m\<lparr>cm_data := data, cm_backend := Some b\<rparr>)))"

definition manager_update ::
  "key list \<Rightarrow> (string \<times> newval) list \<Rightarrow> 'b manager \<Rightarrow> unit result \<times> 'b manager" where
  "manager_update key data m =
     (if cm_backend m = None then (Inl RuntimeError, m)
      else if key = [] then (Inl KeyError, m)
      else case cm_update (cm_data m) key data of (r, t) \<Rightarrow> (r, m\<lparr>cm_data := t\<rparr>))"

definition manager_rename :: "key list \<Rightarrow> key list \<Rightarrow> 'b manager \<Rightarrow> unit result \<times> 'b manager" where
  "manager_rename old_key new_key m =
     (if cm_backend m = None then (Inl RuntimeError, m)
      else if old_key = [] \<or> new_key = [] then (Inl KeyError, m)
      else case cm_pop (cm_data m) old_key of
        (Inl KeyError, t) \<Rightarrow> (Inl ObjectNotFoundError, m\<lparr>cm_data := t\<rparr>)
      | (Inl e, t) \<Rightarrow> (Inl e, m\<lparr>cm_data := t\<rparr>)
      | (Inr data, t) \<Rightarrow>
          (case cm_insert t new_key data of (r, t') \<Rightarrow> (r, m\<lparr>cm_data := t'\<rparr>)))"

definition manager_delete :: "key list \<Rightarrow> 'b manager \<Rightarrow> unit result \<times> 'b manager" where
  "manager_delete key m =
     (if cm_backend m = None then (Inl RuntimeError, m)
      else if key = [] then (Inl KeyError, m)
      else case cm_pop (cm_data m) key of
        (Inl KeyError, t) \<Rightarrow> (Inr (), m\<lparr>cm_data := t\<rparr>)
      | (Inl e, t) \<Rightarrow> (Inl e, m\<lparr>cm_data := t\<rparr>)
      | (Inr data, t) \<Rightarrow> (Inr (), m\<lparr>cm_data := t\<rparr>))"

definition manager_get :: "key list \<Rightarrow> 'b manager \<Rightarrow> cfg result" where
  "manager_get key m =
     (if cm_backend m = None then Inl RuntimeError
      else if key = [] then Inl KeyError
      else case cm_get (cm_data m) key of
        Inl KeyError \<Rightarrow> Inl ObjectNotFoundError
      | r \<Rightarrow> r)"

definition manager_get_names :: "key list \<Rightarrow> 'b manager \<Rightarrow> string list result" where
  "manager_get_names key m =
     (if cm_backend m = None then Inl RuntimeError
      else if key = [] then Inl KeyError
      else case cm_get (cm_data m) key of
        Inl KeyError \<Rightarrow> Inr []
      | Inl e \<Rightarrow> Inl e
      | Inr (CDict d) \<Rightarrow> Inr (map fst d)
      | Inr (CLeaf l) \<Rightarrow> Inl AttributeError)"

definition manager_save ::
  "('b \<Rightarrow> cfg \<Rightarrow> unit result \<times> 'b) \<Rightarrow> 'b manager \<Rightarrow> unit result \<times> 'b manager" where
  "manager_save save m =
     (case cm_backend m of
        None \<Rightarrow> (Inl RuntimeError, m)
      | Some b \<Rightarrow> (case save b (cm_data m) of (r, b') \<Rightarrow> (r, m\<lparr>cm_backend := Some b'\<rparr>)))"

section \<open>Invariant: the tree is well-formed\<close>

definition manager_wf :: "'b manager \<Rightarrow> bool" where
  "manager_wf m = wf_cfg (cm_data m)"

lemma manager_update_wf: "manager_wf m \<Longrightarrow> manager_wf (snd (manager_update k d m))"
  using wf_cm_update [of "cm_data m" k d]
  by (auto simp: manager_update_def manager_wf_def split: prod.split)

lemma manager_delete_wf: "manager_wf m \<Longrightarrow> manager_wf (snd (manager_delete k m))"
  using wf_cm_pop [of "cm_data m" k]
  by (auto simp: manager_delete_def manager_wf_def split: prod.split sum.split pyerr.split)

lemma manager_rename_wf: "manager_wf m \<Longrightarrow> manager_wf (snd (manager_rename k l m))"
  using wf_cm_pop [of "cm_data m" k] wf_cm_insert [of _ _ l]
  by (fastforce simp: manager_rename_def manager_wf_def split: prod.split sum.split pyerr.split)

lemma manager_get_Inr:
  "manager_get ks m = Inr c \<longleftrightarrow> cm_backend m \<noteq> None \<and> cm_get (cm_data m) ks = Inr c"
  by (cases ks) (auto simp: manager_get_def split: sum.split pyerr.split)

lemma cm_get_errors: "cm_get t ks = Inl e \<Longrightarrow> e \<in> {IndexError, KeyError, TypeError}"
  by (induction t ks rule: cm_get.induct) (auto split: option.splits if_splits)

lemma manager_get_missing:
  "manager_get ks m = Inl ObjectNotFoundError \<longleftrightarrow>
     cm_backend m \<noteq> None \<and> ks \<noteq> [] \<and> cm_get (cm_data m) ks = Inl KeyError"
  using cm_get_errors [of "cm_data m" ks]
  by (auto simp: manager_get_def split: sum.split pyerr.split)

lemma manager_get_cong:
  "cm_backend m' = cm_backend m \<Longrightarrow> cm_get (cm_data m') ks = cm_get (cm_data m) ks \<Longrightarrow>
   manager_get ks m' = manager_get ks m"
  by (simp add: manager_get_def)

lemma manager_update_Inr:
  "manager_update ks data m = (Inr (), m') \<longleftrightarrow>
     cm_backend m \<noteq> None \<and> ks \<noteq> [] \<and>
     (\<exists>t. cm_update (cm_data m) ks data = (Inr (), t) \<and> m' = m\<lparr>cm_data := t\<rparr>)"
  by (auto simp: manager_update_def split: prod.split)

section \<open>The backend interface\<close>

text \<open>
  What the manager relies on: data that was saved is what a later load returns, and a save
  that raises leaves what was stored before. \<open>valid\<close> is the data the backend can store.
\<close>

locale config_backend =
  fixes load :: "'b \<Rightarrow> cfg result"
    and save :: "'b \<Rightarrow> cfg \<Rightarrow> unit result \<times> 'b"
    and valid :: "cfg \<Rightarrow> bool"
  assumes load_save: "valid t \<Longrightarrow> save b t = (Inr (), b') \<Longrightarrow> load b' = Inr t"
    and load_failed: "save b t = (Inl e, b') \<Longrightarrow> load b' = load b"
begin

text \<open>Save, then start a new manager on what was stored: the same tree, the same answers.\<close>

lemma restart_after_save:
  assumes "valid (cm_data m)" "manager_save save m = (Inr (), m')" "cm_backend m' = Some b'"
  shows "manager_start load (Some (ProvidesBackend b')) manager_init =
           (Inr (), \<lparr>cm_backend = Some b', cm_data = cm_data m\<rparr>)"
proof -
  from assms(2,3) obtain b where "save b (cm_data m) = (Inr (), b')"
    by (auto simp: manager_save_def split: option.splits prod.splits)
  with assms(1) have "load b' = Inr (cm_data m)" by (rule load_save)
  then show ?thesis by (simp add: manager_start_def manager_init_def)
qed

lemma get_after_restart:
  assumes "valid (cm_data m)" "manager_save save m = (Inr (), m')" "cm_backend m' = Some b'"
  shows "manager_get ks (snd (manager_start load (Some (ProvidesBackend b')) manager_init)) =
           manager_get ks m"
proof -
  obtain b where "cm_backend m = Some b"
    using assms(2) by (auto simp: manager_save_def split: option.splits)
  then show ?thesis
    by (simp add: restart_after_save [OF assms] manager_get_def)
qed

lemma restart_after_failed_save:
  assumes "manager_save save m = (Inl e, m')" "cm_backend m = Some b" "cm_backend m' = Some b'"
  shows "fst (manager_start load (Some (ProvidesBackend b')) manager_init) =
           fst (manager_start load (Some (ProvidesBackend b)) manager_init) \<and>
         cm_data (snd (manager_start load (Some (ProvidesBackend b')) manager_init)) =
           cm_data (snd (manager_start load (Some (ProvidesBackend b)) manager_init))"
proof -
  from assms have "save b (cm_data m) = (Inl e, b')"
    by (auto simp: manager_save_def split: prod.splits)
  then have "load b' = load b" by (rule load_failed)
  then show ?thesis by (simp add: manager_start_def manager_init_def split: sum.split)
qed

end

section \<open>The backend in memory\<close>

text \<open>
  \<open>MemoryBackend\<close> (\<open>sipsimple/configuration/backend/memory.py\<close>): the state is the stored
  dictionary itself. (In Python \<open>load\<close> returns a reference to it, so later changes of the
  manager are visible there even before \<open>save\<close>; the laws below only speak of what is there
  after \<open>save\<close>.)
\<close>

definition memory_init :: cfg where
  "memory_init = CDict []"

definition memory_load :: "cfg \<Rightarrow> cfg result" where
  "memory_load b = Inr b"

definition memory_save :: "cfg \<Rightarrow> cfg \<Rightarrow> unit result \<times> cfg" where
  "memory_save b data = (Inr (), data)"

interpretation memory_store: config_backend memory_load memory_save "\<lambda>t. True"
  by unfold_locales (auto simp: memory_load_def memory_save_def)

section \<open>Properties of the manager\<close>

text \<open>
  C1. Storing an object's state and reading it back. After a successful \<open>update(key, data)\<close>,
  \<open>get(key)\<close> returns a dictionary in which every setting has the value that
  \<open>_update_dict\<close> specifies from its old value and the new data (reset for DefaultValue,
  merged for dictionaries, pruned and merged for item containers, replaced for plain values)
  and every setting the data does not mention is unchanged; if nothing is left, the object is
  gone unless its id is a persistent key.
\<close>

theorem manager_update_get:
  assumes "manager_update ks data m = (Inr (), m')" "wf_newval (NDict data)"
    and "manager_get ks m = Inr (CDict old) \<or> manager_get ks m = Inl ObjectNotFoundError \<and> old = []"
  shows "\<exists>new. (\<forall>k. map_of new k =
             (case map_of data k of None \<Rightarrow> map_of old k | Some v \<Rightarrow> upd_val (map_of old k) v)) \<and>
           manager_get ks m' =
             (if new = [] \<and> \<not> persistent (last ks) then Inl ObjectNotFoundError else Inr (CDict new))"
proof -
  from assms(1) obtain t where started: "cm_backend m \<noteq> None" and ne: "ks \<noteq> []"
    and upd: "cm_update (cm_data m) ks data = (Inr (), t)" and m': "m' = m\<lparr>cm_data := t\<rparr>"
    unfolding manager_update_Inr by blast
  have base: "base_node (cm_data m) ks = CDict old"
    using assms(3) started ne
    by (auto simp: manager_get_def base_node_def split: sum.splits pyerr.splits)
  let ?new = "update_dict old data"
  have "manager_get ks m' =
      (if ?new = [] \<and> \<not> persistent (last ks) then Inl ObjectNotFoundError else Inr (CDict ?new))"
    using cm_get_update [OF ne upd] started ne by (simp add: base m' manager_get_def)
  moreover have "distinct (map fst data)"
    using assms(2) by (simp add: dwf_distinct)
  ultimately show ?thesis
    using map_of_update_dict [of data old] by blast
qed

theorem manager_update_get_witness:
  "\<exists>new. map_of new ''port'' = Some (CLeaf (LText ''5060'')) \<and>
     manager_get [PlainKey ''SIP'']
       (snd (manager_update [PlainKey ''SIP''] [(''port'', NLeaf (LText ''5060''))]
         \<lparr>cm_backend = Some (), cm_data = CDict []\<rparr>)) = Inr (CDict new)"
proof -
  let ?m = "\<lparr>cm_backend = Some (), cm_data = CDict []\<rparr>"
  let ?d = "[(''port'', NLeaf (LText ''5060''))]"
  have 1: "manager_update [PlainKey ''SIP''] ?d ?m = (Inr (), snd (manager_update [PlainKey ''SIP''] ?d ?m))"
    by (simp add: manager_update_def)
  have 2: "manager_get [PlainKey ''SIP''] ?m = Inl ObjectNotFoundError"
    by (simp add: manager_get_def)
  have 3: "wf_newval (NDict ?d)" by (simp add: dwf_def)
  from manager_update_get [OF 1 3 disjI2 [OF conjI [OF 2 refl]]] show ?thesis
    by (auto split: if_splits)
qed

text \<open>
  C2. Storing one object never disturbs another: \<open>update\<close>, \<open>delete\<close> and a successful or
  failed \<open>rename\<close> leave what \<open>get\<close> returns for every path that diverges from the paths they
  were given, also where a container is created or pruned on the way.
\<close>

theorem manager_frame:
  assumes "diverge ks ls" "diverge ks' ls"
  shows "manager_get ls (snd (manager_update ks data m)) = manager_get ls m \<and>
         manager_get ls (snd (manager_delete ks m)) = manager_get ls m \<and>
         manager_get ls (snd (manager_rename ks ks' m)) = manager_get ls m"
proof (intro conjI)
  show "manager_get ls (snd (manager_update ks data m)) = manager_get ls m"
    using cm_update_frame [OF assms(1), of "cm_data m" data]
    by (auto simp: manager_update_def split: prod.split intro!: manager_get_cong)
  show "manager_get ls (snd (manager_delete ks m)) = manager_get ls m"
    using cm_pop_frame [OF assms(1), of "cm_data m"]
    by (auto simp: manager_delete_def split: prod.split sum.split pyerr.split
        intro!: manager_get_cong)
  obtain r t where pop: "cm_pop (cm_data m) ks = (r, t)" by fastforce
  then have t: "cm_get t ls = cm_get (cm_data m) ls"
    using cm_pop_frame [OF assms(1), of "cm_data m"] by simp
  have "cm_get (snd (cm_insert t ks' c)) ls = cm_get (cm_data m) ls" for c
    using cm_insert_frame [OF assms(2), of t c] t by simp
  then show "manager_get ls (snd (manager_rename ks ks' m)) = manager_get ls m"
    using t by (auto simp: manager_rename_def pop split: prod.split sum.split pyerr.split
        intro!: manager_get_cong) (metis snd_conv)
qed

theorem manager_frame_witness:
  "diverge [PlainKey ''Accounts'', PersistentKey ''a''] [PlainKey ''Accounts'', PersistentKey ''b''] \<and>
   manager_get [PlainKey ''Accounts'', PersistentKey ''b'']
     (snd (manager_delete [PlainKey ''Accounts'', PersistentKey ''a'']
       \<lparr>cm_backend = Some (), cm_data = CDict [(''Accounts'', CDict [(''a'', CDict []), (''b'', CDict [])])]\<rparr>))
     = Inr (CDict [])"
proof -
  let ?m = "\<lparr>cm_backend = Some (), cm_data = CDict [(''Accounts'', CDict [(''a'', CDict []), (''b'', CDict [])])]\<rparr>"
  have d: "diverge [PlainKey ''Accounts'', PersistentKey ''a''] [PlainKey ''Accounts'', PersistentKey ''b'']"
    by simp
  from manager_frame [OF d d, where m = ?m] have
    "manager_get [PlainKey ''Accounts'', PersistentKey ''b'']
      (snd (manager_delete [PlainKey ''Accounts'', PersistentKey ''a''] ?m)) =
     manager_get [PlainKey ''Accounts'', PersistentKey ''b''] ?m" by blast
  with d show ?thesis by (simp add: manager_get_def)
qed

text \<open>
  Renaming moves the object: after a successful \<open>rename\<close> of an existing dictionary to a
  path that was free (and is neither above nor below the old one), the new path holds exactly
  the object that was at the old path, and the old path does not exist any more.
\<close>

theorem manager_rename_moves:
  assumes "manager_wf m" "diverge ks ls"
    and "manager_get ks m = Inr (CDict d)" "manager_get ls m = Inl ObjectNotFoundError"
    and "manager_rename ks ls m = (Inr (), m')"
  shows "manager_get ls m' = Inr (CDict d) \<and> manager_get ks m' = Inl ObjectNotFoundError"
proof -
  have ne: "ks \<noteq> []" "ls \<noteq> []"
    using assms(2) diverge_not_Nil by auto
  have started: "cm_backend m \<noteq> None" and get: "cm_get (cm_data m) ks = Inr (CDict d)"
    using assms(3) by (auto simp: manager_get_Inr)
  obtain t where pop: "cm_pop (cm_data m) ks = (Inr (CDict d), t)"
    using cm_pop_result [of "cm_data m" ks] get by (cases "cm_pop (cm_data m) ks") auto
  then obtain t' where ins: "cm_insert t ls (CDict d) = (Inr (), t')" and m': "m' = m\<lparr>cm_data := t'\<rparr>"
    using assms(5) started ne by (auto simp: manager_rename_def split: prod.splits)
  have "cm_get (cm_data m) ls = Inl KeyError"
    using assms(4) by (simp add: manager_get_missing)
  then have "cm_get t ls = Inl KeyError"
    using cm_pop_frame [OF assms(2), of "cm_data m"] pop by simp
  moreover have "dwf d"
    using wf_cm_get [OF _ get] assms(1) by (simp add: manager_wf_def wf_cdict_iff)
  ultimately have "cm_get t' ls = Inr (CDict d)"
    using cm_get_insert [OF ne(2) ins] by (simp add: base_dict_def fold_dset_Nil)
  moreover have "cm_get t' ks = Inl KeyError"
    using cm_insert_frame [of ls ks t "CDict d"] assms(2) ins cm_get_pop [OF pop]
    by (simp add: diverge_sym)
  ultimately show ?thesis
    using started ne by (simp add: manager_get_def m')
qed

theorem manager_rename_moves_witness:
  "manager_get [PlainKey ''A'', PersistentKey ''y'']
     (snd (manager_rename [PlainKey ''A'', PersistentKey ''x''] [PlainKey ''A'', PersistentKey ''y'']
       \<lparr>cm_backend = Some (), cm_data = CDict [(''A'', CDict [(''x'', CDict [(''s'', CLeaf LNone)])])]\<rparr>))
     = Inr (CDict [(''s'', CLeaf LNone)])"
proof -
  let ?m = "\<lparr>cm_backend = Some (), cm_data = CDict [(''A'', CDict [(''x'', CDict [(''s'', CLeaf LNone)])])]\<rparr>"
  let ?r = "manager_rename [PlainKey ''A'', PersistentKey ''x''] [PlainKey ''A'', PersistentKey ''y''] ?m"
  have "?r = (Inr (), snd ?r)"
    by (simp add: manager_rename_def ddel_def)
  from manager_rename_moves [OF _ _ _ _ this, of "[(''s'', CLeaf LNone)]"] show ?thesis
    by (simp add: manager_wf_def wf_cdict_iff dwf_def manager_get_def)
qed

end
