(* ===== verification/Settings_Object.thy ===== *)
theory Settings_Object
  imports Setting Config_Manager
begin

text \<open>
  Settings objects of \<open>sipsimple/configuration/__init__.py\<close>: \<open>SettingsObjectID\<close>, the state of an object
  with its groups (\<open>SettingsState\<close>, \<open>SettingsGroup\<close>) and the life of a \<open>SettingsObject\<close> with an id of its
  own: created or loaded, changed, renamed, saved and deleted through the configuration manager.
  Objects are named by numbers; an object that is collected leaves the weak maps. An
  operation is one step, as the one \<open>file-io\<close> thread makes it.
\<close>

section \<open>SettingsObjectID\<close>

record id_map =
  id_values :: "(nat, string) dict"
  id_oldvalues :: "(nat, string) dict"
  id_dirty :: "(nat, bool) dict"

definition id_map_init :: id_map where
  "id_map_init = \<lparr>id_values = [], id_oldvalues = [], id_dirty = []\<rparr>"

definition id_get :: "nat \<Rightarrow> id_map \<Rightarrow> string result" where
  "id_get i m = (case map_of (id_values m) i of None \<Rightarrow> Inl KeyError | Some v \<Rightarrow> Inr v)"

definition id_get_old :: "nat \<Rightarrow> id_map \<Rightarrow> string result" where
  "id_get_old i m = (case map_of (id_oldvalues m) i of None \<Rightarrow> Inl KeyError | Some v \<Rightarrow> Inr v)"

definition id_set :: "(string \<Rightarrow> string result) \<Rightarrow> nat \<Rightarrow> string \<Rightarrow> id_map \<Rightarrow> unit result \<times> id_map" where
  "id_set type i raw m =
     (case type raw of
        Inl e \<Rightarrow> (Inl e, m)
      | Inr value \<Rightarrow>
          if map_of (id_values m) i = Some value then (Inr (), m)
          else if map_of (id_oldvalues m) i = Some value then
            (Inr (), m\<lparr>id_values := dset i value (id_values m), id_dirty := dset i False (id_dirty m)\<rparr>)
          else if value \<in> snd ` set (id_values m) \<union> snd ` set (id_oldvalues m) then (Inl DuplicateIDError, m)
          else if map_of (id_values m) i \<noteq> None then
            (Inr (), m\<lparr>id_values := dset i value (id_values m), id_dirty := dset i True (id_dirty m)\<rparr>)
          else
            (Inr (), m\<lparr>id_values := dset i value (id_values m), id_oldvalues := dset i value (id_oldvalues m),
              id_dirty := dset i False (id_dirty m)\<rparr>))"

definition id_get_modified :: "nat \<Rightarrow> id_map \<Rightarrow> (string \<times> string) option result \<times> id_map" where
  "id_get_modified i m =
     (case (map_of (id_oldvalues m) i, map_of (id_values m) i) of
        (Some old, Some new) \<Rightarrow>
          (Inr (if map_of (id_dirty m) i = Some True then Some (old, new) else None),
           m\<lparr>id_oldvalues := dset i new (id_oldvalues m), id_dirty := dset i False (id_dirty m)\<rparr>)
      | _ \<Rightarrow> (Inl KeyError, m))"

definition id_undo :: "nat \<Rightarrow> id_map \<Rightarrow> unit result \<times> id_map" where
  "id_undo i m =
     (case map_of (id_oldvalues m) i of
        None \<Rightarrow> (Inl KeyError, m)
      | Some old \<Rightarrow> (Inr (), m\<lparr>id_values := dset i old (id_values m), id_dirty := dset i False (id_dirty m)\<rparr>))"

text \<open>The object is collected.\<close>

definition id_collected :: "nat \<Rightarrow> id_map \<Rightarrow> id_map" where
  "id_collected i m =
     \<lparr>id_values = ddel i (id_values m), id_oldvalues = ddel i (id_oldvalues m), id_dirty = ddel i (id_dirty m)\<rparr>"

text \<open>\<open>SettingsObjectImmutableID\<close> is assigned once.\<close>

definition immutable_id_set ::
  "(string \<Rightarrow> string result) \<Rightarrow> nat \<Rightarrow> string \<Rightarrow> (nat, string) dict \<Rightarrow> unit result \<times> (nat, string) dict" where
  "immutable_id_set type i raw vs =
     (if map_of vs i \<noteq> None then (Inl AttributeError, vs)
      else case type raw of
        Inl e \<Rightarrow> (Inl e, vs)
      | Inr value \<Rightarrow> if value \<in> snd ` set vs then (Inl DuplicateIDError, vs) else (Inr (), dset i value vs))"

section \<open>SettingsState and SettingsGroup\<close>

text \<open>The attributes of a class in the order of \<open>dir\<close>, with the cells of one object.\<close>

datatype ('v, 'r) setting_attr =
    ASetting "('v, 'r) setting" "'v cell"
  | ARuntime "('v, 'r) setting" "'v cell"
  | AGroup "(string \<times> ('v, 'r) setting_attr) list"

type_synonym ('v, 'r) setting_attrs = "(string \<times> ('v, 'r) setting_attr) list"

fun attr_getstate :: "('v, 'r) setting_attr \<Rightarrow> newval" where
  "attr_getstate (ASetting s c) = setting_getstate s c"
| "attr_getstate (ARuntime s c) = runtime_getstate s c"
| "attr_getstate (AGroup as) = NDict (map (\<lambda>p. (fst p, attr_getstate (snd p))) as)"

definition state_getstate :: "('v, 'r) setting_attrs \<Rightarrow> (string \<times> newval) list" where
  "state_getstate as = map (\<lambda>p. (fst p, attr_getstate (snd p))) as"

text \<open>The names of what has changed, whether they are runtime settings, and the values.\<close>

type_synonym 'v modified = "(string \<times> bool \<times> 'v modified_value) list"

definition modified_entry :: "string \<Rightarrow> bool \<Rightarrow> 'v modified_value option \<Rightarrow> 'v modified" where
  "modified_entry name runtime m = (case m of None \<Rightarrow> [] | Some v \<Rightarrow> [(name, runtime, v)])"

fun attr_modified :: "string \<Rightarrow> ('v, 'r) setting_attr \<Rightarrow> 'v modified" where
  "attr_modified name (ASetting s c) = modified_entry name False (fst (setting_get_modified s c))"
| "attr_modified name (ARuntime s c) = modified_entry name True (fst (setting_get_modified s c))"
| "attr_modified name (AGroup as) = concat (map (\<lambda>p. attr_modified (name @ ''.'' @ fst p) (snd p)) as)"

fun attr_synced :: "('v, 'r) setting_attr \<Rightarrow> ('v, 'r) setting_attr" where
  "attr_synced (ASetting s c) = ASetting s (snd (setting_get_modified s c))"
| "attr_synced (ARuntime s c) = ARuntime s (snd (setting_get_modified s c))"
| "attr_synced (AGroup as) = AGroup (map (\<lambda>p. (fst p, attr_synced (snd p))) as)"

definition state_get_modified :: "('v, 'r) setting_attrs \<Rightarrow> 'v modified \<times> ('v, 'r) setting_attrs" where
  "state_get_modified as =
     (concat (map (\<lambda>p. attr_modified (fst p) (snd p)) as), map (\<lambda>p. (fst p, attr_synced (snd p))) as)"

definition put_attr :: "string \<Rightarrow> ('v, 'r) setting_attr \<Rightarrow> ('v, 'r) setting_attrs \<Rightarrow> ('v, 'r) setting_attrs" where
  "put_attr k a as = map (\<lambda>p. if fst p = k then (k, a) else p) as"

text \<open>\<open>__setstate__\<close>: a \<open>ValueError\<close> is reported (\<open>CFGManagerLoadFailed\<close>) and the next item is read,
  any other exception ends it. The list names the attributes that were reported.\<close>

function (sequential) attr_setstate :: "cfg \<Rightarrow> ('v, 'r) setting_attr \<Rightarrow> unit result \<times> string list \<times> ('v, 'r) setting_attr"
  and state_setstate :: "(string \<times> cfg) list \<Rightarrow> ('v, 'r) setting_attrs \<Rightarrow> unit result \<times> string list \<times> ('v, 'r) setting_attrs" where
  "attr_setstate v (ASetting s c) = (case setting_setstate s v c of (r, c') \<Rightarrow> (r, [], ASetting s c'))"
| "attr_setstate v (ARuntime s c) = (case runtime_setstate s v c of (r, c') \<Rightarrow> (r, [], ARuntime s c'))"
| "attr_setstate (CDict st) (AGroup as) = (case state_setstate st as of (r, failed, as') \<Rightarrow> (r, failed, AGroup as'))"
| "attr_setstate (CLeaf l) (AGroup as) = (Inl AttributeError, [], AGroup as)"
| "state_setstate [] as = (Inr (), [], as)"
| "state_setstate ((k, v) # st) as =
     (case map_of as k of
        None \<Rightarrow> state_setstate st as
      | Some a \<Rightarrow>
          (case attr_setstate v a of (r, inner, a') \<Rightarrow>
             if r = Inr () \<or> r = Inl ValueError then
               (case state_setstate st (put_attr k a' as) of (r', failed, as') \<Rightarrow>
                  (r', inner @ (if r = Inr () then [] else [k]) @ failed, as'))
             else (r, inner, put_attr k a' as)))"
  by pat_completeness auto
termination
  by (relation "measure (\<lambda>x. case x of Inl (v, a) \<Rightarrow> size v | Inr (st, as) \<Rightarrow> size_list (size_prod (\<lambda>x. 0) size) st)") auto

text \<open>An assignment to a setting, by the path of its name.\<close>

fun state_assign :: "string list \<Rightarrow> ('v, 'r) assigned \<Rightarrow> ('v, 'r) setting_attrs \<Rightarrow> unit result \<times> ('v, 'r) setting_attrs" where
  "state_assign [] x as = (Inl AttributeError, as)"
| "state_assign (k # ks) x as =
     (case map_of as k of
        None \<Rightarrow> (Inl AttributeError, as)
      | Some (AGroup bs) \<Rightarrow>
          if ks = [] then (Inl AttributeError, as)
          else (case state_assign ks x bs of (r, bs') \<Rightarrow> (r, put_attr k (AGroup bs') as))
      | Some (ASetting s c) \<Rightarrow>
          if ks \<noteq> [] then (Inl AttributeError, as)
          else (case setting_set s x c of (r, c') \<Rightarrow> (r, put_attr k (ASetting s c') as))
      | Some (ARuntime s c) \<Rightarrow>
          if ks \<noteq> [] then (Inl AttributeError, as)
          else (case setting_set s x c of (r, c') \<Rightarrow> (r, put_attr k (ARuntime s c') as)))"

section \<open>SettingsObject\<close>

datatype object_state = ObNew | ObLoaded | ObActive | ObDeleted

record ('v, 'r) object =
  ob_state :: object_state
  ob_attrs :: "('v, 'r) setting_attrs"

datatype 'v object_note =
    WasActivated nat
  | WasCreated nat
  | DidChange nat "(string \<times> string) option" "'v modified"
  | WasDeleted nat
  | LoadFailed nat "string list"
  | SaveFailed nat

text \<open>What is fixed for a class: its group, the type of its ids, its attributes, and how the
  backend saves.\<close>

record ('v, 'r, 'b) object_class =
  oc_group :: "string option"
  oc_id_type :: "string \<Rightarrow> string result"
  oc_attrs :: "('v, 'r) setting_attrs"
  oc_save :: "'b \<Rightarrow> cfg \<Rightarrow> unit result \<times> 'b"

record ('v, 'r, 'b) settings_world =
  wo_conf :: "'b manager"
  wo_ids :: id_map
  wo_objects :: "(nat, ('v, 'r) object) dict"
  wo_log :: "'v object_note list"

definition object_key :: "('v, 'r, 'b) object_class \<Rightarrow> string \<Rightarrow> key list" where
  "object_key oc x = (case oc_group oc of None \<Rightarrow> [PersistentKey x] | Some g \<Rightarrow> [PlainKey g, PersistentKey x])"

definition add_notes :: "'v object_note list \<Rightarrow> ('v, 'r, 'b) settings_world \<Rightarrow> ('v, 'r, 'b) settings_world" where
  "add_notes ns w = w\<lparr>wo_log := wo_log w @ ns\<rparr>"

definition put_object :: "nat \<Rightarrow> ('v, 'r) object \<Rightarrow> ('v, 'r, 'b) settings_world \<Rightarrow> ('v, 'r, 'b) settings_world" where
  "put_object i ob w = w\<lparr>wo_objects := dset i ob (wo_objects w)\<rparr>"

text \<open>\<open>__new__\<close> and \<open>__establish__\<close>; an instance that is not returned is collected at once.\<close>

definition object_new ::
  "('v, 'r, 'b) object_class \<Rightarrow> nat \<Rightarrow> string \<Rightarrow> ('v, 'r, 'b) settings_world \<Rightarrow> unit result \<times> ('v, 'r, 'b) settings_world" where
  "object_new oc i raw w =
     (if raw = [] then (Inl TypeError, w)
      else case id_set (oc_id_type oc) i raw (wo_ids w) of
        (Inl e, m) \<Rightarrow> (Inl e, w)
      | (Inr _, m) \<Rightarrow>
          (case id_get i m of
             Inl e \<Rightarrow> (Inl e, w)
           | Inr x \<Rightarrow>
               (case manager_get (object_key oc x) (wo_conf w) of
                  Inl ObjectNotFoundError \<Rightarrow>
                    (Inr (), put_object i \<lparr>ob_state = ObNew, ob_attrs = oc_attrs oc\<rparr> (w\<lparr>wo_ids := m\<rparr>))
                | Inl e \<Rightarrow> (Inl e, w)
                | Inr (CLeaf l) \<Rightarrow> (Inl AttributeError, w)
                | Inr (CDict d) \<Rightarrow>
                    (case state_setstate d (oc_attrs oc) of
                       (Inl e, failed, as) \<Rightarrow> (Inl e, add_notes [LoadFailed i failed] w)
                     | (Inr _, failed, as) \<Rightarrow>
                         (Inr (), add_notes [LoadFailed i failed, WasActivated i]
                            (put_object i \<lparr>ob_state = ObActive, ob_attrs = as\<rparr> (w\<lparr>wo_ids := m\<rparr>)))))))"

definition object_assign ::
  "nat \<Rightarrow> string list \<Rightarrow> ('v, 'r) assigned \<Rightarrow> ('v, 'r, 'b) settings_world \<Rightarrow> unit result \<times> ('v, 'r, 'b) settings_world" where
  "object_assign i path x w =
     (case map_of (wo_objects w) i of
        None \<Rightarrow> (Inl AttributeError, w)
      | Some ob \<Rightarrow> (case state_assign path x (ob_attrs ob) of (r, as) \<Rightarrow> (r, put_object i (ob\<lparr>ob_attrs := as\<rparr>) w)))"

definition object_set_id ::
  "('v, 'r, 'b) object_class \<Rightarrow> nat \<Rightarrow> string \<Rightarrow> ('v, 'r, 'b) settings_world \<Rightarrow> unit result \<times> ('v, 'r, 'b) settings_world" where
  "object_set_id oc i raw w =
     (case map_of (wo_objects w) i of
        None \<Rightarrow> (Inl AttributeError, w)
      | Some ob \<Rightarrow> (case id_set (oc_id_type oc) i raw (wo_ids w) of (r, m) \<Rightarrow> (r, w\<lparr>wo_ids := m\<rparr>)))"

text \<open>\<open>configuration.save()\<close>, whose exceptions are reported.\<close>

definition conf_save :: "('v, 'r, 'b) object_class \<Rightarrow> nat \<Rightarrow> ('v, 'r, 'b) settings_world \<Rightarrow> ('v, 'r, 'b) settings_world" where
  "conf_save oc i w =
     (case manager_save (oc_save oc) (wo_conf w) of
        (Inr _, m) \<Rightarrow> w\<lparr>wo_conf := m\<rparr>
      | (Inl e, m) \<Rightarrow> add_notes [SaveFailed i] (w\<lparr>wo_conf := m\<rparr>))"

definition conf_step ::
  "('b manager \<Rightarrow> unit result \<times> 'b manager) \<Rightarrow> (('v, 'r, 'b) settings_world \<Rightarrow> unit result \<times> ('v, 'r, 'b) settings_world) \<Rightarrow>
   ('v, 'r, 'b) settings_world \<Rightarrow> unit result \<times> ('v, 'r, 'b) settings_world" where
  "conf_step f k w =
     (case f (wo_conf w) of
        (Inl e, m) \<Rightarrow> (Inl e, w\<lparr>wo_conf := m\<rparr>)
      | (Inr _, m) \<Rightarrow> k (w\<lparr>wo_conf := m\<rparr>))"

definition object_save ::
  "('v, 'r, 'b) object_class \<Rightarrow> nat \<Rightarrow> ('v, 'r, 'b) settings_world \<Rightarrow> unit result \<times> ('v, 'r, 'b) settings_world" where
  "object_save oc i w =
     (case map_of (wo_objects w) i of
        None \<Rightarrow> (Inl AttributeError, w)
      | Some ob \<Rightarrow>
          if ob_state ob = ObDeleted then (Inr (), w)
          else case id_get_old i (wo_ids w) of
            Inl e \<Rightarrow> (Inl e, w)
          | Inr old \<Rightarrow>
              (case id_get_modified i (wo_ids w) of
                 (Inl e, m) \<Rightarrow> (Inl e, w)
               | (Inr modified_id, m) \<Rightarrow>
                   let (modified, as) = state_get_modified (ob_attrs ob);
                       w = put_object i (ob\<lparr>ob_attrs := as\<rparr>) (w\<lparr>wo_ids := m\<rparr>);
                       key = object_key oc (case id_get i m of Inr x \<Rightarrow> x | Inl _ \<Rightarrow> old)
                   in if modified_id = None \<and> modified = [] \<and> ob_state ob \<noteq> ObNew then (Inr (), w)
                      else if ob_state ob = ObNew then
                        conf_step (manager_update key (state_getstate as))
                          (\<lambda>w. (Inr (), conf_save oc i (add_notes [WasActivated i, WasCreated i]
                             (put_object i \<lparr>ob_state = ObActive, ob_attrs = as\<rparr> w)))) w
                      else if modified_id = None \<and> (\<forall>(name, runtime, v) \<in> set modified. runtime) then
                        (Inr (), add_notes [DidChange i None modified] w)
                      else
                        conf_step (\<lambda>m. if modified_id \<noteq> None then manager_rename (object_key oc old) key m else (Inr (), m))
                          (conf_step (\<lambda>m. if modified \<noteq> [] then manager_update key (state_getstate as) m else (Inr (), m))
                            (\<lambda>w. (Inr (), conf_save oc i (add_notes [DidChange i modified_id modified] w)))) w))"

definition object_delete ::
  "('v, 'r, 'b) object_class \<Rightarrow> nat \<Rightarrow> ('v, 'r, 'b) settings_world \<Rightarrow> unit result \<times> ('v, 'r, 'b) settings_world" where
  "object_delete oc i w =
     (case map_of (wo_objects w) i of
        None \<Rightarrow> (Inl AttributeError, w)
      | Some ob \<Rightarrow>
          if ob_state ob = ObDeleted then (Inr (), w)
          else
            let w = put_object i (ob\<lparr>ob_state := ObDeleted\<rparr>) w
            in case id_get_old i (wo_ids w) of
              Inl e \<Rightarrow> (Inl e, w)
            | Inr old \<Rightarrow>
                conf_step (manager_delete (object_key oc old))
                  (\<lambda>w. (Inr (), conf_save oc i (add_notes [WasDeleted i] w))) w)"

definition object_collected :: "nat \<Rightarrow> ('v, 'r, 'b) settings_world \<Rightarrow> ('v, 'r, 'b) settings_world" where
  "object_collected i w = w\<lparr>wo_ids := id_collected i (wo_ids w), wo_objects := ddel i (wo_objects w)\<rparr>"

section \<open>Ids stay apart\<close>

definition names_of :: "id_map \<Rightarrow> nat \<Rightarrow> string set" where
  "names_of m i = {x. map_of (id_values m) i = Some x \<or> map_of (id_oldvalues m) i = Some x}"

definition id_entry_ok :: "id_map \<Rightarrow> nat \<Rightarrow> bool" where
  "id_entry_ok m i = (case (map_of (id_values m) i, map_of (id_oldvalues m) i) of
     (Some x, Some y) \<Rightarrow> map_of (id_dirty m) i = Some (x \<noteq> y)
   | (None, None) \<Rightarrow> True
   | _ \<Rightarrow> False)"

definition ids_ok :: "id_map \<Rightarrow> bool" where
  "ids_ok m \<longleftrightarrow> dwf (id_values m) \<and> dwf (id_oldvalues m) \<and> (\<forall>i. id_entry_ok m i) \<and>
     (\<forall>i j. i \<noteq> j \<longrightarrow> names_of m i \<inter> names_of m j = {})"

definition id_others :: "nat \<Rightarrow> id_map \<Rightarrow> id_map \<Rightarrow> bool" where
  "id_others i m m' \<longleftrightarrow> (\<forall>j. j \<noteq> i \<longrightarrow> map_of (id_values m') j = map_of (id_values m) j \<and>
     map_of (id_oldvalues m') j = map_of (id_oldvalues m) j \<and> map_of (id_dirty m') j = map_of (id_dirty m) j)"

lemma ids_ok_init: "ids_ok id_map_init"
  by (simp add: ids_ok_def id_map_init_def id_entry_ok_def names_of_def)

text \<open>What changes for one object must not take a name that another one has.\<close>

lemma ids_ok_change:
  assumes "ids_ok m" "id_others i m m'" "dwf (id_values m')" "dwf (id_oldvalues m')" "id_entry_ok m' i"
    and "\<And>x. x \<in> names_of m' i \<Longrightarrow> x \<in> names_of m i \<or> (\<forall>j. x \<notin> names_of m j)"
  shows "ids_ok m'"
proof -
  have others: "names_of m' j = names_of m j" "id_entry_ok m' j = id_entry_ok m j" if "j \<noteq> i" for j
    using assms(2) [unfolded id_others_def, rule_format, OF that] by (simp_all only: names_of_def id_entry_ok_def)
  have fresh: "names_of m' i \<inter> names_of m' j = {}" if "j \<noteq> i" for j
    using assms(1,6) others(1) [OF that] that unfolding ids_ok_def by blast
  have "names_of m' j \<inter> names_of m' k = {}" if "j \<noteq> k" for j k
  proof (cases "j = i \<or> k = i")
    case True
    then show ?thesis using fresh [of j] fresh [of k] that by (auto simp: Int_commute)
  next
    case False
    then show ?thesis using assms(1) others that unfolding ids_ok_def by auto
  qed
  moreover have "id_entry_ok m' j" for j
    using assms(1,5) others unfolding ids_ok_def by (cases "j = i") auto
  ultimately show ?thesis using assms(3,4) unfolding ids_ok_def by blast
qed

lemma unused_name:
  assumes "dwf (id_values m)" "dwf (id_oldvalues m)" "x \<notin> snd ` set (id_values m) \<union> snd ` set (id_oldvalues m)"
  shows "x \<notin> names_of m j"
  using assms by (force simp: names_of_def map_of_eq_Some)

lemma id_set_others: "id_set type i raw m = (r, m') \<Longrightarrow> id_others i m m'"
  by (auto simp: id_set_def id_others_def map_of_dset split: sum.splits if_splits)

lemma id_set_ok:
  assumes "ids_ok m" "id_set type i raw m = (r, m')"
  shows "ids_ok m'"
proof (cases "m' = m")
  case False
  then obtain nv where v: "type raw = Inr nv" using assms(2) by (auto simp: id_set_def split: sum.splits)
  have dwf: "dwf (id_values m)" "dwf (id_oldvalues m)" and entry: "id_entry_ok m i" using assms(1) by (simp_all add: ids_ok_def)
  have m': "dwf (id_values m')" "dwf (id_oldvalues m')"
    using assms(2) dwf v by (auto simp: id_set_def dwf_dset split: if_splits)
  have e: "id_entry_ok m' i"
    using assms(2) entry v False by (auto simp: id_set_def id_entry_ok_def map_of_dset split: if_splits option.splits)
  have n: "x \<in> names_of m i \<or> (\<forall>j. x \<notin> names_of m j)" if "x \<in> names_of m' i" for x
  proof (cases "x \<in> names_of m i")
    case no: False
    then have "x = nv" "map_of (id_oldvalues m) i \<noteq> Some nv" "map_of (id_values m) i \<noteq> Some nv"
      using that assms(2) v by (auto simp: id_set_def names_of_def map_of_dset split: if_splits)
    then have "x \<notin> snd ` set (id_values m) \<union> snd ` set (id_oldvalues m)"
      using assms(2) v False by (auto simp: id_set_def split: if_splits)
    then show ?thesis using unused_name [OF dwf] by blast
  qed simp
  show ?thesis by (rule ids_ok_change [OF assms(1) id_set_others [OF assms(2)] m' e n])
qed (use assms in simp)

lemma id_get_modified_others: "id_get_modified i m = (r, m') \<Longrightarrow> id_others i m m'"
  by (auto simp: id_get_modified_def id_others_def map_of_dset split: option.splits)

lemma ids_entry: "ids_ok m \<Longrightarrow> dwf (id_values m) \<and> dwf (id_oldvalues m) \<and> id_entry_ok m i"
  by (simp add: ids_ok_def)

lemma id_get_modified_ok:
  assumes "ids_ok m" "id_get_modified i m = (r, m')"
  shows "ids_ok m'"
proof (rule ids_ok_change [OF assms(1) id_get_modified_others [OF assms(2)]])
  note e = ids_entry [OF assms(1), of i]
  show "dwf (id_values m')" "dwf (id_oldvalues m')" "id_entry_ok m' i"
    using assms(2) e by (auto simp: id_get_modified_def dwf_dset id_entry_ok_def map_of_dset split: option.splits)
  show "x \<in> names_of m i \<or> (\<forall>j. x \<notin> names_of m j)" if "x \<in> names_of m' i" for x
    using assms(2) that by (auto simp: id_get_modified_def names_of_def map_of_dset split: option.splits)
qed

lemma id_undo_others: "id_undo i m = (r, m') \<Longrightarrow> id_others i m m'"
  by (auto simp: id_undo_def id_others_def map_of_dset split: option.splits)

lemma id_undo_ok:
  assumes "ids_ok m" "id_undo i m = (r, m')"
  shows "ids_ok m'"
proof (rule ids_ok_change [OF assms(1) id_undo_others [OF assms(2)]])
  note e = ids_entry [OF assms(1), of i]
  show "dwf (id_values m')" "dwf (id_oldvalues m')" "id_entry_ok m' i"
    using assms(2) e by (auto simp: id_undo_def dwf_dset id_entry_ok_def map_of_dset split: option.splits)
  show "x \<in> names_of m i \<or> (\<forall>j. x \<notin> names_of m j)" if "x \<in> names_of m' i" for x
    using assms(2) that by (auto simp: id_undo_def names_of_def map_of_dset split: option.splits)
qed

lemma id_collected_others: "id_others i m (id_collected i m)"
  by (simp add: id_others_def id_collected_def map_of_ddel)

lemma id_collected_ok: "ids_ok m \<Longrightarrow> ids_ok (id_collected i m)"
  by (rule ids_ok_change [OF _ id_collected_others])
    (auto simp: id_collected_def ids_ok_def dwf_ddel id_entry_ok_def names_of_def map_of_ddel)

lemma other_name: "ids_ok m \<Longrightarrow> i \<noteq> j \<Longrightarrow> x \<in> names_of m i \<Longrightarrow> y \<in> names_of m j \<Longrightarrow> x \<noteq> y"
  by (auto simp: ids_ok_def)

section \<open>What is stored, and what is read back\<close>

text \<open>A node of the tree holds the state of an attribute.\<close>

fun stored_as :: "newval \<Rightarrow> cfg option \<Rightarrow> bool" where
  "stored_as NDefault v = (v = None)"
| "stored_as (NLeaf l) v = (v = Some (CLeaf l))"
| "stored_as (NDict st) v = ((\<forall>l. v \<noteq> Some (CLeaf l)) \<and> (\<forall>p\<in>set st. stored_as (snd p) (map_of (node_dict v) (fst p))))"
| "stored_as (NItems st) v = False"

definition holds :: "(string \<times> newval) list \<Rightarrow> cdict \<Rightarrow> bool" where
  "holds st d = (\<forall>p\<in>set st. stored_as (snd p) (map_of d (fst p)))"

text \<open>States that come from attributes: distinct names, no item containers.\<close>

fun plain_state :: "newval \<Rightarrow> bool" where
  "plain_state (NDict st) = (distinct (map fst st) \<and> (\<forall>p\<in>set st. plain_state (snd p)))"
| "plain_state (NItems st) = False"
| "plain_state n = True"

lemma node_some_dict [simp]: "node_dict (some_dict e) = e" "some_dict e \<noteq> Some (CLeaf l)"
  by (simp_all add: node_dict_def some_dict_def)

lemma stored_upd: "plain_state n \<Longrightarrow> stored_as n (upd_val old n)"
proof (induction n arbitrary: old)
  case (NDict st)
  have "stored_as (snd p) (map_of (update_dict (node_dict old) st) (fst p))" if "p \<in> set st" for p
  proof -
    have "map_of st (fst p) = Some (snd p)" using NDict.prems that by simp
    then have "map_of (update_dict (node_dict old) st) (fst p) = upd_val (map_of (node_dict old) (fst p)) (snd p)"
      using NDict.prems map_of_update_dict [of st "node_dict old" "fst p"] by (simp del: map_of_eq_Some_iff)
    then show ?thesis using NDict.IH [of p "snd p"] NDict.prems that by (cases p) auto
  qed
  then show ?case by simp
qed simp_all

lemma update_holds:
  assumes "distinct (map fst st)" "\<forall>p\<in>set st. plain_state (snd p)"
  shows "holds st (update_dict old st)"
proof -
  have "stored_as (NDict st) (upd_val (Some (CDict old)) (NDict st))" using assms by (intro stored_upd) simp
  then show ?thesis by (simp add: holds_def node_dict_def some_dict_def split: if_splits)
qed

section \<open>The state of an object\<close>

text \<open>Every value of the setting goes to the tree and back.\<close>

definition typed :: "('v, 'r) setting \<Rightarrow> 'v \<Rightarrow> bool" where
  "typed s v \<longleftrightarrow> from_state s (CLeaf (to_state s v)) = Inr v \<and> to_state s v \<noteq> LNone"

definition typed_setting :: "('v, 'r) setting \<Rightarrow> bool" where
  "typed_setting s \<longleftrightarrow> (\<forall>r v. coerce s r = Inr v \<longrightarrow> typed s v) \<and> (\<forall>x v. from_state s x = Inr v \<longrightarrow> typed s v)"

definition cell_typed :: "('v, 'r) setting \<Rightarrow> 'v cell \<Rightarrow> bool" where
  "cell_typed s c \<longleftrightarrow> typed_setting s \<and> cell_ok s c \<and>
     (\<forall>v. values_at c = Some (Some v) \<longrightarrow> typed s v) \<and> (\<forall>v. oldvalues_at c = Some (Some v) \<longrightarrow> typed s v)"

fun attr_ok :: "('v, 'r) setting_attr \<Rightarrow> bool" where
  "attr_ok (ASetting s c) = cell_typed s c"
| "attr_ok (ARuntime s c) = True"
| "attr_ok (AGroup as) = (distinct (map fst as) \<and> (\<forall>p\<in>set as. attr_ok (snd p)))"

fun attr_fresh :: "('v, 'r) setting_attr \<Rightarrow> ('v, 'r) setting_attr" where
  "attr_fresh (ASetting s c) = ASetting s cell_init"
| "attr_fresh (ARuntime s c) = ARuntime s cell_init"
| "attr_fresh (AGroup as) = AGroup (map (\<lambda>p. (fst p, attr_fresh (snd p))) as)"

text \<open>The saved values, and the values one sees.\<close>

fun attr_saved :: "('v, 'r) setting_attr \<Rightarrow> ('v, 'r) setting_attr" where
  "attr_saved (ASetting s c) = ASetting s (setting_undo c)"
| "attr_saved (ARuntime s c) = ARuntime s (setting_undo c)"
| "attr_saved (AGroup as) = AGroup (map (\<lambda>p. (fst p, attr_saved (snd p))) as)"

fun attr_view :: "string \<Rightarrow> ('v, 'r) setting_attr \<Rightarrow> (string \<times> 'v option) list" where
  "attr_view n (ASetting s c) = [(n, setting_get s c)]"
| "attr_view n (ARuntime s c) = []"
| "attr_view n (AGroup as) = concat (map (\<lambda>p. attr_view (n @ ''.'' @ fst p) (snd p)) as)"

text \<open>\<open>AGroup as\<close> stands for the whole object too, so its names begin with a dot.\<close>

definition saved :: "('v, 'r) setting_attrs \<Rightarrow> ('v, 'r) setting_attrs" where
  "saved as = map (\<lambda>p. (fst p, attr_saved (snd p))) as"

definition view :: "('v, 'r) setting_attrs \<Rightarrow> (string \<times> 'v option) list" where
  "view as = attr_view [] (AGroup as)"

lemma map_of_fst_map: "map_of (map (\<lambda>p. (fst p, f (snd p))) as) k = map_option f (map_of as k)"
  by (induction as) auto

lemma map_fst_put [simp]: "map fst (put_attr k a as) = map fst as"
  by (induction as) (auto simp: put_attr_def)

lemma put_attr_in: "p \<in> set (put_attr k a as) \<Longrightarrow> p \<in> set as \<or> p = (k, a)"
  by (auto simp: put_attr_def)

lemma map_put_same:
  "map_of as k = Some b \<Longrightarrow> distinct (map fst as) \<Longrightarrow> f a = f b \<Longrightarrow>
   map (\<lambda>p. (fst p, f (snd p))) (put_attr k a as) = map (\<lambda>p. (fst p, f (snd p))) as"
  by (auto simp: put_attr_def dest!: map_of_SomeD dest: eq_key_imp_eq_value)

lemma attr_ok_put: "attr_ok (AGroup as) \<Longrightarrow> attr_ok a \<Longrightarrow> attr_ok (AGroup (put_attr k a as))"
  using put_attr_in by fastforce

text \<open>Reading the state keeps the types and leaves what it writes clean.\<close>

lemma setting_setstate_typed:
  "setting_setstate s v c = (r, c') \<Longrightarrow> cell_typed s c \<Longrightarrow> cell_typed s c' \<and> (setting_undo c = c \<longrightarrow> setting_undo c' = c')"
  by (auto simp: setting_setstate_def cell_typed_def cell_ok_def setting_undo_def typed_setting_def bindR_eq_Inr split: sum.splits if_splits)

lemma setstate_keeps:
  fixes a :: "('v, 'r) setting_attr" and as :: "('v, 'r) setting_attrs"
  shows "attr_setstate v a = (r, failed, a') \<Longrightarrow> attr_ok a \<Longrightarrow>
   attr_ok a' \<and> attr_fresh a' = attr_fresh a \<and> (attr_saved a = a \<longrightarrow> attr_saved a' = a')"
    "state_setstate st as = (r, failed, as') \<Longrightarrow> attr_ok (AGroup as) \<Longrightarrow>
   attr_ok (AGroup as') \<and> attr_fresh (AGroup as') = attr_fresh (AGroup as) \<and> (saved as = as \<longrightarrow> saved as' = as')"
proof (induction v a and st as arbitrary: r failed a' and r failed as' rule: attr_setstate_state_setstate.induct)
  case (1 v s c)
  then show ?case using setting_setstate_typed [of s v c] by (auto split: prod.splits)
next
  case (2 v s c)
  then show ?case by (auto simp: runtime_setstate_def)
next
  case (3 st as)
  then show ?case by (auto simp: saved_def split: prod.splits)
next
  case (6 k v st as)
  show ?case
  proof (cases "map_of as k")
    case None
    then show ?thesis using 6 by simp
  next
    case (Some a)
    obtain r1 inner a1 where a1: "attr_setstate v a = (r1, inner, a1)" by (cases "attr_setstate v a") auto
    have dist: "distinct (map fst as)" and ok: "attr_ok a"
      using 6(5) Some map_of_SomeD [OF Some] by auto
    have IH: "attr_ok a1" "attr_fresh a1 = attr_fresh a" "attr_saved a = a \<longrightarrow> attr_saved a1 = a1"
      using 6(2) [OF Some a1] ok by blast+
    have put: "attr_ok (AGroup (put_attr k a1 as))" "attr_fresh (AGroup (put_attr k a1 as)) = attr_fresh (AGroup as)"
      using attr_ok_put [OF 6(5) IH(1)] map_put_same [of as k a attr_fresh a1, OF Some dist IH(2)] by simp_all
    have clean: "saved (put_attr k a1 as) = put_attr k a1 as" if "saved as = as"
    proof -
      have "attr_saved (snd p) = snd p" if "p \<in> set as" for p
        using \<open>saved as = as\<close> that unfolding saved_def by (metis (no_types, lifting) map_eq_conv list.map_ident snd_conv)
      then have "attr_saved (snd p) = snd p" if "p \<in> set (put_attr k a1 as)" for p
        using put_attr_in [OF that] IH(3) map_of_SomeD [OF Some] by fastforce
      then show ?thesis unfolding saved_def by (simp add: map_idI)
    qed
    show ?thesis
    proof (cases "r1 = Inr () \<or> r1 = Inl ValueError")
      case True
      then obtain r2 failed2 where "state_setstate st (put_attr k a1 as) = (r2, failed2, as')"
        using 6(4) Some a1 by (auto split: prod.splits)
      then show ?thesis using 6(3) [OF Some a1 [symmetric] refl True] put clean by metis
    next
      case False
      then have "as' = put_attr k a1 as" using 6(4) Some a1 by simp
      then show ?thesis using put clean by blast
    qed
  qed
qed simp_all

text \<open>What was stored is read back by a fresh object.\<close>

lemma map_put_distinct:
  "distinct (map fst as) \<Longrightarrow> map_of as k = Some b \<Longrightarrow>
   map (\<lambda>p. (fst p, f (fst p) (snd p))) (put_attr k a as) = map (\<lambda>p. (fst p, if fst p = k then f k a else f (fst p) (snd p))) as"
  by (auto simp: put_attr_def)

lemma map_of_put: "map_of (put_attr k a as) l = (if l = k then map_option (\<lambda>_. a) (map_of as k) else map_of as l)"
  by (induction as) (auto simp: put_attr_def)

definition setstate_into :: "(string \<times> cfg) list \<Rightarrow> string \<Rightarrow> ('v, 'r) setting_attr \<Rightarrow> ('v, 'r) setting_attr" where
  "setstate_into st k a = (case map_of st k of None \<Rightarrow> a | Some v \<Rightarrow> snd (snd (attr_setstate v a)))"

lemma state_setstate_all:
  "distinct (map fst st) \<Longrightarrow> distinct (map fst as) \<Longrightarrow>
   (\<And>k v a. (k, v) \<in> set st \<Longrightarrow> map_of as k = Some a \<Longrightarrow> \<exists>a'. attr_setstate v a = (Inr (), [], a')) \<Longrightarrow>
   state_setstate st as = (Inr (), [], map (\<lambda>p. (fst p, setstate_into st (fst p) (snd p))) as)"
proof (induction st arbitrary: as)
  case Nil
  then show ?case by (simp add: setstate_into_def)
next
  case (Cons q st)
  obtain k v where q: "q = (k, v)" by (cases q)
  have k: "map_of st k = None" using Cons.prems(1) q by (simp add: map_of_eq_None_iff)
  show ?case
  proof (cases "map_of as k")
    case None
    have "state_setstate st as = (Inr (), [], map (\<lambda>p. (fst p, setstate_into st (fst p) (snd p))) as)"
      using Cons.prems by (intro Cons.IH) auto
    moreover have "setstate_into (q # st) (fst p) (snd p) = setstate_into st (fst p) (snd p)" if "p \<in> set as" for p
      using None that q by (auto simp: setstate_into_def map_of_eq_None_iff)
    ultimately show ?thesis using None q by simp
  next
    case (Some a)
    then obtain a' where a': "attr_setstate v a = (Inr (), [], a')" using Cons.prems(3) [of k v a] q by auto
    have "state_setstate st (put_attr k a' as) =
        (Inr (), [], map (\<lambda>p. (fst p, setstate_into st (fst p) (snd p))) (put_attr k a' as))"
    proof (rule Cons.IH)
      fix l w b
      assume "(l, w) \<in> set st" "map_of (put_attr k a' as) l = Some b"
      moreover from this k have "l \<noteq> k" by (force simp: map_of_eq_None_iff)
      ultimately show "\<exists>a'. attr_setstate w b = (Inr (), [], a')" using Cons.prems(3) [of l w b] by (simp add: map_of_put)
    qed (use Cons.prems in simp_all)
    moreover have "map (\<lambda>p. (fst p, setstate_into st (fst p) (snd p))) (put_attr k a' as) =
        map (\<lambda>p. (fst p, if fst p = k then setstate_into st k a' else setstate_into st (fst p) (snd p))) as"
      using map_put_distinct [OF Cons.prems(2) Some] .
    moreover have "(if fst p = k then setstate_into st k a' else setstate_into st (fst p) (snd p)) = setstate_into (q # st) (fst p) (snd p)"
      if "p \<in> set as" for p
    proof (cases "fst p = k")
      case True
      then have "snd p = a" using Some Cons.prems(2) that by (metis map_of_is_SomeI option.inject prod.collapse)
      then show ?thesis using True a' q k by (simp add: setstate_into_def)
    qed (use q in \<open>simp add: setstate_into_def\<close>)
    ultimately show ?thesis using Some q a' by simp
  qed
qed

lemma attr_view_concat_cong:
  "(\<And>p. p \<in> set as \<Longrightarrow> attr_view (n @ ''.'' @ fst p) (f p) = attr_view (n @ ''.'' @ fst p) (snd p)) \<Longrightarrow>
   attr_view n (AGroup (map (\<lambda>p. (fst p, f p)) as)) = attr_view n (AGroup as)"
  by (simp add: comp_def cong: map_cong)

lemma restored_default:
  "attr_ok a \<Longrightarrow> stored_as (attr_getstate a) None \<Longrightarrow> attr_view n (attr_fresh a) = attr_view n a"
proof (induction a arbitrary: n)
  case (ASetting s c)
  then show ?case
    by (auto simp: setting_getstate_def setting_get_def or_default_def cell_init_def split: option.splits)
next
  case (AGroup as)
  have "attr_view m (attr_fresh (snd p)) = attr_view m (snd p)" if "p \<in> set as" for p m
  proof (rule AGroup.IH [OF that])
    show "snd p \<in> Basic_BNFs.snds p" by (simp add: snds.simps)
    show "attr_ok (snd p)" "stored_as (attr_getstate (snd p)) None" using AGroup.prems that by (auto simp: node_dict_def)
  qed
  then show ?case unfolding attr_fresh.simps by (intro attr_view_concat_cong) auto
qed simp

lemma restored_setting:
  assumes "cell_typed s c" "stored_as (setting_getstate s c) (Some v)"
  shows "\<exists>c'. setting_setstate s v cell_init = (Inr (), c') \<and> setting_get s c' = setting_get s c"
  using assms
  by (cases "values_at c"; cases "the (values_at c)")
    (auto simp: setting_getstate_def setting_setstate_def setting_get_def or_default_def cell_typed_def cell_ok_def typed_def)

lemma restored:
  "attr_ok a \<Longrightarrow> wf_cfg v \<Longrightarrow> stored_as (attr_getstate a) (Some v) \<Longrightarrow>
   \<exists>a'. attr_setstate v (attr_fresh a) = (Inr (), [], a') \<and> (\<forall>n. attr_view n a' = attr_view n a)"
proof (induction a arbitrary: v)
  case (ASetting s c)
  then show ?case using restored_setting [of s c v] by auto
next
  case (ARuntime s c)
  then show ?case by (simp add: runtime_getstate_def)
next
  case (AGroup as)
  from AGroup.prems obtain d where v: "v = CDict d" by (cases v) auto
  let ?fs = "map (\<lambda>p. (fst p, attr_fresh (snd p))) as"
  have held: "stored_as (attr_getstate (snd p)) (map_of d (fst p))" if "p \<in> set as" for p
    using AGroup.prems(3) that v by (auto simp: node_dict_def)
  have ok: "attr_ok (snd p)" if "p \<in> set as" for p using AGroup.prems(1) that by simp
  have child: "\<exists>a'. attr_setstate w (attr_fresh (snd p)) = (Inr (), [], a') \<and> (\<forall>n. attr_view n a' = attr_view n (snd p))"
    if "p \<in> set as" "map_of d (fst p) = Some w" for p w
    using AGroup.IH [of p "snd p" w] held [OF that(1)] ok [OF that(1)] that wf_cdict_lookup [of d "fst p" w] AGroup.prems(2) v
    by (cases p) auto
  have dist: "distinct (map fst d)" "distinct (map fst ?fs)" "distinct (map fst as)"
    using AGroup.prems(1,2) v by (simp_all add: dwf_distinct wf_cdict_iff comp_def)
  have "state_setstate d ?fs = (Inr (), [], map (\<lambda>p. (fst p, setstate_into d (fst p) (snd p))) ?fs)"
  proof (rule state_setstate_all [OF dist(1,2)])
    fix k w a assume kw: "(k, w) \<in> set d" "map_of ?fs k = Some a"
    then obtain b where b: "map_of as k = Some b" "a = attr_fresh b" by (auto simp: map_of_fst_map)
    then have "(k, b) \<in> set as" by (simp add: map_of_SomeD)
    moreover have "map_of d k = Some w" using kw(1) dist(1) by simp
    ultimately show "\<exists>a'. attr_setstate w a = (Inr (), [], a')" using child [of "(k, b)" w] b by auto
  qed
  moreover have "attr_view n (setstate_into d (fst p) (attr_fresh (snd p))) = attr_view n (snd p)" if "p \<in> set as" for p n
  proof (cases "map_of d (fst p)")
    case None
    then show ?thesis using held [OF that] restored_default [OF ok [OF that]] by (simp add: setstate_into_def)
  next
    case (Some w)
    then show ?thesis using child [OF that Some] by (auto simp: setstate_into_def)
  qed
  ultimately show ?case using v by (auto simp: comp_def cong: map_cong)
qed

text \<open>Assignments.\<close>

fun lookup_attr :: "string list \<Rightarrow> ('v, 'r) setting_attrs \<Rightarrow> ('v, 'r) setting_attr option" where
  "lookup_attr [] as = None"
| "lookup_attr (k # ks) as =
     (case map_of as k of
        None \<Rightarrow> None
      | Some (AGroup bs) \<Rightarrow> if ks = [] then Some (AGroup bs) else lookup_attr ks bs
      | Some a \<Rightarrow> if ks = [] then Some a else None)"

definition assign_typed :: "string list \<Rightarrow> ('v, 'r) assigned \<Rightarrow> ('v, 'r) setting_attrs \<Rightarrow> bool" where
  "assign_typed path x as \<longleftrightarrow> (\<forall>v s c. x = AssignTyped v \<longrightarrow> lookup_attr path as = Some (ASetting s c) \<longrightarrow> typed s v)"

lemma setting_set_keeps:
  assumes "setting_set s x c = (r, c')"
  shows "setting_undo c' = setting_undo c"
    and "cell_typed s c \<Longrightarrow> (\<And>v. x = AssignTyped v \<Longrightarrow> typed s v) \<Longrightarrow> cell_typed s c'"
proof -
  show "setting_undo c' = setting_undo c"
    using assms by (auto simp: setting_set_def setting_undo_def store_value_def split: assigned.splits sum.splits if_splits)
  assume ok: "cell_typed s c" "\<And>v. x = AssignTyped v \<Longrightarrow> typed s v"
  have "cell_ok s c'" using setting_set_ok [of s c x] ok(1) assms by (simp add: cell_typed_def)
  moreover have "(\<forall>v. values_at c' = Some (Some v) \<longrightarrow> typed s v) \<and> oldvalues_at c' = oldvalues_at c"
    using assms ok
    by (cases x) (auto simp: setting_set_def store_value_def coerce_assigned_def cell_typed_def typed_setting_def bindR_eq_Inr
        split: sum.splits if_splits)
  ultimately show "cell_typed s c'" using ok(1) by (simp add: cell_typed_def)
qed

lemma put_keeps:
  assumes "map_of as k = Some a" "attr_ok (AGroup as)"
    and "attr_ok a'" "attr_fresh a' = attr_fresh a" "attr_saved a' = attr_saved a"
  shows "attr_ok (AGroup (put_attr k a' as)) \<and> attr_fresh (AGroup (put_attr k a' as)) = attr_fresh (AGroup as) \<and>
    saved (put_attr k a' as) = saved as"
proof (intro conjI)
  have dist: "distinct (map fst as)" using assms(2) by simp
  show "attr_ok (AGroup (put_attr k a' as))" by (rule attr_ok_put [OF assms(2,3)])
  show "attr_fresh (AGroup (put_attr k a' as)) = attr_fresh (AGroup as)"
    using map_put_same [of as k a attr_fresh a', OF assms(1) dist assms(4)] by simp
  show "saved (put_attr k a' as) = saved as"
    unfolding saved_def by (rule map_put_same [of as k a attr_saved a', OF assms(1) dist assms(5)])
qed

lemma assign_keeps:
  "state_assign path x as = (r, as') \<Longrightarrow> attr_ok (AGroup as) \<Longrightarrow> assign_typed path x as \<Longrightarrow>
   attr_ok (AGroup as') \<and> attr_fresh (AGroup as') = attr_fresh (AGroup as) \<and> saved as' = saved as"
proof (induction path arbitrary: as r as')
  case (Cons k ks)
  note prems = Cons.prems
  show ?case
  proof (cases "map_of as k")
    case None
    then show ?thesis using prems by simp
  next
    case a: (Some a)
    have ok: "attr_ok a" using prems(2) map_of_SomeD [OF a] by auto
    show ?thesis
    proof (cases a)
      case (ASetting s c)
      show ?thesis
      proof (cases "ks = []")
        case True
        obtain r' c' where c': "setting_set s x c = (r', c')" by (cases "setting_set s x c")
        have "typed s v" if "x = AssignTyped v" for v using prems(3) a ASetting True that by (simp add: assign_typed_def)
        then have "attr_ok (ASetting s c')" using setting_set_keeps(2) [OF c'] ok ASetting by simp
        moreover have "as' = put_attr k (ASetting s c') as" using prems(1) a ASetting True c' by simp
        moreover have "attr_fresh (ASetting s c') = attr_fresh a" "attr_saved (ASetting s c') = attr_saved a"
          using setting_set_keeps(1) [OF c'] ASetting by simp_all
        ultimately show ?thesis using put_keeps [OF a prems(2), of "ASetting s c'"] by blast
      qed (use prems a ASetting in simp)
    next
      case (ARuntime s c)
      show ?thesis
      proof (cases "ks = []")
        case True
        obtain r' c' where c': "setting_set s x c = (r', c')" by (cases "setting_set s x c")
        have "as' = put_attr k (ARuntime s c') as" using prems(1) a ARuntime True c' by simp
        then show ?thesis using put_keeps [OF a prems(2), of "ARuntime s c'"] setting_set_keeps(1) [OF c'] ARuntime by simp
      qed (use prems a ARuntime in simp)
    next
      case (AGroup bs)
      show ?thesis
      proof (cases "ks = []")
        case False
        obtain r' bs' where bs: "state_assign ks x bs = (r', bs')" by (cases "state_assign ks x bs")
        have as': "as' = put_attr k (AGroup bs') as" using prems(1) a AGroup False bs by simp
        have "lookup_attr (k # ks) as = lookup_attr ks bs" using a AGroup False by simp
        then have "assign_typed ks x bs" using prems(3) by (simp add: assign_typed_def)
        moreover have "attr_ok (AGroup bs)" using ok AGroup by simp
        ultimately have IH: "attr_ok (AGroup bs')" "attr_fresh (AGroup bs') = attr_fresh (AGroup bs)" "saved bs' = saved bs"
          using Cons.IH [OF bs] by blast+
        then have "attr_saved (AGroup bs') = attr_saved a" using AGroup by (simp add: saved_def)
        then show ?thesis using put_keeps [OF a prems(2) IH(1)] IH(2) AGroup as' by blast
      qed (use prems a AGroup in simp)
    qed
  qed
qed simp

text \<open>Reporting what has changed.\<close>

lemma synced_setting:
  "setting_get_modified s c = (m, c') \<Longrightarrow> setting_undo c' = c' \<and> values_at c' = values_at c \<and> (cell_typed s c \<longrightarrow> cell_typed s c')"
  by (auto simp: setting_get_modified_def setting_undo_def cell_typed_def cell_ok_def)

lemma attr_synced_keeps:
  "attr_ok a \<Longrightarrow> attr_ok (attr_synced a) \<and> attr_fresh (attr_synced a) = attr_fresh a \<and>
   attr_saved (attr_synced a) = attr_synced a \<and> attr_getstate (attr_synced a) = attr_getstate a \<and>
   (\<forall>n. attr_view n (attr_synced a) = attr_view n a)"
proof (induction a)
  case (ASetting s c)
  obtain m c' where c': "setting_get_modified s c = (m, c')" by (cases "setting_get_modified s c")
  from synced_setting [OF this] show ?case using ASetting c' by (simp add: setting_getstate_def setting_get_def)
next
  case (ARuntime s c)
  obtain m c' where c': "setting_get_modified s c = (m, c')" by (cases "setting_get_modified s c")
  from synced_setting [OF this] show ?case using c' by (simp add: runtime_getstate_def)
next
  case (AGroup as)
  have IH: "attr_ok (attr_synced (snd p)) \<and> attr_fresh (attr_synced (snd p)) = attr_fresh (snd p) \<and>
      attr_saved (attr_synced (snd p)) = attr_synced (snd p) \<and> attr_getstate (attr_synced (snd p)) = attr_getstate (snd p) \<and>
      (\<forall>n. attr_view n (attr_synced (snd p)) = attr_view n (snd p))" if "p \<in> set as" for p
  proof (rule AGroup.IH [OF that])
    show "snd p \<in> Basic_BNFs.snds p" by (simp add: snds.simps)
    show "attr_ok (snd p)" using AGroup.prems that by simp
  qed
  show ?case
  proof (intro conjI allI)
    show "attr_ok (attr_synced (AGroup as))" using IH AGroup.prems by (simp add: comp_def)
    show "attr_fresh (attr_synced (AGroup as)) = attr_fresh (AGroup as)"
      "attr_saved (attr_synced (AGroup as)) = attr_synced (AGroup as)"
      "attr_getstate (attr_synced (AGroup as)) = attr_getstate (AGroup as)"
      using IH by (simp_all add: comp_def)
    show "attr_view n (attr_synced (AGroup as)) = attr_view n (AGroup as)" for n
      unfolding attr_synced.simps using IH by (intro attr_view_concat_cong) blast
  qed
qed

lemma unmodified_setting:
  "cell_typed s c \<Longrightarrow> fst (setting_get_modified s c) = None \<Longrightarrow> setting_get s (setting_undo c) = setting_get s c"
  by (auto simp: cell_typed_def cell_ok_def setting_get_modified_def setting_get_def setting_undo_def split: if_splits)

lemma unmodified:
  "attr_ok a \<Longrightarrow> (\<And>m. m \<in> set (attr_modified n a) \<Longrightarrow> fst (snd m)) \<Longrightarrow> attr_view k (attr_saved a) = attr_view k a"
proof (induction a arbitrary: n k)
  case (ASetting s c)
  then have "fst (setting_get_modified s c) = None"
    by (cases "fst (setting_get_modified s c)") (auto simp: modified_entry_def)
  then show ?case using unmodified_setting ASetting by simp
next
  case (AGroup as)
  have "attr_view m (attr_saved (snd p)) = attr_view m (snd p)" if "p \<in> set as" for p m
  proof (rule AGroup.IH [OF that])
    show "snd p \<in> Basic_BNFs.snds p" by (simp add: snds.simps)
    show "attr_ok (snd p)" using AGroup.prems that by simp
    show "fst (snd m)" if "m \<in> set (attr_modified (n @ ''.'' @ fst p) (snd p))" for m
      using AGroup.prems(2) [of m] \<open>p \<in> set as\<close> that by auto
  qed
  then show ?case unfolding attr_saved.simps by (intro attr_view_concat_cong) auto
qed simp

lemma getstate_plain: "attr_ok a \<Longrightarrow> plain_state (attr_getstate a)"
proof (induction a)
  case (ASetting s c)
  then show ?case by (simp add: setting_getstate_def split: option.split)
next
  case (AGroup as)
  have "plain_state (attr_getstate (snd p))" if "p \<in> set as" for p
  proof (rule AGroup.IH [OF that])
    show "snd p \<in> Basic_BNFs.snds p" by (simp add: snds.simps)
    show "attr_ok (snd p)" using AGroup.prems that by simp
  qed
  then show ?case using AGroup.prems by (simp add: comp_def)
qed (simp add: runtime_getstate_def)

section \<open>What the manager does to one key\<close>

lemma cm_update_ok:
  "ks \<noteq> [] \<Longrightarrow> cm_get t ks = Inr (CDict d) \<or> cm_get t ks = Inl KeyError \<Longrightarrow> \<exists>t'. cm_update t ks data = (Inr (), t')"
proof (induction t ks data rule: cm_update.induct)
  case (3 d0 k ks data)
  let ?sub = "case map_of d0 (key_name k) of None \<Rightarrow> CDict [] | Some s \<Rightarrow> s"
  show ?case
  proof (cases "ks = []")
    case True
    then have "\<exists>e. ?sub = CDict e" using "3.prems"(2) by (auto split: option.splits)
    then show ?thesis using True by auto
  next
    case False
    then have "cm_get ?sub ks = Inr (CDict d) \<or> cm_get ?sub ks = Inl KeyError"
      using "3.prems"(2) by (simp add: child_get split: option.splits)
    then obtain t' where "cm_update ?sub ks data = (Inr (), t')" using "3.IH" [OF refl False False] by blast
    then show ?thesis using False by (auto simp: Let_def)
  qed
qed simp_all

lemma cm_insert_ok:
  "ks \<noteq> [] \<Longrightarrow> cm_get t ks = Inl KeyError \<Longrightarrow> \<exists>t'. cm_insert t ks (CDict d) = (Inr (), t')"
proof (induction t ks "CDict d" rule: cm_insert.induct)
  case (3 d0 k ks)
  let ?sub = "case map_of d0 (key_name k) of None \<Rightarrow> CDict [] | Some s \<Rightarrow> s"
  show ?case
  proof (cases "ks = []")
    case True
    then have "?sub = CDict []" using "3.prems"(2) by (auto split: option.splits)
    then show ?thesis using True by auto
  next
    case False
    then have "cm_get ?sub ks = Inl KeyError"
      using "3.prems"(2) by (simp add: child_get split: option.splits)
    then obtain t' where "cm_insert ?sub ks (CDict d) = (Inr (), t')" using 3(1) [OF refl False False] by blast
    then show ?thesis using False by (auto simp: Let_def)
  qed
qed simp_all

definition started :: "'b manager \<Rightarrow> bool" where
  "started m \<longleftrightarrow> cm_backend m \<noteq> None \<and> manager_wf m"

definition stored_at :: "'b manager \<Rightarrow> key list \<Rightarrow> cdict option" where
  "stored_at m ks = (case cm_get (cm_data m) ks of Inr (CDict d) \<Rightarrow> Some d | _ \<Rightarrow> None)"

definition free_at :: "'b manager \<Rightarrow> key list \<Rightarrow> bool" where
  "free_at m ks \<longleftrightarrow> cm_get (cm_data m) ks = Inl KeyError"

lemma update_at:
  assumes "started m" "ks \<noteq> []" "persistent (last ks)" "stored_at m ks = Some old \<or> free_at m ks \<and> old = []"
  shows "\<exists>m'. manager_update ks data m = (Inr (), m') \<and> started m' \<and> stored_at m' ks = Some (update_dict old data)"
proof -
  have get: "cm_get (cm_data m) ks = Inr (CDict old) \<or> cm_get (cm_data m) ks = Inl KeyError \<and> old = []"
    using assms(4) by (auto simp: stored_at_def free_at_def split: sum.splits cfg.splits)
  then obtain t where t: "cm_update (cm_data m) ks data = (Inr (), t)" using cm_update_ok [OF assms(2)] by blast
  have upd: "manager_update ks data m = (Inr (), m\<lparr>cm_data := t\<rparr>)"
    using assms(1,2) t by (simp add: manager_update_def started_def)
  have "base_node (cm_data m) ks = CDict old" using get by (auto simp: base_node_def)
  then have "cm_get t ks = Inr (CDict (update_dict old data))"
    using cm_get_update [OF assms(2) t] assms(3) by simp
  moreover have "started (m\<lparr>cm_data := t\<rparr>)"
    using manager_update_wf [of m ks data] upd assms(1) by (simp add: started_def)
  ultimately show ?thesis using upd by (simp add: stored_at_def)
qed

lemma rename_at:
  assumes "started m" "diverge ks ls" "stored_at m ks = Some d" "free_at m ls"
  shows "\<exists>m'. manager_rename ks ls m = (Inr (), m') \<and> started m' \<and> stored_at m' ls = Some d"
proof -
  have ne: "ks \<noteq> []" "ls \<noteq> []" using assms(2) diverge_not_Nil by auto
  have get: "cm_get (cm_data m) ks = Inr (CDict d)"
    using assms(3) by (auto simp: stored_at_def split: sum.splits cfg.splits)
  obtain t where pop: "cm_pop (cm_data m) ks = (Inr (CDict d), t)"
    using cm_pop_result [of "cm_data m" ks] get by (cases "cm_pop (cm_data m) ks") auto
  have free: "cm_get t ls = Inl KeyError"
    using cm_pop_frame [OF assms(2), of "cm_data m"] pop assms(4) by (simp add: free_at_def)
  obtain t' where ins: "cm_insert t ls (CDict d) = (Inr (), t')" using cm_insert_ok [OF ne(2) free] by blast
  have ren: "manager_rename ks ls m = (Inr (), m\<lparr>cm_data := t'\<rparr>)"
    using assms(1) ne pop ins by (simp add: manager_rename_def started_def)
  have "dwf d" using wf_cm_get [OF _ get] assms(1) by (simp add: started_def manager_wf_def wf_cdict_iff)
  then have "cm_get t' ls = Inr (CDict d)"
    using cm_get_insert [OF ne(2) ins] free by (simp add: base_dict_def fold_dset_Nil)
  moreover have "started (m\<lparr>cm_data := t'\<rparr>)"
    using manager_rename_wf [of m ks ls] ren assms(1) by (simp add: started_def)
  ultimately show ?thesis using ren by (simp add: stored_at_def)
qed

text \<open>Other keys are left alone.\<close>

definition same_at :: "'b manager \<Rightarrow> 'b manager \<Rightarrow> key list \<Rightarrow> bool" where
  "same_at m m' ks \<longleftrightarrow> cm_get (cm_data m') ks = cm_get (cm_data m) ks"

lemma update_same: "diverge ks ls \<Longrightarrow> manager_update ks data m = (r, m') \<Longrightarrow> same_at m m' ls"
  using cm_update_frame [of ks ls "cm_data m" data]
  by (auto simp: manager_update_def same_at_def split: prod.splits if_splits)

lemma delete_same: "diverge ks ls \<Longrightarrow> manager_delete ks m = (r, m') \<Longrightarrow> same_at m m' ls"
  using cm_pop_frame [of ks ls "cm_data m"]
  by (auto simp: manager_delete_def same_at_def split: prod.splits if_splits sum.splits pyerr.splits)

lemma rename_same: "diverge ks ls \<Longrightarrow> diverge ks' ls \<Longrightarrow> manager_rename ks ks' m = (r, m') \<Longrightarrow> same_at m m' ls"
  using cm_pop_frame [of ks ls "cm_data m"] cm_insert_frame [of ks' ls]
  by (auto simp: manager_rename_def same_at_def split: prod.splits if_splits sum.splits pyerr.splits) (metis snd_conv)+

lemma delete_started: "started m \<Longrightarrow> manager_delete ks m = (r, m') \<Longrightarrow> started m'"
  using manager_delete_wf [of m ks]
  by (auto simp: started_def manager_delete_def split: prod.splits if_splits sum.splits pyerr.splits)

lemma save_started: "started m \<Longrightarrow> manager_save f m = (r, m') \<Longrightarrow> started m' \<and> cm_data m' = cm_data m"
  by (auto simp: started_def manager_save_def manager_wf_def split: prod.splits option.splits)

lemma same_at_simps: "same_at m m' ks \<Longrightarrow> stored_at m' ks = stored_at m ks \<and> free_at m' ks = free_at m ks"
  by (simp add: same_at_def stored_at_def free_at_def)

lemma same_at_trans: "same_at m m' ks \<Longrightarrow> same_at m' m'' ks \<Longrightarrow> same_at m m'' ks"
  by (simp add: same_at_def)

lemma same_at_refl [simp]: "same_at m m ks" "cm_data m' = cm_data m \<Longrightarrow> same_at m m' ks"
  by (simp_all add: same_at_def)

lemma key_facts [simp]: "object_key oc x \<noteq> []" "persistent (last (object_key oc x))"
  by (simp_all add: object_key_def split: option.split)

lemma key_diverge: "x \<noteq> y \<Longrightarrow> diverge (object_key oc x) (object_key oc y)"
  by (simp add: object_key_def split: option.split)

section \<open>Objects and what is stored for them\<close>

text \<open>A fresh object reading what is stored under an id sees the saved values.\<close>

definition reads_back :: "('v, 'r, 'b) object_class \<Rightarrow> 'b manager \<Rightarrow> string \<Rightarrow> ('v, 'r) setting_attrs \<Rightarrow> bool" where
  "reads_back oc m x as \<longleftrightarrow> (\<exists>d. stored_at m (object_key oc x) = Some d \<and>
     (\<exists>failed as'. state_setstate d (oc_attrs oc) = (Inr (), failed, as') \<and> view as' = view (saved as)))"

definition class_ok :: "('v, 'r, 'b) object_class \<Rightarrow> bool" where
  "class_ok oc \<longleftrightarrow> attr_ok (AGroup (oc_attrs oc)) \<and> attr_fresh (AGroup (oc_attrs oc)) = AGroup (oc_attrs oc)"

definition attrs_ok :: "('v, 'r, 'b) object_class \<Rightarrow> ('v, 'r) setting_attrs \<Rightarrow> bool" where
  "attrs_ok oc as \<longleftrightarrow> attr_ok (AGroup as) \<and> attr_fresh (AGroup as) = AGroup (oc_attrs oc)"

definition object_ok :: "('v, 'r, 'b) object_class \<Rightarrow> 'b manager \<Rightarrow> string option \<Rightarrow> ('v, 'r) object \<Rightarrow> bool" where
  "object_ok oc m old ob \<longleftrightarrow> attrs_ok oc (ob_attrs ob) \<and>
     (case old of None \<Rightarrow> False
      | Some x \<Rightarrow> (case ob_state ob of
          ObNew \<Rightarrow> free_at m (object_key oc x)
        | ObActive \<Rightarrow> reads_back oc m x (ob_attrs ob)
        | ObDeleted \<Rightarrow> True
        | ObLoaded \<Rightarrow> False))"

definition world_ok :: "('v, 'r, 'b) object_class \<Rightarrow> ('v, 'r, 'b) settings_world \<Rightarrow> bool" where
  "world_ok oc w \<longleftrightarrow> started (wo_conf w) \<and> ids_ok (wo_ids w) \<and>
     (\<forall>i. case map_of (wo_objects w) i of
        None \<Rightarrow> map_of (id_values (wo_ids w)) i = None
      | Some ob \<Rightarrow> object_ok oc (wo_conf w) (map_of (id_oldvalues (wo_ids w)) i) ob)"

lemma object_ok_cong:
  "object_ok oc m old ob \<Longrightarrow> (\<And>x. old = Some x \<Longrightarrow> same_at m m' (object_key oc x)) \<Longrightarrow> object_ok oc m' old ob"
  using same_at_simps by (cases old; cases "ob_state ob") (fastforce simp: object_ok_def reads_back_def)+

lemma world_ok_object: "world_ok oc w \<Longrightarrow> map_of (wo_objects w) i = Some ob \<Longrightarrow>
  object_ok oc (wo_conf w) (map_of (id_oldvalues (wo_ids w)) i) ob"
  unfolding world_ok_def by (auto dest: spec [of _ i])

lemma world_ok_no_object: "world_ok oc w \<Longrightarrow> map_of (wo_objects w) i = None \<Longrightarrow>
  map_of (id_values (wo_ids w)) i = None \<and> map_of (id_oldvalues (wo_ids w)) i = None"
  unfolding world_ok_def ids_ok_def id_entry_ok_def by (auto dest!: spec [of _ i] split: option.splits)

text \<open>One object changes, the others and what is stored for them stay.\<close>

lemma world_ok_change:
  assumes "world_ok oc w" "started (wo_conf w')" "ids_ok (wo_ids w')"
    and "id_others i (wo_ids w) (wo_ids w')" "\<And>j. j \<noteq> i \<Longrightarrow> map_of (wo_objects w') j = map_of (wo_objects w) j"
    and "\<And>x. x \<notin> names_of (wo_ids w) i \<Longrightarrow> same_at (wo_conf w) (wo_conf w') (object_key oc x)"
    and "case map_of (wo_objects w') i of None \<Rightarrow> map_of (id_values (wo_ids w')) i = None
      | Some ob \<Rightarrow> object_ok oc (wo_conf w') (map_of (id_oldvalues (wo_ids w')) i) ob"
  shows "world_ok oc w'"
proof -
  have "case map_of (wo_objects w') j of None \<Rightarrow> map_of (id_values (wo_ids w')) j = None
      | Some ob \<Rightarrow> object_ok oc (wo_conf w') (map_of (id_oldvalues (wo_ids w')) j) ob" for j
  proof (cases "j = i")
    case False
    then have same: "map_of (wo_objects w') j = map_of (wo_objects w) j"
      "map_of (id_values (wo_ids w')) j = map_of (id_values (wo_ids w)) j"
      "map_of (id_oldvalues (wo_ids w')) j = map_of (id_oldvalues (wo_ids w)) j"
      using assms(4,5) by (simp_all add: id_others_def)
    show ?thesis
    proof (cases "map_of (wo_objects w) j")
      case None
      then show ?thesis using world_ok_no_object [OF assms(1) None] same by simp
    next
      case (Some ob)
      have "same_at (wo_conf w) (wo_conf w') (object_key oc x)" if "map_of (id_oldvalues (wo_ids w)) j = Some x" for x
      proof (rule assms(6))
        have "x \<in> names_of (wo_ids w) j" using that by (simp add: names_of_def)
        moreover have "names_of (wo_ids w) i \<inter> names_of (wo_ids w) j = {}"
          using assms(1) False by (auto simp: world_ok_def ids_ok_def)
        ultimately show "x \<notin> names_of (wo_ids w) i" by blast
      qed
      then show ?thesis using object_ok_cong [OF world_ok_object [OF assms(1) Some]] Some same by simp
    qed
  next
    case True
    show ?thesis unfolding True by (rule assms(7))
  qed
  then show ?thesis using assms(2,3) by (simp add: world_ok_def)
qed

lemma add_notes_simps [simp]: "wo_conf (add_notes ns w) = wo_conf w" "wo_ids (add_notes ns w) = wo_ids w" "wo_objects (add_notes ns w) = wo_objects w"
  by (simp_all add: add_notes_def)

lemma put_object_simps [simp]:
  "wo_conf (put_object i ob w) = wo_conf w" "wo_ids (put_object i ob w) = wo_ids w"
  "map_of (wo_objects (put_object i ob w)) = (map_of (wo_objects w))(i \<mapsto> ob)"
  by (simp_all add: put_object_def map_of_dset)

lemma conf_save_simps [simp]:
  "wo_ids (conf_save oc i w) = wo_ids w" "wo_objects (conf_save oc i w) = wo_objects w"
  by (simp_all add: conf_save_def split: prod.split sum.split)

lemma conf_save_conf:
  assumes "started (wo_conf w)"
  shows "started (wo_conf (conf_save oc i w))" "same_at (wo_conf w) (wo_conf (conf_save oc i w)) ks"
proof -
  obtain r m where m: "manager_save (oc_save oc) (wo_conf w) = (r, m)" by (cases "manager_save (oc_save oc) (wo_conf w)")
  then have "wo_conf (conf_save oc i w) = m" by (cases r) (simp_all add: conf_save_def)
  then show "started (wo_conf (conf_save oc i w))" "same_at (wo_conf w) (wo_conf (conf_save oc i w)) ks"
    using save_started [OF assms m] by simp_all
qed

lemma saved_fresh: "attr_saved (attr_fresh a) = attr_fresh a"
proof (induction a)
  case (AGroup as)
  have "attr_saved (attr_fresh (snd p)) = attr_fresh (snd p)" if "p \<in> set as" for p
    by (rule AGroup.IH [OF that]) (simp add: snds.simps)
  then show ?case by simp
qed (simp_all add: setting_undo_def cell_init_def)

lemma class_saved: "class_ok oc \<Longrightarrow> saved (oc_attrs oc) = oc_attrs oc"
  using saved_fresh [of "AGroup (oc_attrs oc)"] by (simp add: class_ok_def saved_def)

lemma object_ok_conf_save:
  "started (wo_conf w) \<Longrightarrow> object_ok oc (wo_conf w) old ob \<Longrightarrow> object_ok oc (wo_conf (conf_save oc i w)) old ob"
  by (erule object_ok_cong) (erule conf_save_conf(2))

section \<open>Every operation keeps it\<close>

lemma object_new_ok:
  assumes "world_ok oc w" "class_ok oc" "map_of (wo_objects w) i = None" "object_new oc i raw w = (r, w')"
  shows "world_ok oc w'"
proof -
  note none = world_ok_no_object [OF assms(1,3)]
  have world_post: "world_ok oc (add_notes ns w)" for ns using assms(1) by (simp only: world_ok_def add_notes_simps simp_thms)
  have made: "world_ok oc w2"
    if set: "id_set (oc_id_type oc) i raw (wo_ids w) = (Inr (), m)" and x: "id_get i m = Inr x"
      and w2: "wo_conf w2 = wo_conf w" "wo_ids w2 = m" "map_of (wo_objects w2) = (map_of (wo_objects w))(i \<mapsto> ob)"
      and ob: "\<And>old. old = Some x \<Longrightarrow> object_ok oc (wo_conf w) old ob" for m x ob w2
  proof -
    have "map_of (id_oldvalues m) i = Some x"
      using set x none by (auto simp: id_set_def id_get_def map_of_dset split: sum.splits if_splits)
    then show ?thesis
      using assms(1) id_set_ok [OF _ set] id_set_others [OF set] ob w2
      by (intro world_ok_change [OF assms(1), of w2 i]) (simp_all add: world_ok_def)
  qed
  show ?thesis
  proof (cases "w' = w")
    case False
    then have raw: "raw \<noteq> []" using assms(4) by (auto simp: object_new_def)
    from False obtain m x where set: "id_set (oc_id_type oc) i raw (wo_ids w) = (Inr (), m)" and x: "id_get i m = Inr x"
      using assms(4) by (auto simp: object_new_def split: prod.splits sum.splits if_splits)
    show ?thesis
    proof (cases "manager_get (object_key oc x) (wo_conf w)")
      case (Inl e)
      then have e: "e = ObjectNotFoundError" using assms(4) set x False
        by (cases e) (simp_all add: object_new_def split: if_splits)
      then have "free_at (wo_conf w) (object_key oc x)" using Inl by (simp add: manager_get_missing free_at_def)
      then show ?thesis
        using assms(2,4) set x Inl e False
        by (intro made [OF set x, of w' "\<lparr>ob_state = ObNew, ob_attrs = oc_attrs oc\<rparr>"])
          (auto simp: object_new_def object_ok_def attrs_ok_def class_ok_def split: if_splits)
    next
      case (Inr c)
      then obtain d where c: "c = CDict d" using assms(4) set x False
        by (cases c) (simp_all add: object_new_def split: if_splits)
      have at: "stored_at (wo_conf w) (object_key oc x) = Some d"
        using Inr c by (auto simp: manager_get_Inr stored_at_def)
      obtain r' failed as where as: "state_setstate d (oc_attrs oc) = (r', failed, as)"
        by (cases "state_setstate d (oc_attrs oc)") auto
      show ?thesis
      proof (cases r')
        case (Inl e)
        then show ?thesis using assms(4) set x Inr c as world_post [of "[LoadFailed i failed]"] raw
          by (simp add: object_new_def)
      next
        case r': (Inr u)
        have ok: "attr_ok (AGroup as)" "attr_fresh (AGroup as) = AGroup (oc_attrs oc)" "saved as = as"
          using setstate_keeps(2) [OF as] assms(2) class_saved [OF assms(2)] by (simp_all add: class_ok_def del: attr_ok.simps attr_fresh.simps)
        then have "reads_back oc (wo_conf w) x as" using at as r' by (auto simp: reads_back_def)
        then show ?thesis
          using assms(4) set x Inr c as r' ok False
          by (intro made [OF set x, of w' "\<lparr>ob_state = ObActive, ob_attrs = as\<rparr>"])
            (auto simp: object_new_def object_ok_def attrs_ok_def split: if_splits)
      qed
    qed
  qed (use assms(1) in simp)
qed

lemma object_assign_ok:
  assumes "world_ok oc w" "object_assign i path x w = (r, w')"
    and "\<And>ob. map_of (wo_objects w) i = Some ob \<Longrightarrow> assign_typed path x (ob_attrs ob)"
  shows "world_ok oc w'"
proof (cases "map_of (wo_objects w) i")
  case None
  then show ?thesis using assms(1,2) by (simp add: object_assign_def)
next
  case (Some ob)
  obtain r' as where as: "state_assign path x (ob_attrs ob) = (r', as)" by (cases "state_assign path x (ob_attrs ob)")
  have ok: "object_ok oc (wo_conf w) (map_of (id_oldvalues (wo_ids w)) i) ob" by (rule world_ok_object [OF assms(1) Some])
  then have "attr_ok (AGroup (ob_attrs ob))" "attr_fresh (AGroup (ob_attrs ob)) = AGroup (oc_attrs oc)"
    by (simp_all only: object_ok_def attrs_ok_def)
  then have new: "attrs_ok oc as" "saved as = saved (ob_attrs ob)"
    using assign_keeps [OF as] assms(3) [OF Some] by (simp_all only: attrs_ok_def simp_thms)
  have "object_ok oc (wo_conf w) (map_of (id_oldvalues (wo_ids w)) i) (ob\<lparr>ob_attrs := as\<rparr>)"
    using ok new by (cases "map_of (id_oldvalues (wo_ids w)) i"; cases "ob_state ob") (simp_all add: object_ok_def reads_back_def)
  moreover have "w' = put_object i (ob\<lparr>ob_attrs := as\<rparr>) w" using assms(2) Some as by (simp add: object_assign_def)
  ultimately show ?thesis
    using assms(1) by (intro world_ok_change [OF assms(1), of w' i]) (simp_all add: world_ok_def id_others_def)
qed

lemma object_set_id_ok:
  assumes "world_ok oc w" "object_set_id oc i raw w = (r, w')"
  shows "world_ok oc w'"
proof (cases "map_of (wo_objects w) i")
  case None
  then show ?thesis using assms(1,2) by (simp add: object_set_id_def)
next
  case (Some ob)
  obtain r' m where m: "id_set (oc_id_type oc) i raw (wo_ids w) = (r', m)" by (cases "id_set (oc_id_type oc) i raw (wo_ids w)")
  then have w': "w' = w\<lparr>wo_ids := m\<rparr>" using assms(2) Some by (simp add: object_set_id_def)
  have ids: "ids_ok (wo_ids w)" using assms(1) by (simp add: world_ok_def)
  have ok: "object_ok oc (wo_conf w) (map_of (id_oldvalues (wo_ids w)) i) ob" by (rule world_ok_object [OF assms(1) Some])
  then obtain x where "map_of (id_oldvalues (wo_ids w)) i = Some x" by (auto simp: object_ok_def split: option.splits)
  then have "map_of (id_values (wo_ids w)) i \<noteq> None" using ids_entry [OF ids, of i] by (auto simp: id_entry_ok_def split: option.splits)
  then have "map_of (id_oldvalues m) i = map_of (id_oldvalues (wo_ids w)) i"
    using m by (auto simp: id_set_def split: sum.splits if_splits)
  then show ?thesis
    using assms(1) ok Some w' id_set_ok [OF ids m] id_set_others [OF m]
    by (intro world_ok_change [OF assms(1), of w' i]) (simp_all add: world_ok_def)
qed

lemma object_collected_ok: "world_ok oc w \<Longrightarrow> world_ok oc (object_collected i w)"
  using id_collected_ok [of "wo_ids w" i] id_collected_others [of i "wo_ids w"]
  by (intro world_ok_change [of oc w "object_collected i w" i])
    (simp_all add: world_ok_def object_collected_def map_of_ddel id_collected_def)

text \<open>The names of an object whose id may have been changed.\<close>

lemma object_names:
  assumes "world_ok oc w" "map_of (wo_objects w) i = Some ob"
  obtains x y where "map_of (id_oldvalues (wo_ids w)) i = Some x" "map_of (id_values (wo_ids w)) i = Some y"
    "map_of (id_dirty (wo_ids w)) i = Some (x \<noteq> y)" "names_of (wo_ids w) i = {x, y}"
proof -
  have "object_ok oc (wo_conf w) (map_of (id_oldvalues (wo_ids w)) i) ob" by (rule world_ok_object [OF assms])
  then obtain x where x: "map_of (id_oldvalues (wo_ids w)) i = Some x" by (auto simp: object_ok_def split: option.splits)
  have "ids_ok (wo_ids w)" using assms(1) by (simp add: world_ok_def)
  from ids_entry [OF this, of i] x obtain y where y: "map_of (id_values (wo_ids w)) i = Some y"
    "map_of (id_dirty (wo_ids w)) i = Some (y \<noteq> x)"
    by (auto simp: id_entry_ok_def split: option.splits)
  then show ?thesis using x by (intro that [of x y]) (auto simp: names_of_def)
qed

lemma object_delete_ok:
  assumes "world_ok oc w" "object_delete oc i w = (r, w')"
  shows "world_ok oc w'"
proof (cases "map_of (wo_objects w) i")
  case None
  then show ?thesis using assms by (simp add: object_delete_def)
next
  case (Some ob)
  show ?thesis
  proof (cases "ob_state ob = ObDeleted")
    case True
    then show ?thesis using assms Some by (simp add: object_delete_def)
  next
    case False
    obtain x y where x: "map_of (id_oldvalues (wo_ids w)) i = Some x" "names_of (wo_ids w) i = {x, y}"
      by (rule object_names [OF assms(1) Some])
    obtain rd m where m: "manager_delete (object_key oc x) (wo_conf w) = (rd, m)" by (cases "manager_delete (object_key oc x) (wo_conf w)")
    have st: "started (wo_conf w)" and ids: "ids_ok (wo_ids w)" using assms(1) by (simp_all add: world_ok_def)
    have "started m" by (rule delete_started [OF st m])
    define w1 where "w1 = (put_object i (ob\<lparr>ob_state := ObDeleted\<rparr>) w)\<lparr>wo_conf := m\<rparr>"
    have w1: "wo_conf w1 = m" "wo_ids w1 = wo_ids w" "map_of (wo_objects w1) = (map_of (wo_objects w))(i \<mapsto> ob\<lparr>ob_state := ObDeleted\<rparr>)"
      by (simp_all add: w1_def put_object_def map_of_dset)
    have w': "w' = w1 \<or> w' = conf_save oc i (add_notes [WasDeleted i] w1)"
      using assms(2) Some False x m
      by (auto simp: object_delete_def Let_def id_get_old_def conf_step_def w1_def put_object_def split: sum.splits)
    have "started (wo_conf w')" "wo_ids w' = wo_ids w" "wo_objects w' = wo_objects w1"
      using w' w1 \<open>started m\<close> conf_save_conf(1) [of "add_notes [WasDeleted i] w1" oc i] by auto
    moreover have "same_at (wo_conf w) (wo_conf w') (object_key oc z)" if "z \<noteq> x" for z
    proof -
      have "same_at (wo_conf w) m (object_key oc z)" using that by (intro delete_same [OF key_diverge m]) simp
      moreover have "same_at m (wo_conf w') (object_key oc z)"
        using w' w1 conf_save_conf(2) [of "add_notes [WasDeleted i] w1" oc i] \<open>started m\<close> by auto
      ultimately show ?thesis by (rule same_at_trans)
    qed
    moreover have "object_ok oc (wo_conf w') (Some x) (ob\<lparr>ob_state := ObDeleted\<rparr>)"
      using world_ok_object [OF assms(1) Some] by (simp add: object_ok_def split: option.splits)
    ultimately show ?thesis
      using ids w1 x by (intro world_ok_change [OF assms(1), of w' i]) (auto simp: id_others_def)
  qed
qed

text \<open>Saving. An object may be renamed to an id under which nothing is stored.\<close>

definition may_save :: "('v, 'r, 'b) object_class \<Rightarrow> nat \<Rightarrow> ('v, 'r, 'b) settings_world \<Rightarrow> bool" where
  "may_save oc i w \<longleftrightarrow> (\<forall>x. map_of (id_values (wo_ids w)) i = Some x \<longrightarrow>
     map_of (id_oldvalues (wo_ids w)) i \<noteq> Some x \<longrightarrow> free_at (wo_conf w) (object_key oc x))"

lemma state_synced:
  assumes "attrs_ok oc as" "state_get_modified as = (md, as')"
  shows "attrs_ok oc as'" "saved as' = as'" "view as' = view as"
    and "(\<forall>(name, runtime, v)\<in>set md. runtime) \<Longrightarrow> view (saved as) = view as"
proof -
  have as': "AGroup as' = attr_synced (AGroup as)" using assms(2) by (auto simp: state_get_modified_def)
  have ok: "attr_ok (AGroup as)" "attr_fresh (AGroup as) = AGroup (oc_attrs oc)" using assms(1) by (simp_all only: attrs_ok_def)
  note keeps = attr_synced_keeps [OF ok(1)]
  show "attrs_ok oc as'" unfolding attrs_ok_def as' using keeps ok(2) by (simp only: simp_thms)
  have "attr_saved (AGroup as') = AGroup as'" unfolding as' using keeps by (simp only: simp_thms)
  then show "saved as' = as'" by (simp add: saved_def)
  show "view as' = view as" unfolding view_def as' using keeps by (simp only: simp_thms)
  assume rt: "\<forall>(name, runtime, v)\<in>set md. runtime"
  have "attr_view (k @ ''.'' @ fst p) (attr_saved (snd p)) = attr_view (k @ ''.'' @ fst p) (snd p)" if "p \<in> set as" for p k
  proof (rule unmodified)
    show "attr_ok (snd p)" using ok(1) that by simp
    show "fst (snd e)" if "e \<in> set (attr_modified (fst p) (snd p))" for e
      using rt assms(2) that \<open>p \<in> set as\<close> by (cases e) (force simp: state_get_modified_def)
  qed
  then show "view (saved as) = view as"
    unfolding view_def saved_def by (intro attr_view_concat_cong)
qed

lemma reads_back_updated:
  assumes "started m" "class_ok oc" "attrs_ok oc as" "saved as = as"
    and "stored_at m (object_key oc x) = Some (update_dict old (state_getstate as))"
  shows "reads_back oc m x as"
proof -
  let ?d = "update_dict old (state_getstate as)"
  have ok: "attr_ok (AGroup as)" "attr_fresh (AGroup as) = AGroup (oc_attrs oc)" using assms(3) by (simp_all only: attrs_ok_def)
  have plain: "plain_state (NDict (state_getstate as))" using getstate_plain [OF ok(1)] by (simp add: state_getstate_def)
  have "holds (state_getstate as) ?d" using plain by (intro update_holds) auto
  then have "stored_as (attr_getstate (AGroup as)) (Some (CDict ?d))"
    by (simp add: state_getstate_def holds_def node_dict_def)
  moreover have "wf_cfg (CDict ?d)"
    using assms(1,5) wf_cm_get [of "cm_data m" "object_key oc x"]
    by (auto simp: stored_at_def started_def manager_wf_def split: sum.splits cfg.splits)
  ultimately obtain a' where a': "attr_setstate (CDict ?d) (attr_fresh (AGroup as)) = (Inr (), [], a')" "\<forall>n. attr_view n a' = attr_view n (AGroup as)"
    using restored [OF ok(1)] by blast
  then obtain as' where "state_setstate ?d (oc_attrs oc) = (Inr (), [], as')" "a' = AGroup as'"
    unfolding ok(2) by (auto split: prod.splits)
  then show ?thesis using assms(4,5) spec [OF a'(2), of "[]"] by (auto simp: reads_back_def view_def)
qed

lemma reads_back_cong: "reads_back oc m x as \<Longrightarrow> stored_at m' (object_key oc y) = stored_at m (object_key oc x) \<Longrightarrow>
  view (saved as') = view (saved as) \<Longrightarrow> reads_back oc m' y as'"
  by (simp add: reads_back_def)

lemma reads_back_stored: "reads_back oc m x as \<Longrightarrow> \<exists>d. stored_at m (object_key oc x) = Some d"
  by (auto simp: reads_back_def)

lemma object_save_ok:
  assumes "world_ok oc w" "class_ok oc" "may_save oc i w" "object_save oc i w = (r, w')"
  shows "world_ok oc w'"
proof (cases "map_of (wo_objects w) i")
  case None
  then show ?thesis using assms by (simp add: object_save_def)
next
  case (Some ob)
  have ok: "object_ok oc (wo_conf w) (map_of (id_oldvalues (wo_ids w)) i) ob" by (rule world_ok_object [OF assms(1) Some])
  obtain x y where x: "map_of (id_oldvalues (wo_ids w)) i = Some x" and y: "map_of (id_values (wo_ids w)) i = Some y"
    and dirty: "map_of (id_dirty (wo_ids w)) i = Some (x \<noteq> y)" and names: "names_of (wo_ids w) i = {x, y}"
    by (rule object_names [OF assms(1) Some])
  have st: "started (wo_conf w)" and ids: "ids_ok (wo_ids w)" using assms(1) by (simp_all add: world_ok_def)
  define m where "m = (wo_ids w)\<lparr>id_oldvalues := dset i y (id_oldvalues (wo_ids w)), id_dirty := dset i False (id_dirty (wo_ids w))\<rparr>"
  have m: "id_get_modified i (wo_ids w) = (Inr (if x \<noteq> y then Some (x, y) else None), m)"
    using x y dirty by (simp add: id_get_modified_def m_def)
  have m_ids: "ids_ok m" "id_others i (wo_ids w) m" by (rule id_get_modified_ok [OF ids m], rule id_get_modified_others [OF m])
  have m_at: "map_of (id_oldvalues m) i = Some y" "id_get i m = Inr y"
    using y by (simp_all add: m_def id_get_def map_of_dset)
  obtain md as where as: "state_get_modified (ob_attrs ob) = (md, as)" by (cases "state_get_modified (ob_attrs ob)")
  have setting_attrs: "attrs_ok oc (ob_attrs ob)" using ok by (simp add: object_ok_def)
  note synced = state_synced [OF setting_attrs as]
  let ?key = "object_key oc y"
  define w1 where "w1 = put_object i (ob\<lparr>ob_attrs := as\<rparr>) (w\<lparr>wo_ids := m\<rparr>)"
  have changed: "world_ok oc w2"
    if "started (wo_conf w2)" "wo_ids w2 = m" "map_of (wo_objects w2) = (map_of (wo_objects w))(i \<mapsto> ob2)"
      "\<And>z. z \<noteq> x \<Longrightarrow> z \<noteq> y \<Longrightarrow> same_at (wo_conf w) (wo_conf w2) (object_key oc z)"
      "object_ok oc (wo_conf w2) (Some y) ob2" for w2 ob2
    using that m_ids m_at names by (intro world_ok_change [OF assms(1), of w2 i]) simp_all
  show ?thesis
  proof (cases "ob_state ob")
    case ObDeleted
    then show ?thesis using assms(1,4) Some by (simp add: object_save_def)
  next
    case ObLoaded
    then show ?thesis using ok by (simp add: object_ok_def split: option.splits)
  next
    case ObNew
    have free: "free_at (wo_conf w) ?key"
    proof (cases "x = y")
      case True
      then show ?thesis using ok x ObNew by (simp add: object_ok_def)
    next
      case False
      then show ?thesis using assms(3) x y by (simp add: may_save_def)
    qed
    obtain cm where cm: "manager_update ?key (state_getstate as) (wo_conf w) = (Inr (), cm)" "started cm"
      "stored_at cm ?key = Some (update_dict [] (state_getstate as))"
      using update_at [OF st key_facts, of _ y "[]" "state_getstate as"] free by blast
    define w2 where "w2 = add_notes [WasActivated i, WasCreated i] (put_object i \<lparr>ob_state = ObActive, ob_attrs = as\<rparr> (w1\<lparr>wo_conf := cm\<rparr>))"
    have w2: "wo_conf w2 = cm" "wo_ids w2 = m" "map_of (wo_objects w2) = (map_of (wo_objects w))(i \<mapsto> \<lparr>ob_state = ObActive, ob_attrs = as\<rparr>)"
      by (simp_all add: w2_def w1_def put_object_def add_notes_def map_of_dset)
    have "w' = conf_save oc i w2"
      using assms(4) Some ObNew x m m_at as cm(1)
      by (simp add: object_save_def id_get_old_def conf_step_def w1_def w2_def put_object_def)
    moreover have "world_ok oc (conf_save oc i w2)"
    proof (rule changed)
      show "started (wo_conf (conf_save oc i w2))" by (rule conf_save_conf) (simp add: w2 cm)
      show "wo_ids (conf_save oc i w2) = m" "map_of (wo_objects (conf_save oc i w2)) = (map_of (wo_objects w))(i \<mapsto> \<lparr>ob_state = ObActive, ob_attrs = as\<rparr>)"
        using w2 by simp_all
      show "same_at (wo_conf w) (wo_conf (conf_save oc i w2)) (object_key oc z)" if "z \<noteq> y" for z
        using update_same [OF key_diverge cm(1), of z] that conf_save_conf(2) [of w2 oc i] w2 cm(2)
        by (auto intro: same_at_trans)
      have "reads_back oc cm y as" by (rule reads_back_updated [OF cm(2) assms(2) synced(1,2) cm(3)])
      then have "object_ok oc (wo_conf w2) (Some y) \<lparr>ob_state = ObActive, ob_attrs = as\<rparr>"
        using synced(1) w2 by (simp add: object_ok_def)
      then show "object_ok oc (wo_conf (conf_save oc i w2)) (Some y) \<lparr>ob_state = ObActive, ob_attrs = as\<rparr>"
        using w2 cm(2) by (intro object_ok_conf_save) simp_all
    qed
    ultimately show ?thesis by simp
  next
    case ObActive
    have reads: "reads_back oc (wo_conf w) x (ob_attrs ob)" using ok x ObActive by (simp add: object_ok_def)
    let ?ob = "ob\<lparr>ob_attrs := as\<rparr>"
    have w1: "wo_conf w1 = wo_conf w" "wo_ids w1 = m" "map_of (wo_objects w1) = (map_of (wo_objects w))(i \<mapsto> ?ob)"
      by (simp_all add: w1_def put_object_def map_of_dset)
    have unchanged: "world_ok oc w2" if "x = y" "\<forall>(name, runtime, v)\<in>set md. runtime"
      "wo_conf w2 = wo_conf w" "wo_ids w2 = m" "map_of (wo_objects w2) = (map_of (wo_objects w))(i \<mapsto> ?ob)" for w2
    proof (rule changed)
      have "reads_back oc (wo_conf w) y as"
        using reads_back_cong [OF reads, of "wo_conf w" y as] that(1) synced(2,3) synced(4) [OF that(2)] by simp
      then show "object_ok oc (wo_conf w2) (Some y) ?ob" using synced(1) ObActive that(3) by (simp add: object_ok_def)
    qed (use that st in simp_all)
    show ?thesis
    proof (cases "x = y \<and> (\<forall>(name, runtime, v)\<in>set md. runtime)")
      case True
      have "w' = w1 \<or> w' = add_notes [DidChange i None md] w1"
        using assms(4) Some ObActive x m m_at as True
        by (cases "md = []") (simp_all add: object_save_def id_get_old_def w1_def)
      then show ?thesis using unchanged [of w1] unchanged [of "add_notes [DidChange i None md] w1"] True w1 by auto
    next
      case False
      obtain d where d: "stored_at (wo_conf w) (object_key oc x) = Some d" using reads_back_stored [OF reads] by blast
      obtain c1 where c1: "(if x \<noteq> y then manager_rename (object_key oc x) ?key (wo_conf w) else (Inr (), wo_conf w)) = (Inr (), c1)"
        "started c1" "stored_at c1 ?key = Some d"
      proof (cases "x = y")
        case True
        then show ?thesis using st d that by simp
      next
        case ne: False
        then have "free_at (wo_conf w) ?key" using assms(3) x y by (simp add: may_save_def)
        from rename_at [OF st key_diverge [OF ne] d this] show ?thesis using ne that by auto
      qed
      obtain c2 where c2: "(if md \<noteq> [] then manager_update ?key (state_getstate as) c1 else (Inr (), c1)) = (Inr (), c2)" "started c2"
        and stored: "stored_at c2 ?key = Some (if md \<noteq> [] then update_dict d (state_getstate as) else d)"
      proof (cases "md = []")
        case True
        then show ?thesis using c1 that by simp
      next
        case ne: False
        from update_at [OF c1(2) key_facts, of _ y d "state_getstate as"] c1(3) show ?thesis using ne that by auto
      qed
      have readable: "reads_back oc c2 y as"
      proof (cases "md = []")
        case True
        then show ?thesis
          using reads_back_cong [OF reads, of c2 y as] stored d synced(2,3,4) by simp
      next
        case ne: False
        then show ?thesis using reads_back_updated [OF c2(2) assms(2) synced(1,2)] stored by simp
      qed
      define w2 where "w2 = add_notes [DidChange i (if x \<noteq> y then Some (x, y) else None) md] (w1\<lparr>wo_conf := c2\<rparr>)"
      have w2: "wo_conf w2 = c2" "wo_ids w2 = m" "map_of (wo_objects w2) = (map_of (wo_objects w))(i \<mapsto> ?ob)"
        using w1 by (simp_all add: w2_def)
      have "w' = conf_save oc i w2"
        using assms(4) Some ObActive x m m_at as False c1(1) c2(1)
        by (auto simp: object_save_def id_get_old_def w1_def w2_def conf_step_def put_object_def Let_def split: if_splits)
      moreover have "world_ok oc (conf_save oc i w2)"
      proof (rule changed)
        show "started (wo_conf (conf_save oc i w2))" by (rule conf_save_conf) (simp add: w2 c2)
        show "wo_ids (conf_save oc i w2) = m" "map_of (wo_objects (conf_save oc i w2)) = (map_of (wo_objects w))(i \<mapsto> ?ob)"
          using w2 by simp_all
        show "same_at (wo_conf w) (wo_conf (conf_save oc i w2)) (object_key oc z)" if "z \<noteq> x" "z \<noteq> y" for z
        proof -
          have "same_at (wo_conf w) c1 (object_key oc z)"
            using c1(1) that rename_same [OF key_diverge key_diverge, of x z y] by (auto split: if_splits)
          moreover have "same_at c1 c2 (object_key oc z)"
            using c2(1) that update_same [OF key_diverge, of y z] by (auto split: if_splits)
          moreover have "same_at c2 (wo_conf (conf_save oc i w2)) (object_key oc z)"
            using conf_save_conf(2) [of w2 oc i] w2 c2(2) by simp
          ultimately show ?thesis by (meson same_at_trans)
        qed
        have "object_ok oc (wo_conf w2) (Some y) ?ob"
          using readable synced(1) w2 ObActive by (simp add: object_ok_def)
        then show "object_ok oc (wo_conf (conf_save oc i w2)) (Some y) ?ob"
          using w2 c2(2) by (intro object_ok_conf_save) simp_all
      qed
      ultimately show ?thesis by simp
    qed
  qed
qed

section \<open>Settings objects over time\<close>

datatype ('v, 'r) object_op =
    Obj_New nat string
  | Obj_Assign nat "string list" "('v, 'r) assigned"
  | Obj_Set_Id nat string
  | Obj_Save nat
  | Obj_Delete nat
  | Obj_Collect nat

fun object_do :: "('v, 'r, 'b) object_class \<Rightarrow> ('v, 'r) object_op \<Rightarrow> ('v, 'r, 'b) settings_world \<Rightarrow> ('v, 'r, 'b) settings_world" where
  "object_do oc (Obj_New i x) w = snd (object_new oc i x w)"
| "object_do oc (Obj_Assign i path a) w = snd (object_assign i path a w)"
| "object_do oc (Obj_Set_Id i x) w = snd (object_set_id oc i x w)"
| "object_do oc (Obj_Save i) w = snd (object_save oc i w)"
| "object_do oc (Obj_Delete i) w = snd (object_delete oc i w)"
| "object_do oc (Obj_Collect i) w = object_collected i w"

text \<open>A new instance is a new object, values assigned as they are belong to the setting's type, and
  an id that an object is saved under for the first time has nothing stored yet.\<close>

fun op_allowed :: "('v, 'r, 'b) object_class \<Rightarrow> ('v, 'r) object_op \<Rightarrow> ('v, 'r, 'b) settings_world \<Rightarrow> bool" where
  "op_allowed oc (Obj_New i x) w = (map_of (wo_objects w) i = None)"
| "op_allowed oc (Obj_Assign i path a) w =
     (case map_of (wo_objects w) i of None \<Rightarrow> True | Some ob \<Rightarrow> assign_typed path a (ob_attrs ob))"
| "op_allowed oc (Obj_Save i) w = may_save oc i w"
| "op_allowed oc op w = True"

fun object_run :: "('v, 'r, 'b) object_class \<Rightarrow> ('v, 'r) object_op list \<Rightarrow> ('v, 'r, 'b) settings_world \<Rightarrow> ('v, 'r, 'b) settings_world" where
  "object_run oc [] w = w"
| "object_run oc (op # ops) w = object_run oc ops (object_do oc op w)"

fun run_allowed :: "('v, 'r, 'b) object_class \<Rightarrow> ('v, 'r) object_op list \<Rightarrow> ('v, 'r, 'b) settings_world \<Rightarrow> bool" where
  "run_allowed oc [] w = True"
| "run_allowed oc (op # ops) w = (op_allowed oc op w \<and> run_allowed oc ops (object_do oc op w))"

definition world_init :: "'b manager \<Rightarrow> ('v, 'r, 'b) settings_world" where
  "world_init m = \<lparr>wo_conf = m, wo_ids = id_map_init, wo_objects = [], wo_log = []\<rparr>"

lemma world_init_ok: "started m \<Longrightarrow> world_ok oc (world_init m)"
  by (simp add: world_ok_def world_init_def ids_ok_init) (simp add: id_map_init_def)

lemma object_do_ok: "class_ok oc \<Longrightarrow> world_ok oc w \<Longrightarrow> op_allowed oc op w \<Longrightarrow> world_ok oc (object_do oc op w)"
proof (cases op)
  case (Obj_New i x)
  then show "class_ok oc \<Longrightarrow> world_ok oc w \<Longrightarrow> op_allowed oc op w \<Longrightarrow> ?thesis"
    by (cases "object_new oc i x w") (simp add: object_new_ok)
next
  case (Obj_Assign i path a)
  assume "world_ok oc w" "op_allowed oc op w"
  then show ?thesis using Obj_Assign object_assign_ok [of oc w i path a]
    by (cases "object_assign i path a w"; cases "map_of (wo_objects w) i") simp_all
next
  case (Obj_Set_Id i x)
  then show "class_ok oc \<Longrightarrow> world_ok oc w \<Longrightarrow> op_allowed oc op w \<Longrightarrow> ?thesis"
    by (cases "object_set_id oc i x w") (simp add: object_set_id_ok)
next
  case (Obj_Save i)
  assume "class_ok oc" "world_ok oc w" "op_allowed oc op w"
  then show ?thesis using Obj_Save object_save_ok [of oc w i]
    by (cases "object_save oc i w") simp
next
  case (Obj_Delete i)
  then show "class_ok oc \<Longrightarrow> world_ok oc w \<Longrightarrow> op_allowed oc op w \<Longrightarrow> ?thesis"
    by (cases "object_delete oc i w") (simp add: object_delete_ok)
qed (simp add: object_collected_ok)

lemma object_run_ok: "class_ok oc \<Longrightarrow> world_ok oc w \<Longrightarrow> run_allowed oc ops w \<Longrightarrow> world_ok oc (object_run oc ops w)"
  by (induction ops arbitrary: w) (simp_all add: object_do_ok)


definition text_setting :: "(string, string) setting" where
  "text_setting = \<lparr>coerce = Inr, to_state = LText,
     from_state = (\<lambda>x. case x of CLeaf (LText s) \<Rightarrow> Inr s | _ \<Rightarrow> Inl ValueError), default_value = Some '''', nillable = False\<rparr>"

definition text_class :: "(string, string, unit) object_class" where
  "text_class = \<lparr>oc_group = Some ''G'', oc_id_type = Inr, oc_attrs = [(''n'', ASetting text_setting cell_init)],
     oc_save = (\<lambda>b t. (Inr (), b))\<rparr>"

definition renamed_object :: "(string, string) object_op list" where
  "renamed_object = [Obj_New 0 ''a'', Obj_Assign 0 [''n''] (AssignRaw ''v''), Obj_Save 0, Obj_Set_Id 0 ''b'', Obj_Save 0]"

lemma text_class_ok: "class_ok text_class"
  by (auto simp: class_ok_def text_class_def text_setting_def cell_typed_def typed_setting_def typed_def cell_ok_init
      cell_init_def split: cfg.splits leaf.splits) (simp add: cell_ok_def)


text \<open>
  A renamed object that is saved takes over what is stored under its new id: \<open>rename\<close> moves its own
  dictionary there, and what it has no value for stays. A successor loads \<open>v\<close>, the object saved the default.
\<close>

definition renamed_onto :: "(string, string) object_op list" where
  "renamed_onto =
     [Obj_New 0 ''b'', Obj_Assign 0 [''n''] (AssignRaw ''v''), Obj_Save 0, Obj_Collect 0,
      Obj_New 1 ''a'', Obj_Save 1, Obj_Set_Id 1 ''b'', Obj_Save 1]"

theorem renamed_object_takes_over:
  assumes "w = object_run text_class renamed_onto (world_init \<lparr>cm_backend = Some (), cm_data = CDict []\<rparr>)"
  shows "id_get_old 1 (wo_ids w) = Inr ''b'' \<and>
    manager_get (object_key text_class ''b'') (wo_conf w) = Inr (CDict [(''n'', CLeaf (LText ''v''))]) \<and>
    map_option (\<lambda>ob. (ob_state ob, view (ob_attrs ob))) (map_of (wo_objects w) 1) = Some (ObActive, [(''.n'', Some '''')])"
  unfolding assms
  by (simp add: renamed_onto_def world_init_def id_map_init_def object_new_def object_assign_def object_save_def object_set_id_def
    id_set_def id_get_def id_get_old_def id_get_modified_def text_class_def object_key_def manager_get_def put_object_def
    setting_set_def coerce_assigned_def store_value_def put_attr_def cell_init_def text_setting_def state_get_modified_def
    setting_get_modified_def modified_entry_def or_default_def conf_step_def manager_update_def state_getstate_def setting_getstate_def
    conf_save_def manager_save_def add_notes_def manager_rename_def ddel_def Let_def object_collected_def id_collected_def
    view_def setting_get_def)

end
