(* ===== verification/File_Backend.thy ===== *)
theory File_Backend
  imports Config_Manager
begin

text \<open>
  The plain text format of \<open>sipsimple/configuration/backend/file.py\<close>: \<open>_build_group\<close> and
  \<open>_escape\<close> print a tree of settings, \<open>_parse_line\<close> and \<open>load\<close> read it back. Text is a
  list of characters with code points below 256 (encoding and decoding are inverse and leave
  ASCII alone).
\<close>

section \<open>Characters\<close>

abbreviation nl :: char where "nl \<equiv> CHR 0x0A"
abbreviation cr :: char where "cr \<equiv> CHR 0x0D"
abbreviation bslash :: char where "bslash \<equiv> CHR 0x5C"
abbreviation dquote :: char where "dquote \<equiv> CHR 0x22"
abbreviation squote :: char where "squote \<equiv> CHR 0x27"

text \<open>\<open>unicode.isspace\<close> and, for \<open>str.rstrip\<close>, its ASCII subset.\<close>

definition ascii_space :: "char \<Rightarrow> bool" where
  "ascii_space c = (c \<in> {CHR 0x09, CHR 0x0A, CHR 0x0B, CHR 0x0C, CHR 0x0D, CHR '' ''})"

definition isspace :: "char \<Rightarrow> bool" where
  "isspace c = (ascii_space c \<or> c \<in> {CHR 0x1C, CHR 0x1D, CHR 0x1E, CHR 0x1F, CHR 0x85, CHR 0xA0})"

definition rstrip :: "string \<Rightarrow> string" where
  "rstrip s = rev (dropWhile ascii_space (rev s))"

text \<open>\<open>escape_characters_re\<close>\<close>

definition escape_character :: "char \<Rightarrow> bool" where
  "escape_character c =
     (c \<in> {CHR '','', dquote, squote, CHR ''='', CHR '':'', CHR '' '', CHR ''#'', bslash,
            CHR 0x09, CHR 0x0B, CHR 0x0C, nl, cr})"

section \<open>Printing\<close>

definition replace_char :: "char \<Rightarrow> string \<Rightarrow> string \<Rightarrow> string" where
  "replace_char c r s = concat (map (\<lambda>x. if x = c then r else [x]) s)"

definition escape_repl :: "string \<Rightarrow> string" where
  "escape_repl s =
     replace_char cr [bslash, CHR ''r''] (replace_char nl [bslash, CHR ''n'']
       (replace_char dquote [bslash, dquote] (replace_char bslash [bslash, bslash] s)))"

definition escape :: "string \<Rightarrow> string" where
  "escape value =
     (if value = [] then [dquote, dquote]
      else if list_ex escape_character value then [dquote] @ escape_repl value @ [dquote]
      else value)"

fun join :: "string \<Rightarrow> string list \<Rightarrow> string" where
  "join sep [] = []"
| "join sep [x] = x"
| "join sep (x # y # ys) = x @ sep @ join sep (y # ys)"

definition indent_spaces :: "nat \<Rightarrow> string" where
  "indent_spaces n = replicate (4 * n) (CHR '' '')"

definition setting_line :: "nat \<Rightarrow> string \<Rightarrow> leaf \<Rightarrow> string" where
  "setting_line n name data =
     (case data of
        LNone \<Rightarrow> indent_spaces n @ escape name @ '' =''
      | LText v \<Rightarrow> indent_spaces n @ escape name @ '' = '' @ escape v
      | LList xs \<Rightarrow> indent_spaces n @ escape name @ '' = '' @ join '', '' (map escape xs) @
                    (if length xs = 1 then '','' else []))"

definition group_line :: "nat \<Rightarrow> string \<Rightarrow> string" where
  "group_line n name = indent_spaces n @ escape name @ '':''"

text \<open>\<open>_build_group\<close>: the lines of the settings and, after them, those of the groups.\<close>

fun build_lines :: "(string \<times> cfg) list \<Rightarrow> nat \<Rightarrow> string list \<times> string list" where
  "build_lines [] n = ([], [])"
| "build_lines ((name, CLeaf data) # rest) n =
     (let (setting_lines, group_lines) = build_lines rest n
      in (setting_line n name data # setting_lines, group_lines))"
| "build_lines ((name, CDict data) # rest) n =
     (let (setting_lines, group_lines) = build_lines rest n;
          (inner_settings, inner_groups) = build_lines data (Suc n)
      in (setting_lines,
          group_line n name # (inner_settings @ inner_groups) @ [[]] @ group_lines))"

definition build_group :: "cdict \<Rightarrow> nat \<Rightarrow> string list" where
  "build_group data indentation =
     (let (setting_lines, group_lines) = build_lines data indentation
      in setting_lines @ group_lines)"

section \<open>Parsing a line\<close>

record line =
  indentation :: nat
  line_name :: "string option"
  separator :: "char option"
  line_value :: leaf

fun advance :: "string \<Rightarrow> nat \<times> string" where
  "advance [] = (0, [])"
| "advance (c # cs) =
     (if isspace c then (case advance cs of (n, l) \<Rightarrow> (Suc n, l))
      else if c = CHR ''#'' then (0, [])
      else (0, c # cs))"

definition prepend :: "string \<Rightarrow> (string \<times> string) result \<Rightarrow> (string \<times> string) result" where
  "prepend s r = bindR r (\<lambda>(t, rest). Inr (s @ t, rest))"

text \<open>\<open>token_iterator\<close>: the text of one token and the rest of the line.\<close>

fun token :: "nat \<Rightarrow> string \<Rightarrow> char option \<Rightarrow> string \<Rightarrow> (string \<times> string) result" where
  "token lineno delims q [] =
     (if q \<noteq> None then Inl (ParserError ''missing ending quote'' lineno) else Inr ([], []))"
| "token lineno delims q (c # cs) =
     (if q = None \<and> c \<in> set delims then Inr ([], c # cs)
      else if c = squote \<or> c = dquote then
        (case q of
           None \<Rightarrow> token lineno delims (Some c) cs
         | Some qc \<Rightarrow> if qc = c then token lineno delims None cs
                       else prepend [c] (token lineno delims q cs))
      else if c = bslash then
        (case cs of
           [] \<Rightarrow> Inl (ParserError ''unexpected backslash at end of line'' lineno)
         | e # cs' \<Rightarrow>
             prepend [if e = CHR ''n'' then nl else if e = CHR ''r'' then cr else e]
               (token lineno delims q cs'))
      else if q = None \<and> c = CHR ''#'' then Inr ([], [])
      else if q = None \<and> isspace c then Inr ([], cs)
      else prepend [c] (token lineno delims q cs))"

lemma prepend_simps [simp]:
  "prepend s (Inl e) = Inl e" "prepend s (Inr (t, r)) = Inr (s @ t, r)"
  "prepend [] x = x" "prepend s (prepend t x) = prepend (s @ t) x"
  by (auto simp: prepend_def bindR_def split: sum.split)

lemma prepend_eq_Inr: "prepend s x = Inr (t, r) \<longleftrightarrow> (\<exists>t'. x = Inr (t', r) \<and> t = s @ t')"
  by (cases x) auto

lemma length_advance: "length (snd (advance s)) \<le> length s"
  by (induction s) (auto split: prod.split)

lemma length_token: "token lineno delims q s = Inr (t, r) \<Longrightarrow> length r \<le> length s"
proof (induction lineno delims q s arbitrary: t r rule: token.induct)
  case (2 lineno delims q c cs)
  show ?case
    using "2.prems" "2.IH"
    by (auto simp: prepend_eq_Inr intro: le_SucI split: if_splits option.splits list.splits)
      (simp_all add: le_SucI)
qed (auto split: if_splits)

text \<open>The loop over the comma separated values.\<close>

function parse_values :: "nat \<Rightarrow> string \<Rightarrow> string list option \<Rightarrow> leaf \<Rightarrow> leaf result" where
  "parse_values lineno line value_list value =
     (if line = [] then Inr (case value_list of Some xs \<Rightarrow> LList xs | None \<Rightarrow> value)
      else case token lineno '','' None line of
        Inl e \<Rightarrow> Inl e
      | Inr (v, line1) \<Rightarrow>
          (case snd (advance line1) of
             [] \<Rightarrow> parse_values lineno [] (map_option (\<lambda>xs. xs @ [v]) value_list) (LText v)
           | c # line2 \<Rightarrow>
               if c = CHR '','' then
                 parse_values lineno (snd (advance line2))
                   (Some ((case value_list of None \<Rightarrow> [] | Some xs \<Rightarrow> xs) @ [v])) (LText v)
               else Inl (ParserError ''unexpected characters after value'' lineno)))"
  by pat_completeness auto
termination
proof (relation "measure (\<lambda>(lineno, line, vl, v). length line)", simp, goal_cases)
  case 1
  then show ?case by simp
next
  case (2 lineno line vl v b va line1 c line2)
  then have "length (c # line2) \<le> length line"
    using length_advance [of line1] length_token by fastforce
  then have "length line2 < length line" by simp
  then show ?case
    using length_advance [of line2] by (auto intro: le_less_trans)
qed

declare parse_values.simps [simp del]

definition parse_line :: "string \<Rightarrow> nat \<Rightarrow> line result" where
  "parse_line raw lineno =
     (let (n, l) = advance (rstrip raw) in
      if l = [] then Inr \<lparr>indentation = n, line_name = None, separator = None, line_value = LNone\<rparr>
      else bindR (token lineno '':='' None l) (\<lambda>(name, l1).
        case snd (advance l1) of
          [] \<Rightarrow> Inl (ParserError ''expected one of : or ='' lineno)
        | sep # l2 \<Rightarrow>
            if sep \<notin> set '':='' then Inl (ParserError ''expected one of : or ='' lineno)
            else if name = [] then Inl (ParserError ''missing setting/section name'' lineno)
            else case snd (advance l2) of
              [] \<Rightarrow> Inr \<lparr>indentation = n, line_name = Some name, separator = Some sep, line_value = LNone\<rparr>
            | c # cs \<Rightarrow>
                if sep = CHR '':'' then Inl (ParserError ''unexpected characters after :'' lineno)
                else bindR (parse_values lineno (c # cs) None LNone) (\<lambda>v.
                  Inr \<lparr>indentation = n, line_name = Some name, separator = Some sep, line_value = v\<rparr>)))"

section \<open>Loading\<close>

text \<open>
  The stack of open groups, innermost first, each with its indentation, its name and the data
  read so far; the bottom \<open>GroupState(-1)\<close> is the separate root dictionary. The source links a
  new group's dictionary into its parent when the group is opened and fills it through the
  shared reference; since the parent is not touched before the group is popped, storing the
  finished dictionary in the parent at that moment is the same.
\<close>

type_synonym load_state = "(nat \<times> string \<times> cdict) list \<times> cdict"

fun put_top :: "string \<Rightarrow> cfg \<Rightarrow> load_state \<Rightarrow> load_state" where
  "put_top k c ([], root) = ([], dset k c root)"
| "put_top k c ((n, name, d) # fs, root) = ((n, name, dset k c d) # fs, root)"

function close_to :: "nat \<Rightarrow> load_state \<Rightarrow> load_state" where
  "close_to i ([], root) = ([], root)"
| "close_to i ((n, name, d) # fs, root) =
     (if i \<le> n then close_to i (put_top name (CDict d) (fs, root)) else ((n, name, d) # fs, root))"
  by pat_completeness auto
termination
proof (relation "measure (\<lambda>(i, fs, root). length fs)", simp, goal_cases)
  case (1 i n name d fs root)
  then show ?case by (cases fs) auto
qed

definition load_line :: "line \<Rightarrow> load_state \<Rightarrow> load_state" where
  "load_line l st =
     (case line_name l of
        None \<Rightarrow> st
      | Some name \<Rightarrow>
          let (fs, root) = close_to (indentation l) st in
          if separator l = Some (CHR '':'') then ((indentation l, name, []) # fs, root)
          else put_top name (CLeaf (line_value l)) (fs, root))"

fun load_lines :: "nat \<Rightarrow> string list \<Rightarrow> load_state \<Rightarrow> load_state result" where
  "load_lines lineno [] st = Inr st"
| "load_lines lineno (l # ls) st =
     bindR (parse_line l lineno) (\<lambda>p. load_lines (Suc lineno) ls (load_line p st))"

text \<open>Iterating over an open file: each line keeps its newline.\<close>

function file_lines :: "string \<Rightarrow> string list" where
  "file_lines s =
     (if s = [] then []
      else case dropWhile (\<lambda>c. c \<noteq> nl) s of
        [] \<Rightarrow> [s]
      | c # rest \<Rightarrow> (takeWhile (\<lambda>c. c \<noteq> nl) s @ [nl]) # file_lines rest)"
  by pat_completeness auto
termination
proof (relation "measure length", simp, goal_cases)
  case (1 s c rest)
  have "length (dropWhile (\<lambda>c. c \<noteq> nl) s) \<le> length s" by (rule length_dropWhile_le)
  with 1 show ?case by simp
qed

declare file_lines.simps [simp del]

text \<open>The file as \<open>open\<close> finds it.\<close>

datatype file_state = Absent | Unreadable | Present string

fun file_load :: "file_state \<Rightarrow> cfg result" where
  "file_load Absent = Inr (CDict [])"
| "file_load Unreadable = Inl BackendError"
| "file_load (Present text) =
     bindR (load_lines 1 (file_lines text) ([], [])) (\<lambda>st. Inr (CDict (snd (close_to 0 st))))"

text \<open>
  \<open>save\<close>. Each call on the file system may raise \<open>IOError\<close> or \<open>OSError\<close>; \<open>fails\<close> says
  which do. \<open>unlink\<close> (of the package \<open>application\<close>) is what that call leaves of the file; it
  is only used on Windows. The temporary file is not modelled: \<open>rename\<close> replaces the file by it.
\<close>

datatype save_step = MakeDirs | OpenTmp | WriteTmp | CloseTmp | Unlink | RenameTmp

definition file_text :: "cdict \<Rightarrow> string" where
  "file_text d = join [nl] (build_group d 0) @ [nl]"

definition file_save ::
  "bool \<Rightarrow> (file_state \<Rightarrow> file_state) \<Rightarrow> (save_step \<Rightarrow> bool) \<Rightarrow> file_state \<Rightarrow> cfg \<Rightarrow>
    unit result \<times> file_state" where
  "file_save windows unlink fails st data =
     (case data of
        CLeaf l \<Rightarrow> (Inl AttributeError, st)
      | CDict d \<Rightarrow>
          if fails MakeDirs \<or> fails OpenTmp \<or> fails WriteTmp \<or> fails CloseTmp then (Inl BackendError, st)
          else if windows \<and> fails Unlink then (Inl BackendError, st)
          else let st' = (if windows then unlink st else st) in
            if fails RenameTmp then (Inl BackendError, st')
            else (Inr (), Present (file_text d)))"

section \<open>One line, printed and parsed\<close>

text \<open>
  Text the format can carry: a space character that \<open>escape_characters_re\<close> does not know
  (the separators \<open>0x1C\<close> to \<open>0x1F\<close>, \<open>0x85\<close>, the no-break space) would end an unquoted
  token.
\<close>

definition plain_text :: "string \<Rightarrow> bool" where
  "plain_text s = list_all (\<lambda>c. isspace c \<longrightarrow> escape_character c) s"

definition escape_one :: "char \<Rightarrow> string" where
  "escape_one c =
     (if c = bslash then [bslash, bslash] else if c = dquote then [bslash, dquote]
      else if c = nl then [bslash, CHR ''n''] else if c = cr then [bslash, CHR ''r''] else [c])"

lemma replace_char_append: "replace_char c r (s @ t) = replace_char c r s @ replace_char c r t"
  by (simp add: replace_char_def)

lemma escape_repl_map: "escape_repl s = concat (map escape_one s)"
proof (induction s)
  case Nil
  show ?case by (simp add: escape_repl_def replace_char_def)
next
  case (Cons c s)
  have "escape_repl (c # s) = escape_repl [c] @ escape_repl s"
    unfolding escape_repl_def by (simp flip: replace_char_append)
  moreover have "escape_repl [c] = escape_one c"
    by (simp add: escape_repl_def replace_char_def escape_one_def)
  ultimately show ?case using Cons.IH by simp
qed

lemma token_quoted:
  "token n delims (Some dquote) (concat (map escape_one s) @ dquote # rest) =
     prepend s (token n delims None rest)"
  by (induction s) (auto simp: escape_one_def)

lemma token_plain:
  assumes "\<forall>c \<in> set delims. escape_character c"
  shows "list_all (\<lambda>c. \<not> escape_character c \<and> \<not> isspace c) s \<Longrightarrow>
    token n delims None (s @ rest) = prepend s (token n delims None rest)"
proof (induction s)
  case (Cons c s)
  then have c: "\<not> escape_character c" "\<not> isspace c" by auto
  then have "c \<notin> {dquote, squote, bslash, CHR ''#''}"
    by (auto simp: escape_character_def)
  moreover have "c \<notin> set delims" using assms c by blast
  ultimately show ?case using Cons c by simp
qed simp

lemma token_escape:
  assumes "\<forall>c \<in> set delims. escape_character c" "set delims \<inter> {dquote} = {}" "plain_text s"
  shows "token n delims None (escape s @ rest) = prepend s (token n delims None rest)"
proof -
  consider "s = []" | "s \<noteq> []" "list_ex escape_character s"
    | "s \<noteq> []" "\<not> list_ex escape_character s" by blast
  then show ?thesis
  proof cases
    case 1
    with assms(2) show ?thesis by (simp add: escape_def)
  next
    case 2
    with assms(2) show ?thesis by (simp add: escape_def escape_repl_map token_quoted)
  next
    case 3
    with assms(3) have "list_all (\<lambda>c. \<not> escape_character c \<and> \<not> isspace c) s"
      by (auto simp: plain_text_def list_all_iff list_ex_iff)
    with 3 show ?thesis using token_plain [OF assms(1)] by (simp add: escape_def)
  qed
qed

text \<open>An escaped text starts with a character that starts a token and ends with no space.\<close>

lemma escape_not_Nil [simp]: "escape s \<noteq> []"
  by (simp add: escape_def)

lemma hd_escape: "plain_text s \<Longrightarrow> \<not> isspace (hd (escape s)) \<and> hd (escape s) \<noteq> CHR ''#''"
  by (cases s) (auto simp: escape_def plain_text_def escape_character_def isspace_def ascii_space_def)

lemma last_escape: "plain_text s \<Longrightarrow> \<not> ascii_space (last (escape s))"
proof -
  have "\<not> ascii_space dquote" by (simp add: ascii_space_def)
  moreover assume "plain_text s"
  then have "s \<noteq> [] \<Longrightarrow> \<not> list_ex escape_character s \<Longrightarrow> \<not> ascii_space (last s)"
    by (auto simp: plain_text_def list_all_iff list_ex_iff isspace_def)
  ultimately show ?thesis by (simp add: escape_def)
qed

lemma nl_escape: "nl \<notin> set (escape s)"
proof -
  have "nl \<notin> set (escape_one c)" for c by (simp add: escape_one_def)
  moreover have "escape_character nl" by (simp add: escape_character_def)
  ultimately show ?thesis
    by (auto simp: escape_def escape_repl_map list_ex_iff)
qed

lemma advance_start:
  "s \<noteq> [] \<Longrightarrow> \<not> isspace (hd s) \<Longrightarrow> hd s \<noteq> CHR ''#'' \<Longrightarrow> advance (s @ t) = (0, s @ t)"
  by (cases s) auto

lemma advance_escape: "plain_text s \<Longrightarrow> advance (escape s @ t) = (0, escape s @ t)"
  using hd_escape [of s] by (intro advance_start) simp_all

lemma isspace_space [simp]: "isspace (CHR '' '')"
  by (simp add: isspace_def ascii_space_def)

lemma advance_indent: "advance (indent_spaces n @ s) = (4 * n + fst (advance s), snd (advance s))"
proof -
  have "advance (replicate m (CHR '' '') @ s) = (m + fst (advance s), snd (advance s))" for m
    by (induction m) (auto simp del: replicate_append_same)
  then show ?thesis by (simp add: indent_spaces_def)
qed

lemma rstrip_id: "s \<noteq> [] \<Longrightarrow> \<not> ascii_space (last s) \<Longrightarrow> rstrip s = s"
  by (cases s rule: rev_cases) (simp_all add: rstrip_def)

lemma rstrip_nl: "rstrip (s @ [nl]) = rstrip s"
  by (simp add: rstrip_def ascii_space_def)

lemma parse_values_Nil [simp]:
  "parse_values n [] vl v = Inr (case vl of Some xs \<Rightarrow> LList xs | None \<Rightarrow> v)"
  by (simp add: parse_values.simps)

lemma token_comma_escape:
  "plain_text s \<Longrightarrow> token n '','' None (escape s @ rest) = prepend s (token n '','' None rest)"
  by (rule token_escape) (auto simp: escape_character_def)

lemma parse_values_last:
  "plain_text x \<Longrightarrow>
   parse_values n (escape x) vl v =
     Inr (case vl of Some xs \<Rightarrow> LList (xs @ [x]) | None \<Rightarrow> LText x)"
  using token_comma_escape [of x n "[]"]
  by (subst parse_values.simps) (simp split: option.split)

lemma parse_values_comma:
  assumes "plain_text x"
  shows "parse_values n (escape x @ CHR '','' # rest) vl v =
    parse_values n (snd (advance rest)) (Some ((case vl of None \<Rightarrow> [] | Some xs \<Rightarrow> xs) @ [x])) (LText x)"
proof -
  have "advance (CHR '','' # rest) = (0, CHR '','' # rest)"
    by (simp add: isspace_def ascii_space_def)
  with token_comma_escape [OF assms, of n "CHR '','' # rest"] show ?thesis
    by (subst parse_values.simps) simp
qed

lemma join_not_Nil: "xs \<noteq> [] \<Longrightarrow> join sep (map escape xs) \<noteq> []"
  by (induction sep "map escape xs" arbitrary: xs rule: join.induct) auto

lemma hd_join: "xs \<noteq> [] \<Longrightarrow> hd (join sep (map escape xs)) = hd (escape (hd xs))"
  by (cases xs; cases "tl xs") auto

lemma last_join: "xs \<noteq> [] \<Longrightarrow> last (join sep (map escape xs)) = last (escape (last xs))"
proof (induction xs)
  case (Cons x xs)
  then show ?case
    using join_not_Nil [of xs sep] by (cases xs) auto
qed simp

lemma parse_values_join:
  "xs \<noteq> [] \<Longrightarrow> list_all plain_text xs \<Longrightarrow>
   parse_values n (join '', '' (map escape xs)) (Some ys) v = Inr (LList (ys @ xs))"
proof (induction xs arbitrary: ys v)
  case (Cons x xs)
  show ?case
  proof (cases xs)
    case Nil
    with Cons.prems show ?thesis by (simp add: parse_values_last)
  next
    case (Cons y zs)
    let ?r = "join '', '' (map escape xs)"
    have ne: "xs \<noteq> []" and "plain_text (hd xs)"
      using Cons Cons.prems(2) by simp_all
    then have "advance (?r @ []) = (0, ?r @ [])"
      by (intro advance_start) (simp_all add: join_not_Nil hd_join hd_escape)
    then have "snd (advance (CHR '' '' # ?r)) = ?r" by simp
    moreover have "join '', '' (map escape (x # xs)) = escape x @ CHR '','' # CHR '' '' # ?r"
      using Cons by simp
    ultimately show ?thesis
      using Cons.prems Cons.IH [of "ys @ [x]"] Cons
      by (simp add: parse_values_comma del: advance.simps join.simps)
  qed
qed simp

lemma token_name:
  assumes "plain_text name" "sep = CHR '':'' \<and> pre = [] \<or> sep = CHR ''='' \<and> pre = '' ''"
  shows "\<exists>r. token lineno '':='' None (escape name @ pre @ sep # rest) = Inr (name, r) \<and>
    snd (advance r) = sep # rest"
proof -
  have "token lineno '':='' None (escape name @ t) = prepend name (token lineno '':='' None t)" for t
    using assms(1) by (intro token_escape) (auto simp: escape_character_def)
  then show ?thesis using assms(2) by (auto simp: isspace_def ascii_space_def)
qed

text \<open>A line with a name and a separator: what is left to parse is what follows.\<close>

lemma parse_line_sep:
  assumes name: "plain_text name" "name \<noteq> []"
    and sep: "sep = CHR '':'' \<and> pre = [] \<or> sep = CHR ''='' \<and> pre = '' ''"
    and rest: "\<not> ascii_space (last (sep # rest))"
  shows "parse_line (indent_spaces n @ escape name @ pre @ sep # rest @ [nl]) lineno =
    (case snd (advance rest) of
       [] \<Rightarrow> Inr \<lparr>indentation = 4 * n, line_name = Some name, separator = Some sep, line_value = LNone\<rparr>
     | c # cs \<Rightarrow>
         if sep = CHR '':'' then Inl (ParserError ''unexpected characters after :'' lineno)
         else bindR (parse_values lineno (c # cs) None LNone) (\<lambda>v.
           Inr \<lparr>indentation = 4 * n, line_name = Some name, separator = Some sep, line_value = v\<rparr>))"
proof -
  let ?l = "escape name @ pre @ sep # rest"
  have "last (indent_spaces n @ ?l) = last (sep # rest)" by simp
  with rest have "\<not> ascii_space (last (indent_spaces n @ ?l))" by simp
  then have "rstrip (indent_spaces n @ ?l) = indent_spaces n @ ?l"
    by (intro rstrip_id) simp_all
  then have strip: "rstrip (indent_spaces n @ escape name @ pre @ sep # rest @ [nl]) =
      indent_spaces n @ ?l"
    using rstrip_nl [of "indent_spaces n @ ?l"] by simp
  have adv: "advance (indent_spaces n @ ?l) = (4 * n, ?l)"
    using advance_escape [OF name(1)] by (simp add: advance_indent)
  obtain r where "token lineno '':='' None ?l = Inr (name, r)" "snd (advance r) = sep # rest"
    using token_name [OF name(1) sep] by blast
  moreover have "sep \<in> set '':=''" using sep by auto
  ultimately show ?thesis
    unfolding parse_line_def strip adv using name(2)
    by (simp del: advance.simps)
qed

fun storable_leaf :: "leaf \<Rightarrow> bool" where
  "storable_leaf LNone = True"
| "storable_leaf (LText v) = plain_text v"
| "storable_leaf (LList xs) = (xs \<noteq> [] \<and> list_all plain_text xs)"

lemma parse_group_line:
  assumes "plain_text name" "name \<noteq> []"
  shows "parse_line (group_line n name @ [nl]) lineno =
    Inr \<lparr>indentation = 4 * n, line_name = Some name, separator = Some (CHR '':''), line_value = LNone\<rparr>"
  using parse_line_sep [OF assms, of "CHR '':''" "[]" "[]" n lineno]
  by (simp add: group_line_def ascii_space_def)

lemma setting_line_split:
  "setting_line n name data @ [nl] =
     indent_spaces n @ escape name @ '' '' @ CHR ''='' #
       (case data of LNone \<Rightarrow> [] | LText v \<Rightarrow> CHR '' '' # escape v
        | LList xs \<Rightarrow> CHR '' '' # join '', '' (map escape xs) @ (if length xs = 1 then '','' else [])) @ [nl]"
  by (simp add: setting_line_def split: leaf.split)

lemma advance_space_join:
  assumes "xs \<noteq> []" "list_all plain_text xs"
  shows "snd (advance (CHR '' '' # join '', '' (map escape xs) @ t)) = join '', '' (map escape xs) @ t"
proof -
  have "plain_text (hd xs)" using assms by (cases xs) simp_all
  with assms(1) have "advance (join '', '' (map escape xs) @ t) = (0, join '', '' (map escape xs) @ t)"
    by (intro advance_start) (simp_all add: join_not_Nil hd_join hd_escape)
  then show ?thesis by simp
qed

lemma parse_values_list:
  assumes "xs \<noteq> []" "list_all plain_text xs"
  shows "parse_values n (join '', '' (map escape xs) @ (if length xs = 1 then '','' else [])) None LNone =
    Inr (LList xs)"
proof (cases xs)
  case (Cons x ys)
  show ?thesis
  proof (cases "ys = []")
    case True
    with Cons assms parse_values_comma [of x n "[]" None LNone] show ?thesis by simp
  next
    case False
    then have "join '', '' (map escape xs) = escape x @ CHR '','' # CHR '' '' # join '', '' (map escape ys)"
      using Cons by (cases ys) auto
    moreover have "snd (advance (CHR '' '' # join '', '' (map escape ys))) = join '', '' (map escape ys)"
      using advance_space_join [of ys "[]"] False Cons assms by simp
    ultimately show ?thesis
      using False Cons assms
      by (simp add: parse_values_comma parse_values_join del: advance.simps)
  qed
qed (use assms in simp)

lemma parse_setting_line:
  assumes "plain_text name" "name \<noteq> []" "storable_leaf data"
  shows "parse_line (setting_line n name data @ [nl]) lineno =
    Inr \<lparr>indentation = 4 * n, line_name = Some name, separator = Some (CHR ''=''), line_value = data\<rparr>"
proof (cases data)
  case LNone
  with parse_line_sep [OF assms(1,2), of "CHR ''=''" "'' ''" "[]" n lineno]
  show ?thesis by (simp add: setting_line_split ascii_space_def)
next
  case (LText v)
  with assms(3) have v: "plain_text v" by simp
  have adv: "snd (advance (CHR '' '' # escape v)) = escape v"
    using advance_escape [OF v, of "[]"] by simp
  obtain c cs where cs: "escape v = c # cs" by (cases "escape v") auto
  have "parse_values lineno (c # cs) None LNone = Inr (LText v)"
    using parse_values_last [OF v, of lineno None LNone] cs by simp
  with parse_line_sep [OF assms(1,2), of "CHR ''=''" "'' ''" "CHR '' '' # escape v" n lineno]
  show ?thesis
    using last_escape [OF v] adv cs LText by (simp add: setting_line_split del: advance.simps)
next
  case (LList xs)
  with assms(3) have xs: "xs \<noteq> []" "list_all plain_text xs" by simp_all
  let ?t = "join '', '' (map escape xs) @ (if length xs = 1 then '','' else [])"
  have adv: "snd (advance (CHR '' '' # ?t)) = ?t" using advance_space_join [OF xs] .
  obtain c cs where cs: "?t = c # cs" using join_not_Nil [OF xs(1)] by (cases ?t) auto
  have "\<not> ascii_space (last ?t)"
    using xs last_escape [of "last xs"] join_not_Nil [OF xs(1)]
    by (auto simp: last_join list_all_iff ascii_space_def)
  then have last: "\<not> ascii_space (last (CHR ''='' # CHR '' '' # c # cs))" using cs by simp
  have "setting_line n name data @ [nl] =
      indent_spaces n @ escape name @ '' '' @ CHR ''='' # (CHR '' '' # c # cs) @ [nl]"
    using LList cs by (simp add: setting_line_split)
  then show ?thesis
    using parse_line_sep [OF assms(1,2) _ last, of "'' ''" n lineno]
      adv parse_values_list [OF xs, of lineno] LList
    unfolding cs by (simp del: advance.simps)
qed

lemma parse_blank_line:
  "parse_line [nl] lineno =
     Inr \<lparr>indentation = 0, line_name = None, separator = None, line_value = LNone\<rparr>"
  by (simp add: parse_line_def rstrip_def ascii_space_def)

section \<open>A whole tree, printed and loaded\<close>

fun storable :: "cfg \<Rightarrow> bool" where
  "storable (CLeaf l) = storable_leaf l"
| "storable (CDict d) =
     (\<forall>p \<in> set d. fst p \<noteq> [] \<and> plain_text (fst p) \<and> storable (snd p))"

fun is_group :: "cfg \<Rightarrow> bool" where
  "is_group (CDict d) = True"
| "is_group (CLeaf l) = False"

abbreviation leaves_of :: "cdict \<Rightarrow> cdict" where
  "leaves_of d \<equiv> filter (\<lambda>p. \<not> is_group (snd p)) d"

abbreviation groups_of :: "cdict \<Rightarrow> cdict" where
  "groups_of d \<equiv> filter (\<lambda>p. is_group (snd p)) d"

definition put_all :: "cdict \<Rightarrow> load_state \<Rightarrow> load_state" where
  "put_all d st = fold (\<lambda>(k, c). put_top k c) d st"

lemma put_all_simps [simp]:
  "put_all [] st = st" "put_all ((k, c) # d) st = put_all d (put_top k c st)"
  by (simp_all add: put_all_def)

lemma put_all_frame:
  "put_all d ((n, name, e) # fs, root) = ((n, name, fold (\<lambda>(k, c). dset k c) d e) # fs, root)"
  by (induction d arbitrary: e) auto

lemma put_all_root: "put_all d ([], root) = ([], fold (\<lambda>(k, c). dset k c) d root)"
  by (induction d arbitrary: root) auto

lemma close_put_top: "close_to i st = st \<Longrightarrow> close_to i (put_top k c st) = put_top k c st"
proof (cases st)
  case (Pair fs root)
  assume *: "close_to i st = st"
  show ?thesis
  proof (cases fs)
    case (Cons f gs)
    obtain n name d where f: "f = (n, name, d)" by (cases f)
    have len: "length (fst (close_to j st')) \<le> length (fst st')" for j st'
    proof (induction j st' rule: close_to.induct)
      case (2 i n name d fs root)
      then show ?case by (cases fs) (auto intro: le_SucI)
    qed simp
    have "\<not> i \<le> n"
    proof
      assume "i \<le> n"
      with * Pair Cons f have "close_to i (put_top name (CDict d) (gs, root)) = (f # gs, root)" by simp
      with len [of i "put_top name (CDict d) (gs, root)"] show False by (cases gs) auto
    qed
    with Pair Cons f show ?thesis by simp
  qed (simp add: Pair)
qed

lemma close_put_all: "close_to i st = st \<Longrightarrow> close_to i (put_all d st) = put_all d st"
proof (induction d arbitrary: st)
  case (Cons p d)
  then show ?case by (cases p) (simp add: close_put_top)
qed simp

lemma close_close: "i \<le> j \<Longrightarrow> close_to i (close_to j st) = close_to i st"
  by (induction j st rule: close_to.induct) auto

lemma close_idem [simp]: "close_to i (close_to i st) = close_to i st"
  by (rule close_close) simp

lemma load_line_setting:
  "load_line \<lparr>indentation = i, line_name = Some k, separator = Some (CHR ''=''), line_value = v\<rparr> st =
     put_top k (CLeaf v) (close_to i st)"
  by (simp add: load_line_def split: prod.split)

lemma load_line_group:
  "load_line \<lparr>indentation = i, line_name = Some k, separator = Some (CHR '':''), line_value = v\<rparr> st =
     ((i, k, []) # fst (close_to i st), snd (close_to i st))"
  by (simp add: load_line_def split: prod.split)

lemma load_line_blank:
  "load_line \<lparr>indentation = i, line_name = None, separator = s, line_value = v\<rparr> st = st"
  by (simp add: load_line_def)

lemma load_lines_append:
  "load_lines m (xs @ ys) st = bindR (load_lines m xs st) (load_lines (m + length xs) ys)"
  by (induction m xs st rule: load_lines.induct) (auto simp: bindR_def split: sum.split)

abbreviation with_nl :: "string list \<Rightarrow> string list" where
  "with_nl \<equiv> map (\<lambda>l. l @ [nl])"

lemma load_settings:
  "storable (CDict d) \<Longrightarrow> close_to (4 * n) st = st \<Longrightarrow>
   load_lines m (with_nl (fst (build_lines d n))) st = Inr (put_all (leaves_of d) st)"
proof (induction d n arbitrary: m st rule: build_lines.induct)
  case (2 name data rest n)
  then have "load_lines (Suc m) (with_nl (fst (build_lines rest n))) (put_top name (CLeaf data) st)
      = Inr (put_all (leaves_of rest) (put_top name (CLeaf data) st))"
    by (simp add: close_put_top)
  moreover have "plain_text name" "name \<noteq> []" "storable_leaf data"
    using "2.prems"(1) by simp_all
  ultimately show ?case
    using "2.prems"(2)
    by (simp add: parse_setting_line load_line_setting split_beta)
next
  case (3 name data rest n)
  then show ?case by (simp add: split_beta)
qed simp

lemma wf_split:
  assumes "dwf d"
  shows "fold (\<lambda>(k, c). dset k c) (groups_of d) (fold (\<lambda>(k, c). dset k c) (leaves_of d) []) = d"
proof -
  let ?e = "leaves_of d @ groups_of d"
  have dist: "distinct (map fst ?e)"
    using dwf_distinct [OF assms] by (induction d) auto
  have "set ?e = set d" by auto
  then have eq: "map_of ?e = map_of d"
    using dist dwf_distinct [OF assms] map_of_inject_set by blast
  have "map_of (fold (\<lambda>(k, c). dset k c) ?e []) = map_of d"
    unfolding map_of_fold_dset [OF dist] eq by simp
  then have "fold (\<lambda>(k, c). dset k c) ?e [] = d"
    by (intro dwf_ext [OF dwf_fold_dset assms]) simp_all
  then show ?thesis by simp
qed

lemma load_groups:
  "storable (CDict d) \<Longrightarrow> wf_cdict d \<Longrightarrow>
   \<exists>st'. load_lines m (with_nl (snd (build_lines d n))) st = Inr st' \<and>
         close_to (4 * n) st' = put_all (groups_of d) (close_to (4 * n) st)"
proof (induction d n arbitrary: m st rule: build_lines.induct)
  case (2 name data rest n)
  have "storable (CDict rest)" "wf_cdict rest"
    using "2.prems" by (simp_all add: wf_cdict_iff dwf_Cons)
  from "2.IH" [OF this] show ?case by (simp add: split_beta)
next
  case (3 name data rest n)
  have rest: "storable (CDict rest)" "wf_cdict rest" and data: "storable (CDict data)" "wf_cdict data"
    and name: "plain_text name" "name \<noteq> []"
    using "3.prems" by (simp_all add: wf_cdict_iff dwf_Cons)
  let ?st0 = "close_to (4 * n) st"
  let ?st1 = "((4 * n, name, []) # fst ?st0, snd ?st0)"
  let ?st2 = "put_all (leaves_of data) ?st1"
  have 1: "close_to (4 * Suc n) ?st1 = ?st1" by (cases ?st0) simp
  have leaves: "load_lines i (with_nl (fst (build_lines data (Suc n)))) ?st1 = Inr ?st2" for i
    using load_settings [OF data(1) 1] .
  have "put_all (groups_of data) ?st2 = ((4 * n, name, data) # fst ?st0, snd ?st0)"
    using wf_split [of data] data(2) by (simp add: put_all_frame wf_cdict_iff)
  moreover have "close_to (4 * Suc n) ?st2 = ?st2" using close_put_all [OF 1] .
  ultimately have "\<exists>st3. load_lines i (with_nl (snd (build_lines data (Suc n)))) ?st2 = Inr st3 \<and>
      close_to (4 * Suc n) st3 = ((4 * n, name, data) # fst ?st0, snd ?st0)" for i
    using "3.IH"(2) [OF refl prod.collapse data, of i ?st2] by simp
  then obtain st3 where groups:
      "load_lines (Suc m + length (fst (build_lines data (Suc n))))
         (with_nl (snd (build_lines data (Suc n)))) ?st2 = Inr st3"
    and st3: "close_to (4 * Suc n) st3 = ((4 * n, name, data) # fst ?st0, snd ?st0)" by blast
  have closed: "close_to (4 * n) st3 = put_top name (CDict data) ?st0"
  proof -
    have "close_to (4 * n) st3 = close_to (4 * n) (close_to (4 * Suc n) st3)"
      by (rule close_close [symmetric]) simp
    also have "\<dots> = close_to (4 * n) (put_top name (CDict data) ?st0)"
      unfolding st3 by simp
    also have "\<dots> = put_top name (CDict data) ?st0" by (simp add: close_put_top)
    finally show ?thesis .
  qed
  obtain st4 where last: "load_lines (Suc (Suc m + length (fst (build_lines data (Suc n))) +
         length (snd (build_lines data (Suc n))))) (with_nl (snd (build_lines rest n))) st3 = Inr st4"
    "close_to (4 * n) st4 = put_all (groups_of rest) (close_to (4 * n) st3)"
    using "3.IH"(1) [OF rest] by blast
  show ?case
    using last closed leaves [of "Suc m"] groups
    by (auto simp: load_lines_append parse_group_line [OF name] load_line_group parse_blank_line
        load_line_blank split_beta)
qed simp

lemma file_lines_Cons:
  assumes "nl \<notin> set l"
  shows "file_lines (l @ nl # rest) = (l @ [nl]) # file_lines rest"
proof -
  have "takeWhile (\<lambda>c. c \<noteq> nl) (l @ nl # rest) = l" "dropWhile (\<lambda>c. c \<noteq> nl) (l @ nl # rest) = nl # rest"
    using assms by (induction l) auto
  then show ?thesis by (subst file_lines.simps) simp
qed

lemma file_lines_Nil [simp]: "file_lines [] = []"
  by (simp add: file_lines.simps)

lemma file_lines_join:
  "ls \<noteq> [] \<Longrightarrow> \<forall>l \<in> set ls. nl \<notin> set l \<Longrightarrow> file_lines (join [nl] ls @ [nl]) = with_nl ls"
proof (induction ls)
  case (Cons l ls)
  then show ?case
    using file_lines_Cons [of l "[]"] file_lines_Cons [of l "join [nl] ls @ [nl]"]
    by (cases ls) auto
qed simp

lemma nl_join: "nl \<notin> set sep \<Longrightarrow> nl \<notin> set (join sep (map escape xs))"
proof (induction xs)
  case (Cons x xs)
  then show ?case by (cases xs) (auto simp: nl_escape)
qed simp

lemma nl_setting_line: "nl \<notin> set (setting_line n name data)"
  by (simp add: setting_line_def indent_spaces_def nl_escape nl_join split: leaf.split)

lemma nl_build_lines:
  "l \<in> set (fst (build_lines d n)) \<union> set (snd (build_lines d n)) \<Longrightarrow> nl \<notin> set l"
proof (induction d n arbitrary: l rule: build_lines.induct)
  case (2 name data rest n)
  then show ?case by (auto simp: split_beta nl_setting_line)
next
  case (3 name data rest n)
  then show ?case
    using "3.IH"(2) [OF refl prod.collapse]
    by (auto simp: split_beta group_line_def indent_spaces_def nl_escape)
qed simp

lemma build_group_append: "build_group d n = fst (build_lines d n) @ snd (build_lines d n)"
  by (simp add: build_group_def split_beta)

lemma file_text_roundtrip:
  assumes "storable (CDict d)" "wf_cdict d"
  shows "file_load (Present (file_text d)) = Inr (CDict d)"
proof (cases "build_group d 0 = []")
  case True
  then have "d = []"
    by (cases "(d, 0::nat)" rule: build_lines.cases) (simp_all add: build_group_append split_beta)
  with True show ?thesis
    using file_lines_Cons [of "[]" "[]"]
    by (simp add: file_text_def parse_blank_line load_line_blank)
next
  case False
  have lines: "file_lines (file_text d) = with_nl (fst (build_lines d 0)) @ with_nl (snd (build_lines d 0))"
    using file_lines_join [OF False] nl_build_lines [of _ d 0]
    by (auto simp: file_text_def build_group_append)
  let ?st = "put_all (leaves_of d) ([], [])"
  have st: "close_to 0 ?st = ?st" by (rule close_put_all) simp
  have "load_lines 1 (with_nl (fst (build_lines d 0))) ([], []) = Inr ?st"
    using load_settings [OF assms(1), of 0 "([], [])"] by simp
  moreover obtain st' where
    "load_lines (1 + length (fst (build_lines d 0))) (with_nl (snd (build_lines d 0))) ?st = Inr st'"
    and st': "close_to 0 st' = put_all (groups_of d) ?st"
    using load_groups [OF assms, of _ 0 ?st] st by force
  moreover have "put_all (groups_of d) ?st = ([], d)"
    using wf_split [of d] assms(2) by (simp add: put_all_root wf_cdict_iff)
  ultimately show ?thesis
    by (simp add: lines load_lines_append)
qed

interpretation file_store: config_backend file_load "file_save False unlink fails"
    "\<lambda>t. storable t \<and> wf_cfg t"
  for unlink :: "file_state \<Rightarrow> file_state" and fails :: "save_step \<Rightarrow> bool"
proof (unfold_locales, goal_cases)
  case (1 t b b')
  then show ?case
    by (auto simp: file_save_def Let_def file_text_roundtrip simp del: file_load.simps storable.simps
        split: cfg.splits if_splits)
next
  case (2 b t e b')
  then show ?case by (auto simp: file_save_def Let_def split: cfg.splits if_splits)
qed

section \<open>Loading keeps the tree well-formed\<close>

definition wf_state :: "load_state \<Rightarrow> bool" where
  "wf_state st = (wf_cdict (snd st) \<and> (\<forall>(n, name, d) \<in> set (fst st). wf_cdict d))"

lemma wf_put_top: "wf_state st \<Longrightarrow> wf_cfg c \<Longrightarrow> wf_state (put_top k c st)"
  by (cases "(k, c, st)" rule: put_top.cases) (auto simp: wf_state_def wf_cdict_dset)

lemma wf_close_to: "wf_state st \<Longrightarrow> wf_state (close_to i st)"
proof (induction i st rule: close_to.induct)
  case (2 i n name d fs root)
  then have "wf_state (fs, root)" "wf_cfg (CDict d)" by (auto simp: wf_state_def)
  then have "wf_state (put_top name (CDict d) (fs, root))" by (rule wf_put_top)
  with 2 show ?case by simp
qed simp

lemma wf_load_line:
  assumes "wf_state st" shows "wf_state (load_line l st)"
proof (cases "line_name l")
  case (Some name)
  obtain fs root where st: "close_to (indentation l) st = (fs, root)" by fastforce
  then have "wf_state (fs, root)" using wf_close_to [OF assms, of "indentation l"] by simp
  moreover from this have "wf_state ((indentation l, name, []) # fs, root)"
    by (simp add: wf_state_def)
  ultimately show ?thesis
    using Some by (simp add: load_line_def st wf_put_top)
qed (simp add: load_line_def assms)

lemma wf_load_lines: "wf_state st \<Longrightarrow> load_lines m ls st = Inr st' \<Longrightarrow> wf_state st'"
  by (induction m ls st rule: load_lines.induct) (auto simp: bindR_eq_Inr wf_load_line)

text \<open>
  Whatever text the file holds, loading it terminates and either raises or yields a
  well-formed tree: dictionaries with distinct, sorted keys at every level.
\<close>

theorem config_file_load_wf:
  assumes "file_load st = Inr t"
  shows "wf_cfg t \<and> is_group t"
proof (cases st)
  case (Present content)
  with assms obtain st' where run: "load_lines 1 (file_lines content) ([], []) = Inr st'"
    and t: "t = CDict (snd (close_to 0 st'))"
    by (auto simp: bindR_eq_Inr)
  have "wf_state ([], [])" by (simp add: wf_state_def)
  with run have "wf_state (close_to 0 st')" by (blast intro: wf_close_to wf_load_lines)
  with t show ?thesis by (simp add: wf_state_def)
qed (use assms in auto)

theorem config_file_load_wf_witness: "wf_cfg (CDict []) \<and> is_group (CDict [])"
  by (rule config_file_load_wf [of Absent]) simp

section \<open>Every operation of the manager keeps the tree storable\<close>

text \<open>What the objects hand to the manager: names, texts and lists the format can carry.\<close>

fun storable_newval :: "newval \<Rightarrow> bool" where
  "storable_newval NDefault = True"
| "storable_newval (NLeaf l) = storable_leaf l"
| "storable_newval (NItems d) =
     (\<forall>p \<in> set d. fst p \<noteq> [] \<and> plain_text (fst p) \<and> storable_newval (snd p))"
| "storable_newval (NDict d) =
     (\<forall>p \<in> set d. fst p \<noteq> [] \<and> plain_text (fst p) \<and> storable_newval (snd p))"

definition storable_path :: "key list \<Rightarrow> bool" where
  "storable_path ks = list_all (\<lambda>k. key_name k \<noteq> [] \<and> plain_text (key_name k)) ks"

lemma storable_path_simps [simp]:
  "storable_path []"
  "storable_path (k # ks) \<longleftrightarrow> key_name k \<noteq> [] \<and> plain_text (key_name k) \<and> storable_path ks"
  by (simp_all add: storable_path_def)

lemmas storable_dict_iff = storable.simps(2)

lemma storable_empty: "storable (CDict [])"
  by simp

lemma storable_dset:
  "storable (CDict d) \<Longrightarrow> storable c \<Longrightarrow> k \<noteq> [] \<Longrightarrow> plain_text k \<Longrightarrow> storable (CDict (dset k c d))"
  using set_dset [of k c d] by fastforce

lemma storable_filter: "storable (CDict d) \<Longrightarrow> storable (CDict (filter P d))"
  by simp

lemma storable_ddel: "storable (CDict d) \<Longrightarrow> storable (CDict (ddel k d))"
  unfolding ddel_def by (rule storable_filter)

lemma storable_lookup: "storable (CDict d) \<Longrightarrow> map_of d k = Some c \<Longrightarrow> storable c"
  by (fastforce dest: map_of_SomeD)

lemma storable_child:
  "storable (CDict d) \<Longrightarrow> storable (case map_of d k of None \<Rightarrow> CDict [] | Some s \<Rightarrow> s)"
  using storable_lookup [of d k] by (simp split: option.split del: storable.simps(2)) simp

lemma storable_subdict: "storable (CDict d) \<Longrightarrow> storable (CDict (subdict d k))"
  using storable_lookup [of d k]
  by (auto simp: subdict_def storable_empty simp del: storable.simps(2) split: option.split cfg.split)

lemma storable_put_or_drop:
  "storable (CDict d) \<Longrightarrow> storable (CDict e) \<Longrightarrow> k \<noteq> [] \<Longrightarrow> plain_text k \<Longrightarrow>
   storable (CDict (put_or_drop k e d))"
  by (simp add: put_or_drop_def storable_ddel storable_dset del: storable.simps(2))

lemma storable_update_dict:
  "storable (CDict old) \<Longrightarrow> storable_newval (NDict new) \<Longrightarrow> storable (CDict (update_dict old new))"
proof (induction old new rule: update_dict.induct)
  case (3 old k v new)
  have "storable (CDict (filter (\<lambda>p. fst p \<in> dkeys v) (subdict old k)))"
    by (intro storable_filter storable_subdict "3.prems")
  with 3 show ?case
    by (simp add: storable_put_or_drop del: storable.simps(2))
next
  case (4 old k v new)
  then show ?case by (simp add: storable_put_or_drop storable_subdict del: storable.simps(2))
qed (simp_all add: storable_ddel storable_dset del: storable.simps(2))

lemma storable_update_pairs:
  "storable (CDict d) \<Longrightarrow> list_all plain_text xs \<Longrightarrow> storable (CDict (snd (update_pairs d xs)))"
proof (induction d xs rule: update_pairs.induct)
  case (2 d a b xs)
  then show ?case
    by (simp add: storable_dset plain_text_def del: storable.simps(2))
qed simp_all

lemma storable_fold_dset:
  "storable (CDict d) \<Longrightarrow> storable (CDict e) \<Longrightarrow> storable (CDict (fold (\<lambda>(k, v). dset k v) e d))"
proof (induction e arbitrary: d)
  case (Cons p e)
  have p: "fst p \<noteq> []" "plain_text (fst p)" "storable (snd p)" and e: "storable (CDict e)"
    using Cons.prems(2) by simp_all
  have "storable (CDict (dset (fst p) (snd p) d))"
    by (rule storable_dset [OF Cons.prems(1) p(3,1,2)])
  from Cons.IH [OF this e] show ?case by (simp add: split_beta del: storable.simps(2))
qed (simp del: storable.simps(2))

lemma storable_py_dict_update:
  "storable (CDict d) \<Longrightarrow> storable c \<Longrightarrow> storable (CDict (snd (py_dict_update d c)))"
  by (cases "(d, c)" rule: py_dict_update.cases)
    (simp_all add: storable_fold_dset storable_update_pairs del: storable.simps(2))

lemma storable_cm_insert:
  "storable t \<Longrightarrow> storable c \<Longrightarrow> storable_path ks \<Longrightarrow> storable (snd (cm_insert t ks c))"
proof (induction t ks c rule: cm_insert.induct)
  case (3 d k ks data)
  let ?sub = "case map_of d (key_name k) of None \<Rightarrow> CDict [] | Some s \<Rightarrow> s"
  have sub: "storable ?sub" using "3.prems"(1) by (rule storable_child)
  obtain r sub' where ins: "(if ks \<noteq> [] then cm_insert ?sub ks data
      else case ?sub of CLeaf l \<Rightarrow> (Inl AttributeError, CLeaf l)
        | CDict e \<Rightarrow> (case py_dict_update e data of (r, e') \<Rightarrow> (r, CDict e'))) = (r, sub')" by fastforce
  have "storable sub'"
  proof (cases "ks = []")
    case True
    then show ?thesis
      using ins sub "3.prems"(2) storable_py_dict_update [of _ data]
      by (cases ?sub) (auto simp del: storable.simps(2) split: prod.splits, metis snd_conv)
  next
    case False
    with "3.IH" [OF refl False sub] "3.prems" ins show ?thesis by simp
  qed
  with "3.prems" ins show ?case
    by (simp add: Let_def storable_dset del: storable.simps(2))
qed simp_all

lemma storable_cm_pop:
  "storable t \<Longrightarrow> storable_path ks \<Longrightarrow>
   storable (snd (cm_pop t ks)) \<and> pred_sum (\<lambda>_. True) storable (fst (cm_pop t ks))"
proof (induction t ks rule: cm_pop.induct)
  case (3 d k ks)
  show ?case
  proof (cases "map_of d (key_name k)")
    case None
    with 3 show ?thesis by simp
  next
    case (Some sub)
    then have sub: "storable sub" using "3.prems"(1) storable_lookup by blast
    show ?thesis
    proof (cases "ks = []")
      case True
      with Some sub "3.prems" show ?thesis by (simp add: storable_ddel del: storable.simps(2))
    next
      case False
      obtain r sub' where pop: "cm_pop sub ks = (r, sub')" by fastforce
      then have "storable sub'" "pred_sum (\<lambda>_. True) storable r"
        using "3.IH" [OF Some False sub] "3.prems"(2) by simp_all
      with Some False pop "3.prems" show ?thesis
        by (cases r) (simp_all add: storable_ddel storable_dset del: storable.simps(2))
    qed
  qed
qed simp_all

lemma storable_update_node:
  "storable t \<Longrightarrow> storable_newval (NDict new) \<Longrightarrow> storable (snd (update_node t new))"
  by (induction t new rule: update_node.induct)
    (simp_all add: storable_update_dict del: storable.simps(2))

lemma storable_cm_update:
  "storable t \<Longrightarrow> storable_path ks \<Longrightarrow> storable_newval (NDict data) \<Longrightarrow>
   storable (snd (cm_update t ks data))"
proof (induction t ks data rule: cm_update.induct)
  case (3 d k ks data)
  let ?sub = "case map_of d (key_name k) of None \<Rightarrow> CDict [] | Some s \<Rightarrow> s"
  have sub: "storable ?sub" using "3.prems"(1) by (rule storable_child)
  obtain r sub' where upd:
      "(if ks \<noteq> [] then cm_update ?sub ks data else update_node ?sub data) = (r, sub')" by fastforce
  have "storable sub'"
  proof (cases "ks = []")
    case True
    with upd storable_update_node [OF sub "3.prems"(3)] show ?thesis by simp
  next
    case False
    with "3.IH" [OF refl False sub] "3.prems" upd show ?thesis by simp
  qed
  with "3.prems" upd show ?case
    by (cases r) (simp_all add: Let_def storable_ddel storable_dset del: storable.simps(2))
qed simp_all

section \<open>A running configuration\<close>

text \<open>
  What the objects ask of the manager between a start and the next: \<open>update\<close>, \<open>rename\<close>,
  \<open>delete\<close> and \<open>save\<close>, with what the file system does to each save. Any of them may raise;
  what was done before stays done, also within an operation that raises.
\<close>

datatype config_op =
    OpUpdate "key list" "(string \<times> newval) list"
  | OpRename "key list" "key list"
  | OpDelete "key list"
  | OpSave "save_step \<Rightarrow> bool"

fun config_step :: "config_op \<Rightarrow> file_state manager \<Rightarrow> file_state manager" where
  "config_step (OpUpdate ks data) m = snd (manager_update ks data m)"
| "config_step (OpRename ks ls) m = snd (manager_rename ks ls m)"
| "config_step (OpDelete ks) m = snd (manager_delete ks m)"
| "config_step (OpSave fails) m = snd (manager_save (file_save False id fails) m)"

fun storable_op :: "config_op \<Rightarrow> bool" where
  "storable_op (OpUpdate ks data) = (storable_path ks \<and> storable_newval (NDict data))"
| "storable_op (OpRename ks ls) = (storable_path ks \<and> storable_path ls)"
| "storable_op (OpDelete ks) = storable_path ks"
| "storable_op (OpSave fails) = True"

abbreviation config_start :: "file_state \<Rightarrow> file_state manager" where
  "config_start file \<equiv> snd (manager_start file_load (Some (ProvidesBackend file)) manager_init)"

definition config_run :: "file_state \<Rightarrow> config_op list \<Rightarrow> file_state manager" where
  "config_run file ops = fold config_step ops (config_start file)"

definition config_good :: "file_state manager \<Rightarrow> bool" where
  "config_good m = (storable (cm_data m) \<and> wf_cfg (cm_data m))"

lemma config_good_step:
  assumes "config_good m" "storable_op p"
  shows "config_good (config_step p m)"
proof (cases p)
  case (OpUpdate ks data)
  have "storable (snd (cm_update (cm_data m) ks data))" "wf_cfg (snd (cm_update (cm_data m) ks data))"
    using assms OpUpdate storable_cm_update wf_cm_update by (simp_all add: config_good_def del: storable_newval.simps)
  with assms(1) OpUpdate show ?thesis
    by (cases "cm_update (cm_data m) ks data") (simp add: config_good_def manager_update_def)
next
  case (OpRename ks ls)
  obtain r t where pop: "cm_pop (cm_data m) ks = (r, t)" by fastforce
  then have t: "storable t" "wf_cfg t" and r: "\<And>c. r = Inr c \<Longrightarrow> storable c \<and> wf_cfg c"
    using storable_cm_pop [of "cm_data m" ks] wf_cm_pop [of "cm_data m" ks] assms OpRename
    by (auto simp: config_good_def)
  have "storable (snd (cm_insert t ls c)) \<and> wf_cfg (snd (cm_insert t ls c))" if "r = Inr c" for c
    using storable_cm_insert [OF t(1), of c ls] wf_cm_insert [OF t(2), of c ls] r [OF that] assms(2) OpRename
    by simp
  with assms(1) t pop OpRename show ?thesis
    by (cases r) (auto simp: config_good_def manager_rename_def split: prod.split pyerr.split)
next
  case (OpDelete ks)
  obtain r t where pop: "cm_pop (cm_data m) ks = (r, t)" by fastforce
  then have "storable t" "wf_cfg t"
    using storable_cm_pop [of "cm_data m" ks] wf_cm_pop [of "cm_data m" ks] assms OpDelete
    by (auto simp: config_good_def)
  with assms(1) pop OpDelete show ?thesis
    by (cases r) (auto simp: config_good_def manager_delete_def split: pyerr.split)
next
  case (OpSave fails)
  with assms(1) show ?thesis
    by (simp add: config_good_def manager_save_def split: option.split prod.split)
qed

lemma config_good_start:
  assumes "file_load file = Inr t" "storable t" "wf_cfg t"
  shows "config_good (config_start file)"
  using assms by (simp add: config_good_def manager_start_def manager_init_def del: file_load.simps)

lemma config_good_run:
  assumes "config_good (config_start file)" "list_all storable_op ops"
  shows "config_good (config_run file ops)"
  using assms(2)
  by (induction ops rule: rev_induct) (simp_all add: config_run_def assms(1) config_good_step)

section \<open>Properties of the file backend\<close>

text \<open>
  C3. Round trip of the configuration file. Every tree whose names are not empty, whose texts
  hold no space character unknown to the escaping rule and whose lists are not empty is read
  back from its printed form unchanged: escapes, quotes, comma lists, one-element lists, nested
  groups, empty groups and the blank lines between them.
\<close>

theorem config_file_roundtrip:
  assumes "storable (CDict d)" "wf_cdict d"
  shows "file_load (Present (file_text d)) = Inr (CDict d)"
  using assms by (rule file_text_roundtrip)

theorem config_file_roundtrip_witness:
  "file_load (Present (file_text
     [(''g'', CDict [(''a b'', CLeaf (LList [''x,y'', []])), (''n'', CLeaf LNone)]), (''s'', CLeaf (LText ''# 1''))]))
   = Inr (CDict [(''g'', CDict [(''a b'', CLeaf (LList [''x,y'', []])), (''n'', CLeaf LNone)]), (''s'', CLeaf (LText ''# 1''))])"
  by (rule config_file_roundtrip)
    (simp_all add: plain_text_def isspace_def ascii_space_def escape_character_def wf_cdict_iff dwf_def)

text \<open>
  C4. Saving is atomic where \<open>rename\<close> replaces the file: whichever calls on the file system
  fail, either the save succeeds, no call failed and the file holds the printed tree, or it
  raises, one of the calls failed and the file is what it was. After a successful save a load
  returns the tree (in whose dictionaries no name occurs twice), provided the format can carry
  it: its names are not empty, its names and
  texts hold no space character the escaping rule does not know (a no-break space, say), and
  none of its lists is empty.
\<close>

theorem config_file_save_atomic:
  assumes "file_save False unlink fails st (CDict d) = (r, st')"
  shows "(r = Inr () \<and> (\<forall>step. step \<noteq> Unlink \<longrightarrow> \<not> fails step) \<and> st' = Present (file_text d) \<and>
            (storable (CDict d) \<and> wf_cdict d \<longrightarrow> file_load st' = Inr (CDict d))) \<or>
         (r = Inl BackendError \<and> (\<exists>step. step \<noteq> Unlink \<and> fails step) \<and> st' = st)"
proof (cases "\<exists>step. step \<noteq> Unlink \<and> fails step")
  case True
  then obtain step where step: "fails step" "step \<noteq> Unlink" by blast
  then have "r = Inl BackendError" "st' = st"
    using assms by (cases step; auto simp: file_save_def Let_def split: if_splits)+
  with step show ?thesis by blast
next
  case False
  then have "\<not> fails MakeDirs" "\<not> fails OpenTmp" "\<not> fails WriteTmp" "\<not> fails CloseTmp"
    "\<not> fails RenameTmp" by auto
  then have "r = Inr ()" "st' = Present (file_text d)"
    using assms by (simp_all add: file_save_def Let_def)
  with False file_text_roundtrip [of d] show ?thesis by blast
qed

theorem config_file_save_atomic_witness:
  "snd (file_save False id (\<lambda>s. s = RenameTmp) (Present (file_text [(''a'', CLeaf LNone)])) (CDict []))
     = Present (file_text [(''a'', CLeaf LNone)]) \<and>
   file_load (snd (file_save False id (\<lambda>s. s = Unlink) Absent (CDict [(''a'', CLeaf LNone)])))
     = Inr (CDict [(''a'', CLeaf LNone)])"
proof -
  let ?d = "[(''a'', CLeaf LNone)]"
  let ?st = "Present (file_text ?d)"
  have 1: "file_save False id (\<lambda>s. s = RenameTmp) ?st (CDict []) = (Inl BackendError, ?st)"
    by (simp add: file_save_def)
  have 2: "file_save False id (\<lambda>s. s = Unlink) Absent (CDict ?d) = (Inr (), Present (file_text ?d))"
    by (simp add: file_save_def)
  have 3: "storable (CDict ?d)" "wf_cdict ?d"
    by (simp_all add: plain_text_def isspace_def ascii_space_def wf_cdict_iff dwf_def)
  show ?thesis
    using config_file_save_atomic [OF 1] config_file_save_atomic [OF 2] 3
    unfolding 1 2 by simp
qed

text \<open>
  C5. Settings survive a restart. Take a manager started on a file it can read, and any
  sequence of updates, renames, deletions and saves (some of which may raise or fail). If the
  tree the file held and every name, text and list handed to the manager are such that the
  format can carry them (names not empty, no space character unknown to the escaping rule, no
  empty list), then after a save that succeeds a manager started afresh on the file returns
  for every path what the running one returns. Without that condition it does not hold:
  \<open>config_file_empty_list_becomes_none\<close> and \<open>config_file_no_break_space_unreadable\<close>.
\<close>

theorem settings_survive_restart:
  assumes "file_load file = Inr t" "storable t" "list_all storable_op ops"
    and "manager_save (file_save False unlink fails) (config_run file ops) = (Inr (), m)"
    and "cm_backend m = Some file'"
  shows "manager_get ls (config_start file') = manager_get ls (config_run file ops)"
proof -
  have "wf_cfg t" using config_file_load_wf [OF assms(1)] by simp
  then have "config_good (config_run file ops)"
    using assms(1-3) by (intro config_good_run config_good_start)
  with assms(4,5) show ?thesis
    by (intro file_store.get_after_restart) (auto simp: config_good_def)
qed

theorem settings_survive_restart_witness:
  "manager_get [PlainKey ''T''] (config_start (Present (file_text [(''T'', CDict [(''p'', CLeaf (LText ''1''))])])))
     = Inr (CDict [(''p'', CLeaf (LText ''1''))])"
proof -
  let ?d = "[(''T'', CDict [(''p'', CLeaf (LText ''1''))])]"
  let ?ops = "[OpUpdate [PlainKey ''S''] [(''p'', NLeaf (LText ''1''))], OpSave (\<lambda>s. s = RenameTmp),
               OpRename [PlainKey ''S''] [PlainKey ''T'']]"
  let ?m2 = "\<lparr>cm_backend = Some (Present (file_text ?d)), cm_data = CDict ?d\<rparr>"
  have 0: "config_run Absent ?ops = \<lparr>cm_backend = Some Absent, cm_data = CDict ?d\<rparr>"
    by (simp add: config_run_def manager_start_def manager_init_def manager_update_def manager_rename_def
        manager_save_def file_save_def ddel_def)
  have 1: "manager_save (file_save False id (\<lambda>s. False)) (config_run Absent ?ops) = (Inr (), ?m2)"
    unfolding 0 by (simp add: manager_save_def file_save_def)
  have 2: "list_all storable_op ?ops"
    by (simp add: plain_text_def isspace_def ascii_space_def)
  have 3: "file_load Absent = Inr (CDict [])" "storable (CDict [])" "cm_backend ?m2 = Some (Present (file_text ?d))"
    by simp_all
  show ?thesis
    using settings_survive_restart [OF 3(1,2) 2 1 3(3), of "[PlainKey ''T'']"]
    unfolding 0 by (simp add: manager_get_def)
qed

section \<open>What the format loses\<close>

text \<open>Text of at least one character that needs no quoting and holds no space.\<close>

definition word_text :: "string \<Rightarrow> bool" where
  "word_text s = (s \<noteq> [] \<and> list_all (\<lambda>c. \<not> escape_character c \<and> \<not> isspace c) s)"

lemma load_single_line:
  assumes "parse_line ((setting_line 0 k data) @ [nl]) 1 = r" "nl \<notin> set (setting_line 0 k data)"
  shows "file_load (Present (file_text [(k, CLeaf data)])) =
    bindR r (\<lambda>p. Inr (CDict (snd (close_to 0 (load_line p ([], []))))))"
proof -
  have "file_lines (file_text [(k, CLeaf data)]) = [setting_line 0 k data @ [nl]]"
    using file_lines_Cons [OF assms(2), of "[]"]
    by (simp add: file_text_def build_group_append)
  with assms(1) show ?thesis by (cases r) simp_all
qed

text \<open>
  An empty list is not stored as an empty list: it is printed as a name with nothing after
  the equals sign, which is how \<open>None\<close> is printed, and it is loaded as \<open>None\<close>.
\<close>

theorem config_file_empty_list_becomes_none:
  assumes "plain_text k" "k \<noteq> []"
  shows "file_load (Present (file_text [(k, CLeaf (LList []))])) = Inr (CDict [(k, CLeaf LNone)])"
proof -
  have "rstrip (setting_line 0 k (LList []) @ [nl]) = rstrip (setting_line 0 k LNone @ [nl])"
    by (simp add: setting_line_def indent_spaces_def rstrip_def ascii_space_def)
  then have "parse_line (setting_line 0 k (LList []) @ [nl]) 1 = parse_line (setting_line 0 k LNone @ [nl]) 1"
    by (simp add: parse_line_def)
  also have "\<dots> = Inr \<lparr>indentation = 0, line_name = Some k, separator = Some (CHR ''=''), line_value = LNone\<rparr>"
    using parse_setting_line [OF assms, of LNone 0 1] by simp
  finally show ?thesis
    using load_single_line nl_setting_line by (simp add: load_line_setting)
qed

theorem config_file_empty_list_becomes_none_witness:
  "file_load (Present (file_text [(''transport_list'', CLeaf (LList []))])) =
     Inr (CDict [(''transport_list'', CLeaf LNone)])"
  by (rule config_file_empty_list_becomes_none)
    (simp_all add: plain_text_def isspace_def ascii_space_def)

text \<open>
  A value with a no-break space between two words makes the file unreadable: the escaping
  rule does not quote it, the parser takes it for the end of the token and refuses the rest of
  the line, so the whole load raises.
\<close>

theorem config_file_no_break_space_unreadable:
  assumes "plain_text k" "k \<noteq> []" "word_text a" "word_text b"
  shows "file_load (Present (file_text [(k, CLeaf (LText (a @ CHR 0xA0 # b)))])) =
    Inl (ParserError ''unexpected characters after value'' 1)"
proof -
  let ?v = "a @ CHR 0xA0 # b"
  have a: "a \<noteq> []" "list_all (\<lambda>c. \<not> escape_character c \<and> \<not> isspace c) a"
    and b: "b \<noteq> []" "list_all (\<lambda>c. \<not> escape_character c \<and> \<not> isspace c) b"
    using assms(3,4) by (simp_all add: word_text_def)
  have nbsp: "isspace (CHR 0xA0)" "\<not> escape_character (CHR 0xA0)" "\<not> ascii_space (CHR 0xA0)"
    by (simp_all add: isspace_def escape_character_def ascii_space_def)
  have "\<not> list_ex escape_character ?v"
    using a b nbsp by (auto simp: list_all_iff list_ex_iff)
  then have esc: "escape ?v = ?v" by (simp add: escape_def)
  obtain a0 as b0 bs where a0: "a = a0 # as" and b0: "b = b0 # bs"
    using a(1) b(1) by (metis list.exhaust)
  have edge: "\<not> isspace a0" "\<not> isspace b0" "a0 \<noteq> CHR ''#''" "b0 \<noteq> CHR ''#''" "b0 \<noteq> CHR '',''"
    using a b a0 b0 by (auto simp: escape_character_def)
  have "token 1 '','' None ?v = prepend a (token 1 '','' None (CHR 0xA0 # b))"
    using a(2) by (intro token_plain) (auto simp: escape_character_def)
  then have tok: "token 1 '','' None ?v = Inr (a, b)" using nbsp by simp
  have vals: "parse_values 1 ?v None LNone =
      Inl (ParserError ''unexpected characters after value'' 1)"
    using tok edge b0 a0 by (subst parse_values.simps) simp
  have "\<not> ascii_space (last b)"
    using b by (auto simp: list_all_iff isspace_def)
  then have last: "\<not> ascii_space (last (CHR ''='' # CHR '' '' # ?v))" using b(1) by simp
  have "setting_line 0 k (LText ?v) @ [nl] =
      indent_spaces 0 @ escape k @ '' '' @ CHR ''='' # (CHR '' '' # ?v) @ [nl]"
    by (simp add: setting_line_split esc)
  then have "parse_line (setting_line 0 k (LText ?v) @ [nl]) 1 =
      Inl (ParserError ''unexpected characters after value'' 1)"
    using parse_line_sep [OF assms(1,2) _ last, of "'' ''" 0 1] vals edge a0 by simp
  then show ?thesis
    using load_single_line nl_setting_line by simp
qed

theorem config_file_no_break_space_unreadable_witness:
  "file_load (Present (file_text [(''display_name'', CLeaf (LText (''John'' @ CHR 0xA0 # ''Doe'')))])) =
     Inl (ParserError ''unexpected characters after value'' 1)"
  by (rule config_file_no_break_space_unreadable)
    (simp_all add: plain_text_def word_text_def isspace_def ascii_space_def escape_character_def)

end
