(* ===== verification/Python_Text.thy ===== *)
theory Python_Text
  imports Prelude
begin

text \<open>
  What the sources use of Python's text handling: decimal numerals (\<open>int(s)\<close>, \<open>'%d'\<close>),
  \<open>str.split\<close>, \<open>str.lower\<close>, \<open>str(u)\<close>, and the regular expressions of the module
  \<open>re\<close> with their backtracking, greedy, capturing semantics.
\<close>

section \<open>Numerals\<close>

definition digit_char :: "nat \<Rightarrow> char" where
  "digit_char n = char_of (48 + n)"

definition is_digit :: "char \<Rightarrow> bool" where
  "is_digit c = (CHR ''0'' \<le> c \<and> c \<le> CHR ''9'')"

definition digit_val :: "char \<Rightarrow> nat" where
  "digit_val c = of_char c - 48"

fun show_nat :: "nat \<Rightarrow> string" where
  "show_nat n = (if n < 10 then [digit_char n] else show_nat (n div 10) @ [digit_char (n mod 10)])"

declare show_nat.simps [simp del]

definition read_nat :: "string \<Rightarrow> nat" where
  "read_nat s = foldl (\<lambda>n c. 10 * n + digit_val c) 0 s"

lemma of_char_digit: "n < 10 \<Longrightarrow> of_char (digit_char n) = (48 + n :: nat)"
  by (simp add: digit_char_def)

lemma digit_char_val: "n < 10 \<Longrightarrow> is_digit (digit_char n) \<and> digit_val (digit_char n) = n"
  by (simp add: is_digit_def digit_val_def of_char_digit less_eq_char_def)

lemma read_nat_snoc: "read_nat (s @ [c]) = 10 * read_nat s + digit_val c"
  by (simp add: read_nat_def)

lemma show_nat_small: "n < 10 \<Longrightarrow> show_nat n = [digit_char n]"
  by (subst show_nat.simps) simp

lemma show_nat_large: "10 \<le> n \<Longrightarrow> show_nat n = show_nat (n div 10) @ [digit_char (n mod 10)]"
  by (subst show_nat.simps) simp

lemma read_show_nat [simp]: "read_nat (show_nat n) = n"
  by (induction n rule: show_nat.induct)
    (case_tac "n < 10", simp_all add: show_nat_small show_nat_large read_nat_snoc digit_char_val,
      simp add: read_nat_def digit_char_val)

lemma show_nat_digits: "list_all is_digit (show_nat n)"
proof (induction n rule: show_nat.induct)
  case (1 n)
  then show ?case
    by (subst show_nat.simps) (simp add: digit_char_val)
qed

lemma show_nat_not_Nil [simp]: "show_nat n \<noteq> []"
  by (subst show_nat.simps) simp

text \<open>\<open>int(s)\<close> for a string: surrounding white space, a sign, at least one digit.\<close>

definition ascii_blank :: "char \<Rightarrow> bool" where
  "ascii_blank c = (c \<in> {CHR 0x09, CHR 0x0A, CHR 0x0B, CHR 0x0C, CHR 0x0D, CHR '' ''})"

definition strip :: "(char \<Rightarrow> bool) \<Rightarrow> string \<Rightarrow> string" where
  "strip P s = rev (dropWhile P (rev (dropWhile P s)))"

definition read_digits :: "string \<Rightarrow> int result" where
  "read_digits s = (if s \<noteq> [] \<and> list_all is_digit s then Inr (int (read_nat s)) else Inl ValueError)"

definition py_int :: "string \<Rightarrow> int result" where
  "py_int s =
     (case strip ascii_blank s of
        [] \<Rightarrow> Inl ValueError
      | c # cs \<Rightarrow>
          if c = CHR ''-'' then bindR (read_digits cs) (\<lambda>n. Inr (- n))
          else if c = CHR ''+'' then read_digits cs
          else read_digits (c # cs))"

definition show_int :: "int \<Rightarrow> string" where
  "show_int n = (if n < 0 then CHR ''-'' # show_nat (nat (- n)) else show_nat (nat n))"

lemma digit_not_special:
  "is_digit c \<Longrightarrow> \<not> ascii_blank c \<and> c \<noteq> CHR ''-'' \<and> c \<noteq> CHR ''+'' \<and> c \<noteq> CHR '':'' \<and> c \<noteq> CHR '';''
     \<and> c \<noteq> CHR ''.'' \<and> c \<noteq> CHR ''x'' \<and> c \<noteq> CHR 0x0A"
  by (auto simp: is_digit_def ascii_blank_def less_eq_char_def)

lemma strip_id:
  "s \<noteq> [] \<Longrightarrow> \<not> P (hd s) \<Longrightarrow> \<not> P (last s) \<Longrightarrow> strip P s = s"
proof -
  have dw: "t \<noteq> [] \<Longrightarrow> \<not> P (hd t) \<Longrightarrow> dropWhile P t = t" for t :: string
    by (cases t) simp_all
  assume "s \<noteq> []" "\<not> P (hd s)" "\<not> P (last s)"
  then show ?thesis by (simp add: strip_def dw hd_rev)
qed

lemma py_int_digits: "s \<noteq> [] \<Longrightarrow> list_all is_digit s \<Longrightarrow> py_int s = Inr (int (read_nat s))"
proof -
  assume s: "s \<noteq> []" "list_all is_digit s"
  then have "is_digit (hd s)" "is_digit (last s)" by (simp_all add: list_all_iff)
  then have "strip ascii_blank s = s"
    using s(1) by (intro strip_id) (simp_all add: digit_not_special)
  moreover obtain c cs where "s = c # cs" using s(1) by (cases s) auto
  ultimately show ?thesis
    using s digit_not_special [of c] by (simp add: py_int_def read_digits_def)
qed

lemma py_int_show_nat [simp]: "py_int (show_nat n) = Inr (int n)"
  by (simp add: py_int_digits show_nat_digits)

lemma py_int_show_int: "py_int (show_int n) = Inr n"
proof (cases "n < 0")
  case True
  let ?d = "show_nat (nat (- n))"
  have "is_digit (last ?d)"
    using show_nat_digits [of "nat (- n)"] by (simp add: list_all_iff)
  then have "strip ascii_blank (CHR ''-'' # ?d) = CHR ''-'' # ?d"
    by (intro strip_id) (simp_all add: digit_not_special, simp add: ascii_blank_def)
  with True show ?thesis
    by (simp add: show_int_def py_int_def read_digits_def show_nat_digits)
qed (simp add: show_int_def)

section \<open>Splitting, lower case, conversion to bytes\<close>

fun split_on :: "char \<Rightarrow> string \<Rightarrow> string list" where
  "split_on c [] = [[]]"
| "split_on c (x # xs) =
     (if x = c then [] # split_on c xs
      else case split_on c xs of [] \<Rightarrow> [[x]] | y # ys \<Rightarrow> (x # y) # ys)"

lemma split_on_not_Nil [simp]: "split_on c s \<noteq> []"
  by (induction s) (auto split: list.split)

lemma split_on_none: "c \<notin> set s \<Longrightarrow> split_on c s = [s]"
  by (induction s) auto

lemma split_on_append: "c \<notin> set s \<Longrightarrow> split_on c (s @ c # t) = s # split_on c t"
  by (induction s) auto

lemma split_on_single: "split_on c s = [x] \<longleftrightarrow> c \<notin> set s \<and> s = x"
proof (induction s arbitrary: x)
  case (Cons y s)
  then show ?case by (cases "split_on c s") (auto split: list.splits)
qed auto

lemma split_on_two: "split_on c s = [x, y] \<longleftrightarrow> c \<notin> set x \<and> c \<notin> set y \<and> s = x @ c # y"
proof (induction s arbitrary: x)
  case (Cons z s)
  show ?case
  proof (cases "z = c")
    case True
    then show ?thesis
      by (cases x) (auto simp: split_on_single)
  next
    case False
    then show ?thesis
      using Cons.IH [of "tl x"] by (cases "split_on c s"; cases x) auto
  qed
qed simp

definition lower_char :: "char \<Rightarrow> char" where
  "lower_char c = (if CHR ''A'' \<le> c \<and> c \<le> CHR ''Z'' then char_of ((of_char c :: nat) + 32) else c)"

definition lower :: "string \<Rightarrow> string" where
  "lower s = map lower_char s"

text \<open>\<open>str(value)\<close> of a unicode value: \<open>UnicodeEncodeError\<close> is a \<open>ValueError\<close>.\<close>

definition py_str :: "string \<Rightarrow> string result" where
  "py_str s = (if list_all (\<lambda>c. c < CHR 0x80) s then Inr s else Inl ValueError)"

section \<open>Regular expressions\<close>

datatype re =
    Cls "char \<Rightarrow> bool"
  | Eps
  | Cat re re
  | Alt re re
  | Maybe re
  | Star re
  | Grp string re
  | AtEnd

text \<open>A position: what was consumed, what is left, and the captured groups, latest first.\<close>

record pos =
  used :: string
  left :: string
  groups :: "(string \<times> string) list"

text \<open>
  All ways to match from a position, in the order in which Python's matcher tries them: the
  left alternative first, one more repetition before none, and no repetition of an empty match.
  \<open>$\<close> matches at the end and before a newline at the end. \<open>^\<close> needs no constructor:
  \<open>match\<close> starts at the beginning of the string.
\<close>

function ways :: "re \<Rightarrow> pos \<Rightarrow> pos list" where
  "ways (Cls P) p =
     (case left p of
        [] \<Rightarrow> []
      | c # cs \<Rightarrow> if P c then [p\<lparr>used := used p @ [c], left := cs\<rparr>] else [])"
| "ways Eps p = [p]"
| "ways (Cat a b) p = concat (map (ways b) (ways a p))"
| "ways (Alt a b) p = ways a p @ ways b p"
| "ways (Maybe a) p = ways a p @ [p]"
| "ways (Star a) p =
     concat (map (ways (Star a)) (filter (\<lambda>q. length (left q) < length (left p)) (ways a p))) @ [p]"
| "ways (Grp n a) p =
     map (\<lambda>q. q\<lparr>groups := (n, drop (length (used p)) (used q)) # groups q\<rparr>) (ways a p)"
| "ways AtEnd p = (if left p = [] \<or> left p = [CHR 0x0A] then [p] else [])"
  by pat_completeness auto
termination
  by (relation "measures [size \<circ> fst, \<lambda>(r, p). length (left p)]") auto

declare ways.simps(6) [simp del]

definition start_pos :: "string \<Rightarrow> pos" where
  "start_pos s = \<lparr>used = [], left = s, groups = []\<rparr>"

definition re_match :: "re \<Rightarrow> string \<Rightarrow> pos option" where
  "re_match r s = (case ways r (start_pos s) of [] \<Rightarrow> None | p # _ \<Rightarrow> Some p)"

text \<open>Membership in the list of ways, operator by operator.\<close>

lemma ways_Cls:
  "q \<in> set (ways (Cls P) p) \<longleftrightarrow>
     (\<exists>c cs. left p = c # cs \<and> P c \<and> q = p\<lparr>used := used p @ [c], left := cs\<rparr>)"
  by (cases "left p") auto

lemma ways_Cat: "q \<in> set (ways (Cat a b) p) \<longleftrightarrow> (\<exists>m \<in> set (ways a p). q \<in> set (ways b m))"
  by auto

lemma ways_Alt: "q \<in> set (ways (Alt a b) p) \<longleftrightarrow> q \<in> set (ways a p) \<or> q \<in> set (ways b p)"
  by auto

lemma ways_Maybe: "q \<in> set (ways (Maybe a) p) \<longleftrightarrow> q = p \<or> q \<in> set (ways a p)"
  by auto

lemma ways_Star:
  "q \<in> set (ways (Star a) p) \<longleftrightarrow>
     q = p \<or> (\<exists>m \<in> set (ways a p). length (left m) < length (left p) \<and> q \<in> set (ways (Star a) m))"
  by (subst ways.simps(6)) auto

lemma ways_Grp:
  "q \<in> set (ways (Grp n a) p) \<longleftrightarrow>
     (\<exists>m \<in> set (ways a p). q = m\<lparr>groups := (n, drop (length (used p)) (used m)) # groups m\<rparr>)"
  by auto

lemma ways_AtEnd: "q \<in> set (ways AtEnd p) \<longleftrightarrow> q = p \<and> (left p = [] \<or> left p = [CHR 0x0A])"
  by auto

lemmas ways_iff = ways_Cls ways_Cat ways_Alt ways_Maybe ways_Grp ways_AtEnd

text \<open>
  The language of a pattern without the end mark: what it consumes depends on nothing but the
  consumed word, so matching is membership of a prefix in the language.
\<close>

fun lang :: "re \<Rightarrow> string \<Rightarrow> bool" where
  "lang (Cls P) w = (\<exists>c. w = [c] \<and> P c)"
| "lang Eps w = (w = [])"
| "lang (Cat a b) w = (\<exists>x y. w = x @ y \<and> lang a x \<and> lang b y)"
| "lang (Alt a b) w = (lang a w \<or> lang b w)"
| "lang (Maybe a) w = (w = [] \<or> lang a w)"
| "lang (Star a) w = (\<exists>ws. w = concat ws \<and> (\<forall>x \<in> set ws. lang a x))"
| "lang (Grp n a) w = lang a w"
| "lang AtEnd w = False"

fun anchor_free :: "re \<Rightarrow> bool" where
  "anchor_free AtEnd = False"
| "anchor_free (Cat a b) = (anchor_free a \<and> anchor_free b)"
| "anchor_free (Alt a b) = (anchor_free a \<and> anchor_free b)"
| "anchor_free (Maybe a) = anchor_free a"
| "anchor_free (Star a) = anchor_free a"
| "anchor_free (Grp n a) = anchor_free a"
| "anchor_free _ = True"

definition moved :: "pos \<Rightarrow> string \<Rightarrow> pos \<Rightarrow> bool" where
  "moved p w q = (used q = used p @ w \<and> left p = w @ left q)"

lemma moved_trans: "moved p w q \<Longrightarrow> moved q v r \<Longrightarrow> moved p (w @ v) r"
  by (simp add: moved_def)

lemma lang_Star_Nil: "lang (Star a) []"
  by (simp add: exI [of _ "[]"])

lemma lang_Star_Cons: "lang a x \<Longrightarrow> lang (Star a) w \<Longrightarrow> lang (Star a) (x @ w)"
proof -
  assume x: "lang a x" and "lang (Star a) w"
  then obtain ws where "w = concat ws" "\<forall>y \<in> set ws. lang a y" by auto
  with x have "x @ w = concat (x # ws) \<and> (\<forall>y \<in> set (x # ws). lang a y)" by simp
  then show ?thesis unfolding lang.simps by blast
qed

declare lang.simps(6) [simp del]
declare ways.simps [simp del]

lemma moved_refl: "moved p [] p"
  by (simp add: moved_def)

lemma ways_sound: "anchor_free r \<Longrightarrow> q \<in> set (ways r p) \<Longrightarrow> \<exists>w. moved p w q \<and> lang r w"
proof (induction r arbitrary: p q)
  case (Cls P)
  then show ?case by (auto simp: ways_Cls moved_def)
next
  case Eps
  then show ?case by (simp add: ways.simps moved_def)
next
  case (Cat a b)
  then obtain m where m: "m \<in> set (ways a p)" "q \<in> set (ways b m)"
    by (auto simp: ways_Cat)
  from Cat.IH(1) [OF _ m(1)] Cat.prems(1) obtain w where "moved p w m" "lang a w" by auto
  moreover from Cat.IH(2) [OF _ m(2)] Cat.prems(1) obtain v where "moved m v q" "lang b v" by auto
  ultimately have "moved p (w @ v) q \<and> lang (Cat a b) (w @ v)"
    using moved_trans by auto
  then show ?case by blast
next
  case (Alt a b)
  have "\<exists>w. moved p w q \<and> (lang a w \<or> lang b w)"
  proof (cases "q \<in> set (ways a p)")
    case True
    from Alt.IH(1) [OF _ True] Alt.prems(1) show ?thesis by auto
  next
    case False
    with Alt.prems(2) have "q \<in> set (ways b p)" by (simp add: ways_Alt)
    from Alt.IH(2) [OF _ this] Alt.prems(1) show ?thesis by auto
  qed
  then show ?case by simp
next
  case (Maybe a)
  show ?case
  proof (cases "q = p")
    case True
    then show ?thesis using moved_refl by (intro exI [of _ "[]"]) simp
  next
    case False
    with Maybe.prems obtain w where "moved p w q" "lang a w"
      using Maybe.IH [of q p] by (auto simp: ways_Maybe)
    then show ?thesis by (intro exI [of _ w]) simp
  qed
next
  case (Star a)
  from Star.prems(2) show ?case
  proof (induction "length (left p)" arbitrary: p rule: less_induct)
    case less
    from ways_Star [THEN iffD1, OF less.prems] consider "q = p"
      | (more) m where "m \<in> set (ways a p)" "length (left m) < length (left p)"
          "q \<in> set (ways (Star a) m)"
      by blast
    then show ?case
    proof cases
      case 1
      then show ?thesis using moved_refl lang_Star_Nil by blast
    next
      case more
      from Star.IH [OF _ more(1)] Star.prems(1) obtain x where "moved p x m" "lang a x" by auto
      moreover from less.hyps [OF more(2,3)] obtain w where "moved m w q" "lang (Star a) w" by blast
      ultimately have "moved p (x @ w) q \<and> lang (Star a) (x @ w)"
        using moved_trans lang_Star_Cons by blast
      then show ?thesis by blast
    qed
  qed
next
  case (Grp n a)
  then obtain m where m: "m \<in> set (ways a p)" "used q = used m" "left q = left m"
    by (auto simp: ways_Grp)
  from Grp.IH [OF _ m(1)] Grp.prems(1) obtain w where "moved p w m" "lang a w" by auto
  with m show ?case by (auto simp: moved_def)
next
  case AtEnd
  then show ?case by simp
qed

lemma ways_complete:
  "anchor_free r \<Longrightarrow> lang r w \<Longrightarrow> left p = w @ v \<Longrightarrow>
   \<exists>q \<in> set (ways r p). used q = used p @ w \<and> left q = v"
proof (induction r arbitrary: p w v)
  case (Cls P)
  then show ?case by (auto simp: ways_Cls)
next
  case Eps
  then show ?case by (simp add: ways.simps)
next
  case (Cat a b)
  then obtain x y where w: "w = x @ y" "lang a x" "lang b y" by auto
  obtain m where m: "m \<in> set (ways a p)" "used m = used p @ x" "left m = y @ v"
    using Cat.IH(1) [of x p "y @ v"] Cat.prems w by auto
  obtain q where q: "q \<in> set (ways b m)" "used q = used m @ y" "left q = v"
    using Cat.IH(2) [of y m v] Cat.prems w m by auto
  from m(1) q(1) have "q \<in> set (ways (Cat a b) p)" unfolding ways_Cat by blast
  with m q w show ?case by (intro bexI [of _ q]) simp_all
next
  case (Alt a b)
  show ?case
  proof (cases "lang a w")
    case True
    with Alt.IH(1) [of w p v] Alt.prems show ?thesis by (simp add: ways.simps(4) bex_Un)
  next
    case False
    with Alt.IH(2) [of w p v] Alt.prems show ?thesis by (simp add: ways.simps(4) bex_Un)
  qed
next
  case (Maybe a)
  show ?case
  proof (cases "lang a w")
    case True
    with Maybe.IH [of w p v] Maybe.prems show ?thesis by (simp add: ways.simps(5) bex_Un)
  next
    case False
    with Maybe.prems show ?thesis by (simp add: ways.simps(5))
  qed
next
  case (Star a)
  then obtain ws where ws: "w = concat ws" "\<forall>x \<in> set ws. lang a x" by (auto simp: lang.simps(6))
  have "left p = concat ws @ v \<Longrightarrow> \<forall>x \<in> set ws. lang a x \<Longrightarrow>
      \<exists>q \<in> set (ways (Star a) p). used q = used p @ concat ws \<and> left q = v" for p
  proof (induction ws arbitrary: p)
    case Nil
    then show ?case by (intro bexI [of _ p]) (simp_all add: ways_Star [of p a p])
  next
    case (Cons x ws)
    show ?case
    proof (cases "x = []")
      case True
      with Cons show ?thesis by simp
    next
      case False
      obtain m where m: "m \<in> set (ways a p)" "used m = used p @ x" "left m = concat ws @ v"
        using Star.IH [of x p "concat ws @ v"] Star.prems(1) Cons.prems by auto
      obtain q where q: "q \<in> set (ways (Star a) m)" "used q = used m @ concat ws" "left q = v"
        using Cons.IH [OF m(3)] Cons.prems(2) by auto
      have "length (left m) < length (left p)" using m Cons.prems(1) False by simp
      with m q have "q \<in> set (ways (Star a) p)" by (intro ways_Star [THEN iffD2]) blast
      with m q show ?thesis by (intro bexI [of _ q]) simp_all
    qed
  qed
  with ws Star.prems(3) show ?case by blast
next
  case (Grp n a)
  then have "anchor_free a" "lang a w" by simp_all
  from Grp.IH [OF this Grp.prems(3)]
  obtain m where m: "m \<in> set (ways a p)" "used m = used p @ w" "left m = v" by blast
  let ?q = "m\<lparr>groups := (n, drop (length (used p)) (used m)) # groups m\<rparr>"
  from m(1) have "?q \<in> set (ways (Grp n a) p)" unfolding ways_Grp by blast
  with m show ?case by (intro bexI [of _ ?q]) simp_all
next
  case AtEnd
  then show ?case by simp
qed

text \<open>A pattern without groups leaves the captured groups alone; its ways are the prefixes in its language.\<close>

fun group_free :: "re \<Rightarrow> bool" where
  "group_free (Grp n a) = False"
| "group_free (Cat a b) = (group_free a \<and> group_free b)"
| "group_free (Alt a b) = (group_free a \<and> group_free b)"
| "group_free (Maybe a) = group_free a"
| "group_free (Star a) = group_free a"
| "group_free _ = True"

lemma ways_groups: "group_free r \<Longrightarrow> q \<in> set (ways r p) \<Longrightarrow> groups q = groups p"
proof (induction r arbitrary: p q)
  case (Star a)
  from Star.prems(2) show ?case
  proof (induction "length (left p)" arbitrary: p rule: less_induct)
    case less
    from ways_Star [THEN iffD1, OF less.prems] show ?case
      using less.hyps Star.IH Star.prems(1) by (metis group_free.simps(5))
  qed
next
  case (Cat a b)
  then show ?case by (metis ways_Cat group_free.simps(2))
qed (auto simp: ways_iff ways.simps(2))

lemma pos_eqI: "used p = used q \<Longrightarrow> left p = left q \<Longrightarrow> groups p = groups q \<Longrightarrow> p = (q :: pos)"
  by (cases p; cases q) simp

lemma ways_plain:
  assumes "anchor_free r" "group_free r"
  shows "q \<in> set (ways r p) \<longleftrightarrow> (\<exists>w. moved p w q \<and> lang r w \<and> groups q = groups p)"
    (is "_ \<longleftrightarrow> ?R")
proof
  assume q: "q \<in> set (ways r p)"
  from ways_sound [OF assms(1) q] ways_groups [OF assms(2) q] show ?R by auto
next
  assume ?R
  then obtain w where w: "used q = used p @ w" "left p = w @ left q" "lang r w" "groups q = groups p"
    unfolding moved_def by blast
  from ways_complete [OF assms(1) w(3,2)] obtain m where
    m: "m \<in> set (ways r p)" "used m = used p @ w" "left m = left q" by blast
  have "groups m = groups p" by (rule ways_groups [OF assms(2) m(1)])
  with m(2,3) w(1,4) have "m = q" by (intro pos_eqI) simp_all
  with m(1) show "q \<in> set (ways r p)" by simp
qed

lemma ways_plain_grp:
  assumes "anchor_free r" "group_free r"
  shows "q \<in> set (ways (Grp n r) p) \<longleftrightarrow>
    (\<exists>w. moved p w q \<and> lang r w \<and> groups q = (n, w) # groups p)" (is "_ \<longleftrightarrow> ?R")
proof
  assume "q \<in> set (ways (Grp n r) p)"
  from ways_Grp [THEN iffD1, OF this] obtain m where m: "m \<in> set (ways r p)"
      "q = m\<lparr>groups := (n, drop (length (used p)) (used m)) # groups m\<rparr>" by blast
  from ways_plain [OF assms, THEN iffD1, OF m(1)] obtain w where
    w: "moved p w m" "lang r w" "groups m = groups p" by blast
  with m(2) show ?R by (intro exI [of _ w]) (simp add: moved_def)
next
  assume ?R
  then obtain w where w: "moved p w q" "lang r w" "groups q = (n, w) # groups p" by blast
  define m where "m = q\<lparr>groups := groups p\<rparr>"
  have "moved p w m" "groups m = groups p" using w(1) by (simp_all add: m_def moved_def)
  with w(2) have m: "m \<in> set (ways r p)"
    by (intro ways_plain [OF assms, THEN iffD2] exI [of _ w]) simp
  have "q = m\<lparr>groups := (n, drop (length (used p)) (used m)) # groups m\<rparr>"
    using w by (intro pos_eqI) (simp_all add: m_def moved_def)
  with m show "q \<in> set (ways (Grp n r) p)" unfolding ways_Grp by blast
qed

lemma re_match_eq_None: "re_match r s = None \<longleftrightarrow> ways r (start_pos s) = []"
  by (simp add: re_match_def split: list.split)

lemma re_match_SomeD: "re_match r s = Some p \<Longrightarrow> p \<in> set (ways r (start_pos s))"
  by (auto simp: re_match_def split: list.splits)

lemma re_match_ex:
  assumes "q \<in> set (ways r (start_pos s))"
  obtains m where "re_match r s = Some m" "m \<in> set (ways r (start_pos s))"
proof (cases "ways r (start_pos s)")
  case Nil
  with assms show ?thesis by simp
next
  case (Cons m ms)
  then show ?thesis by (intro that [of m]) (simp_all add: re_match_def)
qed

text \<open>The languages of one or more characters of a class, and of lists of them.\<close>

lemma lang_Star_Cls: "lang (Star (Cls P)) w \<longleftrightarrow> list_all P w"
proof
  assume "lang (Star (Cls P)) w"
  then obtain ws where "w = concat ws" "\<forall>x \<in> set ws. lang (Cls P) x" by (auto simp: lang.simps(6))
  moreover have "\<forall>x \<in> set ws. lang (Cls P) x \<Longrightarrow> list_all P (concat ws)"
    by (induction ws) auto
  ultimately show "list_all P w" by simp
next
  show "list_all P w \<Longrightarrow> lang (Star (Cls P)) w"
  proof (induction w)
    case (Cons c w)
    then show ?case using lang_Star_Cons [of "Cls P" "[c]" w] by simp
  qed (simp add: lang_Star_Nil)
qed

end
