(* ===== verification/Config_Types.thy ===== *)
theory Config_Types
  imports Python_Text Setting
begin

text \<open>
  The data types of settings, \<open>sipsimple/configuration/datatypes.py\<close>: validating
  constructors, and the address types with their textual form. A constructor takes what the
  code takes (a number, a text or \<open>None\<close>) and returns the value or the exception.
\<close>

section \<open>Arguments\<close>

datatype pyval = PNone | PInt int | PStr string

text \<open>\<open>int(value)\<close> and \<open>str(value)\<close>\<close>

fun int_of :: "pyval \<Rightarrow> int result" where
  "int_of (PInt n) = Inr n"
| "int_of (PStr s) = py_int s"
| "int_of PNone = Inl TypeError"

fun str_of :: "pyval \<Rightarrow> string result" where
  "str_of (PInt n) = Inr (show_int n)"
| "str_of (PStr s) = py_str s"
| "str_of PNone = Inr ''None''"

section \<open>Patterns\<close>

definition in_range :: "char \<Rightarrow> char \<Rightarrow> char \<Rightarrow> bool" where
  [simp]: "in_range low high c = (low \<le> c \<and> c \<le> high)"

text \<open>\<open>[a-zA-Z0-9\-_]\<close>\<close>

definition label_char :: "char \<Rightarrow> bool" where
  "label_char c =
     (is_digit c \<or> in_range (CHR ''a'') (CHR ''z'') c \<or> in_range (CHR ''A'') (CHR ''Z'') c \<or>
      c \<in> {CHR ''-'', CHR ''_''})"

definition re_char :: "char \<Rightarrow> re" where
  "re_char c = Cls (\<lambda>x. x = c)"

definition re_plus :: "re \<Rightarrow> re" where
  "re_plus r = Cat r (Star r)"

definition re_octet :: re where
  "re_octet = Cat (Cls is_digit) (Maybe (Cat (Cls is_digit) (Maybe (Cls is_digit))))"

definition re_quad :: re where
  "re_quad = Cat re_octet (Cat (re_char (CHR ''.'')) (Cat re_octet (Cat (re_char (CHR ''.''))
     (Cat re_octet (Cat (re_char (CHR ''.'')) re_octet)))))"

definition re_domain :: re where
  "re_domain =
     Cat (re_plus (Cls label_char)) (Star (Cat (re_char (CHR ''.'')) (re_plus (Cls label_char))))"

text \<open>\<open>Hostname._host_re\<close> (the end mark belongs to the second alternative), \<open>IPAddress._ip_re\<close>,
  \<open>DomainList._domain_re\<close>, \<open>CountryCode.code_pattern\<close>.\<close>

definition host_re :: re where
  "host_re = Alt re_quad (Cat re_domain AtEnd)"

definition ip_re :: re where
  "ip_re = Cat re_quad AtEnd"

definition domain_re :: re where
  "domain_re = Cat re_domain AtEnd"

definition code_pattern :: re where
  "code_pattern = Cat (Cls (\<lambda>c. CHR ''1'' \<le> c \<and> c \<le> CHR ''9'')) (Star (Cls is_digit))"

text \<open>The parts of the \<open>_description_re\<close> patterns.\<close>

definition re_host_group :: re where
  "re_host_group = Grp ''host'' (Alt re_quad re_domain)"

definition re_ip_group :: re where
  "re_ip_group = Grp ''host'' re_quad"

definition re_port_part :: re where
  "re_port_part = Maybe (Cat (re_char (CHR '':'')) (Grp ''port'' (re_plus (Cls is_digit))))"

fun re_text :: "string \<Rightarrow> re" where
  "re_text [] = Eps"
| "re_text (c # cs) = Cat (re_char c) (re_text cs)"

text \<open>\<open>.\<close> is any character but a newline.\<close>

definition re_transport_part :: re where
  "re_transport_part =
     Maybe (Cat (re_text '';transport='') (Grp ''transport'' (re_plus (Cls (\<lambda>c. c \<noteq> CHR 0x0A)))))"

definition endpoint_re :: re where
  "endpoint_re = Cat re_host_group (Cat re_port_part AtEnd)"

definition endpoint_ip_re :: re where
  "endpoint_ip_re = Cat re_ip_group (Cat re_port_part AtEnd)"

definition proxy_re :: re where
  "proxy_re = Cat re_host_group (Cat re_port_part (Cat re_transport_part AtEnd))"

section \<open>Generic types\<close>

definition content_type :: "pyval \<Rightarrow> string result" where
  "content_type value =
     bindR (str_of value) (\<lambda>v.
       if v = ''*'' then Inr v
       else case split_on (CHR ''/'') v of
         [typ, subtype] \<Rightarrow> if typ = ''*'' then Inl ValueError else Inr v
       | _ \<Rightarrow> Inl ValueError)"

definition country_code :: "pyval \<Rightarrow> string result" where
  "country_code value =
     bindR (str_of value) (\<lambda>v. if re_match code_pattern v = None then Inl ValueError else Inr v)"

definition non_negative_integer :: "pyval \<Rightarrow> int result" where
  "non_negative_integer value = bindR (int_of value) (\<lambda>v. if v < 0 then Inl ValueError else Inr v)"

definition positive_integer :: "pyval \<Rightarrow> int result" where
  "positive_integer value = bindR (int_of value) (\<lambda>v. if v \<le> 0 then Inl ValueError else Inr v)"

definition hostname :: "pyval \<Rightarrow> string result" where
  "hostname value =
     bindR (str_of value) (\<lambda>v. if re_match host_re v = None then Inl ValueError else Inr v)"

definition ip_address :: "pyval \<Rightarrow> string result" where
  "ip_address value =
     bindR (str_of value) (\<lambda>v. if re_match ip_re v = None then Inl ValueError else Inr v)"

text \<open>\<open>address.replace('@', '%40', n)\<close> replaces the first \<open>n\<close> occurrences, all if \<open>n < 0\<close>.\<close>

fun replace_first :: "int \<Rightarrow> char \<Rightarrow> string \<Rightarrow> string \<Rightarrow> string" where
  "replace_first n c r [] = []"
| "replace_first n c r (x # xs) =
     (if x = c \<and> n \<noteq> 0 then r @ replace_first (n - 1) c r xs else x # replace_first n c r xs)"

definition sip_address :: "pyval \<Rightarrow> string result" where
  "sip_address value =
     bindR (str_of value) (\<lambda>a.
       let address = replace_first (int (count_list a (CHR ''@'')) - 1) (CHR ''@'') ''%40'' a
       in case split_on (CHR ''@'') address of
            [username, domain] \<Rightarrow>
              (case hostname (PStr domain) of
                 Inl ValueError \<Rightarrow> Inl ValueError
               | Inl e \<Rightarrow> Inl e
               | Inr h \<Rightarrow> Inr address)
          | _ \<Rightarrow> Inl ValueError)"

definition sip_address_username :: "string \<Rightarrow> string result" where
  "sip_address_username a =
     (case split_on (CHR ''@'') a of [] \<Rightarrow> Inl IndexError | u # _ \<Rightarrow> Inr u)"

definition sip_address_domain :: "string \<Rightarrow> string result" where
  "sip_address_domain a =
     (case split_on (CHR ''@'') a of u # d # _ \<Rightarrow> Inr d | _ \<Rightarrow> Inl IndexError)"

definition pjsip_log_level :: "pyval \<Rightarrow> int result" where
  "pjsip_log_level value =
     bindR (int_of value) (\<lambda>v. if \<not> (0 \<le> v \<and> v \<le> 5) then Inl ValueError else Inr v)"

definition sample_rate :: "pyval \<Rightarrow> int result" where
  "sample_rate value =
     bindR (int_of value) (\<lambda>v.
       if v \<notin> {8000, 16000, 32000, 44100, 48000} then Inl ValueError else Inr v)"

fun h264_profile :: "pyval \<Rightarrow> string result" where
  "h264_profile (PStr value) =
     (if lower value \<notin> {''baseline'', ''main'', ''high''} then Inl ValueError
      else py_str (lower value))"
| "h264_profile _ = Inl AttributeError"

text \<open>
  \<open>VideoResolution.__new__\<close>: for a tuple the code unpacks the class \<open>tuple\<close> instead of the
  value, which raises \<open>TypeError\<close> whatever the value is.
\<close>

datatype resolution_arg = ResTuple "pyval list" | ResText string | ResOther pyval

fun video_resolution :: "resolution_arg \<Rightarrow> (int \<times> int) result" where
  "video_resolution (ResTuple vs) = Inl TypeError"
| "video_resolution (ResText s) =
     (case split_on (CHR ''x'') s of
        [width, height] \<Rightarrow>
          bindR (py_int width) (\<lambda>w. bindR (py_int height) (\<lambda>h. Inr (w, h)))
      | _ \<Rightarrow> Inl ValueError)"
| "video_resolution (ResOther v) = Inl ValueError"

definition video_resolution_text :: "int \<times> int \<Rightarrow> string" where
  "video_resolution_text r = show_int (fst r) @ ''x'' @ show_int (snd r)"

section \<open>Lists\<close>

definition list_init :: "('r \<Rightarrow> 'v result) \<Rightarrow> ('v list \<Rightarrow> unit result) \<Rightarrow> 'r list \<Rightarrow> 'v list result" where
  "list_init item check vs =
     bindR (mapR item vs) (\<lambda>values. bindR (check values) (\<lambda>u. Inr values))"

definition list_getstate :: "('v \<Rightarrow> string) \<Rightarrow> 'v list \<Rightarrow> leaf" where
  "list_getstate text_of values = LList (map text_of values)"

text \<open>\<open>List.__setstate__\<close>: a state that is no list is a list of one item; \<open>None\<close> stays \<open>None\<close>.\<close>

fun list_setstate ::
  "(string \<Rightarrow> 'v result) \<Rightarrow> ('v option list \<Rightarrow> unit result) \<Rightarrow> leaf \<Rightarrow> 'v option list result" where
  "list_setstate item check (LList xs) =
     bindR (mapR item xs) (\<lambda>vs. bindR (check (map Some vs)) (\<lambda>u. Inr (map Some vs)))"
| "list_setstate item check (LText s) =
     bindR (item s) (\<lambda>v. bindR (check [Some v]) (\<lambda>u. Inr [Some v]))"
| "list_setstate item check LNone = bindR (check [None]) (\<lambda>u. Inr [None])"

text \<open>The item type \<open>bool\<close> of \<open>List\<close> and \<open>Setting\<close>.\<close>

definition bool_text :: "bool \<Rightarrow> string" where
  "bool_text b = (if b then ''true'' else ''false'')"

definition bool_of_text :: "string \<Rightarrow> bool result" where
  "bool_of_text s =
     (if lower s \<in> {''true'', ''yes'', ''on'', ''1''} then Inr True
      else if lower s \<in> {''false'', ''no'', ''off'', ''0''} then Inr False
      else Inl ValueError)"

definition codec_check :: "string set \<Rightarrow> string option list \<Rightarrow> unit result" where
  "codec_check available values =
     (if set values \<subseteq> Some ` available then Inr () else Inl ValueError)"

definition audio_codecs :: "string set" where
  "audio_codecs = {''opus'', ''speex'', ''G722'', ''GSM'', ''iLBC'', ''PCMU'', ''PCMA''}"

definition video_codecs :: "string set" where
  "video_codecs = {''H264'', ''VP8''}"

text \<open>\<open>re.match\<close> on \<open>None\<close> raises \<open>TypeError\<close>.\<close>

fun domain_check :: "string option list \<Rightarrow> unit result" where
  "domain_check [] = Inr ()"
| "domain_check (None # vs) = Inl TypeError"
| "domain_check (Some v # vs) =
     (if re_match domain_re v = None then Inl ValueError else domain_check vs)"

section \<open>What the patterns accept\<close>

text \<open>A domain name is a list of non-empty labels separated by dots; an octet has one to three digits.\<close>

definition domain_label :: "string \<Rightarrow> bool" where
  "domain_label s = (s \<noteq> [] \<and> list_all label_char s)"

definition domain_name :: "string \<Rightarrow> bool" where
  "domain_name s = list_all domain_label (split_on (CHR ''.'') s)"

definition octet :: "string \<Rightarrow> bool" where
  "octet s = (s \<noteq> [] \<and> length s \<le> 3 \<and> list_all is_digit s)"

definition dotted_quad :: "string \<Rightarrow> bool" where
  "dotted_quad s =
     (let parts = split_on (CHR ''.'') s in length parts = 4 \<and> list_all octet parts)"

lemma lang_Cat_Cls: "lang (Cat (Cls P) b) w \<longleftrightarrow> (case w of [] \<Rightarrow> False | c # y \<Rightarrow> P c \<and> lang b y)"
proof
  show "lang (Cat (Cls P) b) w \<Longrightarrow> case w of [] \<Rightarrow> False | c # y \<Rightarrow> P c \<and> lang b y" by auto
next
  assume "case w of [] \<Rightarrow> False | c # y \<Rightarrow> P c \<and> lang b y"
  then obtain c y where w: "w = [c] @ y" "P c" "lang b y" by (cases w) auto
  then have "lang (Cls P) [c]" by simp
  with w show "lang (Cat (Cls P) b) w" unfolding lang.simps(3) by blast
qed

lemma lang_plus_Cls: "lang (re_plus (Cls P)) w \<longleftrightarrow> w \<noteq> [] \<and> list_all P w"
  by (cases w) (simp_all add: re_plus_def lang_Cat_Cls lang_Star_Cls del: lang.simps(3))

lemma label_char_not_dot: "label_char c \<Longrightarrow> c \<noteq> CHR ''.''"
  by (auto simp: label_char_def is_digit_def less_eq_char_def)

lemma domain_label_no_dot: "domain_label s \<Longrightarrow> CHR ''.'' \<notin> set s"
  using label_char_not_dot by (auto simp: domain_label_def list_all_iff)

lemma octet_no_dot: "octet s \<Longrightarrow> CHR ''.'' \<notin> set s"
  using digit_not_special by (auto simp: octet_def list_all_iff)

lemma lang_CatI: "lang a x \<Longrightarrow> lang b y \<Longrightarrow> lang (Cat a b) (x @ y)"
  by auto

lemma lang_octet: "lang re_octet w \<longleftrightarrow> octet w"
proof -
  consider "w = []" | a where "w = [a]" | a b where "w = [a, b]" | a b c v where "w = a # b # c # v"
    by (metis list.exhaust)
  then show ?thesis
    by cases (simp_all add: re_octet_def octet_def lang_Cat_Cls del: lang.simps(3), auto)
qed

lemma domain_name_label: "domain_label x \<Longrightarrow> domain_name x"
  by (simp add: domain_name_def split_on_none domain_label_no_dot)

lemma domain_name_join:
  "domain_label x \<Longrightarrow> domain_name (x @ CHR ''.'' # y) \<longleftrightarrow> domain_name y"
  by (simp add: domain_name_def split_on_append domain_label_no_dot)

definition join_dot :: "string list \<Rightarrow> string" where
  "join_dot xs = concat (map (Cons (CHR ''.'')) xs)"

lemma split_on_join:
  "list_all (\<lambda>x. CHR ''.'' \<notin> set x) (x # xs) \<Longrightarrow>
   split_on (CHR ''.'') (x @ join_dot xs) = x # xs"
  by (induction xs arbitrary: x) (simp_all add: join_dot_def split_on_none split_on_append)

lemma split_on_inverse: "split_on (CHR ''.'') s = x # xs \<Longrightarrow> s = x @ join_dot xs"
proof (induction s arbitrary: x xs)
  case (Cons c s)
  obtain y ys where y: "split_on (CHR ''.'') s = y # ys" by (cases "split_on (CHR ''.'') s") auto
  from Cons.prems y have "(c = CHR ''.'' \<and> x = [] \<and> xs = y # ys) \<or> (x = c # y \<and> xs = ys)"
    by (auto split: if_splits)
  then have "x @ join_dot xs = c # y @ join_dot ys" by (auto simp: join_dot_def)
  with Cons.IH [OF y] show ?case by simp
qed (simp add: join_dot_def)

lemma lang_labels:
  "lang (Star (Cat (re_char (CHR ''.'')) (re_plus (Cls label_char)))) w \<longleftrightarrow>
     (\<exists>xs. w = join_dot xs \<and> list_all domain_label xs)" (is "lang ?r w \<longleftrightarrow> _")
proof
  assume "lang ?r w"
  then obtain ws where ws: "w = concat ws" "\<forall>x \<in> set ws. \<exists>y. x = CHR ''.'' # y \<and> domain_label y"
    by (fastforce simp: lang.simps(6) re_char_def lang_plus_Cls domain_label_def)
  from ws(2) have "\<exists>xs. ws = map (Cons (CHR ''.'')) xs \<and> list_all domain_label xs"
  proof (induction ws)
    case (Cons v ws)
    then obtain y xs where "v = CHR ''.'' # y" "domain_label y"
      "ws = map (Cons (CHR ''.'')) xs" "list_all domain_label xs" by auto
    then show ?case by (intro exI [of _ "y # xs"]) simp
  qed simp
  with ws(1) show "\<exists>xs. w = join_dot xs \<and> list_all domain_label xs" by (auto simp: join_dot_def)
next
  assume "\<exists>xs. w = join_dot xs \<and> list_all domain_label xs"
  then obtain xs where "w = join_dot xs" "list_all domain_label xs" by blast
  moreover have "list_all domain_label xs \<Longrightarrow> lang ?r (join_dot xs)"
  proof (induction xs)
    case (Cons x xs)
    then show ?case
      using lang_Star_Cons [of "Cat (re_char (CHR ''.'')) (re_plus (Cls label_char))" "CHR ''.'' # x" "join_dot xs"]
      by (simp add: re_char_def lang_plus_Cls domain_label_def join_dot_def)
  qed (simp add: join_dot_def lang_Star_Nil)
  ultimately show "lang ?r w" by simp
qed

lemma lang_domain: "lang re_domain w \<longleftrightarrow> domain_name w"
proof
  assume "lang re_domain w"
  then obtain x xs where x: "w = x @ join_dot xs" "list_all domain_label (x # xs)"
    by (auto simp: re_domain_def lang_labels lang_plus_Cls domain_label_def)
  then have "list_all (\<lambda>x. CHR ''.'' \<notin> set x) (x # xs)"
    using domain_label_no_dot by (auto simp: list_all_iff)
  with x show "domain_name w" by (simp add: domain_name_def split_on_join)
next
  assume w: "domain_name w"
  obtain x xs where "split_on (CHR ''.'') w = x # xs" by (cases "split_on (CHR ''.'') w") auto
  with w have "w = x @ join_dot xs" "domain_label x" "list_all domain_label xs"
    by (auto simp: domain_name_def split_on_inverse)
  then show "lang re_domain w"
    by (auto simp: re_domain_def lang_labels lang_plus_Cls domain_label_def)
qed

lemma lang_quad: "lang re_quad w \<longleftrightarrow> dotted_quad w"
proof
  assume "lang re_quad w"
  then obtain a b c d where
    "w = a @ join_dot [b, c, d]" "list_all octet [a, b, c, d]"
    by (auto simp: re_quad_def re_char_def lang_octet join_dot_def)
  moreover from this have "list_all (\<lambda>x. CHR ''.'' \<notin> set x) [a, b, c, d]"
    using octet_no_dot by simp
  ultimately show "dotted_quad w" by (simp add: dotted_quad_def split_on_join)
next
  assume w: "dotted_quad w"
  then obtain a b c d where "split_on (CHR ''.'') w = [a, b, c, d]"
    by (auto simp: dotted_quad_def Let_def length_Suc_conv numeral_eq_Suc)
  with w have w: "w = a @ ''.'' @ b @ ''.'' @ c @ ''.'' @ d" "octet a" "octet b" "octet c" "octet d"
    using split_on_inverse [of w a "[b, c, d]"] by (simp_all add: join_dot_def dotted_quad_def)
  show "lang re_quad w"
    unfolding re_quad_def w(1)
    by (intro lang_CatI) (simp_all add: w(2-) lang_octet re_char_def)
qed

lemma dotted_quad_domain: "dotted_quad w \<Longrightarrow> domain_name w"
  by (auto simp: dotted_quad_def domain_name_def domain_label_def octet_def label_char_def
      list_all_iff Let_def)

lemma plain_host [simp]:
  "anchor_free re_quad" "group_free re_quad" "anchor_free re_domain" "group_free re_domain"
  by (simp_all add: re_quad_def re_domain_def re_octet_def re_char_def re_plus_def)

lemma moved_start: "moved (start_pos s) w q \<longleftrightarrow> used q = w \<and> s = w @ left q"
  by (simp add: moved_def start_pos_def)

lemma ways_prefix:
  assumes "anchor_free r" "group_free r"
  shows "ways r (start_pos s) = [] \<longleftrightarrow> \<not> (\<exists>w v. s = w @ v \<and> lang r w)" (is "?E \<longleftrightarrow> \<not> ?R")
proof
  assume ?E
  show "\<not> ?R"
  proof
    assume ?R
    then obtain w v where "s = w @ v" "lang r w" by blast
    then have "\<exists>q \<in> set (ways r (start_pos s)). left q = v"
      using ways_complete [OF assms(1), of w "start_pos s" v] by (auto simp: start_pos_def)
    with \<open>?E\<close> show False by simp
  qed
next
  assume r: "\<not> ?R"
  show ?E
  proof (rule ccontr)
    assume "\<not> ?E"
    then obtain q where "q \<in> set (ways r (start_pos s))" by (cases "ways r (start_pos s)") auto
    from ways_sound [OF assms(1) this] r show False by (auto simp: moved_start)
  qed
qed

lemma ways_at_end:
  assumes "anchor_free r"
  shows "ways (Cat r AtEnd) (start_pos s) = [] \<longleftrightarrow>
    \<not> (lang r s \<or> (\<exists>w. s = w @ [CHR 0x0A] \<and> lang r w))" (is "?E \<longleftrightarrow> \<not> ?R")
proof
  assume e: ?E
  have e: "left q \<noteq> [] \<and> left q \<noteq> [CHR 0x0A]" if q: "q \<in> set (ways r (start_pos s))" for q
  proof -
    from e have "\<forall>m \<in> set (ways r (start_pos s)). ways AtEnd m = []" by (simp add: ways.simps(3))
    with q have "ways AtEnd q = []" by blast
    then show ?thesis by (simp add: ways.simps(8) split: if_splits)
  qed
  show "\<not> ?R"
  proof
    assume ?R
    then obtain w v where w: "s = w @ v" "lang r w" "v = [] \<or> v = [CHR 0x0A]"
      by (elim disjE exE conjE) (use that [of s "[]"] that in simp_all)
    then obtain q where "q \<in> set (ways r (start_pos s))" "left q = v"
      using ways_complete [OF assms(1), of w "start_pos s" v] by (auto simp: start_pos_def)
    with w(3) e show False by auto
  qed
next
  assume r: "\<not> ?R"
  show ?E
  proof (rule ccontr)
    assume "\<not> ?E"
    then obtain q where "q \<in> set (ways (Cat r AtEnd) (start_pos s))"
      by (cases "ways (Cat r AtEnd) (start_pos s)") auto
    then have q: "q \<in> set (ways r (start_pos s))" "left q = [] \<or> left q = [CHR 0x0A]"
      by (auto simp: ways_Cat ways_AtEnd)
    from ways_sound [OF assms(1) q(1)] obtain w where "s = w @ left q" "lang r w"
      unfolding moved_start by blast
    with q(2) r show False by (elim disjE) simp_all
  qed
qed

lemma str_of_ascii: "str_of v = Inr s \<Longrightarrow> py_str s = Inr s"
proof (cases v)
  case (PInt n)
  have "is_digit c \<Longrightarrow> c < CHR 0x80" for c
    by (auto simp: is_digit_def less_eq_char_def less_char_def)
  then have "list_all (\<lambda>c. c < CHR 0x80) (show_nat m)" for m
    using show_nat_digits [of m] by (simp add: list_all_iff)
  moreover have "CHR ''-'' < CHR 0x80" by (simp add: less_char_def)
  moreover assume "str_of v = Inr s"
  ultimately show ?thesis using PInt by (auto simp: py_str_def show_int_def)
qed (auto simp: py_str_def less_char_def split: if_splits)

lemma py_strD: "py_str s = Inr t \<Longrightarrow> t = s \<and> py_str t = Inr t"
  by (auto simp: py_str_def split: if_splits)

lemma host_match:
  "re_match host_re s \<noteq> None \<longleftrightarrow>
     (\<exists>q rest. s = q @ rest \<and> dotted_quad q) \<or> domain_name s \<or> (\<exists>d. s = d @ [CHR 0x0A] \<and> domain_name d)"
proof -
  have "re_match host_re s = None \<longleftrightarrow>
      ways re_quad (start_pos s) = [] \<and> ways (Cat re_domain AtEnd) (start_pos s) = []"
    unfolding re_match_eq_None host_re_def by (simp add: ways.simps(4))
  then show ?thesis by (simp add: ways_prefix ways_at_end lang_quad lang_domain)
qed

lemma hostname_Inr: "hostname v = Inr h \<Longrightarrow> hostname (PStr h) = Inr h"
  using str_of_ascii by (auto simp: hostname_def bindR_eq_Inr split: if_splits)

lemma replace_first_zero [simp]: "replace_first 0 c r s = s"
  by (induction s) auto

lemma replace_first_ascii:
  "list_all P r \<Longrightarrow> list_all P s \<Longrightarrow> list_all P (replace_first n c r s)"
  by (induction n c r s rule: replace_first.induct) auto

lemma sip_address_shape:
  assumes "sip_address v = Inr a"
  obtains u d where "a = u @ CHR ''@'' # d" "CHR ''@'' \<notin> set u" "CHR ''@'' \<notin> set d"
    "hostname (PStr d) = Inr d" "py_str a = Inr a"
proof -
  from assms obtain t where t: "str_of v = Inr t" by (auto simp: sip_address_def bindR_eq_Inr)
  define b where "b = replace_first (int (count_list t (CHR ''@'')) - 1) (CHR ''@'') ''%40'' t"
  have "list_all (\<lambda>c. c < CHR 0x80) b"
    unfolding b_def using str_of_ascii [OF t]
    by (intro replace_first_ascii) (auto simp: py_str_def less_char_def split: if_splits)
  moreover from assms t obtain u d where "split_on (CHR ''@'') b = [u, d]" and h: "hostname (PStr d) \<noteq> Inl ValueError" "b = a"
    "\<exists>h. hostname (PStr d) = Inr h"
    by (auto simp: sip_address_def b_def [symmetric] Let_def
        split: list.splits sum.splits pyerr.splits)
  moreover have "hostname (PStr d) = Inr d"
    using h(3) by (auto simp: hostname_def bindR_eq_Inr py_str_def split: if_splits)
  ultimately show thesis
    using that [of u d] by (auto simp: split_on_two py_str_def)
qed

text \<open>The text before the last at sign, with every at sign in it written \<open>%40\<close>.\<close>

definition quote_at :: "string \<Rightarrow> string" where
  "quote_at t = concat (map (\<lambda>c. if c = CHR ''@'' then ''%40'' else [c]) t)"

lemma quote_at_no_at: "CHR ''@'' \<notin> set (quote_at t)"
  by (induction t) (auto simp: quote_at_def)

lemma quote_at_id: "CHR ''@'' \<notin> set u \<Longrightarrow> quote_at u = u"
  by (induction u) (auto simp: quote_at_def)

lemma replace_first_before:
  "replace_first (int (count_list t c)) c r (t @ d) =
     concat (map (\<lambda>x. if x = c then r else [x]) t) @ d"
  by (induction t) auto

lemma replace_first_none: "c \<notin> set s \<Longrightarrow> replace_first n c r s = s"
  by (induction s) auto

lemma sip_address_at:
  assumes "str_of v = Inr (t @ ''@'' @ d)" "CHR ''@'' \<notin> set d"
  shows "sip_address v =
    (if hostname (PStr d) = Inr d then Inr (quote_at t @ ''@'' @ d) else Inl ValueError)"
proof -
  have "int (count_list (t @ ''@'' @ d) (CHR ''@'')) - 1 = int (count_list t (CHR ''@''))"
    using assms(2) by (simp add: count_list_append)
  then have b: "replace_first (int (count_list (t @ ''@'' @ d) (CHR ''@'')) - 1) (CHR ''@'') ''%40''
      (t @ ''@'' @ d) = quote_at t @ ''@'' @ d"
    by (simp only: replace_first_before quote_at_def)
  have "hostname (PStr d) = Inr d \<or> hostname (PStr d) = Inl ValueError"
    by (simp add: hostname_def py_str_def bindR_def)
  moreover have "split_on (CHR ''@'') (quote_at t @ ''@'' @ d) = [quote_at t, d]"
    using split_on_two [of "CHR ''@''" "quote_at t @ ''@'' @ d" "quote_at t" d] quote_at_no_at assms(2)
    by simp
  ultimately show ?thesis
    unfolding sip_address_def assms(1) bindR_simps Let_def b by auto
qed

lemma sip_address_no_at:
  assumes "str_of v = Inr t" "CHR ''@'' \<notin> set t"
  shows "sip_address v = Inl ValueError"
  using assms by (simp add: sip_address_def replace_first_none split_on_none)

lemma last_at:
  assumes "CHR ''@'' \<in> set t"
  obtains u d where "t = u @ ''@'' @ d" "CHR ''@'' \<notin> set d"
  using split_list_last [OF assms] that by auto

section \<open>Properties\<close>


lemma sip_address_example:
  "sip_address (PStr ''a@b@c.org'') = Inr ''a%40b@c.org''"
  by code_simp


text \<open>
  C8. What \<open>Hostname\<close> accepts: a domain name (a trailing newline included), or any text that
  merely begins with four dotted groups of one to three digits, because the end mark of the
  pattern belongs to its second alternative only.
\<close>

theorem hostname_accepts:
  "hostname (PStr s) =
     (if list_all (\<lambda>c. c < CHR 0x80) s \<and>
         ((\<exists>q rest. s = q @ rest \<and> dotted_quad q) \<or> domain_name s \<or>
          (\<exists>d. s = d @ [CHR 0x0A] \<and> domain_name d))
      then Inr s else Inl ValueError)"
  unfolding hostname_def host_match [symmetric] by (simp add: py_str_def)

end
