(* ===== verification/Addresses.thy ===== *)
theory Addresses
  imports Config_Types
begin

text \<open>
  Ports and addresses of \<open>sipsimple/configuration/datatypes.py\<close>: the classes with a textual
  form that is printed by \<open>__getstate__\<close> and parsed by \<open>__setstate__\<close> and
  \<open>from_description\<close>.
\<close>

section \<open>Ports\<close>

definition port :: "pyval \<Rightarrow> int result" where
  "port value =
     bindR (int_of value) (\<lambda>v. if \<not> (0 \<le> v \<and> v \<le> 65535) then Inl ValueError else Inr v)"

record port_range =
  pr_start :: int
  pr_end :: int

definition port_range_init :: "pyval \<Rightarrow> pyval \<Rightarrow> port_range result" where
  "port_range_init start_v end_v =
     bindR (port start_v) (\<lambda>s. bindR (port end_v) (\<lambda>e.
       if s = 0 then Inl ValueError
       else if e = 0 then Inl ValueError
       else if s > e then Inl ValueError
       else Inr \<lparr>pr_start = s, pr_end = e\<rparr>))"

definition port_range_text :: "port_range \<Rightarrow> string" where
  "port_range_text r = show_int (pr_start r) @ ''-'' @ show_int (pr_end r)"

text \<open>\<open>self.__init__(*state.split('-'))\<close> raises \<open>TypeError\<close> for another number of parts.\<close>

definition port_range_setstate :: "string \<Rightarrow> port_range result" where
  "port_range_setstate state =
     (case split_on (CHR ''-'') state of
        [s, e] \<Rightarrow> port_range_init (PStr s) (PStr e)
      | _ \<Rightarrow> Inl TypeError)"

section \<open>Values from a small set of names\<close>

definition one_of :: "string set \<Rightarrow> pyval \<Rightarrow> string result" where
  "one_of available value =
     bindR (str_of value) (\<lambda>v. if v \<notin> available then Inl ValueError else Inr v)"

definition msrp_connection_model :: "pyval \<Rightarrow> string result" where
  "msrp_connection_model = one_of {''relay'', ''acm''}"

definition msrp_transport :: "pyval \<Rightarrow> string result" where
  "msrp_transport = one_of {''tls'', ''tcp''}"

definition sip_transport :: "pyval \<Rightarrow> string result" where
  "sip_transport = one_of {''udp'', ''tcp'', ''tls''}"

definition srtp_key_negotiation :: "pyval \<Rightarrow> string result" where
  "srtp_key_negotiation = one_of {''opportunistic'', ''sdes_optional'', ''sdes_mandatory'', ''zrtp''}"

section \<open>Addresses\<close>

record endpoint =
  ep_host :: string
  ep_port :: int

record proxy = endpoint +
  px_transport :: string

text \<open>\<open>match.groupdict()\<close>: the group's text, \<open>None\<close> when it did not take part.\<close>

definition groupdict :: "pos \<Rightarrow> string \<Rightarrow> string option" where
  "groupdict p name = map_of (groups p) name"

definition opt_arg :: "string option \<Rightarrow> pyval" where
  "opt_arg v = (case v of None \<Rightarrow> PNone | Some s \<Rightarrow> PStr s)"

text \<open>A value left out of the keyword arguments takes the default of \<open>__init__\<close>.\<close>

definition arg_or :: "string option \<Rightarrow> pyval \<Rightarrow> pyval" where
  "arg_or v d = (case v of None \<Rightarrow> d | Some s \<Rightarrow> PStr s)"

definition endpoint_init :: "int \<Rightarrow> pyval \<Rightarrow> pyval \<Rightarrow> endpoint result" where
  "endpoint_init default_port host port_v =
     bindR (hostname host) (\<lambda>h.
     bindR (port (if port_v \<noteq> PNone then port_v else PInt default_port)) (\<lambda>p.
       if p = 0 then Inl ValueError else Inr \<lparr>ep_host = h, ep_port = p\<rparr>))"

definition endpoint_ip_init :: "int \<Rightarrow> pyval \<Rightarrow> pyval \<Rightarrow> endpoint result" where
  "endpoint_ip_init default_port host port_v =
     bindR (ip_address host) (\<lambda>h.
     bindR (port (if port_v \<noteq> PNone then port_v else PInt default_port)) (\<lambda>p.
       if p = 0 then Inl ValueError else Inr \<lparr>ep_host = h, ep_port = p\<rparr>))"

definition stun_server_init :: "pyval \<Rightarrow> pyval \<Rightarrow> endpoint result" where
  "stun_server_init host port_v =
     bindR (hostname host) (\<lambda>h. bindR (port port_v) (\<lambda>p. Inr \<lparr>ep_host = h, ep_port = p\<rparr>))"

definition msrp_relay_init :: "pyval \<Rightarrow> pyval \<Rightarrow> pyval \<Rightarrow> proxy result" where
  "msrp_relay_init host port_v transport =
     bindR (hostname host) (\<lambda>h. bindR (port port_v) (\<lambda>p. bindR (msrp_transport transport) (\<lambda>t.
       Inr \<lparr>ep_host = h, ep_port = p, px_transport = t\<rparr>)))"

definition sip_proxy_init :: "pyval \<Rightarrow> pyval \<Rightarrow> pyval \<Rightarrow> proxy result" where
  "sip_proxy_init host port_v transport =
     bindR (hostname host) (\<lambda>h. bindR (port port_v) (\<lambda>p.
       if p = 0 then Inl ValueError
       else bindR (sip_transport transport) (\<lambda>t.
         Inr \<lparr>ep_host = h, ep_port = p, px_transport = t\<rparr>)))"

definition endpoint_text :: "'a endpoint_scheme \<Rightarrow> string" where
  "endpoint_text a = ep_host a @ '':'' @ show_int (ep_port a)"

definition proxy_text :: "proxy \<Rightarrow> string" where
  "proxy_text a = endpoint_text a @ '';transport='' @ px_transport a"

text \<open>\<open>__setstate__\<close>\<close>

definition endpoint_setstate :: "int \<Rightarrow> string \<Rightarrow> endpoint result" where
  "endpoint_setstate default_port state =
     (case re_match endpoint_re state of
        None \<Rightarrow> Inl ValueError
      | Some m \<Rightarrow> endpoint_init default_port (opt_arg (groupdict m ''host'')) (opt_arg (groupdict m ''port'')))"

definition endpoint_ip_setstate :: "int \<Rightarrow> string \<Rightarrow> endpoint result" where
  "endpoint_ip_setstate default_port state =
     (case re_match endpoint_ip_re state of
        None \<Rightarrow> Inl ValueError
      | Some m \<Rightarrow> endpoint_ip_init default_port (opt_arg (groupdict m ''host'')) (opt_arg (groupdict m ''port'')))"

definition stun_server_setstate :: "string \<Rightarrow> endpoint result" where
  "stun_server_setstate state =
     (case re_match endpoint_re state of
        None \<Rightarrow> Inl ValueError
      | Some m \<Rightarrow> stun_server_init (opt_arg (groupdict m ''host''))
                    (arg_or (groupdict m ''port'') (PInt 3478)))"

definition msrp_relay_setstate :: "string \<Rightarrow> proxy result" where
  "msrp_relay_setstate state =
     (case re_match proxy_re state of
        None \<Rightarrow> Inl ValueError
      | Some m \<Rightarrow> msrp_relay_init (opt_arg (groupdict m ''host''))
                    (arg_or (groupdict m ''port'') (PInt 2855))
                    (arg_or (groupdict m ''transport'') (PStr ''tls'')))"

definition sip_proxy_setstate :: "string \<Rightarrow> proxy result" where
  "sip_proxy_setstate state =
     (case re_match proxy_re state of
        None \<Rightarrow> Inl ValueError
      | Some m \<Rightarrow> sip_proxy_init (opt_arg (groupdict m ''host''))
                    (arg_or (groupdict m ''port'') (PInt 5060))
                    (arg_or (groupdict m ''transport'') (PStr ''udp'')))"

text \<open>\<open>from_description\<close>: nothing for an empty description, else what \<open>__setstate__\<close> builds.\<close>

definition from_description :: "(string \<Rightarrow> 'a result) \<Rightarrow> string option \<Rightarrow> 'a option result" where
  "from_description parse description =
     (case description of
        None \<Rightarrow> Inr None
      | Some [] \<Rightarrow> Inr None
      | Some d \<Rightarrow> bindR (parse d) (\<lambda>a. Inr (Some a)))"

section \<open>How the patterns parse\<close>

text \<open>A word of a class is determined by the text when what follows does not start with the class.\<close>

definition stops :: "(char \<Rightarrow> bool) \<Rightarrow> string \<Rightarrow> bool" where
  "stops P y = (y = [] \<or> \<not> P (hd y))"

lemma take_word: "list_all P x \<Longrightarrow> stops P y \<Longrightarrow> takeWhile P (x @ y) = x \<and> dropWhile P (x @ y) = y"
  by (induction x; cases y) (auto simp: stops_def)

lemma word_unique:
  assumes "list_all P x" "stops P y" "list_all P x'" "stops P y'" "x @ y = x' @ y'"
  shows "x = x' \<and> y = y'"
  using take_word [OF assms(1,2)] take_word [OF assms(3,4)] unfolding assms(5) by simp

definition host_char :: "char \<Rightarrow> bool" where
  "host_char c = (label_char c \<or> c = CHR ''.'')"

lemma domain_name_chars: "domain_name h \<Longrightarrow> list_all host_char h"
proof -
  assume h: "domain_name h"
  obtain x xs where x: "split_on (CHR ''.'') h = x # xs" by (cases "split_on (CHR ''.'') h") auto
  have "list_all domain_label ys \<Longrightarrow> list_all host_char (join_dot ys)" for ys
    by (induction ys) (auto simp: join_dot_def domain_label_def host_char_def list_all_iff)
  with h x split_on_inverse [OF x] show ?thesis
    by (auto simp: domain_name_def domain_label_def host_char_def list_all_iff)
qed

lemma host_stops:
  "\<not> host_char (CHR '':'')" "\<not> host_char (CHR '';'')" "\<not> host_char (CHR 0x0A)"
  "\<not> is_digit (CHR '';'')" "\<not> is_digit (CHR 0x0A)"
  by (simp_all add: host_char_def label_char_def is_digit_def less_eq_char_def)

text \<open>The optional parts of a description, with the text and the group each contributes.\<close>

definition port_ok :: "string option \<Rightarrow> bool" where
  "port_ok po = (case po of None \<Rightarrow> True | Some d \<Rightarrow> d \<noteq> [] \<and> list_all is_digit d)"

definition port_chars :: "string option \<Rightarrow> string" where
  "port_chars po = (case po of None \<Rightarrow> [] | Some d \<Rightarrow> CHR '':'' # d)"

definition transport_ok :: "string option \<Rightarrow> bool" where
  "transport_ok t = (case t of None \<Rightarrow> True | Some d \<Rightarrow> d \<noteq> [] \<and> CHR 0x0A \<notin> set d)"

definition transport_chars :: "string option \<Rightarrow> string" where
  "transport_chars t = (case t of None \<Rightarrow> [] | Some d \<Rightarrow> '';transport='' @ d)"

definition group_of :: "string \<Rightarrow> string option \<Rightarrow> (string \<times> string) list" where
  "group_of n v = (case v of None \<Rightarrow> [] | Some d \<Rightarrow> [(n, d)])"

lemma lang_re_text: "lang (re_text t) w \<longleftrightarrow> w = t"
  by (induction t arbitrary: w) (auto simp: re_char_def)

lemma plain_re_text [simp]: "anchor_free (re_text t)" "group_free (re_text t)"
  by (induction t) (simp_all add: re_char_def)

lemma plain_plus [simp]: "anchor_free (re_plus (Cls P))" "group_free (re_plus (Cls P))"
  by (simp_all add: re_plus_def)

text \<open>An optional part: a fixed text, then a named word of one or more characters of a class.\<close>

lemma ways_part:
  assumes "anchor_free a" "group_free a" "\<And>w. lang a w \<longleftrightarrow> w = t"
  shows "q \<in> set (ways (Maybe (Cat a (Grp n (re_plus (Cls P))))) p) \<longleftrightarrow>
     q = p \<or> (\<exists>w. w \<noteq> [] \<and> list_all P w \<and> moved p (t @ w) q \<and> groups q = (n, w) # groups p)"
    (is "_ \<longleftrightarrow> _ \<or> ?R")
proof -
  let ?g = "Grp n (re_plus (Cls P))"
  have a: "m \<in> set (ways a p) \<longleftrightarrow> moved p t m \<and> groups m = groups p" for m
    using ways_plain [OF assms(1,2)] assms(3) by auto
  have g: "q \<in> set (ways ?g m) \<longleftrightarrow>
      (\<exists>w. moved m w q \<and> w \<noteq> [] \<and> list_all P w \<and> groups q = (n, w) # groups m)" for m
    using ways_plain_grp [of "re_plus (Cls P)"] by (simp add: lang_plus_Cls)
  have "q \<in> set (ways (Cat a ?g) p) \<longleftrightarrow> ?R"
  proof
    assume "q \<in> set (ways (Cat a ?g) p)"
    from ways_Cat [THEN iffD1, OF this] a g obtain m w where m: "moved p t m" "groups m = groups p"
      "moved m w q" "w \<noteq> []" "list_all P w" "groups q = (n, w) # groups m" by blast
    from moved_trans [OF m(1,3)] m show ?R by auto
  next
    assume ?R
    then obtain w where w: "w \<noteq> []" "list_all P w" "moved p (t @ w) q" "groups q = (n, w) # groups p"
      by blast
    define m where "m = \<lparr>used = used p @ t, left = w @ left q, groups = groups p\<rparr>"
    have m: "moved p t m" "moved m w q" "groups m = groups p"
      using w(3) by (simp_all add: m_def moved_def)
    with a have "m \<in> set (ways a p)" by blast
    moreover from m g w have "q \<in> set (ways ?g m)" by auto
    ultimately show "q \<in> set (ways (Cat a ?g) p)" unfolding ways_Cat by blast
  qed
  then show ?thesis by (simp add: ways_Maybe)
qed

lemma same_pos: "q = p \<longleftrightarrow> moved p [] q \<and> groups q = groups p"
  by (auto simp: moved_def intro: pos_eqI)

lemma ways_port:
  "q \<in> set (ways re_port_part p) \<longleftrightarrow>
     (\<exists>po. port_ok po \<and> moved p (port_chars po) q \<and> groups q = group_of ''port'' po @ groups p)"
  unfolding re_port_part_def
  by (subst ways_part [where t = "'':''"])
    (simp_all add: split_option_ex re_char_def port_ok_def port_chars_def group_of_def same_pos conj_assoc)

lemma ways_transport:
  "q \<in> set (ways re_transport_part p) \<longleftrightarrow>
     (\<exists>t. transport_ok t \<and> moved p (transport_chars t) q \<and>
       groups q = group_of ''transport'' t @ groups p)"
proof -
  have "list_all (\<lambda>c. c \<noteq> CHR 0x0A) w \<longleftrightarrow> CHR 0x0A \<notin> set w" for w
    by (auto simp: list_all_iff)
  then show ?thesis
    unfolding re_transport_part_def
    by (subst ways_part [where t = "'';transport=''"])
      (simp_all add: split_option_ex lang_re_text transport_ok_def transport_chars_def group_of_def
        same_pos conj_assoc del: re_text.simps)
qed

text \<open>All parses of an address description.\<close>

definition parsed :: "string \<Rightarrow> string \<Rightarrow> string option \<Rightarrow> string option \<Rightarrow> pos \<Rightarrow> bool" where
  "parsed s h po t q =
     (port_ok po \<and> transport_ok t \<and> s = h @ port_chars po @ transport_chars t @ left q \<and>
      (left q = [] \<or> left q = [CHR 0x0A]) \<and>
      groups q = group_of ''transport'' t @ group_of ''port'' po @ [(''host'', h)])"

lemma ways_host:
  assumes "anchor_free r" "group_free r"
  shows "q \<in> set (ways (Grp ''host'' r) (start_pos s)) \<longleftrightarrow>
    (\<exists>h. used q = h \<and> s = h @ left q \<and> lang r h \<and> groups q = [(''host'', h)])"
  unfolding ways_plain_grp [OF assms] moved_start by (simp add: start_pos_def)

lemma ways_address:
  assumes "anchor_free r" "group_free r" "q \<in> set (ways (Cat (Grp ''host'' r) (Cat re_port_part AtEnd)) (start_pos s))"
  shows "\<exists>h po. lang r h \<and> parsed s h po None q"
proof -
  from assms(3) obtain m where "m \<in> set (ways (Grp ''host'' r) (start_pos s))"
    "q \<in> set (ways re_port_part m)" "left q = [] \<or> left q = [CHR 0x0A]"
    by (auto simp: ways_Cat ways_AtEnd)
  then obtain h po where "s = h @ left m" "lang r h" "groups m = [(''host'', h)]"
    "port_ok po" "moved m (port_chars po) q" "groups q = group_of ''port'' po @ groups m"
    "left q = [] \<or> left q = [CHR 0x0A]"
    unfolding ways_host [OF assms(1,2)] ways_port by blast
  then show ?thesis
    by (intro exI [of _ h] exI [of _ po])
      (simp add: parsed_def transport_ok_def transport_chars_def group_of_def [of _ None] moved_def)
qed

lemma ways_address_ex:
  assumes "anchor_free r" "group_free r" "lang r h" "port_ok po"
  shows "ways (Cat (Grp ''host'' r) (Cat re_port_part AtEnd)) (start_pos (h @ port_chars po)) \<noteq> []"
proof -
  let ?s = "start_pos (h @ port_chars po)"
  define m where "m = \<lparr>used = h, left = port_chars po, groups = [(''host'', h)]\<rparr>"
  define q where "q = \<lparr>used = h @ port_chars po, left = [], groups = group_of ''port'' po @ groups m\<rparr>"
  have "m \<in> set (ways (Grp ''host'' r) ?s)"
    using assms(3) by (simp add: ways_host [OF assms(1,2)] m_def)
  moreover have "q \<in> set (ways re_port_part m)"
    unfolding ways_port using assms(4) by (intro exI [of _ po]) (simp add: moved_def m_def q_def)
  moreover have "q \<in> set (ways AtEnd q)" by (simp add: ways_AtEnd q_def)
  ultimately have "q \<in> set (ways (Cat (Grp ''host'' r) (Cat re_port_part AtEnd)) ?s)"
    unfolding ways_Cat by blast
  then show ?thesis by auto
qed

lemma ways_proxy:
  assumes "q \<in> set (ways proxy_re (start_pos s))"
  shows "\<exists>h po t. domain_name h \<and> parsed s h po t q"
proof -
  have r: "anchor_free (Alt re_quad re_domain)" "group_free (Alt re_quad re_domain)" by simp_all
  from assms obtain m n where "m \<in> set (ways re_host_group (start_pos s))"
    "n \<in> set (ways re_port_part m)" "q \<in> set (ways re_transport_part n)"
    "left q = [] \<or> left q = [CHR 0x0A]"
    unfolding proxy_re_def ways_Cat ways_AtEnd by blast
  then obtain h po t where "s = h @ left m" "lang (Alt re_quad re_domain) h" "groups m = [(''host'', h)]"
    "port_ok po" "moved m (port_chars po) n" "groups n = group_of ''port'' po @ groups m"
    "transport_ok t" "moved n (transport_chars t) q" "groups q = group_of ''transport'' t @ groups n"
    "left q = [] \<or> left q = [CHR 0x0A]"
    unfolding re_host_group_def ways_host [OF r] ways_port ways_transport by blast
  then show ?thesis
    by (intro exI [of _ h] exI [of _ po] exI [of _ t])
      (auto simp: parsed_def moved_def lang_quad lang_domain dotted_quad_domain)
qed

lemma ways_proxy_ex:
  assumes "domain_name h" "port_ok po" "transport_ok t"
  shows "ways proxy_re (start_pos (h @ port_chars po @ transport_chars t)) \<noteq> []"
proof -
  have r: "anchor_free (Alt re_quad re_domain)" "group_free (Alt re_quad re_domain)" by simp_all
  let ?s = "start_pos (h @ port_chars po @ transport_chars t)"
  define m where "m = \<lparr>used = h, left = port_chars po @ transport_chars t, groups = [(''host'', h)]\<rparr>"
  define n where "n = \<lparr>used = h @ port_chars po, left = transport_chars t, groups = group_of ''port'' po @ groups m\<rparr>"
  define q where "q = \<lparr>used = h @ port_chars po @ transport_chars t, left = [], groups = group_of ''transport'' t @ groups n\<rparr>"
  have "m \<in> set (ways re_host_group ?s)"
    unfolding re_host_group_def ways_host [OF r] using assms(1) by (simp add: m_def lang_domain)
  moreover have "n \<in> set (ways re_port_part m)"
    unfolding ways_port using assms(2) by (intro exI [of _ po]) (simp add: moved_def m_def n_def)
  moreover have "q \<in> set (ways re_transport_part n)"
    unfolding ways_transport using assms(3) by (intro exI [of _ t]) (simp add: moved_def n_def q_def)
  moreover have "q \<in> set (ways AtEnd q)" by (simp add: ways_AtEnd q_def)
  ultimately have "q \<in> set (ways proxy_re ?s)"
    unfolding proxy_re_def ways_Cat by blast
  then show ?thesis by auto
qed

lemma stops_parts:
  "left q = [] \<or> left q = [CHR 0x0A] \<Longrightarrow> stops host_char (port_chars po @ transport_chars t @ left q)"
  "left q = [] \<or> left q = [CHR 0x0A] \<Longrightarrow> stops is_digit (transport_chars t @ left q)"
  by (cases po; cases t; auto simp: stops_def port_chars_def transport_chars_def host_stops)+

lemma parsed_unique:
  assumes "domain_name h" "domain_name h'" "parsed s h po t q" "parsed s h' po' t' q'" "left q' = []"
  shows "groups q = groups q'"
proof -
  note p = assms(3) [unfolded parsed_def] and p' = assms(4) [unfolded parsed_def]
  have "h = h' \<and> port_chars po @ transport_chars t @ left q = port_chars po' @ transport_chars t' @ left q'"
    using p p' assms(1,2) by (intro word_unique [of host_char]) (auto simp: domain_name_chars stops_parts)
  then have h: "h = h'" and
    r: "port_chars po @ transport_chars t @ left q = port_chars po' @ transport_chars t' @ left q'" by auto
  have "po = po' \<and> transport_chars t @ left q = transport_chars t' @ left q'"
  proof (cases po)
    case None
    then show ?thesis
      using r p p' by (cases po'; cases t) (auto simp: port_chars_def transport_chars_def)
  next
    case (Some d)
    with r p p' obtain d' where d': "po' = Some d'"
      by (cases po'; cases t') (auto simp: port_chars_def transport_chars_def)
    have "d = d' \<and> transport_chars t @ left q = transport_chars t' @ left q'"
      using Some d' r p p' by (intro word_unique [of is_digit]) (auto simp: port_ok_def port_chars_def stops_parts)
    with Some d' show ?thesis by simp
  qed
  moreover from this have "t = t'"
    using p p' assms(5) by (cases t; cases t') (auto simp: transport_chars_def transport_ok_def)
  ultimately show ?thesis using h p p' by simp
qed

lemma domain_ascii: "domain_name h \<Longrightarrow> py_str h = Inr h"
proof -
  assume "domain_name h"
  moreover have "host_char c \<Longrightarrow> c < CHR 0x80" for c
    by (auto simp: host_char_def label_char_def is_digit_def less_eq_char_def less_char_def)
  ultimately show ?thesis using domain_name_chars [of h] by (auto simp: py_str_def list_all_iff)
qed

lemma hostname_domain: "domain_name h \<Longrightarrow> hostname (PStr h) = Inr h"
proof -
  assume h: "domain_name h"
  then have "re_match host_re h \<noteq> None" unfolding host_match by blast
  with h show ?thesis by (simp add: hostname_def domain_ascii)
qed

lemma ip_address_quad: "dotted_quad h \<Longrightarrow> ip_address (PStr h) = Inr h"
proof -
  assume h: "dotted_quad h"
  then have "re_match ip_re h \<noteq> None"
    unfolding re_match_eq_None ip_re_def ways_at_end [OF plain_host(1)] lang_quad by blast
  with h show ?thesis by (simp add: ip_address_def domain_ascii dotted_quad_domain)
qed

text \<open>The text printed for an address has one parse, the address itself.\<close>

definition port_of :: "int \<Rightarrow> string option" where
  "port_of p = Some (show_nat (nat p))"

lemma port_of_ok: "port_ok (port_of p)"
  by (simp add: port_ok_def port_of_def show_nat_digits)

lemma endpoint_text_parts: "0 \<le> ep_port a \<Longrightarrow> endpoint_text a = ep_host a @ port_chars (port_of (ep_port a))"
  by (simp add: endpoint_text_def port_chars_def port_of_def show_int_def)

lemma address_match:
  assumes "anchor_free r" "group_free r" "\<And>w. lang r w \<Longrightarrow> domain_name w" "lang r h" "port_ok po"
  shows "\<exists>m. re_match (Cat (Grp ''host'' r) (Cat re_port_part AtEnd)) (h @ port_chars po) = Some m \<and>
    groups m = group_of ''port'' po @ [(''host'', h)]"
proof -
  let ?r = "Cat (Grp ''host'' r) (Cat re_port_part AtEnd)" and ?s = "h @ port_chars po"
  obtain m where m: "re_match ?r ?s = Some m"
    using ways_address_ex [OF assms(1,2,4,5)] by (cases "ways ?r (start_pos ?s)") (auto simp: re_match_def)
  from ways_address [OF assms(1,2) re_match_SomeD [OF m]] obtain h' po' where
    h': "lang r h'" "parsed ?s h' po' None m" by blast
  define q where "q = \<lparr>used = ?s, left = [], groups = group_of ''port'' po @ [(''host'', h)]\<rparr>"
  have "parsed ?s h po None q"
    using assms(5) by (simp add: parsed_def q_def transport_ok_def transport_chars_def group_of_def [of _ None])
  from parsed_unique [OF assms(3) [OF h'(1)] assms(3) [OF assms(4)] h'(2) this] m show ?thesis
    by (simp add: q_def)
qed

lemma proxy_match:
  assumes "domain_name h" "port_ok po" "transport_ok t"
  shows "\<exists>m. re_match proxy_re (h @ port_chars po @ transport_chars t) = Some m \<and>
    groups m = group_of ''transport'' t @ group_of ''port'' po @ [(''host'', h)]"
proof -
  let ?s = "h @ port_chars po @ transport_chars t"
  obtain m where m: "re_match proxy_re ?s = Some m"
    using ways_proxy_ex [OF assms] by (cases "ways proxy_re (start_pos ?s)") (auto simp: re_match_def)
  from ways_proxy [OF re_match_SomeD [OF m]] obtain h' po' t' where
    h': "domain_name h'" "parsed ?s h' po' t' m" by blast
  define q where
    "q = \<lparr>used = ?s, left = [], groups = group_of ''transport'' t @ group_of ''port'' po @ [(''host'', h)]\<rparr>"
  have "parsed ?s h po t q" using assms(2,3) by (simp add: parsed_def q_def)
  from parsed_unique [OF h'(1) assms(1) h'(2) this] m show ?thesis by (simp add: q_def)
qed

section \<open>Addresses a description stands for\<close>

definition endpoint_ok :: "'a endpoint_scheme \<Rightarrow> bool" where
  "endpoint_ok a = (domain_name (ep_host a) \<and> 0 < ep_port a \<and> ep_port a \<le> 65535)"

definition stun_ok :: "endpoint \<Rightarrow> bool" where
  "stun_ok a = (domain_name (ep_host a) \<and> 0 \<le> ep_port a \<and> ep_port a \<le> 65535)"

definition ip_endpoint_ok :: "endpoint \<Rightarrow> bool" where
  "ip_endpoint_ok a = (dotted_quad (ep_host a) \<and> 0 < ep_port a \<and> ep_port a \<le> 65535)"

definition relay_ok :: "proxy \<Rightarrow> bool" where
  "relay_ok a = (domain_name (ep_host a) \<and> 0 \<le> ep_port a \<and> ep_port a \<le> 65535 \<and>
     px_transport a \<in> {''tls'', ''tcp''})"

definition sip_proxy_ok :: "proxy \<Rightarrow> bool" where
  "sip_proxy_ok a = (endpoint_ok a \<and> px_transport a \<in> {''udp'', ''tcp'', ''tls''})"

lemmas groupdict_simps = groupdict_def group_of_def opt_arg_def arg_or_def

lemma port_show: "0 \<le> p \<Longrightarrow> p \<le> 65535 \<Longrightarrow> port (PStr (show_nat (nat p))) = Inr p"
  by (simp add: port_def)

lemma port_Inr: "port v = Inr p \<Longrightarrow> 0 \<le> p \<and> p \<le> 65535"
  by (auto simp: port_def bindR_eq_Inr split: if_splits)

lemma hostname_domain_Inr: "domain_name h \<Longrightarrow> hostname (PStr h) = Inr x \<longleftrightarrow> x = h"
  by (auto simp: hostname_domain)

lemma ip_address_quad_Inr: "dotted_quad h \<Longrightarrow> ip_address (PStr h) = Inr x \<longleftrightarrow> x = h"
  by (auto simp: ip_address_quad)

lemma endpoint_parse:
  assumes "re_match endpoint_re s = Some m"
  obtains h where "groupdict m ''host'' = Some h" "domain_name h"
proof -
  from ways_address [OF _ _ re_match_SomeD [OF assms [unfolded endpoint_re_def re_host_group_def]]]
  obtain h po where h: "lang (Alt re_quad re_domain) h" "parsed s h po None m" by auto
  then have "groupdict m ''host'' = Some h" "domain_name h"
    by (auto simp: parsed_def groupdict_simps lang_quad lang_domain dotted_quad_domain split: option.splits)
  then show thesis by (rule that)
qed

lemma endpoint_print:
  assumes "domain_name (ep_host a)" "0 \<le> ep_port a"
  obtains m where "re_match endpoint_re (endpoint_text a) = Some m"
    "groupdict m ''host'' = Some (ep_host a)" "groupdict m ''port'' = Some (show_nat (nat (ep_port a)))"
proof -
  have "\<exists>m. re_match endpoint_re (ep_host a @ port_chars (port_of (ep_port a))) = Some m \<and>
      groups m = group_of ''port'' (port_of (ep_port a)) @ [(''host'', ep_host a)]"
    unfolding endpoint_re_def re_host_group_def using assms(1)
    by (intro address_match) (auto simp: port_of_ok lang_quad lang_domain dotted_quad_domain)
  with that assms(2) show thesis by (auto simp: endpoint_text_parts groupdict_simps port_of_def)
qed

lemma endpoint_setstate_ok: "endpoint_setstate d s = Inr a \<Longrightarrow> endpoint_ok a"
  by (auto simp: endpoint_setstate_def endpoint_init_def endpoint_ok_def opt_arg_def bindR_eq_Inr
      hostname_domain_Inr elim!: endpoint_parse dest: port_Inr split: option.splits if_splits)

lemma endpoint_reparse: "endpoint_ok a \<Longrightarrow> endpoint_setstate d (endpoint_text a) = Inr a"
  by (rule endpoint_print [of a])
    (auto simp: endpoint_setstate_def endpoint_ok_def opt_arg_def endpoint_init_def hostname_domain port_show)

lemma stun_server_setstate_ok: "stun_server_setstate s = Inr a \<Longrightarrow> stun_ok a"
  by (auto simp: stun_server_setstate_def stun_server_init_def stun_ok_def opt_arg_def bindR_eq_Inr
      hostname_domain_Inr elim!: endpoint_parse dest: port_Inr split: option.splits if_splits)

lemma stun_server_reparse: "stun_ok a \<Longrightarrow> stun_server_setstate (endpoint_text a) = Inr a"
  by (rule endpoint_print [of a])
    (auto simp: stun_server_setstate_def stun_ok_def opt_arg_def arg_or_def stun_server_init_def
      hostname_domain port_show)

lemma endpoint_ip_setstate_ok: "endpoint_ip_setstate d s = Inr a \<Longrightarrow> ip_endpoint_ok a"
proof -
  assume "endpoint_ip_setstate d s = Inr a"
  then obtain m where m: "re_match endpoint_ip_re s = Some m"
    "endpoint_ip_init d (opt_arg (groupdict m ''host'')) (opt_arg (groupdict m ''port'')) = Inr a"
    by (auto simp: endpoint_ip_setstate_def split: option.splits)
  from ways_address [OF _ _ re_match_SomeD [OF m(1) [unfolded endpoint_ip_re_def re_ip_group_def]]]
  obtain h po where h: "lang re_quad h" "parsed s h po None m" by auto
  then have "groupdict m ''host'' = Some h" "dotted_quad h"
    by (auto simp: parsed_def groupdict_simps lang_quad split: option.splits)
  with m(2) show ?thesis
    by (auto simp: endpoint_ip_init_def ip_endpoint_ok_def opt_arg_def bindR_eq_Inr ip_address_quad_Inr
        dest: port_Inr split: if_splits)
qed

lemma endpoint_ip_reparse: "ip_endpoint_ok a \<Longrightarrow> endpoint_ip_setstate d (endpoint_text a) = Inr a"
proof -
  assume a: "ip_endpoint_ok a"
  have "\<exists>m. re_match endpoint_ip_re (ep_host a @ port_chars (port_of (ep_port a))) = Some m \<and>
      groups m = group_of ''port'' (port_of (ep_port a)) @ [(''host'', ep_host a)]"
    unfolding endpoint_ip_re_def re_ip_group_def using a
    by (intro address_match) (auto simp: ip_endpoint_ok_def port_of_ok lang_quad dotted_quad_domain)
  with a show ?thesis
    by (auto simp: endpoint_ip_setstate_def endpoint_text_parts ip_endpoint_ok_def groupdict_simps port_of_def
        endpoint_ip_init_def ip_address_quad port_show)
qed

lemma proxy_parse:
  assumes "re_match proxy_re s = Some m"
  obtains h where "groupdict m ''host'' = Some h" "domain_name h"
proof -
  from ways_proxy [OF re_match_SomeD [OF assms]] obtain h po t where
    h: "domain_name h" "parsed s h po t m" by blast
  then have "groupdict m ''host'' = Some h"
    by (auto simp: parsed_def groupdict_simps split: option.splits)
  with h(1) show thesis by (rule that [rotated])
qed

lemma proxy_print:
  assumes "domain_name (ep_host a)" "0 \<le> ep_port a" "transport_ok (Some (px_transport a))"
  obtains m where "re_match proxy_re (proxy_text a) = Some m"
    "groupdict m ''host'' = Some (ep_host a)" "groupdict m ''port'' = Some (show_nat (nat (ep_port a)))"
    "groupdict m ''transport'' = Some (px_transport a)"
proof -
  have "proxy_text a =
      ep_host a @ port_chars (port_of (ep_port a)) @ transport_chars (Some (px_transport a))"
    using endpoint_text_parts [OF assms(2)] by (simp add: proxy_text_def transport_chars_def)
  with that proxy_match [OF assms(1) port_of_ok [of "ep_port a"] assms(3)] show thesis
    by (auto simp: groupdict_simps port_of_def)
qed

lemma one_of_Inr: "one_of A v = Inr t \<Longrightarrow> t \<in> A"
  by (auto simp: one_of_def bindR_eq_Inr split: if_splits)

lemmas transport_simps = msrp_transport_def sip_transport_def one_of_def py_str_def less_char_def

lemma msrp_relay_setstate_ok: "msrp_relay_setstate s = Inr a \<Longrightarrow> relay_ok a"
  by (auto simp: msrp_relay_setstate_def msrp_relay_init_def relay_ok_def opt_arg_def bindR_eq_Inr
      hostname_domain_Inr msrp_transport_def elim!: proxy_parse dest: port_Inr one_of_Inr
      split: option.splits)

lemma msrp_relay_reparse: "relay_ok a \<Longrightarrow> msrp_relay_setstate (proxy_text a) = Inr a"
  by (rule proxy_print [of a])
    (auto simp: msrp_relay_setstate_def relay_ok_def opt_arg_def arg_or_def msrp_relay_init_def
      hostname_domain port_show transport_simps transport_ok_def)

lemma sip_proxy_setstate_ok: "sip_proxy_setstate s = Inr a \<Longrightarrow> sip_proxy_ok a"
  by (auto simp: sip_proxy_setstate_def sip_proxy_init_def sip_proxy_ok_def endpoint_ok_def opt_arg_def
      bindR_eq_Inr hostname_domain_Inr sip_transport_def elim!: proxy_parse dest: port_Inr one_of_Inr
      split: option.splits if_splits)

lemma sip_proxy_reparse: "sip_proxy_ok a \<Longrightarrow> sip_proxy_setstate (proxy_text a) = Inr a"
  by (rule proxy_print [of a])
    (auto simp: sip_proxy_setstate_def sip_proxy_ok_def endpoint_ok_def opt_arg_def arg_or_def
      sip_proxy_init_def hostname_domain port_show transport_simps transport_ok_def)

section \<open>Port ranges\<close>

definition port_range_ok :: "port_range \<Rightarrow> bool" where
  "port_range_ok r = (0 < pr_start r \<and> pr_start r \<le> pr_end r \<and> pr_end r \<le> 65535)"

lemma port_range_setstate_ok: "port_range_setstate s = Inr r \<Longrightarrow> port_range_ok r"
  by (auto simp: port_range_setstate_def port_range_init_def port_range_ok_def bindR_eq_Inr
      dest!: port_Inr split: list.splits if_splits)

lemma port_range_reparse: "port_range_ok r \<Longrightarrow> port_range_setstate (port_range_text r) = Inr r"
proof -
  assume r: "port_range_ok r"
  have "CHR ''-'' \<notin> set (show_nat n)" for n
    using show_nat_digits [of n] digit_not_special by (auto simp: list_all_iff)
  then have "split_on (CHR ''-'') (port_range_text r) =
      [show_nat (nat (pr_start r)), show_nat (nat (pr_end r))]"
    using r by (simp add: port_range_text_def port_range_ok_def show_int_def split_on_two)
  with r show ?thesis
    by (simp add: port_range_setstate_def port_range_init_def port_range_ok_def port_show)
qed

section \<open>The types as types of settings\<close>

text \<open>
  \<open>Setting.__getstate__\<close> and \<open>Setting.__setstate__\<close> convert a value of each kind of type:
  booleans by their names, numbers and strings through the constructor, other values through
  their own \<open>__getstate__\<close> and \<open>__setstate__\<close>. A value of the tree that is not text makes
  the string operations fail.
\<close>

definition text_state :: "('v \<Rightarrow> string) \<Rightarrow> 'v \<Rightarrow> leaf" where
  "text_state to_text v = LText (to_text v)"

definition from_text :: "(string \<Rightarrow> 'v result) \<Rightarrow> cfg \<Rightarrow> 'v result" where
  "from_text parse v = (case v of CLeaf (LText s) \<Rightarrow> parse s | _ \<Rightarrow> Inl TypeError)"

definition from_bool_text :: "cfg \<Rightarrow> bool result" where
  "from_bool_text v = (case v of CLeaf (LText s) \<Rightarrow> bool_of_text s | _ \<Rightarrow> Inl AttributeError)"

lemma from_text_Inr: "from_text parse x = Inr v \<longleftrightarrow> (\<exists>s. x = CLeaf (LText s) \<and> parse s = Inr v)"
  by (simp add: from_text_def split: cfg.split leaf.split)

lemma text_setting_type:
  assumes "\<And>v. valid v \<Longrightarrow> parse (to_text v) = Inr v" "\<And>s v. parse s = Inr v \<Longrightarrow> valid v"
  shows "setting_type (text_state to_text) (from_text parse) valid"
  by unfold_locales (auto simp: text_state_def from_text_Inr assms)

interpretation bool_setting: setting_type "text_state bool_text" from_bool_text "\<lambda>_. True"
  by unfold_locales
    (auto simp: text_state_def from_bool_text_def bool_text_def bool_of_text_def lower_def lower_char_def)

interpretation port_setting: setting_type "text_state show_int" "from_text (\<lambda>s. port (PStr s))"
  "\<lambda>p. 0 \<le> p \<and> p \<le> 65535"
  by (rule text_setting_type) (auto simp: port_def py_int_show_int bindR_eq_Inr split: if_splits)

interpretation sample_rate_setting: setting_type "text_state show_int"
  "from_text (\<lambda>s. sample_rate (PStr s))" "\<lambda>r. r \<in> {8000, 16000, 32000, 44100, 48000}"
  by (rule text_setting_type) (auto simp: sample_rate_def py_int_show_int bindR_eq_Inr split: if_splits)

interpretation port_range_setting: setting_type "text_state port_range_text"
  "from_text port_range_setstate" port_range_ok
  by (rule text_setting_type) (auto intro: port_range_reparse port_range_setstate_ok)

interpretation endpoint_setting: setting_type "text_state endpoint_text"
  "from_text (endpoint_setstate 0)" endpoint_ok
  by (rule text_setting_type) (auto intro: endpoint_reparse endpoint_setstate_ok)

interpretation endpoint_ip_setting: setting_type "text_state endpoint_text"
  "from_text (endpoint_ip_setstate 0)" ip_endpoint_ok
  by (rule text_setting_type) (auto intro: endpoint_ip_reparse endpoint_ip_setstate_ok)

interpretation stun_setting: setting_type "text_state endpoint_text"
  "from_text stun_server_setstate" stun_ok
  by (rule text_setting_type) (auto intro: stun_server_reparse stun_server_setstate_ok)

interpretation relay_setting: setting_type "text_state proxy_text"
  "from_text msrp_relay_setstate" relay_ok
  by (rule text_setting_type) (auto intro: msrp_relay_reparse msrp_relay_setstate_ok)

interpretation sip_proxy_setting: setting_type "text_state proxy_text"
  "from_text sip_proxy_setstate" sip_proxy_ok
  by (rule text_setting_type) (auto intro: sip_proxy_reparse sip_proxy_setstate_ok)

lemma codec_items: "\<forall>c \<in> set cs. py_str c = Inr c \<Longrightarrow> mapR py_str cs = Inr cs"
  by (induction cs) auto

text \<open>\<open>List.__getstate__\<close>, \<open>List.__setstate__\<close> for the codec lists, whose items are strings.\<close>

definition codec_list_from :: "string set \<Rightarrow> cfg \<Rightarrow> string option list result" where
  "codec_list_from available v =
     (case v of CLeaf l \<Rightarrow> list_setstate py_str (codec_check available) l | CDict d \<Rightarrow> Inl ValueError)"

definition codec_list_to :: "string option list \<Rightarrow> leaf" where
  "codec_list_to cs = list_getstate the cs"

interpretation audio_codec_setting: setting_type codec_list_to "codec_list_from audio_codecs"
  "\<lambda>cs. set cs \<subseteq> Some ` audio_codecs"
proof
  fix cs :: "string option list"
  assume cs: "set cs \<subseteq> Some ` audio_codecs"
  then obtain ds where ds: "cs = map Some ds" "set ds \<subseteq> audio_codecs"
    by (metis (no_types, lifting) ex_map_conv image_iff image_set inj_image_subset_iff inj_Some subsetD)
  have "py_str c = Inr c" if "c \<in> audio_codecs" for c
    using that by (auto simp: audio_codecs_def py_str_def less_char_def)
  with ds show "codec_list_from audio_codecs (CLeaf (codec_list_to cs)) = Inr cs"
    by (auto simp: codec_list_from_def codec_list_to_def list_getstate_def codec_items subset_iff
        codec_check_def comp_def)
next
  fix x cs
  assume "codec_list_from audio_codecs x = Inr cs"
  then show "set cs \<subseteq> Some ` audio_codecs"
    by (cases "(py_str, codec_check audio_codecs, case x of CLeaf l \<Rightarrow> l)" rule: list_setstate.cases)
      (auto simp: codec_list_from_def codec_check_def bindR_eq_Inr split: cfg.splits if_splits)
qed (simp add: codec_list_to_def list_getstate_def)

section \<open>Properties\<close>

text \<open>
  C9. Every address read from a description - an endpoint, an endpoint with an IP address, a
  STUN server, an MSRP relay or a SIP proxy - has a valid host and port (and transport), and the
  text printed for it is read back as the same address.
\<close>

theorem address_descriptions_roundtrip:
  "(endpoint_setstate 0 s = Inr a \<longrightarrow> endpoint_ok a \<and> endpoint_setstate 0 (endpoint_text a) = Inr a) \<and>
   (endpoint_ip_setstate 0 s = Inr a \<longrightarrow>
      ip_endpoint_ok a \<and> endpoint_ip_setstate 0 (endpoint_text a) = Inr a) \<and>
   (stun_server_setstate s = Inr a \<longrightarrow> stun_ok a \<and> stun_server_setstate (endpoint_text a) = Inr a) \<and>
   (msrp_relay_setstate s = Inr b \<longrightarrow> relay_ok b \<and> msrp_relay_setstate (proxy_text b) = Inr b) \<and>
   (sip_proxy_setstate s = Inr b \<longrightarrow> sip_proxy_ok b \<and> sip_proxy_setstate (proxy_text b) = Inr b)"
  by (auto simp: endpoint_setstate_ok endpoint_reparse endpoint_ip_setstate_ok endpoint_ip_reparse
      stun_server_setstate_ok stun_server_reparse msrp_relay_setstate_ok msrp_relay_reparse
      sip_proxy_setstate_ok sip_proxy_reparse)

lemma example_descriptions:
  "endpoint_setstate 0 ''10.0.0.1:5060'' = Inr \<lparr>ep_host = ''10.0.0.1'', ep_port = 5060\<rparr>"
  "endpoint_ip_setstate 0 ''10.0.0.1:5060'' = Inr \<lparr>ep_host = ''10.0.0.1'', ep_port = 5060\<rparr>"
  "stun_server_setstate ''10.0.0.1:5060'' = Inr \<lparr>ep_host = ''10.0.0.1'', ep_port = 5060\<rparr>"
  "msrp_relay_setstate ''10.0.0.1:5060'' =
     Inr \<lparr>ep_host = ''10.0.0.1'', ep_port = 5060, px_transport = ''tls''\<rparr>"
  "sip_proxy_setstate ''10.0.0.1:5060;transport=tls'' =
     Inr \<lparr>ep_host = ''10.0.0.1'', ep_port = 5060, px_transport = ''tls''\<rparr>"
  by code_simp+

theorem address_descriptions_roundtrip_witness:
  "endpoint_ok \<lparr>ep_host = ''10.0.0.1'', ep_port = 5060\<rparr> \<and>
   ip_endpoint_ok \<lparr>ep_host = ''10.0.0.1'', ep_port = 5060\<rparr> \<and>
   stun_ok \<lparr>ep_host = ''10.0.0.1'', ep_port = 5060\<rparr> \<and>
   relay_ok \<lparr>ep_host = ''10.0.0.1'', ep_port = 5060, px_transport = ''tls''\<rparr> \<and>
   sip_proxy_ok \<lparr>ep_host = ''10.0.0.1'', ep_port = 5060, px_transport = ''tls''\<rparr>"
  using address_descriptions_roundtrip [of "''10.0.0.1:5060''" "\<lparr>ep_host = ''10.0.0.1'', ep_port = 5060\<rparr>"]
    address_descriptions_roundtrip [of "''10.0.0.1:5060''" _
      "\<lparr>ep_host = ''10.0.0.1'', ep_port = 5060, px_transport = ''tls''\<rparr>"]
    address_descriptions_roundtrip [of "''10.0.0.1:5060;transport=tls''" _
      "\<lparr>ep_host = ''10.0.0.1'', ep_port = 5060, px_transport = ''tls''\<rparr>"]
  by (simp add: example_descriptions)

text \<open>
  A SIP proxy setting survives a restart: after any sequence of operations that assigned
  only proxies a description can stand for, what \<open>__getstate__\<close> hands to the configuration
  (nothing when the setting is at its default) restores the same value, unmodified, in a new
  object.
\<close>

theorem sip_proxy_setting_restored:
  assumes "Setting.to_state s = text_state proxy_text" "Setting.from_state s = from_text sip_proxy_setstate"
    and "\<And>a v. OpSet a \<in> set ops \<Longrightarrow> coerce_assigned s a = Inr (Some v) \<Longrightarrow> sip_proxy_ok v"
  shows "case setting_getstate s (setting_run s ops) of
      NDefault \<Rightarrow> setting_get s cell_init = setting_get s (setting_run s ops)
    | NLeaf l \<Rightarrow> \<exists>c'. setting_setstate s (CLeaf l) cell_init = (Inr (), c') \<and>
        setting_get s c' = setting_get s (setting_run s ops) \<and> \<not> dirty_at c'
    | _ \<Rightarrow> False"
proof (rule sip_proxy_setting.restore_run [OF _ assms(1,2)])
  show "sip_proxy_ok v" if "values_at (setting_run s ops) = Some (Some v)" for v
    using that sip_proxy_setting.run_valid [OF assms(2,3)] by (simp add: sip_proxy_setting.cell_valid_def)
qed

definition outbound_proxy_setting :: "(proxy, pyval) setting" where
  "outbound_proxy_setting =
     \<lparr>coerce = (\<lambda>v. sip_proxy_init v (PInt 5060) (PStr ''udp'')), to_state = text_state proxy_text,
      from_state = from_text sip_proxy_setstate, default_value = None, nillable = True\<rparr>"

definition example_proxy :: proxy where
  "example_proxy = \<lparr>ep_host = ''10.0.0.1'', ep_port = 5060, px_transport = ''tls''\<rparr>"

theorem sip_proxy_setting_restored_witness:
  "\<exists>c'. setting_setstate outbound_proxy_setting (CLeaf (LText (proxy_text example_proxy)))
      cell_init = (Inr (), c') \<and> setting_get outbound_proxy_setting c' = Some example_proxy \<and> \<not> dirty_at c'"
proof -
  let ?s = outbound_proxy_setting and ?ops = "[OpSet (AssignTyped example_proxy)]"
  have c: "setting_run ?s ?ops = \<lparr>values_at = Some (Some example_proxy), oldvalues_at = None, dirty_at = True\<rparr>"
    by (simp add: setting_run_def cell_init_def setting_set_def coerce_assigned_def store_value_def)
  have ok: "sip_proxy_ok example_proxy"
    by (rule sip_proxy_setstate_ok [of "''10.0.0.1:5060;transport=tls''"])
      (simp add: example_descriptions example_proxy_def)
  have "case setting_getstate ?s (setting_run ?s ?ops) of
      NDefault \<Rightarrow> setting_get ?s cell_init = setting_get ?s (setting_run ?s ?ops)
    | NLeaf l \<Rightarrow> \<exists>c'. setting_setstate ?s (CLeaf l) cell_init = (Inr (), c') \<and>
        setting_get ?s c' = setting_get ?s (setting_run ?s ?ops) \<and> \<not> dirty_at c'
    | _ \<Rightarrow> False"
    by (rule sip_proxy_setting_restored)
      (auto simp: outbound_proxy_setting_def coerce_assigned_def ok)
  then show ?thesis
    unfolding c setting_getstate_def setting_get_def or_default_def cell.select_convs option.case
    by (simp add: outbound_proxy_setting_def text_state_def)
qed

end
