(* ===== verification/Effects.thy ===== *)
theory Effects
  imports Prelude
begin

text \<open>
  Code that changes a state and may raise: a function from the state to a result and the state
  left behind. The state survives an exception, as Python's mutations do. The exceptions are
  those of \<open>pyerr\<close>, or a type of their own for procedures that are also woken up by them.
\<close>

type_synonym ('s, 'e, 'a) proc = "'s \<Rightarrow> ('e + 'a) \<times> 's"

type_synonym ('s, 'a) eff = "('s, pyerr, 'a) proc"

definition retE :: "'a \<Rightarrow> ('s, 'e, 'a) proc" where
  "retE a s = (Inr a, s)"

definition raiseE :: "'e \<Rightarrow> ('s, 'e, 'a) proc" where
  "raiseE e s = (Inl e, s)"

definition bindE :: "('s, 'e, 'a) proc \<Rightarrow> ('a \<Rightarrow> ('s, 'e, 'b) proc) \<Rightarrow> ('s, 'e, 'b) proc" where
  "bindE m f s = (case m s of (Inl e, t) \<Rightarrow> (Inl e, t) | (Inr a, t) \<Rightarrow> f a t)"

text \<open>\<open>try: m except e: h(e)\<close>; \<open>h\<close> raises again what the clause does not match.\<close>

definition catchE :: "('s, 'e, 'a) proc \<Rightarrow> ('e \<Rightarrow> ('s, 'f, 'a) proc) \<Rightarrow> ('s, 'f, 'a) proc" where
  "catchE m h s = (case m s of (Inl e, t) \<Rightarrow> h e t | (Inr a, t) \<Rightarrow> (Inr a, t))"

definition liftE :: "('e + 'a) \<Rightarrow> ('s, 'e, 'a) proc" where
  "liftE r s = (r, s)"

definition modifyE :: "('s \<Rightarrow> 's) \<Rightarrow> ('s, 'e, unit) proc" where
  "modifyE f s = (Inr (), f s)"

text \<open>What a computation guarantees whatever happens: on every result, and on every exception.\<close>

definition results :: "('s, 'e, 'a) proc \<Rightarrow> ('a \<Rightarrow> bool) \<Rightarrow> ('e \<Rightarrow> bool) \<Rightarrow> bool" where
  "results m P E = (\<forall>s. case fst (m s) of Inl e \<Rightarrow> E e | Inr a \<Rightarrow> P a)"

named_theorems results_intro \<open>rules that establish what a computation guarantees\<close>

lemma results_ret [results_intro]: "P a \<Longrightarrow> results (retE a) P E"
  by (simp add: results_def retE_def)

lemma results_raise [results_intro]: "E e \<Longrightarrow> results (raiseE e) P E"
  by (simp add: results_def raiseE_def)

lemma results_lift [results_intro]: "case r of Inl e \<Rightarrow> E e | Inr a \<Rightarrow> P a \<Longrightarrow> results (liftE r) P E"
  by (simp add: results_def liftE_def)

lemma results_modify [results_intro]: "P () \<Longrightarrow> results (modifyE f) P E"
  by (simp add: results_def modifyE_def)

lemma results_bind [results_intro]:
  assumes "results m Q E" "\<And>a. Q a \<Longrightarrow> results (f a) P E"
  shows "results (bindE m f) P E"
  unfolding results_def
proof
  fix s
  obtain r t where m: "m s = (r, t)" by (cases "m s")
  then show "case fst (bindE m f s) of Inl e \<Rightarrow> E e | Inr a \<Rightarrow> P a"
    using assms(1) [unfolded results_def, rule_format, of s] assms(2) [unfolded results_def, rule_format]
    by (cases r) (simp_all add: bindE_def)
qed

lemma results_catch [results_intro]:
  assumes "results m P F" "\<And>e. F e \<Longrightarrow> results (h e) P E"
  shows "results (catchE m h) P E"
  unfolding results_def
proof
  fix s
  obtain r t where m: "m s = (r, t)" by (cases "m s")
  then show "case fst (catchE m h s) of Inl e \<Rightarrow> E e | Inr a \<Rightarrow> P a"
    using assms(1) [unfolded results_def, rule_format, of s] assms(2) [unfolded results_def, rule_format]
    by (cases r) (simp_all add: catchE_def)
qed

lemma results_if [results_intro]:
  "(b \<Longrightarrow> results m P E) \<Longrightarrow> (\<not> b \<Longrightarrow> results n P E) \<Longrightarrow> results (if b then m else n) P E"
  by simp

lemma results_weaken:
  "results m P E \<Longrightarrow> (\<And>a. P a \<Longrightarrow> Q a) \<Longrightarrow> (\<And>e. E e \<Longrightarrow> F e) \<Longrightarrow> results m Q F"
  by (fastforce simp: results_def split: sum.splits)

lemma results_Inr: "results m P E \<Longrightarrow> fst (m s) = Inr a \<Longrightarrow> P a"
  by (metis results_def sum.case(2))

lemma results_Inl: "results m P E \<Longrightarrow> fst (m s) = Inl e \<Longrightarrow> E e"
  by (metis results_def sum.case(1))

text \<open>A relation that every step of a computation keeps, from the state before to the state after.\<close>

definition steps_keep :: "('s \<Rightarrow> 's \<Rightarrow> bool) \<Rightarrow> ('s, 'e, 'a) proc \<Rightarrow> bool" where
  "steps_keep R m = (\<forall>s. R s (snd (m s)))"

named_theorems keep_intro \<open>rules that establish what a computation keeps of the state\<close>

lemma keep_ret [keep_intro]: "reflp R \<Longrightarrow> steps_keep R (retE a)"
  by (simp add: steps_keep_def retE_def reflpD)

lemma keep_raise [keep_intro]: "reflp R \<Longrightarrow> steps_keep R (raiseE e)"
  by (simp add: steps_keep_def raiseE_def reflpD)

lemma keep_lift [keep_intro]: "reflp R \<Longrightarrow> steps_keep R (liftE r)"
  by (simp add: steps_keep_def liftE_def reflpD)

lemma keep_bind [keep_intro]:
  "transp R \<Longrightarrow> steps_keep R m \<Longrightarrow> (\<And>a. steps_keep R (f a)) \<Longrightarrow> steps_keep R (bindE m f)"
  by (auto simp: steps_keep_def bindE_def split: prod.split sum.split)
    (metis snd_conv, metis snd_conv transpD)

lemma keep_catch [keep_intro]:
  "transp R \<Longrightarrow> steps_keep R m \<Longrightarrow> (\<And>e. steps_keep R (h e)) \<Longrightarrow> steps_keep R (catchE m h)"
  by (auto simp: steps_keep_def catchE_def split: prod.split sum.split)
    (metis snd_conv transpD, metis snd_conv)

lemma keep_if [keep_intro]: "steps_keep R m \<Longrightarrow> steps_keep R n \<Longrightarrow> steps_keep R (if b then m else n)"
  by simp

section \<open>Reading, loops and \<open>finally\<close>\<close>

definition readE :: "('s \<Rightarrow> 'a) \<Rightarrow> ('s, 'e, 'a) proc" where
  "readE f s = (Inr (f s), s)"

definition whenE :: "bool \<Rightarrow> ('s, 'e, unit) proc \<Rightarrow> ('s, 'e, unit) proc" where
  "whenE b m = (if b then m else retE ())"

text \<open>\<open>finally\<close>: an exception of the last part wins.\<close>

definition finallyE :: "('s, 'e, 'a) proc \<Rightarrow> ('s, 'e, unit) proc \<Rightarrow> ('s, 'e, 'a) proc" where
  "finallyE m f s =
     (case m s of
        (r, t) \<Rightarrow> (case f t of (Inl e, u) \<Rightarrow> (Inl e, u) | (Inr x, u) \<Rightarrow> (r, u)))"

primrec forE :: "'x list \<Rightarrow> ('x \<Rightarrow> ('s, 'e, unit) proc) \<Rightarrow> ('s, 'e, unit) proc" where
  "forE [] f = retE ()"
| "forE (x # xs) f = bindE (f x) (\<lambda>u. forE xs f)"

text \<open>
  A loop that consumes something with each turn: it is given as many turns as there are things
  to consume, and one that runs out of them is stuck.
\<close>

primrec loopE ::
  "nat \<Rightarrow> 'e \<Rightarrow> ('st \<Rightarrow> 's \<Rightarrow> bool) \<Rightarrow> ('st \<Rightarrow> ('s, 'e, 'st) proc) \<Rightarrow> 'st \<Rightarrow> ('s, 'e, 'st) proc" where
  "loopE 0 stuck goes turn st = (\<lambda>s. if goes st s then (Inl stuck, s) else (Inr st, s))"
| "loopE (Suc n) stuck goes turn st =
     (\<lambda>s. if goes st s then bindE (turn st) (loopE n stuck goes turn) s else (Inr st, s))"

lemma keep_read [keep_intro]: "reflp R \<Longrightarrow> steps_keep R (readE f)"
  by (simp add: steps_keep_def readE_def reflpD)

lemma keep_when [keep_intro]: "reflp R \<Longrightarrow> steps_keep R m \<Longrightarrow> steps_keep R (whenE b m)"
  by (simp add: whenE_def keep_ret)

lemma keep_finally [keep_intro]:
  "transp R \<Longrightarrow> steps_keep R m \<Longrightarrow> steps_keep R f \<Longrightarrow> steps_keep R (finallyE m f)"
  by (auto simp: steps_keep_def finallyE_def split: prod.split sum.split) (metis snd_conv transpD)+

lemma keep_for [keep_intro]:
  "reflp R \<Longrightarrow> transp R \<Longrightarrow> (\<And>x. x \<in> set xs \<Longrightarrow> steps_keep R (f x)) \<Longrightarrow> steps_keep R (forE xs f)"
  by (induction xs) (auto intro: keep_intro)

lemma keep_loop [keep_intro]:
  assumes "reflp R" "transp R" "\<And>st. steps_keep R (turn st)"
  shows "steps_keep R (loopE n stuck goes turn st)"
proof (induction n arbitrary: st)
  case 0
  show ?case using assms(1) by (simp add: steps_keep_def reflpD)
next
  case (Suc n)
  have "steps_keep R (bindE (turn st) (loopE n stuck goes turn))"
    by (rule keep_bind [OF assms(2) assms(3) Suc])
  then show ?case using assms(1) by (simp add: steps_keep_def reflpD)
qed

section \<open>Triples\<close>

text \<open>From states with \<open>P\<close>, a result comes with \<open>Q\<close> and an exception with \<open>E\<close>.\<close>

definition triple ::
  "('s \<Rightarrow> bool) \<Rightarrow> ('s, 'e, 'a) proc \<Rightarrow> ('a \<Rightarrow> 's \<Rightarrow> bool) \<Rightarrow> ('e \<Rightarrow> 's \<Rightarrow> bool) \<Rightarrow> bool" where
  "triple P m Q E =
     (\<forall>s. P s \<longrightarrow> (case m s of (Inl e, t) \<Rightarrow> E e t | (Inr a, t) \<Rightarrow> Q a t))"

lemma tripleD:
  "triple P m Q E \<Longrightarrow> P s \<Longrightarrow> m s = (Inr a, t) \<Longrightarrow> Q a t"
  "triple P m Q E \<Longrightarrow> P s \<Longrightarrow> m s = (Inl e, t) \<Longrightarrow> E e t"
  by (fastforce simp: triple_def)+

lemma triple_weaken:
  assumes "triple P m Q E" "\<And>s. P' s \<Longrightarrow> P s" "\<And>a t. Q a t \<Longrightarrow> Q' a t" "\<And>e t. E e t \<Longrightarrow> E' e t"
  shows "triple P' m Q' E'"
  using assms by (fastforce simp: triple_def split: prod.splits sum.splits)

lemma triple_ret: "(\<And>s. P s \<Longrightarrow> Q a s) \<Longrightarrow> triple P (retE a) Q E"
  by (simp add: triple_def retE_def)

lemma triple_raise: "(\<And>s. P s \<Longrightarrow> E e s) \<Longrightarrow> triple P (raiseE e) Q E"
  by (simp add: triple_def raiseE_def)

lemma triple_modify: "(\<And>s. P s \<Longrightarrow> Q () (f s)) \<Longrightarrow> triple P (modifyE f) Q E"
  by (simp add: triple_def modifyE_def)

lemma triple_read: "(\<And>s. P s \<Longrightarrow> Q (f s) s) \<Longrightarrow> triple P (readE f) Q E"
  by (simp add: triple_def readE_def)

lemma triple_bind:
  assumes "triple P m R E" "\<And>a. triple (R a) (f a) Q E"
  shows "triple P (bindE m f) Q E"
  unfolding triple_def
proof (intro allI impI)
  fix s assume P: "P s"
  obtain r t where m: "m s = (r, t)" by (cases "m s")
  show "case bindE m f s of (Inl e, t) \<Rightarrow> E e t | (Inr a, t) \<Rightarrow> Q a t"
  proof (cases r)
    case (Inl e)
    then show ?thesis using tripleD(2) [OF assms(1) P] m by (simp add: bindE_def)
  next
    case (Inr a)
    then have "R a t" using tripleD(1) [OF assms(1) P] m by simp
    then show ?thesis using Inr m assms(2) [of a] by (simp add: bindE_def triple_def)
  qed
qed

lemma triple_catch:
  assumes "triple P m Q F" "\<And>e. triple (F e) (h e) Q E"
  shows "triple P (catchE m h) Q E"
  unfolding triple_def
proof (intro allI impI)
  fix s assume P: "P s"
  obtain r t where m: "m s = (r, t)" by (cases "m s")
  show "case catchE m h s of (Inl e, t) \<Rightarrow> E e t | (Inr a, t) \<Rightarrow> Q a t"
  proof (cases r)
    case (Inl e)
    then have "F e t" using tripleD(2) [OF assms(1) P] m by simp
    then show ?thesis using Inl m assms(2) [of e] by (simp add: catchE_def triple_def)
  next
    case (Inr a)
    then show ?thesis using tripleD(1) [OF assms(1) P] m by (simp add: catchE_def)
  qed
qed

lemma triple_if:
  "(b \<Longrightarrow> triple P m Q E) \<Longrightarrow> (\<not> b \<Longrightarrow> triple P n Q E) \<Longrightarrow> triple P (if b then m else n) Q E"
  by simp

lemma triple_finally:
  assumes "triple P m Q F" "\<And>a. triple (Q a) f (\<lambda>u. Q' a) E" "\<And>e. triple (F e) f (\<lambda>u. E e) E"
  shows "triple P (finallyE m f) Q' E"
  unfolding triple_def
proof (intro allI impI)
  fix s assume P: "P s"
  obtain r t where m: "m s = (r, t)" by (cases "m s")
  obtain q u where f: "f t = (q, u)" by (cases "f t")
  show "case finallyE m f s of (Inl e, t) \<Rightarrow> E e t | (Inr a, t) \<Rightarrow> Q' a t"
  proof (cases r)
    case (Inl e)
    then have "F e t" using tripleD(2) [OF assms(1) P] m by simp
    then show ?thesis
      using Inl m f tripleD [OF assms(3) [of e], of t] by (cases q) (auto simp: finallyE_def)
  next
    case (Inr a)
    then have "Q a t" using tripleD(1) [OF assms(1) P] m by simp
    then show ?thesis
      using Inr m f tripleD [OF assms(2) [of a], of t] by (cases q) (auto simp: finallyE_def)
  qed
qed

lemma triple_stable:
  "steps_keep (\<lambda>s t. I s \<longrightarrow> I t) m \<Longrightarrow> triple I m (\<lambda>a. I) (\<lambda>e. I)"
  by (fastforce simp: steps_keep_def triple_def split: prod.split sum.split)

text \<open>What a loop keeps, whatever it carries along.\<close>

lemma triple_loop:
  assumes "\<And>st. triple (\<lambda>s. I st s \<and> goes st s) (turn st) I E"
    and "\<And>st s. I st s \<and> \<not> goes st s \<Longrightarrow> Q st s" "\<And>st s. I st s \<and> goes st s \<Longrightarrow> E stuck s"
  shows "triple (I st) (loopE n stuck goes turn st) Q E"
proof (induction n arbitrary: st)
  case 0
  show ?case using assms(2,3) by (simp add: triple_def)
next
  case (Suc n)
  have b: "triple (\<lambda>s. I st s \<and> goes st s) (bindE (turn st) (loopE n stuck goes turn)) Q E"
    by (rule triple_bind [OF assms(1) Suc])
  show ?case
    using b assms(2) by (simp add: triple_def)
qed

section \<open>What a computation leaves as it was\<close>

definition stable :: "('s \<Rightarrow> bool) \<Rightarrow> ('s, 'e, 'a) proc \<Rightarrow> bool" where
  "stable I m = triple I m (\<lambda>a. I) (\<lambda>e. I)"

named_theorems stable_intro \<open>rules that establish what a computation leaves as it was\<close>

lemma stableD: "stable I m \<Longrightarrow> I s \<Longrightarrow> I (snd (m s))"
  by (cases "m s"; cases "fst (m s)") (auto simp: stable_def dest: tripleD)

lemma stableI: "(\<And>s. I s \<Longrightarrow> I (snd (m s))) \<Longrightarrow> stable I m"
  by (force simp: stable_def triple_def split: prod.split sum.split)

lemma stable_ret [stable_intro]: "stable I (retE a)"
  by (simp add: stable_def triple_ret)

lemma stable_raise [stable_intro]: "stable I (raiseE e)"
  by (simp add: stable_def triple_raise)

lemma stable_read [stable_intro]: "stable I (readE f)"
  by (simp add: stable_def triple_read)

lemma stable_bind [stable_intro]: "stable I m \<Longrightarrow> (\<And>a. stable I (f a)) \<Longrightarrow> stable I (bindE m f)"
  unfolding stable_def by (rule triple_bind)

lemma stable_catch [stable_intro]: "stable I m \<Longrightarrow> (\<And>e. stable I (h e)) \<Longrightarrow> stable I (catchE m h)"
  unfolding stable_def by (rule triple_catch)

lemma stable_if [stable_intro]: "stable I m \<Longrightarrow> stable I n \<Longrightarrow> stable I (if b then m else n)"
  by simp

lemma stable_let [stable_intro]: "(\<And>x. stable I (f x)) \<Longrightarrow> stable I (Let a f)"
  by simp

lemma stable_when [stable_intro]: "stable I m \<Longrightarrow> stable I (whenE b m)"
  by (simp add: whenE_def stable_ret)

lemma stable_finally [stable_intro]: "stable I m \<Longrightarrow> stable I f \<Longrightarrow> stable I (finallyE m f)"
  unfolding stable_def by (rule triple_finally)

lemma stable_for [stable_intro]: "(\<And>x. stable I (f x)) \<Longrightarrow> stable I (forE xs f)"
  by (induction xs) (auto intro: stable_intro)

lemma stable_loop [stable_intro]: "(\<And>st. stable I (turn st)) \<Longrightarrow> stable I (loopE n stuck goes turn st)"
  unfolding stable_def by (rule triple_loop) (auto intro: triple_weaken)

lemma stable_option [stable_intro]:
  "stable I a \<Longrightarrow> (\<And>y. stable I (f y)) \<Longrightarrow> stable I (case_option a f x)"
  by (cases x) simp_all

lemma stable_prod [stable_intro]: "(\<And>a b. stable I (f a b)) \<Longrightarrow> stable I (case_prod f x)"
  by (cases x) simp

lemma stable_list [stable_intro]:
  "stable I a \<Longrightarrow> (\<And>y ys. stable I (f y ys)) \<Longrightarrow> stable I (case_list a f x)"
  by (cases x) simp_all

text \<open>The same rules where the condition changes on the way.\<close>

named_theorems triple_cases \<open>case splits of triples\<close>

lemma triple_option [triple_cases]:
  "(x = None \<Longrightarrow> triple P a Q E) \<Longrightarrow> (\<And>y. x = Some y \<Longrightarrow> triple P (f y) Q E) \<Longrightarrow> triple P (case_option a f x) Q E"
  by (cases x) simp_all

lemma triple_prod [triple_cases]:
  "(\<And>a b. x = (a, b) \<Longrightarrow> triple P (f a b) Q E) \<Longrightarrow> triple P (case_prod f x) Q E"
  by (cases x) simp

lemma triple_list [triple_cases]:
  "(x = [] \<Longrightarrow> triple P a Q E) \<Longrightarrow> (\<And>y ys. x = y # ys \<Longrightarrow> triple P (f y ys) Q E) \<Longrightarrow>
   triple P (case_list a f x) Q E"
  by (cases x) simp_all

lemma triple_let [triple_cases]: "triple P (f a) Q E \<Longrightarrow> triple P (Let a f) Q E"
  by simp

text \<open>A stable first part, and a stable last part.\<close>

lemma triple_after_stable:
  "stable I m \<Longrightarrow> (\<And>e t. I t \<Longrightarrow> E e t) \<Longrightarrow> (\<And>a. triple I (f a) Q E) \<Longrightarrow> triple I (bindE m f) Q E"
  by (rule triple_bind [where R = "\<lambda>a. I"]) (auto simp: stable_def intro: triple_weaken)

lemma triple_of_stable:
  "stable I m \<Longrightarrow> (\<And>s. P s \<Longrightarrow> I s) \<Longrightarrow> (\<And>a t. I t \<Longrightarrow> Q a t) \<Longrightarrow> (\<And>e t. I t \<Longrightarrow> E e t) \<Longrightarrow> triple P m Q E"
  unfolding stable_def by (rule triple_weaken)

lemma triple_when: "triple P m Q E \<Longrightarrow> (\<And>s. P s \<Longrightarrow> Q () s) \<Longrightarrow> triple P (whenE b m) Q E"
  by (simp add: whenE_def triple_ret)

lemma triple_either: "triple P m Q E \<Longrightarrow> triple P' m Q E \<Longrightarrow> triple (\<lambda>s. P s \<or> P' s) m Q E"
  by (auto simp: triple_def)

end
