(* ===== verification/Route.thy ===== *)
theory Route
  imports Effects
begin

text \<open>
  \<open>Route\<close> and \<open>ContactURIFactory\<close> of \<open>sipsimple/core/_helpers.py\<close>. The C library's
  \<open>inet_aton\<close>, the addresses of the host and the ports the engine listens on are parameters.
\<close>

section \<open>Routes\<close>

record route =
  rt_address :: string
  rt_port_set :: "int option"
  rt_transport :: string

definition set_address :: "(string \<Rightarrow> bool) \<Rightarrow> string \<Rightarrow> string result" where
  "set_address inet_aton address = (if inet_aton address then Inr address else Inl ValueError)"

definition set_port :: "int option \<Rightarrow> int option result" where
  "set_port p =
     (case p of
        None \<Rightarrow> Inr None
      | Some n \<Rightarrow> if \<not> (0 < n \<and> n < 65536) then Inl ValueError else Inr (Some n))"

definition set_transport :: "string \<Rightarrow> string result" where
  "set_transport transport =
     (if transport \<notin> {''udp'', ''tcp'', ''tls''} then Inl ValueError else Inr transport)"

definition route_init :: "(string \<Rightarrow> bool) \<Rightarrow> string \<Rightarrow> int option \<Rightarrow> string \<Rightarrow> route result" where
  "route_init inet_aton address p transport =
     bindR (set_address inet_aton address) (\<lambda>a.
     bindR (set_port p) (\<lambda>q.
     bindR (set_transport transport) (\<lambda>t.
       Inr \<lparr>rt_address = a, rt_port_set = q, rt_transport = t\<rparr>)))"

definition rt_port :: "route \<Rightarrow> int" where
  "rt_port r =
     (case rt_port_set r of
        None \<Rightarrow> if rt_transport r = ''tls'' then 5061 else 5060
      | Some n \<Rightarrow> n)"

definition default_ports :: "string \<Rightarrow> int option" where
  "default_ports = [''udp'' \<mapsto> 5060, ''tcp'' \<mapsto> 5060, ''tls'' \<mapsto> 5061]"

text \<open>The attributes of a \<open>SIPURI\<close> the modelled code sets; parameters as a dictionary.\<close>

record sipuri =
  uri_user :: "string option"
  uri_host :: string
  uri_port :: "int option"
  uri_parameters :: "(string, string) dict"

definition transport_parameters :: "string \<Rightarrow> (string, string) dict" where
  "transport_parameters transport = (if transport = ''udp'' then [] else [(''transport'', transport)])"

definition route_uri :: "route \<Rightarrow> sipuri" where
  "route_uri r =
     \<lparr>uri_user = None, uri_host = rt_address r,
      uri_port = (if default_ports (rt_transport r) = Some (rt_port r) then None else Some (rt_port r)),
      uri_parameters = transport_parameters (rt_transport r)\<rparr>"

text \<open>\<open>SIPURI.transport\<close>: the parameter, UDP when there is none.\<close>

definition uri_transport :: "sipuri \<Rightarrow> string" where
  "uri_transport u = (case map_of (uri_parameters u) ''transport'' of None \<Rightarrow> ''udp'' | Some t \<Rightarrow> t)"

section \<open>Contact addresses\<close>

datatype contact_type =
    NoGRUU | PublicGRUU | TemporaryGRUU | PublicGRUUIfAvailable | TemporaryGRUUIfAvailable

datatype contact_key = KeyTransport string | KeyRoute route | KeyOther

record contact_factory =
  cf_username :: string
  cf_public_gruu :: "sipuri option"
  cf_temporary_gruu :: "sipuri option"

text \<open>\<open>username or ''.join(random.sample(string.digits, 8))\<close>; the sample is an argument.\<close>

definition contact_factory_init :: "string \<Rightarrow> string option \<Rightarrow> contact_factory" where
  "contact_factory_init sample username =
     \<lparr>cf_username = (case username of None \<Rightarrow> sample | Some u \<Rightarrow> if u = [] then sample else u),
      cf_public_gruu = None, cf_temporary_gruu = None\<rparr>"

definition add_parameters :: "(string, string) dict \<Rightarrow> sipuri \<Rightarrow> sipuri" where
  "add_parameters ps u = u\<lparr>uri_parameters := fold (\<lambda>(k, v). dset k v) ps (uri_parameters u)\<rparr>"

text \<open>The subscript is a key, or a pair of a contact type (\<open>None\<close>: no such type) and a key.\<close>

datatype contact_subscript = Plain contact_key | Typed "contact_type option" contact_key

definition local_contact ::
  "(string option) \<Rightarrow> (string \<Rightarrow> string option) \<Rightarrow> (string \<Rightarrow> int option) \<Rightarrow>
    contact_factory \<Rightarrow> contact_key \<Rightarrow> string \<Rightarrow> sipuri result" where
  "local_contact default_ip outgoing_ip_for engine_port f key transport =
     (case (case key of KeyRoute r \<Rightarrow> outgoing_ip_for (rt_address r) | _ \<Rightarrow> default_ip) of
        None \<Rightarrow> Inl KeyError
      | Some ip \<Rightarrow>
          (case engine_port transport of
             None \<Rightarrow> Inl KeyError
           | Some p \<Rightarrow> Inr \<lparr>uri_user = Some (cf_username f), uri_host = ip, uri_port = Some p,
                            uri_parameters = []\<rparr>))"

definition key_transport :: "contact_key \<Rightarrow> string option" where
  "key_transport key =
     (case key of KeyTransport t \<Rightarrow> Some t | KeyRoute r \<Rightarrow> Some (rt_transport r) | KeyOther \<Rightarrow> None)"

definition base_contact ::
  "(string option) \<Rightarrow> (string \<Rightarrow> string option) \<Rightarrow> (string \<Rightarrow> int option) \<Rightarrow>
    contact_factory \<Rightarrow> contact_type \<Rightarrow> contact_key \<Rightarrow> string \<Rightarrow> sipuri result" where
  "base_contact default_ip outgoing_ip_for engine_port f ct key transport =
     (if ct = PublicGRUU then
        (case cf_public_gruu f of None \<Rightarrow> Inl KeyError | Some u \<Rightarrow> Inr u)
      else if ct = TemporaryGRUU then
        (case cf_temporary_gruu f of None \<Rightarrow> Inl KeyError | Some u \<Rightarrow> Inr u)
      else if ct = PublicGRUUIfAvailable \<and> cf_public_gruu f \<noteq> None then Inr (the (cf_public_gruu f))
      else if ct = TemporaryGRUUIfAvailable \<and> cf_temporary_gruu f \<noteq> None then
        Inr (the (cf_temporary_gruu f))
      else local_contact default_ip outgoing_ip_for engine_port f key transport)"

definition contact_uri ::
  "(string option) \<Rightarrow> (string \<Rightarrow> string option) \<Rightarrow> (string \<Rightarrow> int option) \<Rightarrow>
    contact_factory \<Rightarrow> contact_subscript \<Rightarrow> sipuri result" where
  "contact_uri default_ip outgoing_ip_for engine_port f subscript =
     (let ct = (case subscript of Plain key \<Rightarrow> Some NoGRUU | Typed c key \<Rightarrow> c);
          key = (case subscript of Plain key \<Rightarrow> key | Typed c key \<Rightarrow> key)
      in case ct of
           None \<Rightarrow> Inl KeyError
         | Some c \<Rightarrow>
             (case key_transport key of
                None \<Rightarrow> Inl KeyError
              | Some transport \<Rightarrow>
                  bindR (base_contact default_ip outgoing_ip_for engine_port f c key transport)
                    (\<lambda>uri. Inr (add_parameters (transport_parameters transport) uri))))"

section \<open>Properties\<close>

lemma route_init_Inr:
  "route_init inet_aton a p t = Inr r \<longleftrightarrow>
     inet_aton a \<and> (\<forall>n. p = Some n \<longrightarrow> 0 < n \<and> n < 65536) \<and> t \<in> {''udp'', ''tcp'', ''tls''} \<and>
     r = \<lparr>rt_address = a, rt_port_set = p, rt_transport = t\<rparr>"
  by (cases p) (auto simp: route_init_def set_address_def set_port_def set_transport_def bindR_eq_Inr)

lemma route_init_Inl: "route_init inet_aton a p t = Inl e \<Longrightarrow> e = ValueError"
  by (auto simp: route_init_def set_address_def set_port_def set_transport_def bindR_def
      split: if_splits option.splits sum.splits)

text \<open>
  The SIP URI of a route stands for the same next hop: a route built from the URI's host,
  port and transport (the port left out when it is the default of the transport, the transport
  left out when it is UDP) has the same address, port and transport.
\<close>

theorem route_uri_roundtrip:
  assumes "route_init inet_aton a p t = Inr r"
  shows "\<exists>r'. route_init inet_aton (uri_host (route_uri r)) (uri_port (route_uri r))
      (uri_transport (route_uri r)) = Inr r' \<and>
    rt_address r' = rt_address r \<and> rt_port r' = rt_port r \<and> rt_transport r' = rt_transport r"
  using assms unfolding route_init_Inr
  by (cases p) (auto simp: route_init_Inr route_uri_def uri_transport_def rt_port_def default_ports_def
      transport_parameters_def)

theorem route_uri_roundtrip_witness:
  "\<exists>r'. route_init (\<lambda>_. True) ''10.0.0.1'' None ''tls'' = Inr r' \<and>
     rt_address r' = ''10.0.0.1'' \<and> rt_port r' = 5061 \<and> rt_transport r' = ''tls''"
  using route_uri_roundtrip [of "\<lambda>_. True" "''10.0.0.1''" "Some 5061" "''tls''"
      "\<lparr>rt_address = ''10.0.0.1'', rt_port_set = Some 5061, rt_transport = ''tls''\<rparr>"]
  by (simp add: route_init_Inr route_uri_def rt_port_def default_ports_def uri_transport_def
      transport_parameters_def)

lemma base_contact_Inr:
  "base_contact ip out ports f c key t = Inr u \<Longrightarrow>
     uri_transport u = ''udp'' \<or> cf_public_gruu f = Some u \<or> cf_temporary_gruu f = Some u"
  by (auto simp: base_contact_def local_contact_def uri_transport_def
      split: if_splits option.splits)

lemma base_contact_Inl: "base_contact ip out ports f c key t = Inl e \<Longrightarrow> e = KeyError"
  by (auto simp: base_contact_def local_contact_def split: if_splits option.splits)

lemma uri_transport_added:
  "uri_transport (add_parameters (transport_parameters t) u) =
     (if t = ''udp'' then uri_transport u else t)"
  by (simp add: uri_transport_def add_parameters_def transport_parameters_def map_of_dset)

text \<open>
  A contact address announces the transport it was asked for, whether it is a GRUU or an
  address of the host; only when UDP is asked for, a GRUU keeps a transport parameter of its
  own. The only exception is \<open>KeyError\<close>.
\<close>

theorem contact_uri_transport:
  "case contact_uri ip out ports f (Typed ct key) of
     Inl e \<Rightarrow> e = KeyError
   | Inr u \<Rightarrow> \<exists>t. key_transport key = Some t \<and>
       (if t = ''udp'' then uri_transport u \<in> {''udp''} \<union>
          uri_transport ` (set_option (cf_public_gruu f) \<union> set_option (cf_temporary_gruu f))
        else uri_transport u = t)"
proof (cases "contact_uri ip out ports f (Typed ct key)")
  case (Inl e)
  then show ?thesis
    by (auto simp: contact_uri_def bindR_def dest: base_contact_Inl split: option.splits sum.splits)
next
  case (Inr u)
  then obtain c t b where "key_transport key = Some t" "base_contact ip out ports f c key t = Inr b"
    "u = add_parameters (transport_parameters t) b"
    by (auto simp: contact_uri_def bindR_eq_Inr split: option.splits)
  then show ?thesis
    using base_contact_Inr Inr by (fastforce simp: uri_transport_added)
qed

end
