(* ===== verification/DNS_Lookup.thy ===== *)
theory DNS_Lookup
  imports Route Config_Types "HOL-Library.Product_Lexorder"
begin

text \<open>
  DNS lookups, \<open>sipsimple/lookup.py\<close>: the queries (\<open>_lookup_a_records\<close>,
  \<open>_lookup_srv_records\<close>, \<open>_lookup_naptr_record\<close>) and the RFC 3263 decision procedure that
  combines them. The DNS library is a parameter: for each record type a function from a name,
  the lifetime left and the state of the library to an outcome, the time the query took and
  the library's new state.
\<close>

section \<open>Domain iteration\<close>

fun after_dot :: "string \<Rightarrow> string" where
  "after_dot [] = []"
| "after_dot (c # cs) = (if c = CHR ''.'' then cs else after_dot cs)"

lemma length_after_dot: "length (after_dot d) \<le> length d - 1"
  by (induction d rule: after_dot.induct) (auto split: if_splits)

function domain_iterator :: "string \<Rightarrow> string list" where
  "domain_iterator d = (if d = ''.'' \<or> d = '''' then [] else d # domain_iterator (after_dot d))"
  by pat_completeness auto
termination
proof (relation "measure length")
  fix d :: string
  assume "\<not> (d = ''.'' \<or> d = '''')"
  then show "(after_dot d, d) \<in> measure length"
    using length_after_dot [of d] by (cases d) auto
qed simp

declare domain_iterator.simps [simp del]

section \<open>The resolver\<close>

datatype 'a dns_outcome = Answered 'a | TimedOut | Failed

record srv_rr =
  srv_priority :: int
  srv_weight :: int
  srv_port :: int
  srv_target :: string

record naptr_rr =
  nr_service :: string
  nr_order :: int
  nr_preference :: int
  nr_replacement :: string

text \<open>The sets of records of the additional section of an answer.\<close>

datatype rrset = ASet string "string list" | SRVSet string "srv_rr list" | OtherSet string

type_synonym ('r, 'a) dns_query = "string \<Rightarrow> int \<Rightarrow> 'r \<Rightarrow> 'a dns_outcome \<times> int \<times> 'r"

record 'r dns_library =
  query_a :: "('r, string list) dns_query"
  query_srv :: "('r, srv_rr list \<times> rrset list) dns_query"
  query_naptr :: "('r, naptr_rr list \<times> rrset list) dns_query"
  query_txt :: "('r, string list) dns_query"

datatype qtype = QA | QSRV | QNAPTR | QTXT

datatype trace_outcome = TraceAnswer | TraceTimeout | TraceError

text \<open>A resolver, and the \<open>DNSLookupTrace\<close> notifications posted, latest first.\<close>

record 'r resolver =
  lib_state :: 'r
  lifetime :: int
  traces :: "(qtype \<times> string \<times> trace_outcome) list"

text \<open>\<open>DNSResolver.query\<close>: the duration of a query is taken off the lifetime left.\<close>

definition resolver_query :: "('r, 'a) dns_query \<Rightarrow> string \<Rightarrow> ('r resolver, 'a dns_outcome) eff" where
  "resolver_query q name s =
     (case q name (lifetime s) (lib_state s) of
        (r, elapsed, lib) \<Rightarrow>
          (Inr r, s\<lparr>lib_state := lib, lifetime := lifetime s - min (lifetime s) elapsed\<rparr>))"

definition outcome_trace :: "'a dns_outcome \<Rightarrow> trace_outcome" where
  "outcome_trace r =
     (case r of Answered a \<Rightarrow> TraceAnswer | TimedOut \<Rightarrow> TraceTimeout | Failed \<Rightarrow> TraceError)"

text \<open>A query as the lookups make it: traced; a timeout is raised, another error is no answer.\<close>

definition ask :: "qtype \<Rightarrow> ('r, 'a) dns_query \<Rightarrow> string \<Rightarrow> ('r resolver, 'a option) eff" where
  "ask ty q name =
     bindE (resolver_query q name) (\<lambda>r.
     bindE (modifyE (\<lambda>s. s\<lparr>traces := (ty, name, outcome_trace r) # traces s\<rparr>)) (\<lambda>u.
       case r of
         Answered a \<Rightarrow> retE (Some a)
       | TimedOut \<Rightarrow> raiseE DNSTimeout
       | Failed \<Rightarrow> retE None))"

section \<open>Address records\<close>

definition additional_a :: "rrset list \<Rightarrow> string \<Rightarrow> string list option" where
  "additional_a sets =
     fold (\<lambda>set m. case set of ASet n rs \<Rightarrow> m(n \<mapsto> rs) | _ \<Rightarrow> m) sets (\<lambda>_. None)"

definition additional_srv :: "rrset list \<Rightarrow> string \<Rightarrow> srv_rr list option" where
  "additional_srv sets =
     fold (\<lambda>set m. case set of SRVSet n rs \<Rightarrow> m(n \<mapsto> rs) | _ \<Rightarrow> m) sets (\<lambda>_. None)"

fun a_records ::
  "'r dns_library \<Rightarrow> rrset list \<Rightarrow> string list \<Rightarrow> (string, string list) dict \<Rightarrow>
    ('r resolver, (string, string list) dict) eff" where
  "a_records lib sets [] addresses = retE addresses"
| "a_records lib sets (h # hs) addresses =
     (case additional_a sets h of
        Some rs \<Rightarrow> a_records lib sets hs (dset h rs addresses)
      | None \<Rightarrow>
          bindE (ask QA (query_a lib) h) (\<lambda>r.
            a_records lib sets hs (dset h (case r of None \<Rightarrow> [] | Some rs \<Rightarrow> rs) addresses)))"

definition lookup_a_records ::
  "'r dns_library \<Rightarrow> rrset list \<Rightarrow> string list \<Rightarrow> ('r resolver, (string, string list) dict) eff" where
  "lookup_a_records lib sets hostnames = a_records lib sets hostnames []"

section \<open>Service records\<close>

record srv_result =
  sr_priority :: int
  sr_weight :: int
  sr_port :: int
  sr_address :: string

definition get_list :: "(string, 'a list) dict \<Rightarrow> string \<Rightarrow> 'a list" where
  "get_list d k = (case map_of d k of None \<Rightarrow> [] | Some xs \<Rightarrow> xs)"

definition srv_results :: "(string, string list) dict \<Rightarrow> srv_rr list \<Rightarrow> srv_result list" where
  "srv_results addresses records =
     concat (map (\<lambda>r. map (\<lambda>a. \<lparr>sr_priority = srv_priority r, sr_weight = srv_weight r,
                                sr_port = srv_port r, sr_address = a\<rparr>)
                           (get_list addresses (srv_target r))) records)"

definition srv_sort :: "srv_result list \<Rightarrow> srv_result list" where
  "srv_sort = sort_key (\<lambda>r. (sr_priority r, - sr_weight r))"

fun srv_records ::
  "'r dns_library \<Rightarrow> rrset list \<Rightarrow> string list \<Rightarrow> (string, srv_result list) dict \<Rightarrow>
    ('r resolver, (string, srv_result list) dict) eff" where
  "srv_records lib sets [] services = retE services"
| "srv_records lib sets (n # ns) services =
     (case additional_srv sets n of
        Some records \<Rightarrow>
          bindE (lookup_a_records lib sets (map srv_target records)) (\<lambda>addresses.
            srv_records lib sets ns (dset n (srv_sort (srv_results addresses records)) services))
      | None \<Rightarrow>
          bindE (ask QSRV (query_srv lib) n) (\<lambda>r.
            case r of
              None \<Rightarrow> srv_records lib sets ns (dset n [] services)
            | Some a \<Rightarrow>
                bindE (lookup_a_records lib (snd a) (map srv_target (fst a))) (\<lambda>addresses.
                  srv_records lib sets ns
                    (dset n (srv_sort (srv_results addresses (fst a))) services))))"

definition lookup_srv_records ::
  "'r dns_library \<Rightarrow> rrset list \<Rightarrow> string list \<Rightarrow> ('r resolver, (string, srv_result list) dict) eff" where
  "lookup_srv_records lib sets srv_names = srv_records lib sets srv_names []"

section \<open>Naming authority pointers\<close>

record naptr_result =
  np_service :: string
  np_order :: int
  np_preference :: int
  np_priority :: int
  np_weight :: int
  np_port :: int
  np_address :: string

definition naptr_pointers ::
  "(string, srv_result list) dict \<Rightarrow> naptr_rr list \<Rightarrow> naptr_result list" where
  "naptr_pointers services records =
     concat (map (\<lambda>record. map (\<lambda>r. \<lparr>np_service = lower (nr_service record), np_order = nr_order record,
                                     np_preference = nr_preference record, np_priority = sr_priority r,
                                     np_weight = sr_weight r, np_port = sr_port r,
                                     np_address = sr_address r\<rparr>)
                                (get_list services (nr_replacement record))) records)"

definition naptr_sort :: "naptr_result list \<Rightarrow> naptr_result list" where
  "naptr_sort = sort_key (\<lambda>p. (np_order p, np_preference p))"

definition lookup_naptr_record ::
  "'r dns_library \<Rightarrow> string \<Rightarrow> string list \<Rightarrow> ('r resolver, naptr_result list) eff" where
  "lookup_naptr_record lib domain services =
     bindE (ask QNAPTR (query_naptr lib) domain) (\<lambda>r.
       case r of
         None \<Rightarrow> retE []
       | Some a \<Rightarrow>
           (let records = filter (\<lambda>r. lower (nr_service r) \<in> set services) (fst a)
            in bindE (lookup_srv_records lib (snd a) (map nr_replacement records)) (\<lambda>services.
                 retE (naptr_sort (naptr_pointers services records)))))"

section \<open>The lookups\<close>

text \<open>The parts of a SIP URI a lookup reads; no port is \<open>None\<close> or 0.\<close>

record lookup_uri =
  lu_host :: string
  lu_port :: int
  lu_secure :: bool
  lu_transport :: "string option"

definition numeric_host :: "string \<Rightarrow> bool" where
  "numeric_host h = (re_match ip_re h \<noteq> None)"

definition transport_of :: "lookup_uri \<Rightarrow> string" where
  "transport_of u =
     (if lu_secure u then ''tls'' else lower (case lu_transport u of None \<Rightarrow> ''udp'' | Some t \<Rightarrow> t))"

definition default_port :: "string \<Rightarrow> int" where
  "default_port transport = (if transport = ''tls'' then 5061 else 5060)"

definition service_srv_record_map :: "string \<Rightarrow> (string \<times> int \<times> bool) option" where
  "service_srv_record_map =
     [''stun'' \<mapsto> (''_stun._udp'', 3478, False), ''msrprelay'' \<mapsto> (''_msrps._tcp'', 2855, True)]"

text \<open>\<open>d[k]\<close>\<close>

definition item :: "('k \<times> 'v) list \<Rightarrow> 'k \<Rightarrow> ('s, 'v) eff" where
  "item d k = (case map_of d k of None \<Rightarrow> raiseE KeyError | Some v \<Rightarrow> retE v)"

definition timeout_is_error :: "('s, 'a) eff \<Rightarrow> ('s, 'a) eff" where
  "timeout_is_error m = catchE m (\<lambda>e. raiseE (if e = DNSTimeout then DNSLookupError else e))"

definition lookup_service ::
  "'r dns_library \<Rightarrow> lookup_uri \<Rightarrow> string \<Rightarrow> ('r resolver, (string \<times> int) list) eff" where
  "lookup_service lib uri service =
     (case service_srv_record_map service of
        None \<Rightarrow> raiseE DNSLookupError
      | Some (service_prefix, service_port, service_fallback) \<Rightarrow>
          timeout_is_error
            (if numeric_host (lu_host uri) then
               retE [(lu_host uri, if lu_port uri \<noteq> 0 then lu_port uri else service_port)]
             else
               let record_name = service_prefix @ ''.'' @ lu_host uri
               in bindE (lookup_srv_records lib [] [record_name]) (\<lambda>services.
                  bindE (item services record_name) (\<lambda>found.
                    if found \<noteq> [] then retE (map (\<lambda>r. (sr_address r, sr_port r)) found)
                    else if service_fallback then
                      bindE (lookup_a_records lib [] [lu_host uri]) (\<lambda>addresses.
                      bindE (item addresses (lu_host uri)) (\<lambda>found.
                        if found \<noteq> [] then retE (map (\<lambda>a. (a, service_port)) found)
                        else raiseE DNSLookupError))
                    else raiseE DNSLookupError))))"

definition naptr_service_transport_map :: "(string \<times> string) list" where
  "naptr_service_transport_map =
     [(''sips+d2t'', ''tls''), (''sip+d2t'', ''tcp''), (''sip+d2u'', ''udp'')]"

definition transport_service_map :: "(string \<times> string) list" where
  "transport_service_map =
     [(''udp'', ''_sip._udp''), (''tcp'', ''_sip._tcp''), (''tls'', ''_sips._tcp'')]"

fun mapE :: "('a \<Rightarrow> ('s, 'b) eff) \<Rightarrow> 'a list \<Rightarrow> ('s, 'b list) eff" where
  "mapE f [] = retE []"
| "mapE f (x # xs) = bindE (f x) (\<lambda>y. bindE (mapE f xs) (\<lambda>ys. retE (y # ys)))"

type_synonym aton = "string \<Rightarrow> bool"

definition make_route :: "aton \<Rightarrow> string \<Rightarrow> int \<Rightarrow> string \<Rightarrow> ('s, route) eff" where
  "make_route aton address p transport = liftE (route_init aton address (Some p) transport)"

text \<open>Address lookup of the host, one route per address; \<open>cont\<close> when there is no address.\<close>

definition a_routes ::
  "aton \<Rightarrow> 'r dns_library \<Rightarrow> string \<Rightarrow> int \<Rightarrow> string \<Rightarrow> ('r resolver, route list) eff" where
  "a_routes aton lib host_name p transport =
     bindE (lookup_a_records lib [] [host_name]) (\<lambda>addresses.
     bindE (item addresses host_name) (\<lambda>found.
       if found \<noteq> [] then mapE (\<lambda>a. make_route aton a p transport) found
       else raiseE DNSLookupError))"

fun srv_routes ::
  "aton \<Rightarrow> 'r dns_library \<Rightarrow> string \<Rightarrow> string list \<Rightarrow> ('r resolver, route list) eff" where
  "srv_routes aton lib host_name [] = retE []"
| "srv_routes aton lib host_name (transport # ts) =
     bindE (item transport_service_map transport) (\<lambda>service.
     let record_name = service @ ''.'' @ host_name
     in bindE (catchE (bindE (lookup_srv_records lib [] [record_name]) (\<lambda>services. retE (Some services)))
                      (\<lambda>e. if e = DNSTimeout then retE None else raiseE e)) (\<lambda>r.
          case r of
            None \<Rightarrow> srv_routes aton lib host_name ts
          | Some services \<Rightarrow>
              bindE (item services record_name) (\<lambda>found.
              bindE (mapE (\<lambda>r. make_route aton (sr_address r) (sr_port r) transport) found) (\<lambda>routes.
              bindE (srv_routes aton lib host_name ts) (\<lambda>more.
                retE (routes @ more))))))"

text \<open>
  The four ways of \<open>lookup_sip_proxy\<close>: a numeric host, a port in the URI, a transport in the
  URI, and the full procedure.
\<close>

definition numeric_lookup :: "aton \<Rightarrow> lookup_uri \<Rightarrow> string list \<Rightarrow> ('s, route list) eff" where
  "numeric_lookup aton uri supported =
     (let transport = transport_of uri
      in if transport \<notin> set supported then raiseE DNSLookupError
         else bindE (make_route aton (lu_host uri)
                       (if lu_port uri \<noteq> 0 then lu_port uri else default_port transport) transport)
                (\<lambda>r. retE [r]))"

definition port_lookup ::
  "aton \<Rightarrow> 'r dns_library \<Rightarrow> lookup_uri \<Rightarrow> string list \<Rightarrow> ('r resolver, route list) eff" where
  "port_lookup aton lib uri supported =
     (let transport = transport_of uri
      in if transport \<notin> set supported then raiseE DNSLookupError
         else a_routes aton lib (lu_host uri) (lu_port uri) transport)"

definition transport_lookup ::
  "aton \<Rightarrow> 'r dns_library \<Rightarrow> lookup_uri \<Rightarrow> string \<Rightarrow> string list \<Rightarrow> ('r resolver, route list) eff" where
  "transport_lookup aton lib uri parameter supported =
     (let transport = lower parameter
      in if transport \<notin> set supported then raiseE DNSLookupError
         else if lu_secure uri \<and> transport \<noteq> ''tls'' then raiseE DNSLookupError
         else
           bindE (item transport_service_map transport) (\<lambda>service.
           let record_name = service @ ''.'' @ lu_host uri
           in bindE (lookup_srv_records lib [] [record_name]) (\<lambda>services.
              bindE (item services record_name) (\<lambda>found.
                if found \<noteq> [] then
                  mapE (\<lambda>r. make_route aton (sr_address r) (sr_port r) transport) found
                else a_routes aton lib (lu_host uri) (default_port transport) transport))))"

definition full_lookup ::
  "aton \<Rightarrow> 'r dns_library \<Rightarrow> lookup_uri \<Rightarrow> string list \<Rightarrow> ('r resolver, route list) eff" where
  "full_lookup aton lib uri supported =
     (if lu_secure uri \<and> ''tls'' \<notin> set supported then raiseE DNSLookupError
      else
        let transports = (if lu_secure uri then [''tls''] else supported);
            naptr_services = map fst (filter (\<lambda>p. snd p \<in> set transports) naptr_service_transport_map)
        in bindE (catchE (lookup_naptr_record lib (lu_host uri) naptr_services)
                         (\<lambda>e. if e = DNSTimeout then retE [] else raiseE e)) (\<lambda>pointers.
             if pointers \<noteq> [] then
               mapE (\<lambda>p. bindE (item naptr_service_transport_map (np_service p)) (\<lambda>transport.
                       make_route aton (np_address p) (np_port p) transport)) pointers
             else
               bindE (srv_routes aton lib (lu_host uri) transports) (\<lambda>routes.
                 if routes \<noteq> [] then retE routes
                 else
                   let transport = (if lu_secure uri then ''tls'' else ''udp'')
                   in if transport \<in> set transports
                      then a_routes aton lib (lu_host uri) (default_port transport) transport
                      else raiseE DNSLookupError)))"

definition lookup_sip_proxy ::
  "aton \<Rightarrow> 'r dns_library \<Rightarrow> lookup_uri \<Rightarrow> string list \<Rightarrow> ('r resolver, route list) eff" where
  "lookup_sip_proxy aton lib uri supported_transports =
     (let supported = map lower supported_transports
      in if supported_transports = [] then raiseE DNSLookupError
         else if \<not> set supported \<subseteq> set (map fst transport_service_map) then raiseE DNSLookupError
         else timeout_is_error
           (if numeric_host (lu_host uri) then numeric_lookup aton uri supported
            else if lu_port uri \<noteq> 0 then port_lookup aton lib uri supported
            else case lu_transport uri of
                   Some t \<Rightarrow> transport_lookup aton lib uri t supported
                 | None \<Rightarrow> full_lookup aton lib uri supported))"

text \<open>\<open>lookup_xcap_server\<close>; \<open>http_uri\<close> stands for the test on the parsed URI of a text record.\<close>

definition lookup_xcap_server ::
  "(string \<Rightarrow> bool) \<Rightarrow> 'r dns_library \<Rightarrow> lookup_uri \<Rightarrow> ('r resolver, string list) eff" where
  "lookup_xcap_server http_uri lib uri =
     timeout_is_error
       (if numeric_host (lu_host uri) then raiseE DNSLookupError
        else bindE (ask QTXT (query_txt lib) (''xcap.'' @ lu_host uri)) (\<lambda>r.
          let found = (case r of None \<Rightarrow> [] | Some texts \<Rightarrow> filter http_uri texts)
          in if found = [] then raiseE DNSLookupError else retE found))"

text \<open>\<open>post_dns_lookup_notifications\<close>: the notification posted for what a lookup returns.\<close>

datatype 'a lookup_notification = DNSLookupDidSucceed 'a | DNSLookupDidFail

definition lookup_notifications :: "'a result \<Rightarrow> 'a lookup_notification list" where
  "lookup_notifications r =
     (case r of
        Inl e \<Rightarrow> if e = DNSLookupError then [DNSLookupDidFail] else []
      | Inr a \<Rightarrow> [DNSLookupDidSucceed a])"

section \<open>What the record lookups guarantee\<close>

abbreviation timeout_only :: "pyerr \<Rightarrow> bool" where
  "timeout_only e \<equiv> e = DNSTimeout"

lemma dkeys_dset: "dkeys (dset k v d) = insert k (dkeys d)"
  by (rule keys_dset)

lemma ask_results: "results (ask ty q n) (\<lambda>_. True) timeout_only"
  unfolding ask_def resolver_query_def
  by (rule results_bind [where Q = "\<lambda>_. True"])
    (auto simp: results_def bindE_def modifyE_def retE_def raiseE_def split: dns_outcome.split prod.split)

lemma a_records_results:
  "results (a_records lib sets hs d) (\<lambda>d'. dkeys d \<union> set hs \<subseteq> dkeys d') timeout_only"
proof (induction hs arbitrary: d)
  case Nil
  show ?case by (simp add: results_ret)
next
  case (Cons h hs)
  have step: "results (a_records lib sets hs (dset h rs d)) (\<lambda>d'. dkeys d \<union> set (h # hs) \<subseteq> dkeys d')
      timeout_only" for rs
    by (rule results_weaken [OF Cons.IH]) (auto simp: dkeys_dset)
  show ?case
  proof (cases "additional_a sets h")
    case None
    show ?thesis
      unfolding a_records.simps None option.case by (rule results_bind [OF ask_results step])
  next
    case (Some rs)
    show ?thesis unfolding a_records.simps Some option.case by (rule step)
  qed
qed

lemma lookup_a_records_results:
  "results (lookup_a_records lib sets hs) (\<lambda>d. set hs \<subseteq> dkeys d) timeout_only"
  unfolding lookup_a_records_def by (rule results_weaken [OF a_records_results]) auto

text \<open>Service results come in the order of RFC 2782: priority first, the heavier weight first.\<close>

definition srv_order :: "srv_result \<Rightarrow> srv_result \<Rightarrow> bool" where
  "srv_order x y =
     (sr_priority x < sr_priority y \<or> sr_priority x = sr_priority y \<and> sr_weight x \<ge> sr_weight y)"

definition naptr_order :: "naptr_result \<Rightarrow> naptr_result \<Rightarrow> bool" where
  "naptr_order x y =
     (np_order x < np_order y \<or> np_order x = np_order y \<and> np_preference x \<le> np_preference y)"

lemma srv_sort_order: "sorted_wrt srv_order (srv_sort rs)"
proof -
  have "sorted_wrt (\<lambda>x y. (sr_priority x, - sr_weight x) \<le> (sr_priority y, - sr_weight y)) (srv_sort rs)"
    unfolding srv_sort_def using sorted_sort_key [of "\<lambda>r. (sr_priority r, - sr_weight r)" rs]
    by (simp add: sorted_map)
  then show ?thesis
    by (rule sorted_wrt_mono_rel [rotated]) (auto simp: srv_order_def)
qed

lemma naptr_sort_order: "sorted_wrt naptr_order (naptr_sort ps)"
proof -
  have "sorted_wrt (\<lambda>x y. (np_order x, np_preference x) \<le> (np_order y, np_preference y)) (naptr_sort ps)"
    unfolding naptr_sort_def using sorted_sort_key [of "\<lambda>r. (np_order r, np_preference r)" ps]
    by (simp add: sorted_map)
  then show ?thesis
    by (rule sorted_wrt_mono_rel [rotated]) (auto simp: naptr_order_def)
qed

definition services_ok :: "(string, srv_result list) dict \<Rightarrow> bool" where
  "services_ok d = (\<forall>n rs. map_of d n = Some rs \<longrightarrow> sorted_wrt srv_order rs)"

lemma services_ok_dset: "services_ok d \<Longrightarrow> sorted_wrt srv_order rs \<Longrightarrow> services_ok (dset n rs d)"
  by (auto simp: services_ok_def map_of_dset)

lemma srv_records_results:
  "services_ok d \<Longrightarrow>
   results (srv_records lib sets ns d) (\<lambda>d'. dkeys d \<union> set ns \<subseteq> dkeys d' \<and> services_ok d') timeout_only"
proof (induction ns arbitrary: d)
  case Nil
  then show ?case by (simp add: results_ret)
next
  case (Cons n ns)
  have step: "results (srv_records lib sets ns (dset n rs d))
      (\<lambda>d'. dkeys d \<union> set (n # ns) \<subseteq> dkeys d' \<and> services_ok d') timeout_only"
    if "sorted_wrt srv_order rs" for rs
    by (rule results_weaken [OF Cons.IH [OF services_ok_dset [OF Cons.prems that]]])
      (auto simp: dkeys_dset)
  show ?case
  proof (cases "additional_srv sets n")
    case None
    have "results (case r of None \<Rightarrow> srv_records lib sets ns (dset n [] d)
        | Some a \<Rightarrow> bindE (lookup_a_records lib (snd a) (map srv_target (fst a))) (\<lambda>addresses.
            srv_records lib sets ns (dset n (srv_sort (srv_results addresses (fst a))) d)))
        (\<lambda>d'. dkeys d \<union> set (n # ns) \<subseteq> dkeys d' \<and> services_ok d') timeout_only" for r
      unfolding option.case
      by (cases r) (simp_all only: option.case step sorted_wrt.simps
          results_bind [OF lookup_a_records_results step [OF srv_sort_order]])
    then show ?thesis
      unfolding srv_records.simps None option.case by (rule results_bind [OF ask_results])
  next
    case (Some records)
    show ?thesis
      unfolding srv_records.simps Some option.case
      by (rule results_bind [OF lookup_a_records_results step [OF srv_sort_order]])
  qed
qed

lemma lookup_srv_records_results:
  "results (lookup_srv_records lib sets ns) (\<lambda>d. set ns \<subseteq> dkeys d \<and> services_ok d) timeout_only"
  unfolding lookup_srv_records_def
  by (rule results_weaken [OF srv_records_results]) (auto simp: services_ok_def)

lemma lookup_naptr_record_results:
  "results (lookup_naptr_record lib domain services)
     (\<lambda>ps. sorted_wrt naptr_order ps \<and> (\<forall>p \<in> set ps. np_service p \<in> set services)) timeout_only"
proof -
  have *: "p \<in> set (naptr_sort (naptr_pointers d (filter (\<lambda>r. lower (nr_service r) \<in> S) rs))) \<Longrightarrow>
      np_service p \<in> S" for p d S rs
    by (auto simp: naptr_sort_def naptr_pointers_def)
  show ?thesis
    unfolding lookup_naptr_record_def
    by (rule results_bind [OF ask_results])
      (auto intro!: results_ret results_bind [OF lookup_srv_records_results]
        simp: naptr_sort_order Let_def dest!: * split: option.split)
qed

section \<open>What the lookups guarantee\<close>

definition lookup_error :: "pyerr \<Rightarrow> bool" where
  "lookup_error e = (e \<in> {DNSLookupError, ValueError, DNSTimeout})"

definition good_routes :: "string list \<Rightarrow> lookup_uri \<Rightarrow> route list \<Rightarrow> bool" where
  "good_routes supported uri routes =
     (\<forall>r \<in> set routes. rt_transport r \<in> set supported \<and>
        (lu_secure uri \<longrightarrow> rt_transport r = ''tls'') \<and> 0 < rt_port r \<and> rt_port r < 65536)"

lemma item_results: "k \<in> dkeys d \<Longrightarrow> results (item d k) (\<lambda>v. map_of d k = Some v) E"
  by (cases "map_of d k") (auto simp: item_def map_of_eq_None_iff intro: results_ret)

lemma make_route_results:
  "t \<in> set supported \<Longrightarrow> (lu_secure uri \<longrightarrow> t = ''tls'') \<Longrightarrow>
   results (make_route aton a p t) (\<lambda>r. good_routes supported uri [r]) lookup_error"
  unfolding make_route_def
  by (rule results_lift)
    (auto simp: route_init_Inr good_routes_def rt_port_def lookup_error_def
      dest: route_init_Inl split: sum.split)

lemma mapE_results:
  "(\<And>x. x \<in> set xs \<Longrightarrow> results (f x) (\<lambda>y. P [y]) E) \<Longrightarrow> P [] \<Longrightarrow> (\<And>y ys. P [y] \<Longrightarrow> P ys \<Longrightarrow> P (y # ys)) \<Longrightarrow>
   results (mapE f xs) (\<lambda>ys. P ys \<and> length ys = length xs) E"
proof (induction xs)
  case (Cons x xs)
  then show ?case
    by (auto intro!: results_bind [where Q = "\<lambda>y. P [y]"] results_ret
        results_bind [where Q = "\<lambda>ys. P ys \<and> length ys = length xs"])
qed (simp add: results_ret)

lemma good_routes_Cons: "good_routes S u (r # rs) \<longleftrightarrow> good_routes S u [r] \<and> good_routes S u rs"
  by (auto simp: good_routes_def)

lemma good_routes_append: "good_routes S u (xs @ ys) \<longleftrightarrow> good_routes S u xs \<and> good_routes S u ys"
  by (auto simp: good_routes_def)

lemma route_list_results:
  assumes "\<And>x. x \<in> set xs \<Longrightarrow> results (f x) (\<lambda>r. good_routes S u [r]) lookup_error"
  shows "results (mapE f xs) (\<lambda>rs. good_routes S u rs \<and> length rs = length xs) lookup_error"
  by (rule mapE_results [OF assms]) (auto simp: good_routes_Cons [of S u _ "_ # _"] good_routes_def)

abbreviation found_routes :: "string list \<Rightarrow> lookup_uri \<Rightarrow> route list \<Rightarrow> bool" where
  "found_routes S u rs \<equiv> rs \<noteq> [] \<and> good_routes S u rs"

lemma timeout_lookup: "results m P timeout_only \<Longrightarrow> results m P lookup_error"
  by (erule results_weaken) (auto simp: lookup_error_def)

lemma raise_lookup: "results (raiseE DNSLookupError) P lookup_error"
  by (rule results_raise) (simp add: lookup_error_def)

lemma a_routes_results:
  assumes "t \<in> set S" "lu_secure u \<longrightarrow> t = ''tls''"
  shows "results (a_routes aton lib h p t) (found_routes S u) lookup_error"
  unfolding a_routes_def
proof (rule results_bind [OF timeout_lookup [OF lookup_a_records_results]])
  fix d :: "(string, string list) dict"
  assume "set [h] \<subseteq> dkeys d"
  then have h: "h \<in> dkeys d" by simp
  show "results (bindE (item d h) (\<lambda>found. if found \<noteq> [] then mapE (\<lambda>a. make_route aton a p t) found
      else raiseE DNSLookupError)) (found_routes S u) lookup_error"
    by (rule results_bind [OF item_results [OF h]], rule results_if)
      (auto intro!: results_weaken [OF route_list_results [OF make_route_results [OF assms]]] raise_lookup)
qed

lemma transport_service_item:
  "t \<in> set (map fst transport_service_map) \<Longrightarrow> results (item transport_service_map t) (\<lambda>_. True) lookup_error"
  by (rule results_weaken [OF item_results [where E = "\<lambda>_. False"]]) (auto simp: image_def)

lemma srv_item:
  assumes "set [n] \<subseteq> dkeys d \<and> services_ok d"
  shows "results (item d n) (sorted_wrt srv_order) E"
  by (rule results_weaken [OF item_results]) (use assms in \<open>auto simp: services_ok_def\<close>)

lemma srv_routes_results:
  assumes "set ts \<subseteq> set S" "lu_secure u \<longrightarrow> set ts \<subseteq> {''tls''}" "set ts \<subseteq> set (map fst transport_service_map)"
  shows "results (srv_routes aton lib h ts) (good_routes S u) lookup_error"
  using assms
proof (induction ts)
  case Nil
  show ?case by (simp add: results_ret good_routes_def)
next
  case (Cons t ts)
  then have t: "t \<in> set S" "lu_secure u \<longrightarrow> t = ''tls''" "t \<in> set (map fst transport_service_map)" by auto
  have IH: "results (srv_routes aton lib h ts) (good_routes S u) lookup_error"
    using Cons by (intro Cons.IH) auto
  have found: "results (bindE (mapE (\<lambda>r. make_route aton (sr_address r) (sr_port r) t) found) (\<lambda>routes.
      bindE (srv_routes aton lib h ts) (\<lambda>more. retE (routes @ more)))) (good_routes S u) lookup_error" for found
    by (rule results_bind [OF route_list_results [OF make_route_results [OF t(1,2)]]],
        rule results_bind [OF IH]) (auto intro: results_ret simp: good_routes_append)
  let ?Q = "\<lambda>n r. case r of None \<Rightarrow> True | Some d \<Rightarrow> set [n] \<subseteq> dkeys d \<and> services_ok d"
  have q: "results (catchE (bindE (lookup_srv_records lib [] [n]) (\<lambda>services. retE (Some services)))
      (\<lambda>e. if e = DNSTimeout then retE None else raiseE e)) (?Q n) lookup_error" for n
    by (rule results_catch [where F = timeout_only],
        rule results_bind [OF lookup_srv_records_results], rule results_ret, simp only: option.case)
      (simp add: results_ret)
  show ?case
    unfolding srv_routes.simps Let_def
    by (rule results_bind [OF transport_service_item [OF t(3)]], rule results_bind [OF q])
      (auto intro!: IH results_bind [OF srv_item] found split: option.split)
qed

lemma numeric_lookup_results: "results (numeric_lookup aton uri S) (found_routes S uri) lookup_error"
  unfolding numeric_lookup_def Let_def
  by (intro results_if raise_lookup results_bind [OF make_route_results [of "transport_of uri" S uri]])
    (auto intro: results_ret simp: transport_of_def)

lemma port_lookup_results: "results (port_lookup aton lib uri S) (found_routes S uri) lookup_error"
  unfolding port_lookup_def Let_def
  by (intro results_if raise_lookup a_routes_results) (auto simp: transport_of_def)

lemma transport_lookup_results:
  assumes "set S \<subseteq> set (map fst transport_service_map)"
  shows "results (transport_lookup aton lib uri parameter S) (found_routes S uri) lookup_error"
  unfolding transport_lookup_def Let_def
proof (intro results_if raise_lookup)
  let ?t = "lower parameter"
  assume t: "\<not> ?t \<notin> set S" "\<not> (lu_secure uri \<and> ?t \<noteq> ''tls'')"
  then have t': "?t \<in> set S" "lu_secure uri \<longrightarrow> ?t = ''tls''" "?t \<in> set (map fst transport_service_map)"
    using assms by auto
  have found: "results (if found \<noteq> [] then mapE (\<lambda>r. make_route aton (sr_address r) (sr_port r) ?t) found
      else a_routes aton lib (lu_host uri) (default_port ?t) ?t) (found_routes S uri) lookup_error"
    for found :: "srv_result list"
    by (rule results_if [OF results_weaken [OF route_list_results [OF make_route_results [OF t'(1,2)]]]
          a_routes_results [OF t'(1,2)]]) auto
  show "results (bindE (item transport_service_map ?t) (\<lambda>service.
      bindE (lookup_srv_records lib [] [service @ ''.'' @ lu_host uri]) (\<lambda>services.
      bindE (item services (service @ ''.'' @ lu_host uri)) (\<lambda>found.
        if found \<noteq> [] then mapE (\<lambda>r. make_route aton (sr_address r) (sr_port r) ?t) found
        else a_routes aton lib (lu_host uri) (default_port ?t) ?t)))) (found_routes S uri) lookup_error"
    by (rule results_bind [OF transport_service_item [OF t'(3)]],
        rule results_bind [OF timeout_lookup [OF lookup_srv_records_results]],
        rule results_bind [OF srv_item found])
qed

lemma naptr_transport:
  assumes "s \<in> set (map fst (filter (\<lambda>p. snd p \<in> set T) naptr_service_transport_map))"
  shows "results (item naptr_service_transport_map s) (\<lambda>t. t \<in> set T) E"
proof -
  have "s \<in> dkeys naptr_service_transport_map" using assms by auto
  from item_results [OF this] show ?thesis
    by (rule results_weaken) (use assms in \<open>auto simp: naptr_service_transport_map_def split: if_splits\<close>)
qed

lemma full_lookup_results:
  assumes "set S \<subseteq> set (map fst transport_service_map)"
  shows "results (full_lookup aton lib uri S) (found_routes S uri) lookup_error"
proof -
  define T where "T = (if lu_secure uri then [''tls''] else S)"
  define N where "N = map fst (filter (\<lambda>p. snd p \<in> set T) naptr_service_transport_map)"
  show ?thesis
    unfolding full_lookup_def Let_def T_def [symmetric] N_def [symmetric]
  proof (rule results_if [OF raise_lookup], rule results_bind, rule results_catch,
      rule lookup_naptr_record_results)
    assume s: "\<not> (lu_secure uri \<and> ''tls'' \<notin> set S)"
    then have T: "set T \<subseteq> set S" "lu_secure uri \<longrightarrow> set T \<subseteq> {''tls''}" "set T \<subseteq> set (map fst transport_service_map)"
      using assms by (auto simp: T_def transport_service_map_def)
    show "results (if e = DNSTimeout then retE [] else raiseE e)
        (\<lambda>ps. sorted_wrt naptr_order ps \<and> (\<forall>p \<in> set ps. np_service p \<in> set N)) lookup_error"
      if "e = DNSTimeout" for e
      using that by (simp add: results_ret)
    fix ps
    assume ps: "sorted_wrt naptr_order ps \<and> (\<forall>p \<in> set ps. np_service p \<in> set N)"
    have mk: "results (make_route aton a p t) (\<lambda>r. good_routes S uri [r]) lookup_error" if "t \<in> set T" for a p t
      by (rule make_route_results) (use that T in auto)
    have np: "results (mapE (\<lambda>p. bindE (item naptr_service_transport_map (np_service p)) (\<lambda>t.
        make_route aton (np_address p) (np_port p) t)) ps)
        (\<lambda>rs. good_routes S uri rs \<and> length rs = length ps) lookup_error"
    proof (rule route_list_results)
      fix p assume "p \<in> set ps"
      with ps have "np_service p \<in> set N" by blast
      then show "results (bindE (item naptr_service_transport_map (np_service p)) (\<lambda>t.
          make_route aton (np_address p) (np_port p) t)) (\<lambda>r. good_routes S uri [r]) lookup_error"
        unfolding N_def by (rule results_bind [OF naptr_transport mk])
    qed
    have srv: "results (if rs \<noteq> [] then retE rs
        else if (if lu_secure uri then ''tls'' else ''udp'') \<in> set T
          then a_routes aton lib (lu_host uri) (default_port (if lu_secure uri then ''tls'' else ''udp''))
            (if lu_secure uri then ''tls'' else ''udp'')
          else raiseE DNSLookupError) (found_routes S uri) lookup_error" if "good_routes S uri rs" for rs
      by (intro results_if results_ret raise_lookup a_routes_results) (use that T in \<open>auto split: if_splits\<close>)
    show "results (if ps \<noteq> [] then mapE (\<lambda>p. bindE (item naptr_service_transport_map (np_service p)) (\<lambda>t.
          make_route aton (np_address p) (np_port p) t)) ps
        else bindE (srv_routes aton lib (lu_host uri) T) (\<lambda>rs. if rs \<noteq> [] then retE rs
          else if (if lu_secure uri then ''tls'' else ''udp'') \<in> set T
            then a_routes aton lib (lu_host uri) (default_port (if lu_secure uri then ''tls'' else ''udp''))
              (if lu_secure uri then ''tls'' else ''udp'')
            else raiseE DNSLookupError)) (found_routes S uri) lookup_error"
      by (rule results_if [OF results_weaken [OF np] results_bind [OF srv_routes_results [OF T] srv]]) auto
  qed
qed

lemma lookup_sip_proxy_results:
  "results (lookup_sip_proxy aton lib uri ts) (found_routes (map lower ts) uri)
     (\<lambda>e. e \<in> {DNSLookupError, ValueError})"
  unfolding lookup_sip_proxy_def Let_def timeout_is_error_def
proof (intro results_if)
  let ?S = "map lower ts"
  assume "\<not> \<not> set ?S \<subseteq> set (map fst transport_service_map)"
  then have S: "set ?S \<subseteq> set (map fst transport_service_map)" by blast
  have "results (if numeric_host (lu_host uri) then numeric_lookup aton uri ?S
      else if lu_port uri \<noteq> 0 then port_lookup aton lib uri ?S
      else case lu_transport uri of Some t \<Rightarrow> transport_lookup aton lib uri t ?S
        | None \<Rightarrow> full_lookup aton lib uri ?S) (found_routes ?S uri) lookup_error"
    by (intro results_if numeric_lookup_results port_lookup_results)
      (auto simp: transport_lookup_results [OF S] full_lookup_results [OF S] split: option.split)
  then show "results (catchE (if numeric_host (lu_host uri) then numeric_lookup aton uri ?S
      else if lu_port uri \<noteq> 0 then port_lookup aton lib uri ?S
      else case lu_transport uri of None \<Rightarrow> full_lookup aton lib uri ?S
        | Some t \<Rightarrow> transport_lookup aton lib uri t ?S)
      (\<lambda>e. raiseE (if e = DNSTimeout then DNSLookupError else e))) (found_routes ?S uri)
      (\<lambda>e. e \<in> {DNSLookupError, ValueError})"
    by (rule results_catch) (auto intro: results_raise simp: lookup_error_def)
qed (auto intro: results_raise)

section \<open>The lifetime\<close>

definition timed_query :: "bool \<Rightarrow> ('r \<Rightarrow> int) \<Rightarrow> ('r, 'a) dns_query \<Rightarrow> bool" where
  "timed_query honoured clock q =
     (\<forall>n l r. case q n l r of (a, elapsed, r') \<Rightarrow>
        0 \<le> elapsed \<and> clock r' = clock r + elapsed \<and> (honoured \<longrightarrow> elapsed \<le> max 0 l))"

definition dns_timed :: "bool \<Rightarrow> ('r \<Rightarrow> int) \<Rightarrow> 'r dns_library \<Rightarrow> bool" where
  "dns_timed honoured clock lib =
     (timed_query honoured clock (query_a lib) \<and> timed_query honoured clock (query_srv lib) \<and>
      timed_query honoured clock (query_naptr lib) \<and> timed_query honoured clock (query_txt lib))"

definition lifetime_used :: "bool \<Rightarrow> ('r \<Rightarrow> int) \<Rightarrow> 'r resolver \<Rightarrow> 'r resolver \<Rightarrow> bool" where
  "lifetime_used honoured clock s t =
     (0 \<le> lifetime s \<longrightarrow>
        clock (lib_state s) \<le> clock (lib_state t) \<and>
        lifetime t = max 0 (lifetime s - (clock (lib_state t) - clock (lib_state s))) \<and>
        (honoured \<longrightarrow> clock (lib_state t) - clock (lib_state s) \<le> lifetime s))"

lemma lifetime_rel [simp]: "reflp (lifetime_used h clock)" "transp (lifetime_used h clock)"
  by (auto intro!: reflpI transpI simp: lifetime_used_def)

lemmas keep_lifetime = keep_ret [OF lifetime_rel(1)] keep_raise [OF lifetime_rel(1)]
  keep_lift [OF lifetime_rel(1)] keep_bind [OF lifetime_rel(2)] keep_catch [OF lifetime_rel(2)] keep_if

lemma resolver_query_lifetime:
  assumes "timed_query h clock q"
  shows "steps_keep (lifetime_used h clock) (resolver_query q n)"
  unfolding steps_keep_def
proof
  fix s :: "'a resolver"
  obtain a elapsed r' where q: "q n (lifetime s) (lib_state s) = (a, elapsed, r')" by (rule prod_cases3)
  from assms have "\<forall>n l r. 0 \<le> fst (snd (q n l r)) \<and> clock (snd (snd (q n l r))) = clock r + fst (snd (q n l r)) \<and>
      (h \<longrightarrow> fst (snd (q n l r)) \<le> max 0 l)"
    by (simp add: timed_query_def split_beta)
  from this [rule_format, of n "lifetime s" "lib_state s"] q
  show "lifetime_used h clock s (snd (resolver_query q n s))"
    by (auto simp: resolver_query_def lifetime_used_def)
qed

lemma ask_lifetime:
  assumes "timed_query h clock q"
  shows "steps_keep (lifetime_used h clock) (ask ty q n)"
proof -
  have "steps_keep (lifetime_used h clock) (modifyE (\<lambda>s. s\<lparr>traces := f s\<rparr>))" for f :: "'a resolver \<Rightarrow> _"
    by (simp add: steps_keep_def modifyE_def lifetime_used_def)
  with resolver_query_lifetime [OF assms, of n] show ?thesis
    unfolding ask_def by (intro keep_lifetime) (auto intro: keep_lifetime split: dns_outcome.split)
qed

lemma ask_keeps:
  assumes "dns_timed h clock lib"
  shows "steps_keep (lifetime_used h clock) (ask ty (query_a lib) n)" "steps_keep (lifetime_used h clock) (ask ty (query_srv lib) n)"
  "steps_keep (lifetime_used h clock) (ask ty (query_naptr lib) n)" "steps_keep (lifetime_used h clock) (ask ty (query_txt lib) n)"
  using assms by (auto intro!: ask_lifetime simp: dns_timed_def)

lemma item_keeps: "steps_keep (lifetime_used h clock) (item d k)"
  by (simp add: item_def keep_lifetime split: option.split)

lemma a_records_keeps: "dns_timed h clock lib \<Longrightarrow> steps_keep (lifetime_used h clock) (a_records lib sets hs d)"
  by (induction hs arbitrary: d) (auto intro!: keep_lifetime ask_keeps split: option.split)

lemma lookup_a_keeps: "dns_timed h clock lib \<Longrightarrow> steps_keep (lifetime_used h clock) (lookup_a_records lib sets hs)"
  by (simp add: lookup_a_records_def a_records_keeps)

lemma srv_records_keeps: "dns_timed h clock lib \<Longrightarrow> steps_keep (lifetime_used h clock) (srv_records lib sets ns d)"
  by (induction ns arbitrary: d) (auto intro!: keep_lifetime ask_keeps lookup_a_keeps split: option.split)

lemma lookup_srv_keeps: "dns_timed h clock lib \<Longrightarrow> steps_keep (lifetime_used h clock) (lookup_srv_records lib sets ns)"
  by (simp add: lookup_srv_records_def srv_records_keeps)

lemma naptr_keeps: "dns_timed h clock lib \<Longrightarrow> steps_keep (lifetime_used h clock) (lookup_naptr_record lib domain services)"
  unfolding lookup_naptr_record_def Let_def
  by (auto intro!: keep_lifetime ask_keeps lookup_srv_keeps split: option.split)

lemma mapE_keeps: "(\<And>x. steps_keep (lifetime_used h clock) (f x)) \<Longrightarrow> steps_keep (lifetime_used h clock) (mapE f xs)"
  by (induction xs) (auto intro!: keep_lifetime)

lemma make_route_keeps: "steps_keep (lifetime_used h clock) (make_route aton a p t)"
  by (simp add: make_route_def keep_lifetime)

lemma a_routes_keeps: "dns_timed h clock lib \<Longrightarrow> steps_keep (lifetime_used h clock) (a_routes aton lib hn p t)"
  unfolding a_routes_def by (intro keep_lifetime lookup_a_keeps item_keeps mapE_keeps make_route_keeps)

lemma srv_routes_keeps: "dns_timed h clock lib \<Longrightarrow> steps_keep (lifetime_used h clock) (srv_routes aton lib hn ts)"
proof (induction ts)
  case (Cons t ts)
  then show ?case
    unfolding srv_routes.simps Let_def
    by (intro keep_lifetime item_keeps lookup_srv_keeps mapE_keeps make_route_keeps)
      (auto intro!: keep_lifetime item_keeps mapE_keeps make_route_keeps split: option.split)
qed (simp add: keep_lifetime)

lemma lookup_sip_proxy_keeps: "dns_timed h clock lib \<Longrightarrow> steps_keep (lifetime_used h clock) (lookup_sip_proxy aton lib uri ts)"
  unfolding lookup_sip_proxy_def timeout_is_error_def numeric_lookup_def port_lookup_def Let_def
    transport_lookup_def full_lookup_def
  by (intro keep_lifetime a_routes_keeps make_route_keeps)
    (auto intro!: keep_lifetime a_routes_keeps make_route_keeps mapE_keeps item_keeps naptr_keeps
      lookup_srv_keeps srv_routes_keeps split: option.split)

lemma lookup_service_keeps:
  "dns_timed h clock lib \<Longrightarrow> steps_keep (lifetime_used h clock) (lookup_service lib uri service)"
  unfolding lookup_service_def timeout_is_error_def Let_def
  by (auto intro!: keep_lifetime lookup_srv_keeps lookup_a_keeps item_keeps split: option.split prod.split)

lemma lookup_xcap_server_keeps:
  "dns_timed h clock lib \<Longrightarrow> steps_keep (lifetime_used h clock) (lookup_xcap_server http_uri lib uri)"
  unfolding lookup_xcap_server_def timeout_is_error_def Let_def
  by (auto intro!: keep_lifetime ask_keeps split: option.split)

section \<open>The cache\<close>

text \<open>
  \<open>DNSCache\<close> with the timers of the reactor: the entries with the time each expires, and the
  pending calls, each with the time it is due. A call is \<open>self.data.pop\<close> of the dictionary that
  was current when it was scheduled; \<open>flush\<close> without a key makes a new dictionary, so a call
  carries the number of the dictionary it pops from, and one that was scheduled before that flush
  finds its key in a dictionary nobody reads any more. \<open>limit\<close> (of the application library) bounds
  the delay of a timer.
\<close>

record ('k, 'v) dns_cache =
  cache_data :: "'k \<Rightarrow> ('v \<times> int) option"
  cache_dict :: nat
  cache_timers :: "(int \<times> nat \<times> 'k) list"

definition cache_init :: "('k, 'v) dns_cache" where
  "cache_init = \<lparr>cache_data = (\<lambda>_. None), cache_dict = 0, cache_timers = []\<rparr>"

definition cache_get :: "'k \<Rightarrow> ('k, 'v) dns_cache \<Rightarrow> 'v option" where
  "cache_get k c = map_option fst (cache_data c k)"

definition cache_put ::
  "(int \<Rightarrow> int) \<Rightarrow> int \<Rightarrow> 'k \<Rightarrow> 'v \<Rightarrow> int \<Rightarrow> ('k, 'v) dns_cache \<Rightarrow> ('k, 'v) dns_cache" where
  "cache_put lim now k v expiration_time c =
     (let expiration = expiration_time - now
      in if expiration > 0
         then c\<lparr>cache_data := (cache_data c)(k \<mapsto> (v, expiration_time)),
                cache_timers := (now + lim expiration, cache_dict c, k) # cache_timers c\<rparr>
         else c)"

definition cache_flush :: "'k option \<Rightarrow> ('k, 'v) dns_cache \<Rightarrow> ('k, 'v) dns_cache" where
  "cache_flush key c =
     (case key of
        Some k \<Rightarrow> c\<lparr>cache_data := (cache_data c)(k := None)\<rparr>
      | None \<Rightarrow> c\<lparr>cache_data := (\<lambda>_. None), cache_dict := cache_dict c + 1\<rparr>)"

text \<open>The reactor at time \<open>now\<close>: the calls that are due have run.\<close>

definition cache_tick :: "int \<Rightarrow> ('k, 'v) dns_cache \<Rightarrow> ('k, 'v) dns_cache" where
  "cache_tick now c =
     (let due = filter (\<lambda>t. fst t \<le> now) (cache_timers c)
      in c\<lparr>cache_data := (\<lambda>k. if (cache_dict c, k) \<in> snd ` set due then None else cache_data c k),
           cache_timers := filter (\<lambda>t. now < fst t) (cache_timers c)\<rparr>)"

datatype ('k, 'v) cache_op = CachePut 'k 'v int | CacheFlush "'k option"

text \<open>A run: each operation happens at a time, after the calls that were due by then.\<close>

definition cache_step ::
  "(int \<Rightarrow> int) \<Rightarrow> int \<times> ('k, 'v) cache_op \<Rightarrow> ('k, 'v) dns_cache \<Rightarrow> ('k, 'v) dns_cache" where
  "cache_step lim op c =
     (case op of
        (now, CachePut k v e) \<Rightarrow> cache_put lim now k v e (cache_tick now c)
      | (now, CacheFlush key) \<Rightarrow> cache_flush key (cache_tick now c))"

definition cache_ok :: "('k, 'v) dns_cache \<Rightarrow> bool" where
  "cache_ok c =
     (\<forall>k v e. cache_data c k = Some (v, e) \<longrightarrow>
        (\<exists>t. (t, cache_dict c, k) \<in> set (cache_timers c) \<and> t \<le> e))"

lemma cache_tick_ok:
  assumes "cache_ok c"
  shows "cache_ok (cache_tick now c)"
  unfolding cache_ok_def
proof (intro allI impI)
  fix k v e
  assume "cache_data (cache_tick now c) k = Some (v, e)"
  then have d: "cache_data c k = Some (v, e)"
      "\<forall>t \<in> set (cache_timers c). snd t = (cache_dict c, k) \<longrightarrow> now < fst t"
    by (auto simp: cache_tick_def Let_def image_iff split: if_splits)
  then obtain t where "(t, cache_dict c, k) \<in> set (cache_timers c)" "t \<le> e"
    using assms unfolding cache_ok_def by blast
  with d(2) show "\<exists>t. (t, cache_dict (cache_tick now c), k) \<in> set (cache_timers (cache_tick now c)) \<and> t \<le> e"
    by (intro exI [of _ t]) (auto simp: cache_tick_def Let_def)
qed

lemma cache_step_ok: "(\<And>d. lim d \<le> d) \<Longrightarrow> cache_ok c \<Longrightarrow> cache_ok (cache_step lim op c)"
proof -
  assume lim: "\<And>d. lim d \<le> d" and "cache_ok c"
  obtain now o' where op: "op = (now, o')" by (cases op)
  have c: "cache_ok (cache_tick now c)" by (rule cache_tick_ok) fact
  show "cache_ok (cache_step lim op c)"
  proof (cases o')
    case (CachePut k v e)
    have "now + lim (e - now) \<le> e" using lim [of "e - now"] by simp
    with c op CachePut show ?thesis
      by (fastforce simp: cache_step_def cache_put_def cache_ok_def Let_def)
  next
    case (CacheFlush key)
    with c op show ?thesis
      by (cases key) (auto simp: cache_step_def cache_flush_def cache_ok_def)
  qed
qed

lemma cache_run_ok: "(\<And>d. lim d \<le> d) \<Longrightarrow> cache_ok (fold (cache_step lim) ops cache_init)"
proof -
  assume lim: "\<And>d. lim d \<le> d"
  have "cache_ok c \<Longrightarrow> cache_ok (fold (cache_step lim) ops c)" for c :: "('a, 'b) dns_cache"
    by (induction ops arbitrary: c) (auto intro: cache_step_ok lim)
  then show ?thesis by (simp add: cache_ok_def cache_init_def)
qed

text \<open>The operations after which an older entry of \<open>k\<close> is no longer the current one.\<close>

fun supersedes :: "'k \<Rightarrow> int \<times> ('k, 'v) cache_op \<Rightarrow> bool" where
  "supersedes k (t, CachePut k' v e) = (k' = k \<and> t < e)"
| "supersedes k (t, CacheFlush None) = True"
| "supersedes k (t, CacheFlush (Some k')) = (k' = k)"

lemma cache_tick_data: "cache_data (cache_tick now c) k = Some p \<Longrightarrow> cache_data c k = Some p"
  by (simp add: cache_tick_def Let_def split: if_splits)

lemma cache_step_data:
  assumes "cache_data (cache_step lim op c) k = Some (v, e)"
  shows "(\<exists>t. op = (t, CachePut k v e) \<and> t < e) \<or> \<not> supersedes k op \<and> cache_data c k = Some (v, e)"
proof -
  obtain now o' where op: "op = (now, o')" by (cases op)
  show ?thesis
  proof (cases o')
    case (CachePut k' v' e')
    with assms op show ?thesis
      by (auto simp: cache_step_def cache_put_def Let_def split: if_splits dest: cache_tick_data)
  next
    case (CacheFlush key)
    with assms op show ?thesis
      by (cases key) (auto simp: cache_step_def cache_flush_def split: if_splits dest: cache_tick_data)
  qed
qed

lemma cache_run_data:
  "cache_data (fold (cache_step lim) ops cache_init) k = Some (v, e) \<Longrightarrow>
   \<exists>pre t post. ops = pre @ (t, CachePut k v e) # post \<and> \<not> list_ex (supersedes k) post"
proof (induction ops rule: rev_induct)
  case (snoc op ops)
  then have "(\<exists>t. op = (t, CachePut k v e) \<and> t < e) \<or>
      \<not> supersedes k op \<and> cache_data (fold (cache_step lim) ops cache_init) k = Some (v, e)"
    by (intro cache_step_data) simp
  then show ?case
  proof (elim disjE exE conjE)
    fix t
    assume "op = (t, CachePut k v e)"
    then show ?thesis by (intro exI [of _ ops] exI [of _ t] exI [of _ "[]"]) simp
  next
    assume "\<not> supersedes k op" "cache_data (fold (cache_step lim) ops cache_init) k = Some (v, e)"
    with snoc.IH obtain pre t post where "ops = pre @ (t, CachePut k v e) # post"
      "\<not> list_ex (supersedes k) post" by blast
    with \<open>\<not> supersedes k op\<close> show ?thesis
      by (intro exI [of _ pre] exI [of _ t] exI [of _ "post @ [op]"]) simp
  qed
qed (simp add: cache_init_def)

section \<open>The manager\<close>

text \<open>
  \<open>DNSManager\<close>: the name servers in use, the timers and the commands queued for its process.
  A probe asks the local resolver for the record types SIP needs, then Google's.
\<close>

datatype probe_outcome = ProbeOk | ProbeNoRecord | ProbeFailed

datatype dns_event = DNSResolverDidInitialize "string list" | DNSNameserversDidChange "string list"

text \<open>A timer attribute: \<open>None\<close>, a call that is active, or one that has run.\<close>

datatype timer_state = NoTimer | ActiveTimer | SpentTimer

record dns_manager =
  dm_search :: "string list"
  dm_domain :: string
  dm_nameservers :: "string list option"
  dm_running :: bool
  dm_queue :: nat
  dm_timer :: timer_state
  dm_wakeup :: timer_state
  dm_posted :: "dns_event list"

definition google_nameservers :: "string list" where
  "google_nameservers = [''8.8.8.8'', ''8.8.4.4'']"

definition set_nameservers :: "string list \<Rightarrow> dns_manager \<Rightarrow> dns_manager" where
  "set_nameservers value m =
     (case dm_nameservers m of
        None \<Rightarrow> m\<lparr>dm_nameservers := Some value, dm_posted := DNSResolverDidInitialize value # dm_posted m\<rparr>
      | Some old \<Rightarrow>
          if value \<noteq> old
          then m\<lparr>dm_nameservers := Some value, dm_posted := DNSNameserversDidChange value # dm_posted m\<rparr>
          else m\<lparr>dm_nameservers := Some value\<rparr>)"

text \<open>The system's resolver as it is configured when a probe creates it.\<close>

record system_resolver =
  sys_search :: "string list"
  sys_domain :: string
  sys_nameservers :: "string list"

text \<open>\<open>InternalResolver\<close> drops the search domains that multicast DNS uses.\<close>

definition ends_with :: "string \<Rightarrow> string \<Rightarrow> bool" where
  "ends_with suffix s = (take (length suffix) (rev s) = rev suffix)"

definition internal_resolver :: "system_resolver \<Rightarrow> system_resolver" where
  "internal_resolver r =
     r\<lparr>sys_domain := (if ends_with ''local.'' (sys_domain r) then ''.'' else sys_domain r),
       sys_search := filter (\<lambda>item. \<not> ends_with ''local.'' item) (sys_search r)\<rparr>"

definition dns_manager_init :: "system_resolver \<Rightarrow> dns_manager" where
  "dns_manager_init sys =
     (let r = internal_resolver sys
      in set_nameservers (sys_nameservers r)
           \<lparr>dm_search = sys_search r, dm_domain = sys_domain r, dm_nameservers = None, dm_running = False,
            dm_queue = 0, dm_timer = NoTimer, dm_wakeup = NoTimer, dm_posted = []\<rparr>)"

definition dns_start :: "dns_manager \<Rightarrow> dns_manager" where
  "dns_start m = m\<lparr>dm_running := True, dm_queue := dm_queue m + 1\<rparr>"

definition dns_stop :: "dns_manager \<Rightarrow> dns_manager" where
  "dns_stop m = m\<lparr>dm_running := False, dm_timer := NoTimer, dm_wakeup := NoTimer\<rparr>"

text \<open>The outcomes of the three queries are what the network answers to the probe.\<close>

definition probe_begin :: "system_resolver \<Rightarrow> dns_manager \<Rightarrow> dns_manager" where
  "probe_begin sys m =
     (let r = internal_resolver sys
      in m\<lparr>dm_timer := NoTimer, dm_domain := sys_domain r, dm_search := sys_search r\<rparr>)"

definition probe_dns ::
  "system_resolver \<Rightarrow> probe_outcome \<Rightarrow> probe_outcome \<Rightarrow> probe_outcome \<Rightarrow> dns_manager \<Rightarrow> dns_manager" where
  "probe_dns sys local_naptr local_srv google_naptr m =
     (let local_nameservers = sys_nameservers (internal_resolver sys);
          m = probe_begin sys m
      in if local_naptr = ProbeOk \<and> local_srv = ProbeOk then set_nameservers local_nameservers m
         else if google_naptr = ProbeOk then set_nameservers google_nameservers m
         else (set_nameservers local_nameservers m)\<lparr>dm_timer := ActiveTimer\<rparr>)"

text \<open>\<open>self._proc.kill\<close> raises \<open>AttributeError\<close> when there is no process.\<close>

definition restart_probe :: "(dns_manager, unit) eff" where
  "restart_probe m =
     (if \<not> dm_running m then (Inl AttributeError, m) else (Inr (), m\<lparr>dm_queue := dm_queue m + 1\<rparr>))"

definition system_ip_address_did_change :: "(dns_manager, unit) eff" where
  "system_ip_address_did_change = restart_probe"

definition system_did_wake_up :: "dns_manager \<Rightarrow> dns_manager" where
  "system_did_wake_up m = (if dm_wakeup m = NoTimer then m\<lparr>dm_wakeup := ActiveTimer\<rparr> else m)"

definition wakeup_action :: "(dns_manager, unit) eff" where
  "wakeup_action =
     bindE (modifyE (\<lambda>m. m\<lparr>dm_wakeup := SpentTimer\<rparr>)) (\<lambda>u.
     bindE restart_probe (\<lambda>u. modifyE (\<lambda>m. m\<lparr>dm_wakeup := NoTimer\<rparr>)))"

text \<open>
  The steps: the process handles a queued probe to the end, or is interrupted after it began (by
  a change of address or a wake-up, which queue another probe); timers run out; the application
  starts and stops the manager.
\<close>

datatype dns_step =
    Probe system_resolver probe_outcome probe_outcome probe_outcome
  | ProbeInterrupted system_resolver bool
  | AddressChanged | WokeUp | WakeupTimer | ProbeTimer | Start | Stop

fun dns_manager_step :: "dns_step \<Rightarrow> dns_manager \<Rightarrow> dns_manager" where
  "dns_manager_step (Probe sys a b c) m =
     (if dm_running m \<and> dm_queue m > 0 then probe_dns sys a b c (m\<lparr>dm_queue := dm_queue m - 1\<rparr>) else m)"
| "dns_manager_step (ProbeInterrupted sys by_wakeup) m =
     (if dm_running m \<and> dm_queue m > 0 \<and> (by_wakeup \<longrightarrow> dm_wakeup m = ActiveTimer)
      then snd ((if by_wakeup then wakeup_action else system_ip_address_did_change)
                  (probe_begin sys (m\<lparr>dm_queue := dm_queue m - 1\<rparr>)))
      else m)"
| "dns_manager_step AddressChanged m = snd (system_ip_address_did_change m)"
| "dns_manager_step WokeUp m = system_did_wake_up m"
| "dns_manager_step WakeupTimer m = (if dm_wakeup m = ActiveTimer then snd (wakeup_action m) else m)"
| "dns_manager_step ProbeTimer m =
     (if dm_timer m = ActiveTimer then m\<lparr>dm_timer := SpentTimer, dm_queue := dm_queue m + 1\<rparr> else m)"
| "dns_manager_step Start m = dns_start m"
| "dns_manager_step Stop m = dns_stop m"

text \<open>A run, and whether the last probe that ran to its end found a working resolver.\<close>

definition probe_result :: "dns_step \<Rightarrow> dns_manager \<Rightarrow> bool \<Rightarrow> bool" where
  "probe_result step m ok =
     (case step of
        Probe sys a b c \<Rightarrow>
          if dm_running m \<and> dm_queue m > 0 then a = ProbeOk \<and> b = ProbeOk \<or> c = ProbeOk else ok
      | _ \<Rightarrow> ok)"

fun dns_run :: "dns_step list \<Rightarrow> dns_manager \<times> bool \<Rightarrow> dns_manager \<times> bool" where
  "dns_run [] s = s"
| "dns_run (x # xs) (m, ok) = dns_run xs (dns_manager_step x m, probe_result x m ok)"

definition probe_pending :: "dns_manager \<times> bool \<Rightarrow> bool" where
  "probe_pending s =
     (\<not> dm_running (fst s) \<or> snd s \<or> dm_queue (fst s) > 0 \<or> dm_timer (fst s) = ActiveTimer)"

lemma set_nameservers_simps [simp]:
  "dm_running (set_nameservers v m) = dm_running m" "dm_queue (set_nameservers v m) = dm_queue m"
  "dm_timer (set_nameservers v m) = dm_timer m" "dm_wakeup (set_nameservers v m) = dm_wakeup m"
  by (simp_all add: set_nameservers_def split: option.split)

lemmas dns_step_defs = probe_pending_def probe_result_def probe_dns_def probe_begin_def Let_def
  restart_probe_def system_ip_address_did_change_def system_did_wake_up_def wakeup_action_def
  bindE_def modifyE_def dns_start_def dns_stop_def

lemma dns_step_pending: "probe_pending (m, ok) \<Longrightarrow> probe_pending (dns_manager_step x m, probe_result x m ok)"
  by (cases x) (auto simp: dns_step_defs)

lemma dns_run_pending: "probe_pending s \<Longrightarrow> probe_pending (dns_run xs s)"
proof (induction xs s rule: dns_run.induct)
  case (2 x xs m ok)
  then show ?case using dns_step_pending [OF "2.prems"] by simp
qed simp

section \<open>Properties\<close>

text \<open>
  C10. A SIP lookup that returns routes returns at least one, every route uses a transport the
  caller supports, and for a SIPS URI every route uses TLS, whatever the DNS answers are; the
  only exceptions are the lookup error and the \<open>ValueError\<close> of a route that cannot be built.
\<close>

theorem lookup_sip_proxy_sound:
  "case fst (lookup_sip_proxy aton lib uri transports s) of
     Inl e \<Rightarrow> e \<in> {DNSLookupError, ValueError}
   | Inr routes \<Rightarrow> routes \<noteq> [] \<and>
       list_all (\<lambda>r. rt_transport r \<in> set (map lower transports) \<and>
         (rt_transport r = ''tls'' \<or> lu_secure uri = False) \<and> 0 < rt_port r \<and> rt_port r < 65536) routes"
proof (cases "fst (lookup_sip_proxy aton lib uri transports s)")
  case (Inl e)
  then show ?thesis using results_Inl [OF lookup_sip_proxy_results Inl] by simp
next
  case (Inr routes)
  then show ?thesis
    using results_Inr [OF lookup_sip_proxy_results Inr] by (auto simp: good_routes_def list_all_iff)
qed

text \<open>
  C11. The results of a service lookup are in the order of RFC 2782 - by priority, and for the
  same priority the heavier weight first -, there is a list for every name that was asked for,
  and the pointers of a NAPTR lookup are sorted by order and preference and only name services
  that were asked for; a timeout is the only exception.
\<close>

theorem lookup_records_ordered:
  "(case fst (lookup_srv_records lib sets names s) of
      Inl e \<Rightarrow> e = DNSTimeout
    | Inr d \<Rightarrow> list_all (\<lambda>n. \<exists>rs. map_of d n = Some rs \<and> sorted_wrt srv_order rs) names) \<and>
   (case fst (lookup_naptr_record lib domain services t) of
      Inl e \<Rightarrow> e = DNSTimeout
    | Inr ps \<Rightarrow> sorted_wrt naptr_order ps \<and> list_all (\<lambda>p. np_service p \<in> set services) ps)"
proof (intro conjI)
  show "case fst (lookup_srv_records lib sets names s) of Inl e \<Rightarrow> e = DNSTimeout
    | Inr d \<Rightarrow> list_all (\<lambda>n. \<exists>rs. map_of d n = Some rs \<and> sorted_wrt srv_order rs) names"
  proof (cases "fst (lookup_srv_records lib sets names s)")
    case (Inr d)
    from results_Inr [OF lookup_srv_records_results Inr]
    have d: "set names \<subseteq> dkeys d" "services_ok d" by auto
    have "\<exists>rs. map_of d n = Some rs \<and> sorted_wrt srv_order rs" if "n \<in> set names" for n
      using d that by (cases "map_of d n") (auto simp: map_of_eq_None_iff services_ok_def)
    with Inr show ?thesis by (simp add: list_all_iff)
  qed (use results_Inl [OF lookup_srv_records_results] in simp)
  show "case fst (lookup_naptr_record lib domain services t) of Inl e \<Rightarrow> e = DNSTimeout
    | Inr ps \<Rightarrow> sorted_wrt naptr_order ps \<and> list_all (\<lambda>p. np_service p \<in> set services) ps"
  proof (cases "fst (lookup_naptr_record lib domain services t)")
    case (Inl e)
    then show ?thesis using results_Inl [OF lookup_naptr_record_results Inl] by simp
  next
    case (Inr ps)
    then show ?thesis using results_Inr [OF lookup_naptr_record_results Inr] by (simp add: list_all_iff)
  qed
qed

text \<open>
  C12. The lifetime of a resolver bounds a whole lookup. Let \<open>clock\<close> be the time at which the
  library is asked, moved on by the duration of each query. Then the lifetime left after a lookup
  of any kind is what the time that went by leaves of it, and 0 once it is used up, however many
  queries the lookup made and whatever it returned. If moreover the library honours the lifetime
  it is given (a query takes no longer than that), the whole lookup takes no longer than
  the lifetime it started with.
\<close>

theorem lookup_lifetime_bounded:
  assumes "dns_timed honoured clock lib" "0 \<le> lifetime s"
  shows "list_all (\<lambda>s'.
      lifetime s' = max 0 (lifetime s - (clock (lib_state s') - clock (lib_state s))) \<and>
      (if honoured then clock (lib_state s') - clock (lib_state s) \<le> lifetime s else True))
    [snd (lookup_sip_proxy aton lib uri transports s), snd (lookup_service lib uri service s),
     snd (lookup_xcap_server http_uri lib uri s)]"
  using lookup_sip_proxy_keeps [OF assms(1), of aton uri transports]
    lookup_service_keeps [OF assms(1), of uri service]
    lookup_xcap_server_keeps [OF assms(1), of http_uri uri] assms(2)
  by (simp add: steps_keep_def lifetime_used_def)

definition slow_library :: "int dns_library" where
  "slow_library =
     \<lparr>query_a = (\<lambda>n l t. (Answered [''10.0.0.1''], min (max 0 l) 400, t + min (max 0 l) 400)),
      query_srv = (\<lambda>n l t. (Failed, min (max 0 l) 700, t + min (max 0 l) 700)),
      query_naptr = (\<lambda>n l t. (TimedOut, min (max 0 l) 900, t + min (max 0 l) 900)),
      query_txt = (\<lambda>n l t. (Failed, min (max 0 l) 100, t + min (max 0 l) 100))\<rparr>"

definition slow_uri :: lookup_uri where
  "slow_uri = \<lparr>lu_host = ''a'', lu_port = 0, lu_secure = False, lu_transport = None\<rparr>"

theorem lookup_lifetime_bounded_witness:
  "list_all (\<lambda>s'. lifetime s' = max 0 (1000 - lib_state s') \<and> lib_state s' \<le> 1000)
     [snd (lookup_sip_proxy (\<lambda>_. True) slow_library slow_uri [''udp''] \<lparr>lib_state = 0, lifetime = 1000, traces = []\<rparr>),
      snd (lookup_service slow_library slow_uri ''stun'' \<lparr>lib_state = 0, lifetime = 1000, traces = []\<rparr>),
      snd (lookup_xcap_server (\<lambda>_. True) slow_library slow_uri \<lparr>lib_state = 0, lifetime = 1000, traces = []\<rparr>)]"
  using lookup_lifetime_bounded [of True id slow_library "\<lparr>lib_state = 0, lifetime = 1000, traces = []\<rparr>"
      "\<lambda>_. True" slow_uri "[''udp'']" "''stun''" "\<lambda>_. True"]
  by (simp add: dns_timed_def timed_query_def slow_library_def)

text \<open>
  A URI whose host looks like an IP address but is none (each group has one to three
  digits, \<open>inet_aton\<close> refuses it) makes the lookup end with \<open>ValueError\<close>, for which
  neither of the two notifications is posted, so the caller waits for an answer that never comes.
\<close>

theorem lookup_bad_address_unreported:
  assumes "numeric_host (lu_host uri)" "\<not> aton (lu_host uri)" "transports \<noteq> []"
    and "set (map lower transports) \<subseteq> set (map fst transport_service_map)"
    and "transport_of uri \<in> set (map lower transports)"
  shows "fst (lookup_sip_proxy aton lib uri transports s) = Inl ValueError \<and>
    lookup_notifications (fst (lookup_sip_proxy aton lib uri transports s)) = []"
  using assms
  by (simp add: lookup_sip_proxy_def Let_def timeout_is_error_def numeric_lookup_def make_route_def
      route_init_def set_address_def catchE_def bindE_def liftE_def raiseE_def lookup_notifications_def)

theorem lookup_bad_address_unreported_witness:
  "lookup_notifications (fst (lookup_sip_proxy (\<lambda>a. a \<noteq> ''9.9.9.999'') slow_library
     \<lparr>lu_host = ''9.9.9.999'', lu_port = 0, lu_secure = False, lu_transport = None\<rparr> [''udp'']
     \<lparr>lib_state = 0, lifetime = 1500, traces = []\<rparr>)) = []"
proof -
  have "numeric_host ''9.9.9.999''" by code_simp
  then show ?thesis
    by (intro lookup_bad_address_unreported [THEN conjunct2])
      (simp_all add: lower_def lower_char_def transport_of_def transport_service_map_def)
qed



text \<open>
  C14. While the DNS manager runs, a failed probe is never forgotten: in every reachable state
  the last finished probe found working name servers, or a probe is queued, or the timer that
  queues one is active - whatever wake-ups, address changes, interruptions, stops and starts
  happened before.
\<close>

theorem dns_probe_never_lost:
  "probe_pending (dns_run steps (dns_manager_init sys, False))"
  by (rule dns_run_pending) (simp add: probe_pending_def dns_manager_init_def Let_def)

text \<open>
  A wake-up reported while the manager is stopped disables the handling of later ones: the
  timer's action fails before it clears the attribute, and since then no wake-up starts a timer,
  also after the manager is started.
\<close>

theorem dns_wakeup_lost_when_stopped:
  assumes "dm_running m = False" "dm_wakeup m = NoTimer"
  shows "let m' = fst (dns_run [WokeUp, WakeupTimer, Start] (m, ok)) in
    dm_running m' \<and> dm_wakeup m' = SpentTimer \<and> dns_manager_step WokeUp m' = m'"
  using assms by (simp add: dns_step_defs)

theorem dns_wakeup_lost_when_stopped_witness:
  "let m' = fst (dns_run [WokeUp, WakeupTimer, Start]
       (dns_manager_init \<lparr>sys_search = [], sys_domain = ''.'', sys_nameservers = [''10.0.0.1'']\<rparr>, False)) in
    dm_running m' \<and> dm_wakeup m' = SpentTimer \<and> dns_manager_step WokeUp m' = m'"
  by (rule dns_wakeup_lost_when_stopped) (simp_all add: dns_manager_init_def Let_def)

end
