(* ===== verification/Requests.thy ===== *)
theory Requests
  imports Effects
begin

text \<open>
  Registrations, messages and publications, \<open>sipsimple/core/_primitives.py\<close>. A request of
  the core is what the code reads of it: an identity, its call id and sequence number, its
  contact and route. Creating and sending one may raise \<open>SIPCoreError\<close>, which is an argument
  of the operations. What an operation does to the outside (observers added and removed,
  requests ended, notifications posted) is a log, in order.
\<close>

section \<open>Requests and the log\<close>

record request =
  rq_id :: nat
  rq_call_id :: nat
  rq_cseq :: int
  rq_contact :: string
  rq_route :: string
  rq_expires :: int

datatype 'n action = AddObserver nat | RemoveObserver nat | EndRequest nat | Send nat | Post 'n

text \<open>What the core does with a new request: it cannot be created, cannot be sent, or is sent.\<close>

datatype core_outcome = CreateFails | SendFails | Sent

text \<open>The data of the core's notifications. No headers: the request timed out.\<close>

record reply =
  rp_code :: int
  rp_expires :: int
  rp_contacts :: "string list option"
  rp_min_expires :: "int option"
  rp_etag :: "string option"

definition post :: "'n \<Rightarrow> 'n action list" where
  "post n = [Post n]"

section \<open>Registration\<close>

datatype registration_note =
    RegDidSucceed int string "string list" int string
  | RegDidFail int string "int option"
  | RegWillExpire int
  | RegWillEnd
  | RegDidEnd bool
  | RegDidNotEnd int

record registration =
  rg_duration :: int
  rg_current :: "request option"
  rg_last :: "request option"
  rg_unregistering :: bool
  rg_next :: nat
  rg_log :: "registration_note action list"

definition registration_init :: "int \<Rightarrow> registration" where
  "registration_init duration =
     \<lparr>rg_duration = duration, rg_current = None, rg_last = None, rg_unregistering = False, rg_next = 0,
      rg_log = []\<rparr>"

definition is_registered :: "registration \<Rightarrow> bool" where
  "is_registered s = (rg_last s \<noteq> None)"

definition rg_emit :: "registration_note action list \<Rightarrow> (registration, unit) eff" where
  "rg_emit acts = modifyE (\<lambda>s. s\<lparr>rg_log := rg_log s @ acts\<rparr>)"

definition new_request :: "string \<Rightarrow> string \<Rightarrow> bool \<Rightarrow> registration \<Rightarrow> request" where
  "new_request contact route do_register s =
     (let prev = (case rg_current s of None \<Rightarrow> rg_last s | Some r \<Rightarrow> Some r)
      in \<lparr>rq_id = rg_next s,
          rq_call_id = (case prev of None \<Rightarrow> rg_next s | Some r \<Rightarrow> rq_call_id r),
          rq_cseq = (case prev of None \<Rightarrow> 1 | Some r \<Rightarrow> rq_cseq r + 1),
          rq_contact = contact, rq_route = route,
          rq_expires = (if do_register then rg_duration s else 0)\<rparr>)"

text \<open>\<open>self._current_request.end()\<close>, when there is one\<close>

definition cancel_current :: "(registration, unit) eff" where
  "cancel_current s =
     (case rg_current s of
        None \<Rightarrow> (Inr (), s)
      | Some r \<Rightarrow> (Inr (), s\<lparr>rg_current := None, rg_log := rg_log s @ [EndRequest (rq_id r)]\<rparr>))"

definition make_and_send_request ::
  "core_outcome \<Rightarrow> string \<Rightarrow> string \<Rightarrow> bool \<Rightarrow> (registration, unit) eff" where
  "make_and_send_request core contact route do_register s =
     (let r = new_request contact route do_register s
      in if core = CreateFails then (Inl SIPCoreError, s)
         else
           bindE (modifyE (\<lambda>s. s\<lparr>rg_next := rg_next s + 1\<rparr>)) (\<lambda>u.
           bindE (rg_emit [AddObserver (rq_id r)]) (\<lambda>u.
           bindE cancel_current (\<lambda>u.
             if core = SendFails
             then bindE (rg_emit [RemoveObserver (rq_id r)]) (\<lambda>u. raiseE SIPCoreError)
             else bindE (rg_emit [Send (rq_id r)]) (\<lambda>u.
               modifyE (\<lambda>s. s\<lparr>rg_unregistering := \<not> do_register, rg_current := Some r\<rparr>))))) s)"

definition on_core_error :: "(registration, unit) eff \<Rightarrow> registration_note \<Rightarrow> (registration, unit) eff" where
  "on_core_error m note =
     catchE m (\<lambda>e. if e = SIPCoreError then rg_emit (post note) else raiseE e)"

definition registration_register :: "core_outcome \<Rightarrow> string \<Rightarrow> string \<Rightarrow> (registration, unit) eff" where
  "registration_register core contact route =
     on_core_error (make_and_send_request core contact route True) (RegDidFail 0 route None)"

definition registration_end :: "core_outcome \<Rightarrow> (registration, unit) eff" where
  "registration_end core s =
     (case rg_last s of
        None \<Rightarrow> (Inr (), s)
      | Some l \<Rightarrow>
          bindE (rg_emit (post RegWillEnd)) (\<lambda>u.
            on_core_error (make_and_send_request core (rq_contact l) (rq_route l) False)
              (RegDidNotEnd 0)) s)"

definition is_request :: "nat \<Rightarrow> request option \<Rightarrow> bool" where
  "is_request i r = (case r of None \<Rightarrow> False | Some q \<Rightarrow> rq_id q = i)"

definition reg_request_did_succeed :: "nat \<Rightarrow> reply \<Rightarrow> registration \<Rightarrow> registration" where
  "reg_request_did_succeed i data s =
     (if \<not> is_request i (rg_current s) then s
      else
        let request = the (rg_current s); s = s\<lparr>rg_current := None\<rparr>
        in if rg_unregistering s then
             (case rg_last s of
                None \<Rightarrow> s\<lparr>rg_log := rg_log s @ post (RegDidEnd False)\<rparr>
              | Some l \<Rightarrow>
                  s\<lparr>rg_last := None, rg_log := rg_log s @ EndRequest (rq_id l) # post (RegDidEnd False)\<rparr>)
           else
             s\<lparr>rg_last := Some request,
               rg_log := rg_log s @ post (RegDidSucceed (rp_code data) (rq_contact request)
                 (case rp_contacts data of None \<Rightarrow> [] | Some cs \<Rightarrow> cs) (rp_expires data) (rq_route request))\<rparr>)"

definition reg_request_did_fail :: "nat \<Rightarrow> reply \<Rightarrow> registration \<Rightarrow> registration" where
  "reg_request_did_fail i data s =
     (if \<not> is_request i (rg_current s) then s
      else
        let request = the (rg_current s); s = s\<lparr>rg_current := None\<rparr>
        in if rg_unregistering s then s\<lparr>rg_log := rg_log s @ post (RegDidNotEnd (rp_code data))\<rparr>
           else s\<lparr>rg_log := rg_log s @ post (RegDidFail (rp_code data) (rq_route request) (rp_min_expires data))\<rparr>)"

definition reg_request_will_expire :: "nat \<Rightarrow> reply \<Rightarrow> registration \<Rightarrow> registration" where
  "reg_request_will_expire i data s =
     (if \<not> is_request i (rg_last s) then s
      else s\<lparr>rg_log := rg_log s @ post (RegWillExpire (rp_expires data))\<rparr>)"

definition reg_request_did_end :: "nat \<Rightarrow> registration \<Rightarrow> registration" where
  "reg_request_did_end i s =
     (let s = s\<lparr>rg_log := rg_log s @ [RemoveObserver i]\<rparr>
      in if \<not> is_request i (rg_last s) then s
         else
           let s = snd (cancel_current (s\<lparr>rg_last := None\<rparr>))
           in s\<lparr>rg_log := rg_log s @ post (RegDidEnd True)\<rparr>)"

datatype request_event =
    RequestDidSucceed nat reply
  | RequestDidFail nat reply
  | RequestWillExpire nat reply
  | RequestDidEnd nat

datatype registration_op =
    Register core_outcome string string
  | EndRegistration core_outcome
  | RegEvent request_event

fun registration_step :: "registration_op \<Rightarrow> registration \<Rightarrow> registration" where
  "registration_step (Register core contact route) s = snd (registration_register core contact route s)"
| "registration_step (EndRegistration core) s = snd (registration_end core s)"
| "registration_step (RegEvent (RequestDidSucceed i d)) s = reg_request_did_succeed i d s"
| "registration_step (RegEvent (RequestDidFail i d)) s = reg_request_did_fail i d s"
| "registration_step (RegEvent (RequestWillExpire i d)) s = reg_request_will_expire i d s"
| "registration_step (RegEvent (RequestDidEnd i)) s = reg_request_did_end i s"

section \<open>Message\<close>

datatype message_note = MsgDidSucceed reply | MsgDidFail reply

record message =
  ms_request :: nat
  ms_sent :: bool
  ms_log :: "message_note action list"

definition message_init :: "nat \<Rightarrow> message" where
  "message_init i = \<lparr>ms_request = i, ms_sent = False, ms_log = []\<rparr>"

text \<open>The core's request leaves the state \<open>INIT\<close> when it is sent.\<close>

definition message_send :: "core_outcome \<Rightarrow> (message, unit) eff" where
  "message_send core s =
     (if ms_sent s then (Inl RuntimeError, s)
      else
        let s = s\<lparr>ms_log := ms_log s @ [AddObserver (ms_request s)]\<rparr>
        in if core \<noteq> Sent
           then (Inl SIPCoreError, s\<lparr>ms_log := ms_log s @ [RemoveObserver (ms_request s)]\<rparr>)
           else (Inr (), s\<lparr>ms_sent := True, ms_log := ms_log s @ [Send (ms_request s)]\<rparr>))"

definition message_request_did_succeed :: "reply \<Rightarrow> message \<Rightarrow> message" where
  "message_request_did_succeed data s =
     s\<lparr>ms_log := ms_log s @ (if rp_expires data \<noteq> 0 then [EndRequest (ms_request s)] else []) @
                 post (MsgDidSucceed data)\<rparr>"

definition message_request_did_fail :: "reply \<Rightarrow> message \<Rightarrow> message" where
  "message_request_did_fail data s = s\<lparr>ms_log := ms_log s @ post (MsgDidFail data)\<rparr>"

definition message_request_did_end :: "message \<Rightarrow> message" where
  "message_request_did_end s = s\<lparr>ms_log := ms_log s @ [RemoveObserver (ms_request s)]\<rparr>"

section \<open>Publication\<close>

datatype publication_note =
    PubDidSucceed int int string
  | PubDidFail int string
  | PubWillExpire int
  | PubWillEnd
  | PubDidEnd bool
  | PubDidNotEnd int

text \<open>A PUBLISH request carries the tag it refreshes and possibly a body.\<close>

record publish_request = request +
  rq_if_match :: "string option"
  rq_body :: "string option"

record publication =
  pb_duration :: int
  pb_last_etag :: "string option"
  pb_current :: "publish_request option"
  pb_last :: "publish_request option"
  pb_unpublishing :: bool
  pb_next :: nat
  pb_log :: "publication_note action list"

definition publication_init :: "int \<Rightarrow> publication" where
  "publication_init duration =
     \<lparr>pb_duration = duration, pb_last_etag = None, pb_current = None, pb_last = None,
      pb_unpublishing = False, pb_next = 0, pb_log = []\<rparr>"

definition is_published :: "publication \<Rightarrow> bool" where
  "is_published s = (pb_last s \<noteq> None)"

definition pb_emit :: "publication_note action list \<Rightarrow> (publication, unit) eff" where
  "pb_emit acts = modifyE (\<lambda>s. s\<lparr>pb_log := pb_log s @ acts\<rparr>)"

definition pb_cancel_current :: "(publication, unit) eff" where
  "pb_cancel_current s =
     (case pb_current s of
        None \<Rightarrow> (Inr (), s)
      | Some r \<Rightarrow> (Inr (), s\<lparr>pb_current := None, pb_log := pb_log s @ [EndRequest (rq_id r)]\<rparr>))"

definition new_publish :: "string option \<Rightarrow> string \<Rightarrow> bool \<Rightarrow> publication \<Rightarrow> publish_request" where
  "new_publish body route do_publish s =
     \<lparr>rq_id = pb_next s, rq_call_id = pb_next s, rq_cseq = 1, rq_contact = [], rq_route = route,
      rq_expires = (if do_publish then pb_duration s else 0),
      rq_if_match = pb_last_etag s, rq_body = body\<rparr>"

definition make_and_send_publish ::
  "core_outcome \<Rightarrow> string option \<Rightarrow> string \<Rightarrow> bool \<Rightarrow> (publication, unit) eff" where
  "make_and_send_publish core body route do_publish s =
     (let r = new_publish body route do_publish s
      in if core = CreateFails then (Inl SIPCoreError, s)
         else
           bindE (modifyE (\<lambda>s. s\<lparr>pb_next := pb_next s + 1\<rparr>)) (\<lambda>u.
           bindE (pb_emit [AddObserver (rq_id r)]) (\<lambda>u.
           bindE pb_cancel_current (\<lambda>u.
             if core = SendFails
             then bindE (pb_emit [RemoveObserver (rq_id r)]) (\<lambda>u. raiseE SIPCoreError)
             else bindE (pb_emit [Send (rq_id r)]) (\<lambda>u.
               modifyE (\<lambda>s. s\<lparr>pb_unpublishing := \<not> do_publish, pb_current := Some r\<rparr>))))) s)"

definition publication_publish ::
  "core_outcome \<Rightarrow> string option \<Rightarrow> string \<Rightarrow> (publication, unit) eff" where
  "publication_publish core body route s =
     (if body = None \<and> pb_last s = None then (Inl ValueError, s)
      else if body = None \<and> pb_last_etag s = None then (Inl PublicationETagError, s)
      else make_and_send_publish core body route True s)"

definition publication_end :: "core_outcome \<Rightarrow> (publication, unit) eff" where
  "publication_end core s =
     (case pb_last s of
        None \<Rightarrow> (Inr (), s)
      | Some l \<Rightarrow>
          bindE (pb_emit (post PubWillEnd)) (\<lambda>u.
            catchE (make_and_send_publish core None (rq_route l) False)
              (\<lambda>e. if e = SIPCoreError then pb_emit (post (PubDidNotEnd 0)) else raiseE e)) s)"

definition is_publish :: "nat \<Rightarrow> publish_request option \<Rightarrow> bool" where
  "is_publish i r = (case r of None \<Rightarrow> False | Some q \<Rightarrow> rq_id q = i)"

definition pub_request_did_succeed :: "nat \<Rightarrow> reply \<Rightarrow> publication \<Rightarrow> publication" where
  "pub_request_did_succeed i data s =
     (if \<not> is_publish i (pb_current s) then s
      else
        let request = the (pb_current s); s = s\<lparr>pb_current := None\<rparr>
        in if pb_unpublishing s then
             (case pb_last s of
                None \<Rightarrow> s\<lparr>pb_last_etag := None, pb_log := pb_log s @ post (PubDidEnd False)\<rparr>
              | Some l \<Rightarrow>
                  s\<lparr>pb_last := None, pb_last_etag := None,
                    pb_log := pb_log s @ EndRequest (rq_id l) # post (PubDidEnd False)\<rparr>)
           else
             s\<lparr>pb_last := Some request, pb_last_etag := rp_etag data,
               pb_log := pb_log s @ post (PubDidSucceed (rp_code data) (rp_expires data) (rq_route request))\<rparr>)"

definition pub_request_did_fail :: "nat \<Rightarrow> reply \<Rightarrow> publication \<Rightarrow> publication" where
  "pub_request_did_fail i data s =
     (if \<not> is_publish i (pb_current s) then s
      else
        let request = the (pb_current s); s = s\<lparr>pb_current := None\<rparr>;
            s = (if rp_code data = 412 then s\<lparr>pb_last_etag := None\<rparr> else s)
        in if pb_unpublishing s then s\<lparr>pb_log := pb_log s @ post (PubDidNotEnd (rp_code data))\<rparr>
           else s\<lparr>pb_log := pb_log s @ post (PubDidFail (rp_code data) (rq_route request))\<rparr>)"

definition pub_request_will_expire :: "nat \<Rightarrow> reply \<Rightarrow> publication \<Rightarrow> publication" where
  "pub_request_will_expire i data s =
     (if \<not> is_publish i (pb_last s) then s
      else s\<lparr>pb_log := pb_log s @ post (PubWillExpire (rp_expires data))\<rparr>)"

definition pub_request_did_end :: "nat \<Rightarrow> publication \<Rightarrow> publication" where
  "pub_request_did_end i s =
     (let s = s\<lparr>pb_log := pb_log s @ [RemoveObserver i]\<rparr>
      in if \<not> is_publish i (pb_last s) then s
         else
           let s = snd (pb_cancel_current (s\<lparr>pb_last := None\<rparr>))
           in s\<lparr>pb_last_etag := None, pb_log := pb_log s @ post (PubDidEnd True)\<rparr>)"

datatype publication_op =
    Publish core_outcome "string option" string
  | EndPublication core_outcome
  | PubEvent request_event

fun publication_step :: "publication_op \<Rightarrow> publication \<Rightarrow> publication" where
  "publication_step (Publish core body route) s = snd (publication_publish core body route s)"
| "publication_step (EndPublication core) s = snd (publication_end core s)"
| "publication_step (PubEvent (RequestDidSucceed i d)) s = pub_request_did_succeed i d s"
| "publication_step (PubEvent (RequestDidFail i d)) s = pub_request_did_fail i d s"
| "publication_step (PubEvent (RequestWillExpire i d)) s = pub_request_will_expire i d s"
| "publication_step (PubEvent (RequestDidEnd i)) s = pub_request_did_end i s"

section \<open>What the notifications say\<close>

text \<open>What an observer believes after a log: registered since a success, not any more after an end.\<close>

definition registration_seen :: "registration_note action \<Rightarrow> bool \<Rightarrow> bool" where
  "registration_seen a b =
     (case a of
        Post (RegDidSucceed code contact contacts expires route) \<Rightarrow> True
      | Post (RegDidEnd expired) \<Rightarrow> False
      | _ \<Rightarrow> b)"

definition publication_seen :: "publication_note action \<Rightarrow> bool \<Rightarrow> bool" where
  "publication_seen a b =
     (case a of
        Post (PubDidSucceed code expires route) \<Rightarrow> True
      | Post (PubDidEnd expired) \<Rightarrow> False
      | _ \<Rightarrow> b)"

definition registration_ok :: "registration \<Rightarrow> bool" where
  "registration_ok s = (is_registered s \<longleftrightarrow> fold registration_seen (rg_log s) False)"

definition publication_ok :: "publication \<Rightarrow> bool" where
  "publication_ok s =
     ((is_published s \<longleftrightarrow> fold publication_seen (pb_log s) False) \<and>
      (pb_last_etag s = None \<or> is_published s))"

lemma make_and_send_request_ok:
  "rg_last (snd (make_and_send_request core contact route reg s)) = rg_last s \<and>
   fold registration_seen (rg_log (snd (make_and_send_request core contact route reg s))) b =
     fold registration_seen (rg_log s) b"
proof (cases "core = CreateFails")
  case True
  then show ?thesis by (simp add: make_and_send_request_def Let_def)
next
  case False
  have seen: "registration_seen (AddObserver i) b = b" "registration_seen (RemoveObserver i) b = b"
    "registration_seen (EndRequest i) b = b" "registration_seen (Send i) b = b" for i b
    by (simp_all add: registration_seen_def)
  show ?thesis
    using False
    by (cases "rg_current s"; cases "core = SendFails")
      (simp_all add: make_and_send_request_def rg_emit_def cancel_current_def bindE_def modifyE_def
        raiseE_def Let_def seen)
qed

lemma on_core_error_ok:
  assumes "\<And>b. rg_last (snd (m s)) = rg_last s \<and>
      fold registration_seen (rg_log (snd (m s))) b = fold registration_seen (rg_log s) b"
    and "\<And>b. registration_seen (Post note) b = b"
  shows "rg_last (snd (on_core_error m note s)) = rg_last s \<and>
      fold registration_seen (rg_log (snd (on_core_error m note s))) b = fold registration_seen (rg_log s) b"
proof -
  obtain r t where m: "m s = (r, t)" by (cases "m s")
  show ?thesis
    using assms(1) m assms(2)
    by (cases r) (auto simp: on_core_error_def catchE_def raiseE_def rg_emit_def modifyE_def post_def)
qed

lemma registration_ok_log:
  "registration_ok (s\<lparr>rg_log := rg_log s @ [a]\<rparr>) \<longleftrightarrow>
     (is_registered s \<longleftrightarrow> registration_seen a (fold registration_seen (rg_log s) False))"
  by (simp add: registration_ok_def is_registered_def)

lemma reg_request_did_succeed_ok: "registration_ok s \<Longrightarrow> registration_ok (reg_request_did_succeed i d s)"
  by (cases "rg_last s")
    (simp_all add: reg_request_did_succeed_def Let_def post_def registration_ok_def is_registered_def
      registration_seen_def)

lemma reg_request_did_fail_ok: "registration_ok s \<Longrightarrow> registration_ok (reg_request_did_fail i d s)"
  by (simp add: reg_request_did_fail_def Let_def post_def registration_ok_def is_registered_def
      registration_seen_def)

lemma reg_request_will_expire_ok: "registration_ok s \<Longrightarrow> registration_ok (reg_request_will_expire i d s)"
  by (simp add: reg_request_will_expire_def post_def registration_ok_def is_registered_def
      registration_seen_def)

lemma reg_request_did_end_ok: "registration_ok s \<Longrightarrow> registration_ok (reg_request_did_end i s)"
  by (cases "rg_current s")
    (simp_all add: reg_request_did_end_def cancel_current_def Let_def post_def registration_ok_def
      is_registered_def registration_seen_def)

lemma registration_step_ok: "registration_ok s \<Longrightarrow> registration_ok (registration_step op s)"
proof (cases op)
  case (Register core contact route)
  have "rg_last (snd (registration_register core contact route s)) = rg_last s \<and>
      fold registration_seen (rg_log (snd (registration_register core contact route s))) False =
      fold registration_seen (rg_log s) False"
    unfolding registration_register_def
    by (rule on_core_error_ok) (simp_all add: make_and_send_request_ok registration_seen_def)
  then show "registration_ok s \<Longrightarrow> ?thesis"
    using Register by (simp add: registration_ok_def is_registered_def)
next
  case (EndRegistration core)
  show "registration_ok s \<Longrightarrow> ?thesis"
  proof (cases "rg_last s")
    case None
    then show "registration_ok s \<Longrightarrow> ?thesis" using EndRegistration by (simp add: registration_end_def)
  next
    case (Some l)
    let ?s = "s\<lparr>rg_log := rg_log s @ [Post RegWillEnd]\<rparr>"
    let ?t = "snd (on_core_error (make_and_send_request core (rq_contact l) (rq_route l) False)
      (RegDidNotEnd 0) ?s)"
    have "rg_last ?t = rg_last ?s \<and>
      fold registration_seen (rg_log ?t) False = fold registration_seen (rg_log ?s) False"
      by (rule on_core_error_ok) (simp_all add: make_and_send_request_ok registration_seen_def)
    moreover have "registration_step op s = ?t"
      using EndRegistration Some
      by (simp add: registration_end_def bindE_def rg_emit_def modifyE_def post_def)
    ultimately show "registration_ok s \<Longrightarrow> ?thesis"
      by (simp add: registration_ok_def is_registered_def) (simp add: registration_seen_def)
  qed
next
  case (RegEvent e)
  then show "registration_ok s \<Longrightarrow> ?thesis"
    by (cases e) (simp_all add: reg_request_did_succeed_ok reg_request_did_fail_ok
        reg_request_will_expire_ok reg_request_did_end_ok)
qed

lemma make_and_send_publish_ok:
  "pb_last (snd (make_and_send_publish core body route pub s)) = pb_last s \<and>
   pb_last_etag (snd (make_and_send_publish core body route pub s)) = pb_last_etag s \<and>
   fold publication_seen (pb_log (snd (make_and_send_publish core body route pub s))) b =
     fold publication_seen (pb_log s) b"
proof (cases "core = CreateFails")
  case True
  then show ?thesis by (simp add: make_and_send_publish_def Let_def)
next
  case False
  have seen: "publication_seen (AddObserver i) b = b" "publication_seen (RemoveObserver i) b = b"
    "publication_seen (EndRequest i) b = b" "publication_seen (Send i) b = b" for i b
    by (simp_all add: publication_seen_def)
  show ?thesis
    using False
    by (cases "pb_current s"; cases "core = SendFails")
      (simp_all add: make_and_send_publish_def pb_emit_def pb_cancel_current_def bindE_def modifyE_def
        raiseE_def Let_def seen)
qed

lemma publication_publish_ok: "publication_ok s \<Longrightarrow> publication_ok (snd (publication_publish core body route s))"
  using make_and_send_publish_ok [of core body route True s False]
  by (auto simp: publication_publish_def publication_ok_def is_published_def)

lemma publication_end_ok: "publication_ok s \<Longrightarrow> publication_ok (snd (publication_end core s))"
proof (cases "pb_last s")
  case (Some l)
  let ?s = "s\<lparr>pb_log := pb_log s @ [Post PubWillEnd]\<rparr>"
  obtain r t where m: "make_and_send_publish core None (rq_route l) False ?s = (r, t)"
    by (cases "make_and_send_publish core None (rq_route l) False ?s")
  from make_and_send_publish_ok [of core None "rq_route l" False ?s False] m
  have t: "pb_last t = pb_last s" "pb_last_etag t = pb_last_etag s"
    "fold publication_seen (pb_log t) False = fold publication_seen (pb_log s) False"
    by (simp_all, simp add: publication_seen_def)
  show "publication_ok s \<Longrightarrow> ?thesis"
    using Some m t
    by (cases r) (simp_all add: publication_end_def bindE_def pb_emit_def modifyE_def catchE_def raiseE_def
        post_def publication_ok_def is_published_def publication_seen_def)
qed (simp add: publication_end_def)

lemma pub_request_did_succeed_ok: "publication_ok s \<Longrightarrow> publication_ok (pub_request_did_succeed i d s)"
  by (cases "pb_last s")
    (auto simp: pub_request_did_succeed_def Let_def post_def publication_ok_def is_published_def
      publication_seen_def)

lemma pub_request_did_fail_ok: "publication_ok s \<Longrightarrow> publication_ok (pub_request_did_fail i d s)"
  by (auto simp: pub_request_did_fail_def Let_def post_def publication_ok_def is_published_def
      publication_seen_def)

lemma pub_request_will_expire_ok: "publication_ok s \<Longrightarrow> publication_ok (pub_request_will_expire i d s)"
  by (auto simp: pub_request_will_expire_def post_def publication_ok_def is_published_def
      publication_seen_def)

lemma pub_request_did_end_ok: "publication_ok s \<Longrightarrow> publication_ok (pub_request_did_end i s)"
  by (cases "pb_current s")
    (auto simp: pub_request_did_end_def pb_cancel_current_def Let_def post_def publication_ok_def
      is_published_def publication_seen_def)

lemma publication_step_ok: "publication_ok s \<Longrightarrow> publication_ok (publication_step op s)"
  by (cases "(op, s)" rule: publication_step.cases)
    (simp_all add: publication_publish_ok publication_end_ok pub_request_did_succeed_ok
      pub_request_did_fail_ok pub_request_will_expire_ok pub_request_did_end_ok)

lemma fold_inv: "P s \<Longrightarrow> (\<And>x s. P s \<Longrightarrow> P (f x s)) \<Longrightarrow> P (fold f xs s)"
  by (induction xs arbitrary: s) auto

lemma publication_run_ok: "publication_ok (fold publication_step ops (publication_init d))"
proof (rule fold_inv [where P = publication_ok])
  show "publication_ok (publication_init d)"
    by (simp add: publication_ok_def publication_init_def is_published_def)
qed (rule publication_step_ok)

text \<open>A message goes out at most once.\<close>

lemma message_sent_once:
  assumes "fst (message_send core s) = Inr ()"
  shows "message_send core' (snd (message_send core s)) = (Inl RuntimeError, snd (message_send core s))"
  using assms by (auto simp: message_send_def Let_def split: if_splits)

section \<open>Properties\<close>

text \<open>
  C15. The notifications of a registration tell the truth: after any sequence of calls and of
  core notifications - late ones, ones of requests that were replaced, core errors included -
  the registration is registered exactly when its last success or end notification is a success.
\<close>

theorem registration_notifications_true:
  "is_registered (fold registration_step ops (registration_init d)) \<longleftrightarrow>
   fold registration_seen (rg_log (fold registration_step ops (registration_init d))) False"
proof -
  have "registration_ok (fold registration_step ops (registration_init d))"
    by (rule fold_inv [where P = registration_ok, OF _ registration_step_ok])
      (simp_all add: registration_ok_def registration_init_def is_registered_def)
  then show ?thesis by (simp add: registration_ok_def)
qed

text \<open>
  A publication that can be refreshed carries the entity tag of its last success: after any
  sequence of operations, \<open>publish\<close> without a body raises \<open>ValueError\<close> when nothing is
  published, raises the tag error when the server gave no tag or refused it, and otherwise sends
  a request with exactly that tag and no body; the notifications told the same state.
\<close>

theorem publication_refresh_tagged:
  "let s = fold publication_step ops (publication_init d);
       (r, t) = publication_publish Sent None route s
   in (is_published s \<longleftrightarrow> fold publication_seen (pb_log s) False) \<and>
      (case pb_last_etag s of
         None \<Rightarrow> r = Inl (if is_published s then PublicationETagError else ValueError) \<and> t = s
       | Some tag \<Rightarrow> r = Inr () \<and> is_published s \<and>
           (\<exists>q. pb_current t = Some q \<and> rq_if_match q = Some tag \<and> rq_body q = None \<and>
              rq_expires q = pb_duration s))"
proof -
  let ?s = "fold publication_step ops (publication_init d)"
  have ok: "publication_ok ?s" by (rule publication_run_ok)
  show ?thesis
  proof (cases "pb_last_etag ?s")
    case None
    with ok show ?thesis
      by (cases "pb_last ?s") (simp_all add: publication_ok_def publication_publish_def is_published_def Let_def)
  next
    case (Some tag)
    with ok have p: "is_published ?s" "fold publication_seen (pb_log ?s) False"
      by (auto simp: publication_ok_def)
    have "publication_publish Sent None route ?s = make_and_send_publish Sent None route True ?s"
      using p(1) Some by (auto simp: publication_publish_def is_published_def)
    with Some p show ?thesis
      by (cases "pb_current ?s")
        (simp_all add: make_and_send_publish_def new_publish_def pb_emit_def pb_cancel_current_def
          bindE_def modifyE_def Let_def)
  qed
qed

text \<open>
  After a refresh that fails, the next REGISTER repeats the call id and the sequence number
  of the failed one, because the number is taken from the last request that succeeded.
\<close>

theorem registration_cseq_reused:
  assumes "rg_last s = Some l" "rg_current s = None"
  shows "let s1 = registration_step (Register Sent contact route) s;
             q1 = the (rg_current s1);
             s2 = registration_step (RegEvent (RequestDidFail (rq_id q1) data)) s1;
             s3 = registration_step (Register Sent contact' route') s2;
             q2 = the (rg_current s3)
         in rq_id q2 \<noteq> rq_id q1 \<and> rq_call_id q2 = rq_call_id q1 \<and> rq_cseq q2 = rq_cseq q1"
  using assms
  by (simp add: registration_register_def on_core_error_def make_and_send_request_def new_request_def
      rg_emit_def cancel_current_def bindE_def modifyE_def catchE_def reg_request_did_fail_def
      is_request_def Let_def post_def)

definition sample_request :: request where
  "sample_request =
     \<lparr>rq_id = 0, rq_call_id = 0, rq_cseq = 1, rq_contact = ''c'', rq_route = ''r'', rq_expires = 600\<rparr>"

theorem registration_cseq_reused_witness:
  "let s1 = registration_step (Register Sent ''c'' ''r'')
         ((registration_init 600)\<lparr>rg_last := Some sample_request, rg_next := 1\<rparr>);
       q1 = the (rg_current s1);
       s2 = registration_step (RegEvent (RequestDidFail (rq_id q1)
         \<lparr>rp_code = 408, rp_expires = 0, rp_contacts = None, rp_min_expires = None, rp_etag = None\<rparr>)) s1;
       s3 = registration_step (Register Sent ''c'' ''r'') s2;
       q2 = the (rg_current s3)
   in rq_id q2 \<noteq> rq_id q1 \<and> rq_call_id q2 = rq_call_id q1 \<and> rq_cseq q2 = rq_cseq q1"
  by (rule registration_cseq_reused) (simp_all add: registration_init_def)

end
