(* ===== verification/Agents.thy ===== *)
theory Agents
  imports Complex_Main Effects
begin

text \<open>
  What the registrar, the publishers and the subscribers of an account share: a process that
  takes commands from a queue, a channel on which the core's answers arrive, timers that queue a
  command again, and waiting times that double up to a bound.
\<close>

section \<open>Waiting times\<close>

text \<open>
  \<open>random.uniform(lo, hi)\<close> for a draw between 0 and 1. \<open>limit(value, max=m)\<close> comes from
  the application library and is a parameter; what the code relies on is its documented meaning.
\<close>

definition uniform :: "rat \<Rightarrow> rat \<Rightarrow> rat \<Rightarrow> rat" where
  "uniform lo hi draw = lo + draw * (hi - lo)"

definition limit_documented :: "(int \<Rightarrow> int \<Rightarrow> int) \<Rightarrow> bool" where
  "limit_documented limiter = (\<forall>v m. limiter v m = min v m)"

lemma uniform_bounds:
  "lo \<le> hi \<Longrightarrow> 0 \<le> u \<Longrightarrow> u \<le> 1 \<Longrightarrow> lo \<le> uniform lo hi u \<and> uniform lo hi u \<le> hi"
proof -
  assume h: "lo \<le> hi" and u: "0 \<le> u" "u \<le> 1"
  have "u * (hi - lo) \<le> 1 * (hi - lo)" using h u(2) by (intro mult_right_mono) auto
  moreover have "0 \<le> u * (hi - lo)" using h u(1) by simp
  ultimately show ?thesis by (simp add: uniform_def)
qed

definition backoff_ok :: "int \<Rightarrow> bool" where
  "backoff_ok w = (1 \<le> w \<and> w \<le> 30)"

lemma backoff_double: "limit_documented limiter \<Longrightarrow> backoff_ok w \<Longrightarrow> backoff_ok (limiter (2 * w) 30)"
  by (auto simp: limit_documented_def backoff_ok_def)

lemma backoff_retry:
  "backoff_ok w \<Longrightarrow> 0 \<le> u \<Longrightarrow> u \<le> 1 \<Longrightarrow>
   1 \<le> uniform (of_int w) (of_int (2 * w)) u \<and> uniform (of_int w) (of_int (2 * w)) u \<le> 60"
proof -
  assume w: "backoff_ok w" and u: "0 \<le> u" "u \<le> 1"
  have "(of_int w :: rat) \<le> of_int (2 * w)" "(1 :: rat) \<le> of_int w" "of_int (2 * w) \<le> (60 :: rat)"
    using w by (simp_all add: backoff_ok_def)
  with uniform_bounds [OF this(1) u] show ?thesis by (meson order_trans)
qed

section \<open>Command queues\<close>

text \<open>
  Whether the work of a process is accounted for once its queue is handled: a command may
  establish this (\<open>Some True\<close>), undo it (\<open>Some False\<close>) or leave it as it was (\<open>None\<close>).
\<close>

definition settled :: "('c \<Rightarrow> bool option) \<Rightarrow> 'c list \<Rightarrow> bool \<Rightarrow> bool" where
  "settled effect queue b = fold (\<lambda>c b. case effect c of None \<Rightarrow> b | Some v \<Rightarrow> v) queue b"

lemma settled_simps [simp]:
  "settled f [] b = b"
  "settled f (c # q) b = settled f q (case f c of None \<Rightarrow> b | Some v \<Rightarrow> v)"
  "settled f (p @ q) b = settled f q (settled f p b)"
  by (simp_all add: settled_def)

lemma settled_mono: "settled f q b \<Longrightarrow> b \<le> b' \<Longrightarrow> settled f q b'"
  by (induction q arbitrary: b b') (auto split: option.splits)

section \<open>Timers\<close>

text \<open>A call scheduled after a delay, with the refresh interval its command will carry.\<close>

record retry_timer =
  rt_delay :: rat
  rt_refresh :: "int option"

text \<open>What makes a request fail for good: the reason, when to retry, the interval to retry with.\<close>

datatype failure_reason =
    LookupFailed | InternalError | Expired | AuthenticationFailed | IntervalTooShort
  | NoMoreRoutes | NoInitialBody | ConditionalFailed | NotSupported | OtherFailure

record request_error =
  re_error :: failure_reason
  re_retry_after :: rat
  re_refresh :: "int option"

definition request_error :: "failure_reason \<Rightarrow> rat \<Rightarrow> int option \<Rightarrow> request_error" where
  "request_error e retry refresh = \<lparr>re_error = e, re_retry_after = retry, re_refresh = refresh\<rparr>"

text \<open>
  How a command ends: handled, with an error its handler catches, with an exception that ends
  the process, or not at all because an answer is missing.
\<close>

datatype command_result = Done | Raised request_error | Crashed | Blocked

text \<open>\<open>command.refresh_interval or interval\<close>\<close>

definition interval_or :: "int option \<Rightarrow> int \<Rightarrow> int" where
  "interval_or refresh interval =
     (case refresh of None \<Rightarrow> interval | Some n \<Rightarrow> if n = 0 then interval else n)"

text \<open>The refresh interval of a 423 answer.\<close>

definition min_expires_refresh :: "int option \<Rightarrow> int \<Rightarrow> int option" where
  "min_expires_refresh min_expires interval =
     (case min_expires of None \<Rightarrow> None | Some n \<Rightarrow> if n > interval then Some n else None)"

end
