(* ===== verification/Registrar.thy ===== *)
theory Registrar
  imports Agents Requests
begin

text \<open>
  The registrar of an account, \<open>sipsimple/account/registration.py\<close>. Its process handles one
  command after the other; what the world answers meanwhile - the DNS lookup, the time left, the
  contact address, the notifications of the \<open>Registration\<close> - is the environment of a command.
  What ending the registration does is the operation of the theory Requests, in whatever state the
  \<open>Registration\<close> is by then.
\<close>

section \<open>State\<close>

text \<open>What waits on the data channel: notifications, and exceptions sent to it.\<close>

record contact_answer =
  ca_instance_matches :: bool
  ca_public_gruu :: "string option"
  ca_temporary_gruu :: "string option"

datatype reg_data =
    DataDidSucceed int "contact_answer list"
  | DataDidEnd
  | ExcDidFail int "int option"
  | ExcDidNotEnd int

datatype reg_command =
    CmdRegister "int option"
  | CmdUnregister
  | CmdTerminate

datatype account_note =
    AccWillRegister | AccWillRefresh
  | AccGotAnswer int string
  | AccDidSucceed string
  | AccDidFail failure_reason rat
  | AccDidEnd
  | AccDidNotEnd int
  | SentRegister int string
  | SentUnregister

record registrar =
  ra_started :: bool
  ra_active :: bool
  ra_registered :: bool
  ra_running :: bool
  ra_queue :: "reg_command list"
  ra_channel :: "reg_data list"
  ra_registration :: "int option"
  ra_dns_wait :: int
  ra_register_wait :: int
  ra_timer :: "retry_timer option"
  ra_public_gruu :: "string option"
  ra_temporary_gruu :: "string option"
  ra_log :: "account_note list"

definition registrar_init :: registrar where
  "registrar_init =
     \<lparr>ra_started = False, ra_active = False, ra_registered = False, ra_running = False, ra_queue = [],
      ra_channel = [], ra_registration = None, ra_dns_wait = 1, ra_register_wait = 1, ra_timer = None,
      ra_public_gruu = None, ra_temporary_gruu = None, ra_log = []\<rparr>"

definition ra_post :: "account_note \<Rightarrow> registrar \<Rightarrow> registrar" where
  "ra_post n s = s\<lparr>ra_log := ra_log s @ [n]\<rparr>"

definition ra_send :: "reg_command list \<Rightarrow> registrar \<Rightarrow> registrar" where
  "ra_send cs s = s\<lparr>ra_queue := ra_queue s @ cs\<rparr>"

definition no_gruu :: "registrar \<Rightarrow> registrar" where
  "no_gruu s = s\<lparr>ra_public_gruu := None, ra_temporary_gruu := None\<rparr>"

section \<open>The environment of a register command\<close>

text \<open>
  One attempt: whether time is left, whether there is a contact address for the route, whether
  the core raises, and what arrives on the channel. A URI text that cannot be parsed as a GRUU is
  \<open>None\<close> in a \<open>contact_answer\<close>.
\<close>

record attempt =
  at_route :: string
  at_time_left :: bool
  at_contact :: bool
  at_core_error :: bool
  at_answers :: "reg_data list"

record reg_env =
  en_routes :: "attempt list option"
  en_draw :: rat
  en_interval :: int

datatype wait_result = WaitSucceeded int "contact_answer list" | WaitExpired | WaitFailed int "int option"
  | WaitCrashed | WaitBlocked

fun wait_register :: "reg_data list \<Rightarrow> wait_result \<times> reg_data list" where
  "wait_register [] = (WaitBlocked, [])"
| "wait_register (DataDidSucceed code cs # ds) = (WaitSucceeded code cs, ds)"
| "wait_register (DataDidEnd # ds) = (WaitExpired, ds)"
| "wait_register (ExcDidFail code m # ds) = (WaitFailed code m, ds)"
| "wait_register (ExcDidNotEnd code # ds) = (WaitCrashed, ds)"

definition save_gruu :: "contact_answer list \<Rightarrow> registrar \<Rightarrow> registrar" where
  "save_gruu headers s =
     (case List.find ca_instance_matches headers of
        None \<Rightarrow> no_gruu s
      | Some h \<Rightarrow> s\<lparr>ra_public_gruu := ca_public_gruu h, ra_temporary_gruu := ca_temporary_gruu h\<rparr>)"

text \<open>The error an answer other than success stands for; \<open>None\<close>: try the next route.\<close>

definition register_failure :: "reg_env \<Rightarrow> int \<Rightarrow> int option \<Rightarrow> request_error option" where
  "register_failure env code min_expires =
     (if code = 401 then Some (request_error AuthenticationFailed (uniform 60 120 (en_draw env)) None)
      else if code = 423 then
        Some (request_error IntervalTooShort (uniform 60 120 (en_draw env))
                (min_expires_refresh min_expires (en_interval env)))
      else None)"

fun try_routes ::
  "(int \<Rightarrow> int \<Rightarrow> int) \<Rightarrow> reg_env \<Rightarrow> attempt list \<Rightarrow> registrar \<Rightarrow> command_result \<times> registrar" where
  "try_routes limiter env [] s =
     (let retry_after = uniform (of_int (ra_register_wait s)) (of_int (2 * ra_register_wait s)) (en_draw env)
      in (Raised (request_error NoMoreRoutes retry_after None),
          s\<lparr>ra_register_wait := limiter (2 * ra_register_wait s) 30\<rparr>))"
| "try_routes limiter env (a # as) s =
     (if \<not> at_time_left a then try_routes limiter env as s
      else if \<not> at_contact a then try_routes limiter env as s
      else if at_core_error a then (Raised (request_error InternalError 5 None), s)
      else
        let s = ra_post (SentRegister (the (ra_registration s)) (at_route a)) s
        in case wait_register (ra_channel s @ at_answers a) of
             (r, channel) \<Rightarrow>
               (let s = s\<lparr>ra_channel := channel\<rparr>
                in case r of
                     WaitBlocked \<Rightarrow> (Blocked, s)
                   | WaitCrashed \<Rightarrow> (Crashed, s)
                   | WaitExpired \<Rightarrow> (Raised (request_error Expired 0 None), s)
                   | WaitFailed code m \<Rightarrow>
                       (let s = ra_post (AccGotAnswer code (at_route a)) s
                        in case register_failure env code m of
                             Some e \<Rightarrow> (Raised e, s)
                           | None \<Rightarrow> try_routes limiter env as s)
                   | WaitSucceeded code cs \<Rightarrow>
                       (let s = ra_post (AccGotAnswer code (at_route a)) s;
                            s = save_gruu cs (s\<lparr>ra_registered := True\<rparr>);
                            s = ra_post (AccDidSucceed (at_route a)) s
                        in (Done, s\<lparr>ra_register_wait := 1\<rparr>))))"

definition lookup_and_try ::
  "(int \<Rightarrow> int \<Rightarrow> int) \<Rightarrow> reg_env \<Rightarrow> registrar \<Rightarrow> command_result \<times> registrar" where
  "lookup_and_try limiter env s =
     (case en_routes env of
        None \<Rightarrow>
          (let retry_after = uniform (of_int (ra_dns_wait s)) (of_int (2 * ra_dns_wait s)) (en_draw env)
           in (Raised (request_error LookupFailed retry_after None),
               s\<lparr>ra_dns_wait := limiter (2 * ra_dns_wait s) 30\<rparr>))
      | Some attempts \<Rightarrow> try_routes limiter env attempts (s\<lparr>ra_dns_wait := 1\<rparr>))"

text \<open>\<open>except RegistrationError\<close>: the registration is dropped and a timer registers again.\<close>

definition register_failed :: "request_error \<Rightarrow> registrar \<Rightarrow> registrar" where
  "register_failed e s =
     (let s = ra_post (AccDidFail (re_error e) (re_retry_after e)) (s\<lparr>ra_registered := False\<rparr>)
      in no_gruu (s\<lparr>ra_timer := Some \<lparr>rt_delay = re_retry_after e, rt_refresh = re_refresh e\<rparr>,
                    ra_registration := None\<rparr>))"

definition init_registration :: "reg_env \<Rightarrow> int option \<Rightarrow> registrar \<Rightarrow> registrar" where
  "init_registration env refresh s =
     (case ra_registration s of
        None \<Rightarrow>
          ra_post AccWillRegister (s\<lparr>ra_registration := Some (interval_or refresh (en_interval env))\<rparr>)
      | Some r \<Rightarrow> ra_post AccWillRefresh s)"

definition ch_register ::
  "(int \<Rightarrow> int \<Rightarrow> int) \<Rightarrow> reg_env \<Rightarrow> int option \<Rightarrow> registrar \<Rightarrow> command_result \<times> registrar" where
  "ch_register limiter env refresh s =
     (case lookup_and_try limiter env (init_registration env refresh (s\<lparr>ra_timer := None\<rparr>)) of
        (Raised e, s) \<Rightarrow> (Done, register_failed e s)
      | (r, s) \<Rightarrow> (r, s))"

section \<open>Unregistering\<close>

fun wait_unregister :: "reg_data list \<Rightarrow> account_note option \<times> reg_data list" where
  "wait_unregister [] = (None, [])"
| "wait_unregister (DataDidSucceed code cs # ds) = wait_unregister ds"
| "wait_unregister (DataDidEnd # ds) = (Some AccDidEnd, ds)"
| "wait_unregister (ExcDidFail code m # ds) = (Some (AccDidNotEnd code), ds)"
| "wait_unregister (ExcDidNotEnd code # ds) = (Some (AccDidNotEnd code), ds)"

definition drop_registration :: "registrar \<Rightarrow> registrar" where
  "drop_registration s = no_gruu (s\<lparr>ra_registration := None\<rparr>)"

text \<open>
  \<open>Registration.end\<close>: it sends a request only when its last one has not expired and the core
  accepts the new one; a refusal is posted and waits on the channel.
\<close>

definition sends_request :: "registration_note action list \<Rightarrow> bool" where
  "sends_request acts = list_ex (\<lambda>a. case a of Send i \<Rightarrow> True | _ \<Rightarrow> False) acts"

definition end_data :: "registration_note action list \<Rightarrow> reg_data list" where
  "end_data acts =
     concat (map (\<lambda>a. case a of Post (RegDidNotEnd code) \<Rightarrow> [ExcDidNotEnd code] | _ \<Rightarrow> []) acts)"

definition end_registration :: "core_outcome \<Rightarrow> registration \<Rightarrow> registrar \<Rightarrow> registrar" where
  "end_registration core p s =
     (let acts = drop (length (rg_log p)) (rg_log (snd (registration_end core p)));
          s = (if sends_request acts then ra_post SentUnregister s else s)
      in s\<lparr>ra_channel := ra_channel s @ end_data acts\<rparr>)"

definition ch_unregister ::
  "core_outcome \<Rightarrow> registration \<Rightarrow> reg_data list \<Rightarrow> registrar \<Rightarrow> command_result \<times> registrar" where
  "ch_unregister core p answers s =
     (let registered = ra_registered s;
          s = s\<lparr>ra_timer := None, ra_registered := False\<rparr>
      in if ra_registration s = None then (Done, s)
         else if registered then
           let s = end_registration core p s
           in case wait_unregister (ra_channel s @ answers) of
                (None, channel) \<Rightarrow> (Blocked, s\<lparr>ra_channel := channel\<rparr>)
              | (Some n, channel) \<Rightarrow> (Done, drop_registration (ra_post n (s\<lparr>ra_channel := channel\<rparr>)))
         else (Done, drop_registration s))"

section \<open>The application's calls and the events\<close>

definition registrar_activate :: "(registrar, unit) eff" where
  "registrar_activate s =
     (if \<not> ra_started s then (Inl RuntimeError, s)
      else (Inr (), ra_send [CmdRegister None] (s\<lparr>ra_active := True\<rparr>)))"

definition registrar_deactivate :: "(registrar, unit) eff" where
  "registrar_deactivate s =
     (if \<not> ra_started s then (Inl RuntimeError, s)
      else (Inr (), ra_send [CmdUnregister] (s\<lparr>ra_active := False\<rparr>)))"

definition registrar_start :: "bool \<Rightarrow> (registrar, unit) eff" where
  "registrar_start sip_register s =
     (if ra_started s then (Inr (), s)
      else
        let s = s\<lparr>ra_started := True, ra_running := True\<rparr>
        in if sip_register then registrar_activate s else (Inr (), s))"

definition registrar_stop :: "registrar \<Rightarrow> registrar" where
  "registrar_stop s =
     (if \<not> ra_started s then s
      else ra_send [CmdTerminate] (s\<lparr>ra_started := False, ra_active := False\<rparr>))"

definition reregister :: "registrar \<Rightarrow> registrar" where
  "reregister s = (if ra_active s then ra_send [CmdUnregister, CmdRegister None] s else s)"

definition registration_will_expire :: "registrar \<Rightarrow> registrar" where
  "registration_will_expire s = (if ra_active s then ra_send [CmdRegister None] s else s)"

text \<open>The timer's closure: register again if still active.\<close>

definition registration_timer_fires :: "registrar \<Rightarrow> registrar" where
  "registration_timer_fires s =
     (case ra_timer s of
        None \<Rightarrow> s
      | Some t \<Rightarrow>
          (if ra_active s then ra_send [CmdRegister (rt_refresh t)] s else s)\<lparr>ra_timer := None\<rparr>)"

definition registrar_settings :: "string set" where
  "registrar_settings =
     {''__id__'', ''auth.password'', ''auth.username'', ''nat_traversal.use_ice'', ''sip.outbound_proxy'',
      ''sip.transport_list'', ''sip.register_interval''}"

definition registrar_settings_changed :: "string set \<Rightarrow> bool \<Rightarrow> (registrar, unit) eff" where
  "registrar_settings_changed modified sip_register s =
     (if \<not> ra_started s then (Inr (), s)
      else if ''enabled'' \<in> modified then (Inr (), s)
      else if ''sip.register'' \<in> modified then
        (if sip_register then registrar_activate s else registrar_deactivate s)
      else if ra_active s \<and> registrar_settings \<inter> modified \<noteq> {} then
        (Inr (), ra_send [CmdUnregister, CmdRegister None] s)
      else (Inr (), s))"

definition registrar_network_changed :: "registrar \<Rightarrow> registrar" where
  "registrar_network_changed s =
     (if ra_active s then ra_send [CmdUnregister, CmdRegister None] s else s)"

text \<open>\<open>_run\<close>: the next command is handled; a terminate command ends the process.\<close>

definition run_command ::
  "(int \<Rightarrow> int \<Rightarrow> int) \<Rightarrow> reg_env \<Rightarrow> core_outcome \<Rightarrow> registration \<Rightarrow> reg_data list \<Rightarrow> registrar \<Rightarrow>
   command_result \<times> registrar" where
  "run_command limiter env core p answers s =
     (case ra_queue s of
        [] \<Rightarrow> (Blocked, s)
      | c # cs \<Rightarrow>
          (let s = s\<lparr>ra_queue := cs\<rparr>
           in case c of
                CmdRegister refresh \<Rightarrow> ch_register limiter env refresh s
              | CmdUnregister \<Rightarrow> ch_unregister core p answers s
              | CmdTerminate \<Rightarrow>
                  (case ch_unregister core p answers s of
                     (Done, s) \<Rightarrow> (Done, s\<lparr>ra_running := False\<rparr>)
                   | r \<Rightarrow> r)))"

datatype registrar_event =
    EvStart bool | EvStop | EvActivate | EvDeactivate | EvReregister | EvWillExpire | EvTimer
  | EvSettings "string set" bool | EvNetwork | EvData "reg_data list"
  | EvRun reg_env core_outcome registration "reg_data list"

text \<open>
  A command runs to its end in one step; a command whose answers have not all arrived yet, or
  that ends the process by an exception it does not catch, is not a step of a run.
\<close>

inductive registrar_step :: "(int \<Rightarrow> int \<Rightarrow> int) \<Rightarrow> registrar \<Rightarrow> registrar_event \<Rightarrow> registrar \<Rightarrow> bool"
  for limiter where
  start: "registrar_step limiter s (EvStart b) (snd (registrar_start b s))"
| stop: "registrar_step limiter s EvStop (registrar_stop s)"
| activate: "registrar_step limiter s EvActivate (snd (registrar_activate s))"
| deactivate: "registrar_step limiter s EvDeactivate (snd (registrar_deactivate s))"
| rereg: "registrar_step limiter s EvReregister (reregister s)"
| expire: "registrar_step limiter s EvWillExpire (registration_will_expire s)"
| timer: "registrar_step limiter s EvTimer (registration_timer_fires s)"
| settings: "registrar_step limiter s (EvSettings m b) (snd (registrar_settings_changed m b s))"
| network: "registrar_step limiter s EvNetwork (registrar_network_changed s)"
| data: "ra_registration s \<noteq> None \<Longrightarrow>
    registrar_step limiter s (EvData ds) (s\<lparr>ra_channel := ra_channel s @ ds\<rparr>)"
| run: "ra_running s \<Longrightarrow> 0 \<le> en_draw env \<Longrightarrow> en_draw env \<le> 1 \<Longrightarrow>
    run_command limiter env core p answers s = (Done, t) \<Longrightarrow>
    registrar_step limiter s (EvRun env core p answers) t"

inductive registrar_reachable :: "(int \<Rightarrow> int \<Rightarrow> int) \<Rightarrow> registrar \<Rightarrow> bool" for limiter where
  reach_init: "registrar_reachable limiter registrar_init"
| reach_step: "registrar_reachable limiter s \<Longrightarrow> registrar_step limiter s e t \<Longrightarrow> registrar_reachable limiter t"

section \<open>The invariant\<close>

definition reg_effect :: "reg_command \<Rightarrow> bool option" where
  "reg_effect c =
     (case c of CmdRegister r \<Rightarrow> Some True | CmdUnregister \<Rightarrow> Some False | CmdTerminate \<Rightarrow> Some False)"

text \<open>An active registrar is registered, or will be told to register again.\<close>

definition keeps_trying :: "registrar \<Rightarrow> bool" where
  "keeps_trying s =
     (ra_active s \<longrightarrow> settled reg_effect (ra_queue s) (ra_registered s \<or> ra_timer s \<noteq> None))"

definition delays_ok :: "registrar \<Rightarrow> bool" where
  "delays_ok s =
     (backoff_ok (ra_dns_wait s) \<and> backoff_ok (ra_register_wait s) \<and>
      (\<forall>r d. AccDidFail r d \<in> set (ra_log s) \<longrightarrow> 0 \<le> d \<and> d \<le> 120))"

definition registrar_consistent :: "registrar \<Rightarrow> bool" where
  "registrar_consistent s =
     ((ra_registered s \<longrightarrow> ra_registration s \<noteq> None) \<and>
      (ra_registration s = None \<longrightarrow> ra_public_gruu s = None \<and> ra_temporary_gruu s = None) \<and>
      (ra_active s \<longrightarrow> ra_started s))"

definition registrar_ok :: "registrar \<Rightarrow> bool" where
  "registrar_ok s = (keeps_trying s \<and> delays_ok s \<and> registrar_consistent s)"

lemmas registrar_ok_defs = registrar_ok_def keeps_trying_def delays_ok_def registrar_consistent_def

lemmas registrar_simps = ra_post_def ra_send_def no_gruu_def save_gruu_def drop_registration_def

text \<open>What trying the routes leaves alone, and what its results mean.\<close>

definition same_work :: "registrar \<Rightarrow> registrar \<Rightarrow> bool" where
  "same_work s t =
     (ra_active t = ra_active s \<and> ra_started t = ra_started s \<and> ra_queue t = ra_queue s \<and>
      ra_timer t = ra_timer s \<and> ra_registration t = ra_registration s \<and> ra_running t = ra_running s)"

definition retry_ok :: "command_result \<Rightarrow> bool" where
  "retry_ok r = (case r of Raised e \<Rightarrow> 0 \<le> re_retry_after e \<and> re_retry_after e \<le> 120 | _ \<Rightarrow> True)"

lemma delays_ok_cong:
  "delays_ok s \<Longrightarrow> ra_dns_wait t = ra_dns_wait s \<Longrightarrow> ra_register_wait t = ra_register_wait s \<Longrightarrow>
   (\<forall>r d. AccDidFail r d \<in> set (ra_log t) \<longrightarrow> AccDidFail r d \<in> set (ra_log s)) \<Longrightarrow> delays_ok t"
  by (auto simp: delays_ok_def)

lemma wait_retry:
  "backoff_ok w \<Longrightarrow> 0 \<le> u \<Longrightarrow> u \<le> 1 \<Longrightarrow>
   retry_ok (Raised (request_error x (uniform (of_int w) (of_int (2 * w)) u) y))"
  using backoff_retry [of w u] by (simp add: retry_ok_def request_error_def)

lemma register_failure_retry:
  "0 \<le> en_draw env \<Longrightarrow> en_draw env \<le> 1 \<Longrightarrow> register_failure env code m = Some e \<Longrightarrow> retry_ok (Raised e)"
  using uniform_bounds [of 60 120 "en_draw env"]
  by (auto simp: register_failure_def retry_ok_def request_error_def split: if_splits)

definition register_outcome :: "registrar \<Rightarrow> command_result \<times> registrar \<Rightarrow> bool" where
  "register_outcome s r =
     (same_work s (snd r) \<and> delays_ok (snd r) \<and> retry_ok (fst r) \<and>
      (fst r = Done \<longrightarrow> ra_registered (snd r)))"

lemma register_outcome_cong: "same_work s t \<Longrightarrow> register_outcome t r \<Longrightarrow> register_outcome s r"
  by (simp add: register_outcome_def same_work_def)

lemma save_gruu_same [simp]:
  "same_work s (save_gruu cs t) = same_work s t" "ra_log (save_gruu cs t) = ra_log t"
  "ra_dns_wait (save_gruu cs t) = ra_dns_wait t" "ra_register_wait (save_gruu cs t) = ra_register_wait t"
  "ra_registered (save_gruu cs t) = ra_registered t" "ra_active (save_gruu cs t) = ra_active t"
  "ra_started (save_gruu cs t) = ra_started t" "ra_queue (save_gruu cs t) = ra_queue t"
  "ra_timer (save_gruu cs t) = ra_timer t" "ra_registration (save_gruu cs t) = ra_registration t"
  "ra_running (save_gruu cs t) = ra_running t"
  by (simp_all add: registrar_simps same_work_def split: option.split)

lemma try_routes_outcome:
  assumes lim: "limit_documented limiter" and u: "0 \<le> en_draw env" "en_draw env \<le> 1"
  shows "delays_ok s \<Longrightarrow> register_outcome s (try_routes limiter env as s)"
proof (induction as arbitrary: s)
  case Nil
  then show ?case
    using backoff_double [OF lim] wait_retry u
    by (simp add: register_outcome_def same_work_def delays_ok_def Let_def)
next
  case (Cons a as)
  define s' where "s' = ra_post (SentRegister (the (ra_registration s)) (at_route a)) s"
  obtain r channel where w: "wait_register (ra_channel s' @ at_answers a) = (r, channel)"
    by (cases "wait_register (ra_channel s' @ at_answers a)")
  define t where "t = s'\<lparr>ra_channel := channel\<rparr>"
  have t: "same_work s t" "delays_ok t" "delays_ok (ra_post (AccGotAnswer c p) t)"
    "same_work s (ra_post (AccGotAnswer c p) t)" for c p
    using Cons.prems by (auto simp: t_def s'_def ra_post_def same_work_def delays_ok_def)
  have internal: "retry_ok (Raised (request_error InternalError 5 None))"
    "retry_ok (Raised (request_error Expired 0 None))"
    by (simp_all add: retry_ok_def request_error_def)
  show ?case
  proof (cases "at_time_left a \<and> at_contact a \<and> \<not> at_core_error a")
    case False
    then show ?thesis
      using Cons internal by (auto simp: register_outcome_def same_work_def)
  next
    case True
    then have e: "try_routes limiter env (a # as) s =
        (case r of
           WaitBlocked \<Rightarrow> (Blocked, t)
         | WaitCrashed \<Rightarrow> (Crashed, t)
         | WaitExpired \<Rightarrow> (Raised (request_error Expired 0 None), t)
         | WaitFailed code m \<Rightarrow>
             (case register_failure env code m of
                Some e \<Rightarrow> (Raised e, ra_post (AccGotAnswer code (at_route a)) t)
              | None \<Rightarrow> try_routes limiter env as (ra_post (AccGotAnswer code (at_route a)) t))
         | WaitSucceeded code cs \<Rightarrow>
             (Done, (ra_post (AccDidSucceed (at_route a))
                (save_gruu cs ((ra_post (AccGotAnswer code (at_route a)) t)\<lparr>ra_registered := True\<rparr>)))
              \<lparr>ra_register_wait := 1\<rparr>))"
      using w by (cases r) (simp_all add: s'_def [symmetric] t_def [symmetric] Let_def split: option.split)
    show ?thesis
    proof (cases r)
      case (WaitSucceeded code cs)
      let ?u = "save_gruu cs ((ra_post (AccGotAnswer code (at_route a)) t)\<lparr>ra_registered := True\<rparr>)"
      have "same_work s ?u" "delays_ok ?u" "ra_registered ?u"
        using t(1,2) by (auto simp: delays_ok_def ra_post_def same_work_def)
      then show ?thesis
        unfolding e WaitSucceeded
        by (auto simp: register_outcome_def same_work_def delays_ok_def ra_post_def retry_ok_def backoff_ok_def)
    next
      case (WaitFailed code m)
      show ?thesis
      proof (cases "register_failure env code m")
        case None
        then show ?thesis
          unfolding e WaitFailed using register_outcome_cong [OF t(4) Cons.IH [OF t(3)]] by simp
      next
        case (Some f)
        then show ?thesis
          unfolding e WaitFailed
          using t(3,4) register_failure_retry [OF u Some] by (simp add: register_outcome_def)
      qed
    qed (use t(1,2) internal in \<open>simp_all add: e register_outcome_def retry_ok_def del: try_routes.simps\<close>)
  qed
qed

lemma lookup_and_try_outcome:
  assumes "limit_documented limiter" "0 \<le> en_draw env" "en_draw env \<le> 1" "delays_ok s"
  shows "register_outcome s (lookup_and_try limiter env s)"
proof (cases "en_routes env")
  case None
  then show ?thesis
    using assms backoff_double [OF assms(1)] wait_retry
    by (simp add: lookup_and_try_def register_outcome_def same_work_def delays_ok_def Let_def)
next
  case (Some as)
  have "delays_ok (s\<lparr>ra_dns_wait := 1\<rparr>)" using assms(4) by (simp add: delays_ok_def backoff_ok_def)
  from try_routes_outcome [OF assms(1-3) this, of as] Some show ?thesis
    by (simp add: lookup_and_try_def register_outcome_def same_work_def)
qed

lemma init_registration_same:
  "ra_registration (init_registration env refresh s) \<noteq> None"
  "ra_queue (init_registration env refresh s) = ra_queue s"
  "ra_active (init_registration env refresh s) = ra_active s"
  "ra_started (init_registration env refresh s) = ra_started s"
  "delays_ok (init_registration env refresh s) = delays_ok s"
  by (auto simp: init_registration_def ra_post_def delays_ok_def split: option.split)

lemma ch_register_ok:
  assumes lim: "limit_documented limiter" and u: "0 \<le> en_draw env" "en_draw env \<le> 1"
    and ok: "delays_ok s" "ra_active s \<longrightarrow> ra_started s"
    and c: "ch_register limiter env refresh s = (Done, t)"
  shows "delays_ok t \<and> registrar_consistent t \<and> (ra_registered t \<or> ra_timer t \<noteq> None) \<and>
    ra_queue t = ra_queue s \<and> ra_active t = ra_active s"
proof -
  let ?s = "init_registration env refresh (s\<lparr>ra_timer := None\<rparr>)"
  obtain r v where v: "lookup_and_try limiter env ?s = (r, v)" by (cases "lookup_and_try limiter env ?s")
  have s: "delays_ok ?s" "ra_active ?s = ra_active s" "ra_started ?s = ra_started s" "ra_queue ?s = ra_queue s"
    using ok(1) by (simp_all add: init_registration_same) (simp add: delays_ok_def)
  from lookup_and_try_outcome [OF lim u s(1)] v have o: "same_work ?s v" "delays_ok v" "retry_ok r"
    "r = Done \<longrightarrow> ra_registered v" by (simp_all add: register_outcome_def)
  have v': "ra_registration v \<noteq> None" "ra_active v = ra_active s" "ra_started v = ra_started s"
    "ra_queue v = ra_queue s"
    using o(1) s init_registration_same(1) by (auto simp: same_work_def)
  show ?thesis
  proof (cases r)
    case Done
    then show ?thesis
      using c v v' o(2,4) ok(2) by (auto simp: ch_register_def registrar_consistent_def)
  next
    case (Raised e)
    then have t: "t = register_failed e v" using c v by (simp add: ch_register_def)
    show ?thesis
      unfolding t using v' o(2,3) ok(2) Raised
      by (auto simp: register_failed_def registrar_consistent_def delays_ok_def no_gruu_def ra_post_def
          Let_def retry_ok_def)
  qed (use c v in \<open>simp_all add: ch_register_def\<close>)
qed

lemma wait_unregister_note: "wait_unregister ds = (Some n, c) \<Longrightarrow> n = AccDidEnd \<or> (\<exists>x. n = AccDidNotEnd x)"
  by (induction ds rule: wait_unregister.induct) auto

text \<open>What \<open>Registration.end\<close> does, in terms of the registration's state and the core.\<close>

lemma end_registration_acts:
  "end_registration core p s =
     (if is_registered p \<and> core = Sent then ra_post SentUnregister s
      else if is_registered p then s\<lparr>ra_channel := ra_channel s @ [ExcDidNotEnd 0]\<rparr> else s)"
  by (cases core; cases "rg_last p"; cases "rg_current p")
    (simp_all add: end_registration_def registration_end_def is_registered_def on_core_error_def
      make_and_send_request_def cancel_current_def rg_emit_def bindE_def modifyE_def catchE_def raiseE_def
      retE_def post_def sends_request_def end_data_def ra_post_def Let_def)

text \<open>What ends the waiting: an end, or either failure.\<close>

definition ends_wait :: "reg_data \<Rightarrow> bool" where
  "ends_wait d = (case d of DataDidSucceed code cs \<Rightarrow> False | _ \<Rightarrow> True)"

lemma wait_unregister_ends: "fst (wait_unregister ds) \<noteq> None \<longleftrightarrow> list_ex ends_wait ds"
  by (induction ds rule: wait_unregister.induct) (simp_all add: ends_wait_def)

lemma ch_unregister_result:
  assumes "ch_unregister core p answers s = (r, t)" "ra_registered s \<longrightarrow> ra_registration s \<noteq> None"
  shows "r = (if ra_registered s \<longrightarrow>
                 is_registered p \<and> core \<noteq> Sent \<or> list_ex ends_wait (ra_channel s @ answers)
              then Done else Blocked)"
proof (cases "ra_registered s")
  case True
  let ?e = "if is_registered p \<and> core \<noteq> Sent then [ExcDidNotEnd 0] else []"
  have c: "ra_channel (end_registration core p (s\<lparr>ra_timer := None, ra_registered := False\<rparr>)) = ra_channel s @ ?e"
    by (simp add: end_registration_acts ra_post_def)
  have "r = (if fst (wait_unregister ((ra_channel s @ ?e) @ answers)) \<noteq> None then Done else Blocked)"
    using assms True c by (auto simp: ch_unregister_def Let_def split: prod.splits option.splits)
  also have "\<dots> = (if list_ex ends_wait ((ra_channel s @ ?e) @ answers) then Done else Blocked)"
    by (simp only: wait_unregister_ends)
  finally show ?thesis using True by (auto simp: ends_wait_def)
qed (use assms in \<open>auto simp: ch_unregister_def Let_def split: if_splits\<close>)

lemma ch_unregister_done:
  assumes "ch_unregister core p answers s = (Done, t)" "ra_registered s \<longrightarrow> ra_registration s \<noteq> None"
    "ra_registration s = None \<longrightarrow> ra_public_gruu s = None \<and> ra_temporary_gruu s = None"
  shows "\<not> ra_registered t \<and> ra_registration t = None \<and> ra_timer t = None \<and>
    ra_public_gruu t = None \<and> ra_temporary_gruu t = None \<and> ra_queue t = ra_queue s \<and>
    ra_active t = ra_active s \<and> ra_started t = ra_started s \<and>
    ra_dns_wait t = ra_dns_wait s \<and> ra_register_wait t = ra_register_wait s \<and>
    (if ra_registered s then
       \<exists>n. ra_log t = ra_log s @ (if is_registered p \<and> core = Sent then [SentUnregister] else []) @ [n] \<and>
        (n = AccDidEnd \<or> (\<exists>x. n = AccDidNotEnd x))
     else ra_log t = ra_log s)"
proof (cases "ra_registered s")
  case False
  then show ?thesis
    using assms by (auto simp: ch_unregister_def registrar_simps Let_def split: if_splits)
next
  case True
  let ?s = "end_registration core p (s\<lparr>ra_timer := None, ra_registered := False\<rparr>)"
  have s: "ra_timer ?s = None" "ra_registered ?s = False" "ra_queue ?s = ra_queue s" "ra_active ?s = ra_active s"
    "ra_started ?s = ra_started s" "ra_dns_wait ?s = ra_dns_wait s" "ra_register_wait ?s = ra_register_wait s"
    "ra_log ?s = ra_log s @ (if is_registered p \<and> core = Sent then [SentUnregister] else [])"
    by (simp_all add: end_registration_acts ra_post_def)
  obtain r c where w: "wait_unregister (ra_channel ?s @ answers) = (r, c)"
    by (cases "wait_unregister (ra_channel ?s @ answers)")
  show ?thesis
  proof (cases r)
    case None
    then show ?thesis using assms True w by (simp add: ch_unregister_def Let_def)
  next
    case (Some n)
    then have "t = drop_registration (ra_post n (?s\<lparr>ra_channel := c\<rparr>))"
      using assms True w by (simp add: ch_unregister_def Let_def)
    with Some True w s wait_unregister_note [of "ra_channel ?s @ answers" n c] show ?thesis
      by (simp add: registrar_simps)
  qed
qed

lemma ch_unregister_ok:
  assumes "ch_unregister core p answers s = (Done, t)" "delays_ok s" "registrar_consistent s"
  shows "delays_ok t \<and> registrar_consistent t \<and> ra_queue t = ra_queue s \<and> ra_active t = ra_active s"
proof -
  note d = ch_unregister_done [OF assms(1)]
  have "ra_registered s \<longrightarrow> ra_registration s \<noteq> None"
    "ra_registration s = None \<longrightarrow> ra_public_gruu s = None \<and> ra_temporary_gruu s = None"
    using assms(3) by (simp_all add: registrar_consistent_def)
  note d = d [OF this]
  have "\<forall>r x. AccDidFail r x \<in> set (ra_log t) \<longrightarrow> AccDidFail r x \<in> set (ra_log s)"
    using d by (auto split: if_splits)
  with d assms(2) have "delays_ok t" by (intro delays_ok_cong [OF assms(2)]) auto
  with d assms(3) show ?thesis by (simp add: registrar_consistent_def)
qed

lemma run_command_ok:
  assumes "limit_documented limiter" "0 \<le> en_draw env" "en_draw env \<le> 1" "registrar_ok s"
    and "run_command limiter env core p answers s = (Done, t)"
  shows "registrar_ok t"
proof (cases "ra_queue s")
  case Nil
  with assms(5) show ?thesis by (simp add: run_command_def)
next
  case (Cons c cs)
  let ?s = "s\<lparr>ra_queue := cs\<rparr>"
  have s: "delays_ok ?s" "registrar_consistent ?s" "ra_active ?s \<longrightarrow> ra_started ?s"
    using assms(4) by (simp_all add: registrar_ok_defs)
  have q: "ra_active s \<Longrightarrow> settled reg_effect cs (case reg_effect c of None \<Rightarrow> x | Some v \<Rightarrow> v)" for x
    using assms(4) Cons
    by (cases c) (auto simp: registrar_ok_def keeps_trying_def reg_effect_def)
  show ?thesis
  proof (cases c)
    case (CmdRegister refresh)
    with assms(5) Cons have "ch_register limiter env refresh ?s = (Done, t)"
      by (simp add: run_command_def)
    from ch_register_ok [OF assms(1-3) s(1,3) this] q CmdRegister show ?thesis
      by (auto simp: registrar_ok_def keeps_trying_def reg_effect_def)
  next
    case CmdUnregister
    with assms(5) Cons have "ch_unregister core p answers ?s = (Done, t)" by (simp add: run_command_def)
    from ch_unregister_ok [OF this s(1,2)] q CmdUnregister show ?thesis
      by (auto simp: registrar_ok_def keeps_trying_def reg_effect_def intro: settled_mono)
  next
    case CmdTerminate
    with assms(5) Cons obtain v where "ch_unregister core p answers ?s = (Done, v)" "t = v\<lparr>ra_running := False\<rparr>"
      by (cases "ch_unregister core p answers ?s" ; cases "fst (ch_unregister core p answers ?s)")
        (auto simp: run_command_def)
    with ch_unregister_ok [OF this(1) s(1,2)] q CmdTerminate show ?thesis
      by (auto simp: registrar_ok_defs reg_effect_def intro: settled_mono)
  qed
qed

lemma reg_effect_simps [simp]:
  "reg_effect (CmdRegister r) = Some True" "reg_effect CmdUnregister = Some False"
  "reg_effect CmdTerminate = Some False"
  by (simp_all add: reg_effect_def)

lemma registrar_send_ok:
  "delays_ok s \<Longrightarrow> registrar_consistent s \<Longrightarrow> ra_active s \<longrightarrow> reg_effect (last cs) = Some True \<Longrightarrow> cs \<noteq> [] \<Longrightarrow>
   registrar_ok (ra_send cs s)"
  by (cases cs rule: rev_cases)
    (auto simp: registrar_ok_def keeps_trying_def delays_ok_def registrar_consistent_def ra_send_def)

lemma registrar_parts:
  assumes "registrar_ok s"
  shows "delays_ok s" "registrar_consistent s" "registrar_ok (s\<lparr>ra_running := b\<rparr>)"
    "delays_ok (s\<lparr>ra_active := a\<rparr>)" "\<not> a \<longrightarrow> registrar_consistent (s\<lparr>ra_active := a\<rparr>)"
    "ra_started s \<longrightarrow> registrar_consistent (s\<lparr>ra_active := a\<rparr>)"
    "registrar_ok (s\<lparr>ra_started := True, ra_running := b\<rparr>)"
    "delays_ok (s\<lparr>ra_started := False, ra_active := False\<rparr>)"
    "registrar_consistent (s\<lparr>ra_started := False, ra_active := False\<rparr>)"
  using assms by (simp_all add: registrar_ok_defs)

lemma registrar_activate_ok: "registrar_ok s \<Longrightarrow> registrar_ok (snd (registrar_activate s))"
  using registrar_parts(4,6) by (auto simp: registrar_activate_def intro!: registrar_send_ok)

lemma registrar_deactivate_ok: "registrar_ok s \<Longrightarrow> registrar_ok (snd (registrar_deactivate s))"
  using registrar_parts(4,6) by (auto simp: registrar_deactivate_def intro!: registrar_send_ok)

lemma registrar_restart_ok:
  "registrar_ok s \<Longrightarrow> registrar_ok (if ra_active s then ra_send [CmdUnregister, CmdRegister None] s else s)"
  by (auto intro!: registrar_send_ok intro: registrar_parts)

lemma registrar_start_ok: "registrar_ok s \<Longrightarrow> registrar_ok (snd (registrar_start b s))"
  using registrar_activate_ok [OF registrar_parts(7)] registrar_parts(7)
  by (simp add: registrar_start_def Let_def)

lemma registrar_stop_ok: "registrar_ok s \<Longrightarrow> registrar_ok (registrar_stop s)"
  using registrar_parts(8,9) by (auto simp: registrar_stop_def intro!: registrar_send_ok)

lemma registrar_settings_ok: "registrar_ok s \<Longrightarrow> registrar_ok (snd (registrar_settings_changed m b s))"
  using registrar_activate_ok registrar_deactivate_ok registrar_restart_ok [of s]
  by (auto simp: registrar_settings_changed_def)

lemma registrar_timer_ok: "registrar_ok s \<Longrightarrow> registrar_ok (registration_timer_fires s)"
  by (cases "ra_timer s")
    (auto simp: registration_timer_fires_def ra_send_def registrar_ok_defs)

lemma registrar_step_ok:
  assumes "registrar_step limiter s e t" "limit_documented limiter" "registrar_ok s"
  shows "registrar_ok t"
  using assms
proof (cases rule: registrar_step.cases)
  case (run env core p answers)
  then show ?thesis using assms(2,3) run_command_ok by blast
next
  case (data ds)
  then show ?thesis using assms(3) by (simp add: registrar_ok_defs)
next
  case expire
  then show ?thesis
    using assms(3) by (auto simp: registration_will_expire_def intro!: registrar_send_ok intro: registrar_parts)
qed (use assms(3) in \<open>simp_all add: registrar_start_ok registrar_stop_ok registrar_activate_ok
    registrar_deactivate_ok registrar_settings_ok registrar_timer_ok reregister_def
    registrar_network_changed_def registrar_restart_ok [simplified]\<close>)

lemma registrar_reachable_ok:
  "registrar_reachable limiter s \<Longrightarrow> limit_documented limiter \<Longrightarrow> registrar_ok s"
proof (induction rule: registrar_reachable.induct)
  case reach_init
  show ?case by (simp add: registrar_init_def registrar_ok_defs backoff_ok_def)
next
  case (reach_step s e t)
  then show ?case by (blast intro: registrar_step_ok)
qed

section \<open>Properties\<close>

text \<open>
  C16. An active registrar never gives up: in every reachable state - after any mix of calls,
  settings changes, network changes, expirations and commands that ran to their end - it is
  registered, or a timer that registers again is pending, or a register command that no later
  command undoes is in its queue.
\<close>

theorem registrar_keeps_trying:
  assumes "registrar_reachable limiter s" "limit_documented limiter" "ra_active s"
  shows "ra_started s \<and> settled reg_effect (ra_queue s) (ra_registered s \<or> ra_timer s \<noteq> None)"
  using registrar_reachable_ok [OF assms(1,2)] assms(3) by (auto simp: registrar_ok_defs)

definition sample_env :: reg_env where
  "sample_env =
     \<lparr>en_routes = Some [\<lparr>at_route = ''r1'', at_time_left = True, at_contact = True, at_core_error = False,
                          at_answers = [ExcDidFail 408 None]\<rparr>,
                        \<lparr>at_route = ''r2'', at_time_left = True, at_contact = True, at_core_error = False,
                          at_answers = [ExcDidFail 423 (Some 900)]\<rparr>],
      en_draw = 1 / 2, en_interval = 600\<rparr>"

lemma sample_registrar_reachable:
  "registrar_reachable min (snd (ch_register min sample_env None
     (registrar_init\<lparr>ra_started := True, ra_running := True, ra_active := True\<rparr>)))"
proof -
  let ?s = "snd (registrar_start True registrar_init)"
  have "registrar_reachable min ?s" by (rule reach_step [OF reach_init start])
  moreover have "run_command min sample_env Sent (registration_init 600) [] ?s = (Done, snd (ch_register min sample_env None
      (registrar_init\<lparr>ra_started := True, ra_running := True, ra_active := True\<rparr>)))"
    by (simp add: registrar_start_def registrar_activate_def registrar_init_def ra_send_def run_command_def
        ch_register_def lookup_and_try_def init_registration_def sample_env_def ra_post_def
        register_failure_def Let_def)
  moreover have "ra_running ?s" "0 \<le> en_draw sample_env" "en_draw sample_env \<le> 1"
    by (simp_all add: registrar_start_def registrar_activate_def registrar_init_def ra_send_def
        sample_env_def Let_def)
  ultimately show ?thesis by (metis reach_step run)
qed

lemma sample_registrar:
  "snd (ch_register min sample_env None
     (registrar_init\<lparr>ra_started := True, ra_running := True, ra_active := True\<rparr>)) =
   \<lparr>ra_started = True, ra_active = True, ra_registered = False, ra_running = True, ra_queue = [],
    ra_channel = [], ra_registration = None, ra_dns_wait = 1, ra_register_wait = 1,
    ra_timer = Some \<lparr>rt_delay = 90, rt_refresh = Some 900\<rparr>, ra_public_gruu = None,
    ra_temporary_gruu = None,
    ra_log = [AccWillRegister, SentRegister 600 ''r1'', AccGotAnswer 408 ''r1'', SentRegister 600 ''r2'',
      AccGotAnswer 423 ''r2'', AccDidFail IntervalTooShort 90]\<rparr>"
  by (simp add: registrar_init_def ch_register_def lookup_and_try_def init_registration_def sample_env_def
      ra_post_def register_failure_def register_failed_def no_gruu_def interval_or_def
      min_expires_refresh_def request_error_def uniform_def Let_def)

lemma min_documented: "limit_documented min"
  by (simp add: limit_documented_def)

theorem registrar_keeps_trying_witness:
  "settled reg_effect [] (False \<or> Some \<lparr>rt_delay = 90, rt_refresh = Some 900\<rparr> \<noteq> None)"
  using registrar_keeps_trying [OF sample_registrar_reachable min_documented] unfolding sample_registrar
  by simp

text \<open>
  C17. The registrar backs off within bounds: in every reachable state both waiting times are
  between 1 and 30 seconds, and every failure it ever reported announced a retry after at least
  0 and at most 120 seconds.
\<close>

theorem registrar_backoff_bounded:
  assumes "registrar_reachable limiter s" "limit_documented limiter"
  shows "backoff_ok (ra_dns_wait s) \<and> backoff_ok (ra_register_wait s) \<and>
    list_all (\<lambda>n. case n of AccDidFail reason d \<Rightarrow> 0 \<le> d \<and> d \<le> 120 | _ \<Rightarrow> True) (ra_log s)"
  using registrar_reachable_ok [OF assms]
  by (auto simp: registrar_ok_def delays_ok_def list_all_iff split: account_note.split)

theorem registrar_backoff_bounded_witness:
  "list_all (\<lambda>n. case n of AccDidFail reason d \<Rightarrow> 0 \<le> d \<and> d \<le> 120 | _ \<Rightarrow> True)
     [AccWillRegister, SentRegister 600 ''r1'', AccGotAnswer 408 ''r1'', SentRegister 600 ''r2'',
      AccGotAnswer 423 ''r2'', AccDidFail IntervalTooShort 90]"
  using registrar_backoff_bounded [OF sample_registrar_reachable min_documented] unfolding sample_registrar
  by simp

text \<open>
  C18. Unregistering leaves nothing behind. In every reachable state of the registrar, and
  whatever state its \<open>Registration\<close> is in, the command is done unless the registrar was
  registered and nothing that ends the waiting arrives: no end or failure is on the channel or
  comes, and the core did not refuse the request. Once it is done the registrar is not
  registered and has no registration, no retry timer and no GRUU. If it was registered it
  reported the end exactly once (or that the end failed), and it had sent a request exactly when
  the registration had not expired and the core accepted the request; otherwise nothing was
  sent or reported.
\<close>

theorem registrar_unregister_complete:
  assumes "registrar_reachable limiter s" "limit_documented limiter"
  shows "let (r, t) = ch_unregister core p answers s in
    r = (if ra_registered s \<and> \<not> (is_registered p \<and> core \<noteq> Sent) \<and>
            \<not> list_ex ends_wait (ra_channel s @ answers) then Blocked else Done) \<and>
    (r = Done \<longrightarrow>
       \<not> ra_registered t \<and> ra_registration t = None \<and> ra_timer t = None \<and>
       ra_public_gruu t = None \<and> ra_temporary_gruu t = None \<and>
       (if ra_registered s then
          \<exists>n. ra_log t = ra_log s @ (if is_registered p \<and> core = Sent then [SentUnregister] else []) @ [n] \<and>
            (n = AccDidEnd \<or> (\<exists>code. n = AccDidNotEnd code))
        else ra_log t = ra_log s))"
proof -
  obtain r t where t: "ch_unregister core p answers s = (r, t)" by (cases "ch_unregister core p answers s")
  have ok: "ra_registered s \<longrightarrow> ra_registration s \<noteq> None"
    "ra_registration s = None \<longrightarrow> ra_public_gruu s = None \<and> ra_temporary_gruu s = None"
    using registrar_reachable_ok [OF assms] by (simp_all add: registrar_ok_defs)
  have "r = Done \<Longrightarrow> ?thesis" using ch_unregister_result [OF t ok(1)] ch_unregister_done [OF _ ok, of core p answers t] t
    by auto
  moreover have "r \<noteq> Done \<Longrightarrow> ?thesis" using ch_unregister_result [OF t ok(1)] t by auto
  ultimately show ?thesis by blast
qed

definition accepting_env :: reg_env where
  "accepting_env =
     \<lparr>en_routes = Some [\<lparr>at_route = ''r1'', at_time_left = True, at_contact = True, at_core_error = False,
                          at_answers = [DataDidSucceed 200 []]\<rparr>],
      en_draw = 1 / 2, en_interval = 600\<rparr>"

definition registered_sample :: registrar where
  "registered_sample =
     \<lparr>ra_started = True, ra_active = True, ra_registered = True, ra_running = True, ra_queue = [],
      ra_channel = [], ra_registration = Some 600, ra_dns_wait = 1, ra_register_wait = 1, ra_timer = None,
      ra_public_gruu = None, ra_temporary_gruu = None,
      ra_log = [AccWillRegister, SentRegister 600 ''r1'', AccGotAnswer 200 ''r1'', AccDidSucceed ''r1'']\<rparr>"

lemma registered_sample_reachable: "registrar_reachable min registered_sample"
proof -
  let ?s = "snd (registrar_start True registrar_init)"
  have "registrar_reachable min ?s" by (rule reach_step [OF reach_init start])
  moreover have "run_command min accepting_env Sent (registration_init 600) [] ?s = (Done, registered_sample)"
    by (simp add: registrar_start_def registrar_activate_def registrar_init_def ra_send_def run_command_def
        ch_register_def lookup_and_try_def init_registration_def accepting_env_def registered_sample_def
        ra_post_def save_gruu_def no_gruu_def interval_or_def Let_def)
  moreover have "ra_running ?s" "0 \<le> en_draw accepting_env" "en_draw accepting_env \<le> 1"
    by (simp_all add: registrar_start_def registrar_activate_def registrar_init_def ra_send_def
        accepting_env_def Let_def)
  ultimately show ?thesis by (metis reach_step run)
qed

definition sample_register_request :: request where
  "sample_register_request =
     \<lparr>rq_id = 0, rq_call_id = 0, rq_cseq = 1, rq_contact = ''c'', rq_route = ''r1'', rq_expires = 600\<rparr>"

theorem registrar_unregister_complete_witness:
  "(\<exists>t n. ch_unregister Sent ((registration_init 600)\<lparr>rg_last := Some sample_register_request\<rparr>) [DataDidEnd]
      registered_sample = (Done, t) \<and>
     ra_log t = ra_log registered_sample @ [SentUnregister, n] \<and> ra_registration t = None) \<and>
   (\<exists>t n. ch_unregister Sent (registration_init 600) [DataDidEnd] registered_sample = (Done, t) \<and>
     ra_log t = ra_log registered_sample @ [n]) \<and>
   fst (ch_unregister Sent (registration_init 600) [] registered_sample) = Blocked"
proof -
  let ?p = "(registration_init 600)\<lparr>rg_last := Some sample_register_request\<rparr>"
  note c18 = registrar_unregister_complete [OF registered_sample_reachable min_documented]
  have s: "ra_registered registered_sample" "ra_channel registered_sample = []" "is_registered ?p"
    "\<not> is_registered (registration_init 600)" "ends_wait DataDidEnd"
    by (simp_all add: registered_sample_def is_registered_def registration_init_def ends_wait_def)
  have "\<exists>t n. ch_unregister Sent ?p [DataDidEnd] registered_sample = (Done, t) \<and>
     ra_log t = ra_log registered_sample @ [SentUnregister, n] \<and> ra_registration t = None"
    using c18 [of Sent ?p "[DataDidEnd]"] s by (auto split: prod.splits)
  moreover have "\<exists>t n. ch_unregister Sent (registration_init 600) [DataDidEnd] registered_sample = (Done, t) \<and>
     ra_log t = ra_log registered_sample @ [n]"
    using c18 [of Sent "registration_init 600" "[DataDidEnd]"] s by (auto split: prod.splits)
  moreover have "fst (ch_unregister Sent (registration_init 600) [] registered_sample) = Blocked"
    using c18 [of Sent "registration_init 600" "[]"] s by (auto split: prod.splits)
  ultimately show ?thesis by blast
qed

end
