(* ===== verification/Publisher.thy ===== *)
theory Publisher
  imports Agents Requests
begin

text \<open>
  The publishers of an account, \<open>sipsimple/account/publication.py\<close>: the process that publishes
  a document, refreshes it and withdraws it, composed with the \<open>Publication\<close> it drives. While
  the process waits for an answer anything else may happen: the core answers, the document is
  set, the publisher is stopped.
\<close>

section \<open>State\<close>

text \<open>A document: its root element and its text.\<close>

record document =
  doc_root :: string
  doc_xml :: string

datatype command_state = NoDocument | SameState | NewState document

definition command_document :: "document option \<Rightarrow> command_state" where
  "command_document d = (case d of None \<Rightarrow> NoDocument | Some d \<Rightarrow> NewState d)"

datatype pub_command =
    PubPublish command_state "int option"
  | PubUnpublish
  | PubTerminate

datatype pub_data = PubSucceeded | PubEnded | ExcPubFailed int | ExcPubNotEnded

datatype publisher_note =
    PuWillPublish document int | PuWillRefresh command_state
  | PuDidFail failure_reason | PuDidSucceed | PuDidEnd | PuDidNotEnd

record publisher =
  pu_started :: bool
  pu_active :: bool
  pu_publishing :: bool
  pu_running :: bool
  pu_queue :: "pub_command list"
  pu_channel :: "pub_data list"
  pu_publication :: "publication option"
  pu_dns_wait :: int
  pu_publish_wait :: int
  pu_timer :: "retry_timer option"
  pu_state :: "document option"
  pu_log :: "publisher_note list"

definition publisher_init :: publisher where
  "publisher_init =
     \<lparr>pu_started = False, pu_active = False, pu_publishing = False, pu_running = False, pu_queue = [],
      pu_channel = [], pu_publication = None, pu_dns_wait = 1, pu_publish_wait = 1, pu_timer = None,
      pu_state = None, pu_log = []\<rparr>"

definition pu_post :: "publisher_note \<Rightarrow> publisher \<Rightarrow> publisher" where
  "pu_post n s = s\<lparr>pu_log := pu_log s @ [n]\<rparr>"

definition pu_send :: "pub_command list \<Rightarrow> publisher \<Rightarrow> publisher" where
  "pu_send cs s = s\<lparr>pu_queue := pu_queue s @ cs\<rparr>"

section \<open>What may happen at any time\<close>

definition publish_state :: "command_state \<Rightarrow> publisher \<Rightarrow> publisher" where
  "publish_state c s =
     (if \<not> pu_active s then s
      else if c = NoDocument then pu_send [PubUnpublish] s
      else pu_send [PubPublish c None] s)"

text \<open>The property \<open>state\<close>: \<open>same\<close> is the comparison of the document's class.\<close>

definition set_state ::
  "string \<Rightarrow> (document \<Rightarrow> document \<Rightarrow> bool) \<Rightarrow> document option \<Rightarrow> (publisher, unit) eff" where
  "set_state elem same new s =
     (if new \<noteq> None \<and> doc_root (the new) \<noteq> elem then (Inl ValueError, s)
      else
        let old = pu_state s;
            s = s\<lparr>pu_state := new\<rparr>;
            equal = (case (new, old) of (None, None) \<Rightarrow> True | (Some d, Some d') \<Rightarrow> same d d' | _ \<Rightarrow> False)
        in (Inr (), if equal then s else publish_state (command_document new) s))"

definition publisher_activate :: "(publisher, unit) eff" where
  "publisher_activate s =
     (if \<not> pu_started s then (Inl RuntimeError, s)
      else (Inr (), pu_send [PubPublish (command_document (pu_state s)) None] (s\<lparr>pu_active := True\<rparr>)))"

definition publisher_deactivate :: "(publisher, unit) eff" where
  "publisher_deactivate s =
     (if \<not> pu_started s then (Inl RuntimeError, s)
      else (Inr (), pu_send [PubUnpublish] (s\<lparr>pu_active := False\<rparr>)))"

text \<open>\<open>start\<close>, with the handler of the start notification of a presence or dialog publisher.\<close>

definition publisher_start :: "bool \<Rightarrow> (publisher, unit) eff" where
  "publisher_start presence_enabled s =
     (if pu_started s then (Inr (), s)
      else
        let s = s\<lparr>pu_started := True, pu_running := True\<rparr>
        in if presence_enabled then publisher_activate s else (Inr (), s))"

definition publisher_stop :: "publisher \<Rightarrow> publisher" where
  "publisher_stop s =
     (if \<not> pu_started s then s
      else pu_send [PubTerminate] (s\<lparr>pu_started := False, pu_active := False\<rparr>))"

definition publisher_settings :: "string set" where
  "publisher_settings =
     {''__id__'', ''auth.password'', ''auth.username'', ''sip.outbound_proxy'', ''sip.transport_list'',
      ''sip.publish_interval''}"

definition republish :: "publisher \<Rightarrow> publisher" where
  "republish s = pu_send [PubUnpublish, PubPublish (command_document (pu_state s)) None] s"

definition publisher_settings_changed :: "string set \<Rightarrow> bool \<Rightarrow> (publisher, unit) eff" where
  "publisher_settings_changed modified presence_enabled s =
     (if \<not> pu_started s then (Inr (), s)
      else if ''enabled'' \<in> modified then (Inr (), s)
      else if ''presence.enabled'' \<in> modified then
        (if presence_enabled then publisher_activate s else publisher_deactivate s)
      else if pu_active s \<and> publisher_settings \<inter> modified \<noteq> {} then (Inr (), republish s)
      else (Inr (), s))"

definition publisher_network_changed :: "publisher \<Rightarrow> publisher" where
  "publisher_network_changed s = (if pu_active s then republish s else s)"

text \<open>The notifications of the publication the publisher observes.\<close>

fun publication_notified :: "publication_note action \<Rightarrow> publisher \<Rightarrow> publisher" where
  "publication_notified (Post (PubDidSucceed code expires route)) s = s\<lparr>pu_channel := pu_channel s @ [PubSucceeded]\<rparr>"
| "publication_notified (Post (PubDidFail code route)) s = s\<lparr>pu_channel := pu_channel s @ [ExcPubFailed code]\<rparr>"
| "publication_notified (Post (PubDidEnd expired)) s = s\<lparr>pu_channel := pu_channel s @ [PubEnded]\<rparr>"
| "publication_notified (Post (PubDidNotEnd code)) s = s\<lparr>pu_channel := pu_channel s @ [ExcPubNotEnded]\<rparr>"
| "publication_notified (Post (PubWillExpire expires)) s = publish_state SameState s"
| "publication_notified a s = s"

text \<open>
  An operation of the publication, or a notification of the core for it, with the notifications
  it posts.
\<close>

definition with_publication :: "(publication, 'a) eff \<Rightarrow> publication \<Rightarrow> (publisher, 'a) eff" where
  "with_publication m p s =
     (case m p of
        (r, p') \<Rightarrow>
          (r, fold publication_notified (drop (length (pb_log p)) (pb_log p'))
                (s\<lparr>pu_publication := Some p'\<rparr>)))"

definition core_event :: "request_event \<Rightarrow> publisher \<Rightarrow> publisher" where
  "core_event e s =
     (case pu_publication s of
        None \<Rightarrow> s
      | Some p \<Rightarrow> snd (with_publication (modifyE (publication_step (PubEvent e))) p s))"

datatype happening =
    CoreEvent request_event
  | SetState string "document \<Rightarrow> document \<Rightarrow> bool" "document option"
  | Activate | Deactivate | Stop
  | SettingsChanged "string set" bool
  | NetworkChanged

fun happens :: "happening \<Rightarrow> publisher \<Rightarrow> publisher" where
  "happens (CoreEvent e) s = core_event e s"
| "happens (SetState elem same d) s = snd (set_state elem same d s)"
| "happens Activate s = snd (publisher_activate s)"
| "happens Deactivate s = snd (publisher_deactivate s)"
| "happens Stop s = publisher_stop s"
| "happens (SettingsChanged m b) s = snd (publisher_settings_changed m b s)"
| "happens NetworkChanged s = publisher_network_changed s"

section \<open>Publishing\<close>

text \<open>
  One route: whether time is left, what the core does with the request and with the one that
  repeats it with a body, and what happens until the answer arrives.
\<close>

record pub_attempt =
  pa_route :: string
  pa_time_left :: bool
  pa_core :: core_outcome
  pa_retry_core :: core_outcome
  pa_happenings :: "happening list"

record pub_env =
  pe_routes :: "pub_attempt list option"
  pe_draw :: rat
  pe_interval :: int

text \<open>Waiting on the data channel: what happens is needed only while the channel is empty.\<close>

fun wait_data :: "happening list \<Rightarrow> publisher \<Rightarrow> pub_data option \<times> publisher" where
  "wait_data hs s =
     (case pu_channel s of
        d # ds \<Rightarrow> (Some d, s\<lparr>pu_channel := ds\<rparr>)
      | [] \<Rightarrow> (case hs of [] \<Rightarrow> (None, s) | h # hs' \<Rightarrow> wait_data hs' (happens h s)))"

datatype publish_result = Published | Returned | PubRaised request_error | PubCrashed | PubBlocked

text \<open>
  Sending a PUBLISH on a route: \<open>None\<close> when it is on its way. A tag error repeats it with the
  publisher's own document, or gives up quietly when there is none by now.
\<close>

definition send_publish :: "pub_attempt \<Rightarrow> string option \<Rightarrow> (publisher, publish_result option) eff" where
  "send_publish a body s =
     (case with_publication (publication_publish (pa_core a) body (pa_route a)) (the (pu_publication s)) s of
        (Inr u, s) \<Rightarrow> (Inr None, s)
      | (Inl ValueError, s) \<Rightarrow> (Inr (Some (PubRaised (request_error NoInitialBody 0 None))), s)
      | (Inl PublicationETagError, s) \<Rightarrow>
          (case pu_state s of
             None \<Rightarrow> (Inr (Some Returned), s)
           | Some d \<Rightarrow>
               (case with_publication (publication_publish (pa_retry_core a) (Some (doc_xml d)) (pa_route a))
                       (the (pu_publication s)) s of
                  (Inr u, s) \<Rightarrow> (Inr None, s)
                | (Inl SIPCoreError, s) \<Rightarrow> (Inr (Some (PubRaised (request_error InternalError 5 None))), s)
                | (Inl e, s) \<Rightarrow> (Inl e, s)))
      | (Inl SIPCoreError, s) \<Rightarrow> (Inr (Some (PubRaised (request_error InternalError 5 None))), s)
      | (Inl e, s) \<Rightarrow> (Inl e, s))"

text \<open>
  The error a failure stands for; \<open>None\<close>: try the next route. For 423 the code reads
  \<open>e.data.min_expires\<close>, which the data of \<open>SIPPublicationDidFail\<close> does not have.
\<close>

definition publish_failure :: "pub_env \<Rightarrow> int \<Rightarrow> request_error option result" where
  "publish_failure env code =
     (if code = 407 then Inr (Some (request_error AuthenticationFailed (uniform 60 120 (pe_draw env)) None))
      else if code = 412 then Inr (Some (request_error ConditionalFailed 0 None))
      else if code = 423 then Inl AttributeError
      else if code \<in> {405, 406, 489} then Inr (Some (request_error NotSupported 3600 None))
      else Inr None)"

definition publish_answered :: "pub_env \<Rightarrow> pub_data option \<Rightarrow> publish_result option" where
  "publish_answered env d =
     (case d of
        None \<Rightarrow> Some PubBlocked
      | Some PubSucceeded \<Rightarrow> Some Published
      | Some PubEnded \<Rightarrow> Some (PubRaised (request_error Expired 0 None))
      | Some ExcPubNotEnded \<Rightarrow> Some PubCrashed
      | Some (ExcPubFailed code) \<Rightarrow>
          (case publish_failure env code of
             Inl e \<Rightarrow> Some PubCrashed
           | Inr None \<Rightarrow> None
           | Inr (Some e) \<Rightarrow> Some (PubRaised e)))"

fun try_publish ::
  "(int \<Rightarrow> int \<Rightarrow> int) \<Rightarrow> pub_env \<Rightarrow> string option \<Rightarrow> pub_attempt list \<Rightarrow> publisher \<Rightarrow>
   publish_result \<times> publisher" where
  "try_publish limiter env body [] s =
     (let retry_after = uniform (of_int (pu_publish_wait s)) (of_int (2 * pu_publish_wait s)) (pe_draw env)
      in (PubRaised (request_error NoMoreRoutes retry_after None),
          s\<lparr>pu_publish_wait := limiter (pu_publish_wait s * 2) 30\<rparr>))"
| "try_publish limiter env body (a # as) s =
     (if \<not> pa_time_left a then try_publish limiter env body as s
      else
        case send_publish a body s of
          (Inl e, s) \<Rightarrow> (PubCrashed, s)
        | (Inr (Some r), s) \<Rightarrow> (r, s)
        | (Inr None, s) \<Rightarrow>
            (case wait_data (pa_happenings a) s of
               (d, s) \<Rightarrow>
                 (case publish_answered env d of
                    None \<Rightarrow> try_publish limiter env body as s
                  | Some Published \<Rightarrow> (Published, s\<lparr>pu_publishing := True, pu_publish_wait := 1\<rparr>)
                  | Some r \<Rightarrow> (r, s))))"

definition lookup_and_publish ::
  "(int \<Rightarrow> int \<Rightarrow> int) \<Rightarrow> pub_env \<Rightarrow> command_state \<Rightarrow> publisher \<Rightarrow> publish_result \<times> publisher" where
  "lookup_and_publish limiter env c s =
     (case pe_routes env of
        None \<Rightarrow>
          (let retry_after = uniform (of_int (pu_dns_wait s)) (of_int (2 * pu_dns_wait s)) (pe_draw env)
           in (PubRaised (request_error LookupFailed retry_after None),
               s\<lparr>pu_dns_wait := limiter (2 * pu_dns_wait s) 30\<rparr>))
      | Some attempts \<Rightarrow>
          (let body = (case c of NewState d \<Rightarrow> Some (doc_xml d) | _ \<Rightarrow> None)
           in try_publish limiter env body attempts (s\<lparr>pu_dns_wait := 1\<rparr>)))"

definition init_publication :: "pub_env \<Rightarrow> command_state \<Rightarrow> int option \<Rightarrow> publisher \<Rightarrow> publisher" where
  "init_publication env c refresh s =
     (case (pu_publication s, c) of
        (None, NewState d) \<Rightarrow>
          (let duration = interval_or refresh (pe_interval env)
           in pu_post (PuWillPublish d duration) (s\<lparr>pu_publication := Some (publication_init duration)\<rparr>))
      | _ \<Rightarrow> pu_post (PuWillRefresh c) s)"

text \<open>\<open>except PublicationError\<close>: the publication is dropped and a timer publishes again.\<close>

definition publish_failed :: "request_error \<Rightarrow> publisher \<Rightarrow> publisher" where
  "publish_failed e s =
     pu_post (PuDidFail (re_error e))
       (s\<lparr>pu_publishing := False,
          pu_timer := Some \<lparr>rt_delay = re_retry_after e, rt_refresh = re_refresh e\<rparr>,
          pu_publication := None\<rparr>)"

definition ch_publish ::
  "(int \<Rightarrow> int \<Rightarrow> int) \<Rightarrow> pub_env \<Rightarrow> command_state \<Rightarrow> int option \<Rightarrow> publisher \<Rightarrow> command_result \<times> publisher" where
  "ch_publish limiter env c refresh s =
     (if c = NoDocument \<or> pu_publication s = None \<and> c = SameState then (Done, s)
      else
        case lookup_and_publish limiter env c (init_publication env c refresh (s\<lparr>pu_timer := None\<rparr>)) of
          (Published, s) \<Rightarrow> (Done, pu_post PuDidSucceed s)
        | (Returned, s) \<Rightarrow> (Done, s)
        | (PubRaised e, s) \<Rightarrow> (Done, publish_failed e s)
        | (PubCrashed, s) \<Rightarrow> (Crashed, s)
        | (PubBlocked, s) \<Rightarrow> (Blocked, s))"

text \<open>The timer's closure.\<close>

definition publication_timer_fires :: "publisher \<Rightarrow> publisher" where
  "publication_timer_fires s =
     (case pu_timer s of
        None \<Rightarrow> s
      | Some t \<Rightarrow>
          (if pu_active s then pu_send [PubPublish (command_document (pu_state s)) (rt_refresh t)] s
           else s)\<lparr>pu_timer := None\<rparr>)"

section \<open>Withdrawing\<close>

text \<open>Items other than the end are read and dropped; \<open>None\<close>: still waiting.\<close>

fun wait_end :: "happening list \<Rightarrow> publisher \<Rightarrow> publisher_note option \<times> publisher" where
  "wait_end hs s =
     (case List.find (\<lambda>d. d \<noteq> PubSucceeded) (pu_channel s) of
        Some d \<Rightarrow>
          (Some (if d = PubEnded then PuDidEnd else PuDidNotEnd),
           s\<lparr>pu_channel := tl (dropWhile (\<lambda>d. d = PubSucceeded) (pu_channel s))\<rparr>)
      | None \<Rightarrow>
          (case hs of
             [] \<Rightarrow> (None, s\<lparr>pu_channel := []\<rparr>)
           | h # hs' \<Rightarrow> wait_end hs' (happens h (s\<lparr>pu_channel := []\<rparr>))))"

definition ch_unpublish :: "core_outcome \<Rightarrow> happening list \<Rightarrow> publisher \<Rightarrow> command_result \<times> publisher" where
  "ch_unpublish core hs s =
     (let publishing = pu_publishing s;
          s = s\<lparr>pu_timer := None, pu_publishing := False\<rparr>
      in case pu_publication s of
           None \<Rightarrow> (Done, s)
         | Some p \<Rightarrow>
             if publishing then
               (case wait_end hs (snd (with_publication (publication_end core) p s)) of
                  (None, s) \<Rightarrow> (Blocked, s)
                | (Some n, s) \<Rightarrow> (Done, (pu_post n s)\<lparr>pu_publication := None\<rparr>))
             else (Done, s\<lparr>pu_publication := None\<rparr>))"

text \<open>
  \<open>_run\<close>: the next command is handled; a terminate command ends the process, and so does an
  exception that its handler does not catch.
\<close>

definition run_publisher ::
  "(int \<Rightarrow> int \<Rightarrow> int) \<Rightarrow> pub_env \<Rightarrow> core_outcome \<Rightarrow> happening list \<Rightarrow> publisher \<Rightarrow> command_result \<times> publisher" where
  "run_publisher limiter env core hs s =
     (case pu_queue s of
        [] \<Rightarrow> (Blocked, s)
      | c # cs \<Rightarrow>
          (let s = s\<lparr>pu_queue := cs\<rparr>
           in case c of
                PubPublish d refresh \<Rightarrow>
                  (case ch_publish limiter env d refresh s of
                     (Crashed, s) \<Rightarrow> (Crashed, s\<lparr>pu_running := False\<rparr>)
                   | r \<Rightarrow> r)
              | PubUnpublish \<Rightarrow> ch_unpublish core hs s
              | PubTerminate \<Rightarrow>
                  (case ch_unpublish core hs s of
                     (Done, s) \<Rightarrow> (Done, s\<lparr>pu_running := False\<rparr>)
                   | r \<Rightarrow> r)))"

text \<open>
  The runs of a publisher. It is started again only after \<open>stop\<close> has returned, that is after
  its process has handled the terminate command.
\<close>

inductive publisher_step :: "(int \<Rightarrow> int \<Rightarrow> int) \<Rightarrow> publisher \<Rightarrow> publisher \<Rightarrow> bool" for limiter where
  start: "\<not> pu_running s \<and> PubTerminate \<notin> set (pu_queue s) \<or> pu_started s \<Longrightarrow>
    publisher_step limiter s (snd (publisher_start b s))"
| happening: "publisher_step limiter s (happens h s)"
| timer: "publisher_step limiter s (publication_timer_fires s)"
| run: "pu_running s \<Longrightarrow> 0 \<le> pe_draw env \<Longrightarrow> pe_draw env \<le> 1 \<Longrightarrow>
    run_publisher limiter env core hs s = (r, t) \<Longrightarrow> r \<noteq> Blocked \<Longrightarrow> publisher_step limiter s t"

inductive publisher_reachable :: "(int \<Rightarrow> int \<Rightarrow> int) \<Rightarrow> publisher \<Rightarrow> bool" for limiter where
  init: "publisher_reachable limiter publisher_init"
| step: "publisher_reachable limiter s \<Longrightarrow> publisher_step limiter s t \<Longrightarrow> publisher_reachable limiter t"

section \<open>What a publisher keeps\<close>

text \<open>What ties the data channel to the publication, apart from a request in progress.\<close>

definition channel_ok :: "publisher \<Rightarrow> bool" where
  "channel_ok s =
     (pu_channel s \<in> {[], [PubEnded]} \<and>
      (\<forall>p. pu_publication s = Some p \<longrightarrow>
         \<not> pb_unpublishing p \<and> (is_published p \<longrightarrow> pu_publishing s \<and> pu_channel s = [])) \<and>
      (pu_publishing s \<longrightarrow>
         (\<exists>p. pu_publication s = Some p \<and> (is_published p \<or> pu_channel s = [PubEnded]))))"

definition idle :: "publisher \<Rightarrow> bool" where
  "idle s = (channel_ok s \<and> (\<forall>p. pu_publication s = Some p \<longrightarrow> pb_current p = None))"

text \<open>What the commands read and change but for the queue, the document and the flags.\<close>

definition pu_view :: "publisher \<Rightarrow> bool \<times> pub_data list \<times> publication option" where
  "pu_view s = (pu_publishing s, pu_channel s, pu_publication s)"

lemma view_cong:
  "pu_view t = pu_view s \<Longrightarrow> channel_ok t = channel_ok s" "pu_view t = pu_view s \<Longrightarrow> idle t = idle s"
  by (auto simp: pu_view_def channel_ok_def idle_def)

definition pub_effect :: "pub_command \<Rightarrow> bool option" where
  "pub_effect c =
     (case c of
        PubPublish d r \<Rightarrow> (case d of NewState x \<Rightarrow> Some True | _ \<Rightarrow> None)
      | PubUnpublish \<Rightarrow> Some False
      | PubTerminate \<Rightarrow> Some False)"

lemma pub_effect_simps [simp]:
  "pub_effect (PubPublish (NewState d) r) = Some True" "pub_effect (PubPublish NoDocument r) = None"
  "pub_effect (PubPublish SameState r) = None" "pub_effect PubUnpublish = Some False"
  "pub_effect PubTerminate = Some False"
  by (simp_all add: pub_effect_def)

text \<open>An active publisher with a document will have published it after its queue, given \<open>b\<close> now.\<close>

definition publishes :: "bool \<Rightarrow> publisher \<Rightarrow> bool" where
  "publishes b s = (pu_active s \<and> pu_state s \<noteq> None \<longrightarrow> settled pub_effect (pu_queue s) b)"

definition active_started :: "publisher \<Rightarrow> bool" where
  "active_started s = (pu_active s \<longrightarrow> pu_started s)"

text \<open>A process that was not asked to end will still be there.\<close>

definition kept :: "publisher \<Rightarrow> bool" where
  "kept s = (pu_started s \<or> PubTerminate \<in> set (pu_queue s))"

text \<open>What other operations than the commands leave alone.\<close>

definition same_process :: "publisher \<Rightarrow> publisher \<Rightarrow> bool" where
  "same_process s t = (pu_timer t = pu_timer s \<and> pu_running t = pu_running s)"

lemmas publisher_ops =
  pu_send_def pu_post_def publish_state_def set_state_def publisher_activate_def publisher_deactivate_def
  publisher_stop_def publisher_settings_changed_def publisher_network_changed_def republish_def

lemma command_document_simps [simp]:
  "command_document None = NoDocument" "command_document (Some d) = NewState d"
  by (simp_all add: command_document_def)

lemma publish_state_keeps:
  "pu_view (publish_state c s) = pu_view s" "same_process s (publish_state c s)"
  "publishes b s \<Longrightarrow> c \<noteq> NoDocument \<Longrightarrow> publishes b (publish_state c s)"
  "active_started (publish_state c s) = active_started s"
  by (cases c; auto simp: publish_state_def pu_send_def pu_view_def same_process_def publishes_def
      active_started_def)+

text \<open>What a notification of the publication leaves alone.\<close>

definition notified_frame :: "publisher \<Rightarrow> publisher \<Rightarrow> bool" where
  "notified_frame s t =
     (same_process s t \<and> (\<forall>b. publishes b s \<longrightarrow> publishes b t) \<and> active_started t = active_started s \<and>
      (kept s \<longrightarrow> kept t) \<and> pu_publication t = pu_publication s \<and> pu_publishing t = pu_publishing s \<and>
      pu_state t = pu_state s \<and> pu_active t = pu_active s \<and> pu_log t = pu_log s)"

lemma notified_frame: "notified_frame s (publication_notified a s)"
  by (cases "(a, s)" rule: publication_notified.cases)
    (auto simp: notified_frame_def same_process_def publishes_def active_started_def kept_def
      publish_state_def pu_send_def)

lemma notified_fold_frame: "notified_frame s (fold publication_notified as s)"
proof (induction as arbitrary: s)
  case (Cons a as)
  from notified_frame [of s a] Cons [of "publication_notified a s"] show ?case
    by (simp add: notified_frame_def same_process_def)
qed (simp add: notified_frame_def same_process_def)

text \<open>Actions that post nothing reach nobody.\<close>

definition silent :: "publication_note action list \<Rightarrow> bool" where
  "silent as = list_all (\<lambda>a. case a of Post n \<Rightarrow> False | _ \<Rightarrow> True) as"

lemma silent_notified: "silent as \<Longrightarrow> fold publication_notified as s = s"
  by (induction as arbitrary: s) (auto simp: silent_def split: action.splits)

lemma with_publication_silent:
  assumes "m p = (r, p')" "pb_log p' = pb_log p @ as" "silent as"
  shows "with_publication m p s = (r, s\<lparr>pu_publication := Some p'\<rparr>)"
  using assms silent_notified by (simp add: with_publication_def)

section \<open>Sending and waiting\<close>

lemma make_and_send_publish_current:
  assumes "pb_current p = None" "make_and_send_publish core body route pub p = (r, p')"
  obtains as where "pb_log p' = pb_log p @ as" "silent as" "is_published p' = is_published p"
    "pb_last p' = pb_last p"
    "r = Inr () \<and> pb_current p' = Some (new_publish body route pub p) \<and> pb_unpublishing p' = (\<not> pub) \<or>
     r = Inl SIPCoreError \<and> pb_current p' = None \<and> pb_unpublishing p' = pb_unpublishing p"
  using assms
  by (cases core)
    (auto simp: make_and_send_publish_def bindE_def modifyE_def pb_emit_def pb_cancel_current_def raiseE_def
      silent_def is_published_def Let_def new_publish_def)

lemma publication_publish_current:
  assumes "pb_current p = None" "publication_publish core body route p = (r, p')"
  shows "\<exists>as. pb_log p' = pb_log p @ as \<and> silent as \<and> is_published p' = is_published p \<and>
    (case r of
       Inr u \<Rightarrow> pb_current p' \<noteq> None \<and> \<not> pb_unpublishing p'
     | Inl e \<Rightarrow> pb_current p' = None \<and> pb_unpublishing p' = pb_unpublishing p \<and>
         (e = SIPCoreError \<or> (e = ValueError \<or> e = PublicationETagError) \<and> body = None \<and> p' = p))"
proof (cases "body = None \<and> (pb_last p = None \<or> pb_last_etag p = None)")
  case True
  then show ?thesis using assms by (auto simp: publication_publish_def silent_def split: if_splits)
next
  case False
  then have "make_and_send_publish core body route True p = (r, p')"
    using assms(2) by (auto simp: publication_publish_def split: if_splits)
  from make_and_send_publish_current [OF assms(1) this] show ?thesis by fastforce
qed

lemma send_publish_ok:
  assumes "idle s" "pu_publication s = Some p" "send_publish a body s = (r, t)"
  shows "\<exists>p'. t = s\<lparr>pu_publication := Some p'\<rparr> \<and> is_published p' = is_published p \<and>
    (case r of
       Inl e \<Rightarrow> False
     | Inr None \<Rightarrow> pb_current p' \<noteq> None \<and> \<not> pb_unpublishing p'
     | Inr (Some x) \<Rightarrow> pb_current p' = None \<and> \<not> pb_unpublishing p' \<and>
         (x = Returned \<and> pu_state s = None \<and> body = None \<or> (\<exists>e. x = PubRaised e)))"
proof -
  have p: "pb_current p = None" "\<not> pb_unpublishing p"
    using assms(1,2) by (auto simp: idle_def channel_ok_def)
  obtain r1 p1 where m1: "publication_publish (pa_core a) body (pa_route a) p = (r1, p1)"
    by (cases "publication_publish (pa_core a) body (pa_route a) p")
  from publication_publish_current [OF p(1) m1] obtain as where as: "pb_log p1 = pb_log p @ as" "silent as"
    and q: "is_published p1 = is_published p"
      "case r1 of
       Inr u \<Rightarrow> pb_current p1 \<noteq> None \<and> \<not> pb_unpublishing p1
     | Inl e \<Rightarrow> pb_current p1 = None \<and> pb_unpublishing p1 = pb_unpublishing p \<and>
         (e = SIPCoreError \<or> (e = ValueError \<or> e = PublicationETagError) \<and> body = None \<and> p1 = p)"
    by blast
  note w = with_publication_silent [where m = "publication_publish (pa_core a) body (pa_route a)", OF m1 as]
  show ?thesis
  proof (cases "r1 = Inl PublicationETagError \<and> pu_state s \<noteq> None")
    case False
    then show ?thesis
      using assms(3) p q w assms(2)
      by (intro exI [of _ p1]) (cases r1; auto simp: send_publish_def)
  next
    case True
    then obtain d where d: "pu_state s = Some d" by blast
    with True q have p1: "p1 = p" by simp
    obtain r2 p2 where m2: "publication_publish (pa_retry_core a) (Some (doc_xml d)) (pa_route a) p = (r2, p2)"
      by (cases "publication_publish (pa_retry_core a) (Some (doc_xml d)) (pa_route a) p")
    from publication_publish_current [OF p(1) m2] obtain bs where bs: "pb_log p2 = pb_log p @ bs" "silent bs"
      and q2: "is_published p2 = is_published p"
      "case r2 of
         Inr u \<Rightarrow> pb_current p2 \<noteq> None \<and> \<not> pb_unpublishing p2
       | Inl e \<Rightarrow> pb_current p2 = None \<and> pb_unpublishing p2 = pb_unpublishing p \<and> e = SIPCoreError"
      by (auto split: sum.splits)
    note w2 = with_publication_silent
      [where m = "publication_publish (pa_retry_core a) (Some (doc_xml d)) (pa_route a)", OF m2 bs]
    show ?thesis
      using assms(2,3) p w [unfolded p1] w2 q2 True d
      by (intro exI [of _ p2]) (cases r2; auto simp: send_publish_def)
  qed
qed

definition waiting :: "publisher \<Rightarrow> bool" where
  "waiting s = (channel_ok s \<and> (\<exists>p. pu_publication s = Some p \<and> pb_current p \<noteq> None))"

lemma waiting_view:
  assumes "pu_view t = pu_view s"
  shows "waiting t = waiting s" "pu_channel t = pu_channel s"
  using assms view_cong(1) [OF assms] by (simp_all add: waiting_def pu_view_def)

text \<open>An answer has arrived on the data channel.\<close>

definition arrived :: "publisher \<Rightarrow> bool" where
  "arrived s =
     (\<exists>p. pu_publication s = Some p \<and> pb_current p = None \<and> \<not> pb_unpublishing p \<and>
        (pu_channel s = [PubSucceeded] \<and> is_published p \<or>
         (\<exists>c. pu_channel s = [ExcPubFailed c]) \<and> idle (s\<lparr>pu_channel := []\<rparr>) \<or>
         pu_channel s = [PubEnded]))"

definition event_effect :: "publication \<Rightarrow> publication \<Rightarrow> publication_note action list \<Rightarrow> bool" where
  "event_effect p p' as =
     (\<not> pb_unpublishing p' \<and>
      (pb_current p' = pb_current p \<and> is_published p' = is_published p \<and>
         (silent as \<or> (\<exists>n. as = [Post (PubWillExpire n)])) \<or>
       pb_current p \<noteq> None \<and> pb_current p' = None \<and> is_published p' \<and>
         (\<exists>c x r. as = [Post (PubDidSucceed c x r)]) \<or>
       pb_current p \<noteq> None \<and> pb_current p' = None \<and> is_published p' = is_published p \<and>
         (\<exists>c r. as = [Post (PubDidFail c r)]) \<or>
       is_published p \<and> pb_current p' = None \<and> \<not> is_published p' \<and>
         (\<exists>bs. silent bs \<and> as = bs @ [Post (PubDidEnd True)])))"

lemma event_effect_none: "\<not> pb_unpublishing p \<Longrightarrow> \<exists>as. pb_log p = pb_log p @ as \<and> event_effect p p as"
  by (intro exI [of _ "[]"]) (simp add: event_effect_def silent_def)

lemma did_succeed_effect:
  assumes "\<not> pb_unpublishing p" "is_publish i (pb_current p)"
  shows "\<exists>as. pb_log (pub_request_did_succeed i d p) = pb_log p @ as \<and>
    event_effect p (pub_request_did_succeed i d p) as"
proof -
  have "pb_current p \<noteq> None" using assms(2) by (simp add: is_publish_def split: option.splits)
  then show ?thesis
    using assms
    by (intro exI [of _ "[Post (PubDidSucceed (rp_code d) (rp_expires d) (rq_route (the (pb_current p))))]"])
      (simp add: pub_request_did_succeed_def event_effect_def post_def is_published_def Let_def)
qed

lemma did_fail_effect:
  assumes "\<not> pb_unpublishing p" "is_publish i (pb_current p)"
  shows "\<exists>as. pb_log (pub_request_did_fail i d p) = pb_log p @ as \<and>
    event_effect p (pub_request_did_fail i d p) as"
proof -
  have "pb_current p \<noteq> None" using assms(2) by (simp add: is_publish_def split: option.splits)
  then show ?thesis
    using assms
    by (intro exI [of _ "[Post (PubDidFail (rp_code d) (rq_route (the (pb_current p))))]"])
      (simp add: pub_request_did_fail_def event_effect_def post_def is_published_def Let_def)
qed

lemma will_expire_effect:
  assumes "\<not> pb_unpublishing p" "is_publish i (pb_last p)"
  shows "\<exists>as. pb_log (pub_request_will_expire i d p) = pb_log p @ as \<and>
    event_effect p (pub_request_will_expire i d p) as"
  using assms
  by (intro exI [of _ "[Post (PubWillExpire (rp_expires d))]"])
    (simp add: pub_request_will_expire_def event_effect_def post_def is_published_def)

lemma did_end_effect:
  assumes "\<not> pb_unpublishing p"
  shows "\<exists>as. pb_log (pub_request_did_end i p) = pb_log p @ as \<and>
    event_effect p (pub_request_did_end i p) as"
proof (cases "is_publish i (pb_last p)")
  case False
  then show ?thesis
    using assms
    by (intro exI [of _ "[RemoveObserver i]"])
      (simp add: pub_request_did_end_def event_effect_def silent_def is_published_def Let_def)
next
  case True
  then have p: "is_published p" by (auto simp: is_publish_def is_published_def split: option.splits)
  obtain bs where "pb_log (pub_request_did_end i p) = pb_log p @ bs @ [Post (PubDidEnd True)]" "silent bs"
    using True
    by (cases "pb_current p")
      (auto simp: pub_request_did_end_def pb_cancel_current_def silent_def post_def Let_def)
  moreover have "pb_current (pub_request_did_end i p) = None"
    "\<not> is_published (pub_request_did_end i p)" "\<not> pb_unpublishing (pub_request_did_end i p)"
    using True assms
    by (cases "pb_current p",
        simp_all add: pub_request_did_end_def pb_cancel_current_def is_published_def Let_def)+
  ultimately show ?thesis
    using p by (intro exI [of _ "bs @ [Post (PubDidEnd True)]"]) (simp add: event_effect_def)
qed

lemma publication_event_effect:
  assumes "\<not> pb_unpublishing p"
  shows "\<exists>as. pb_log (publication_step (PubEvent e) p) = pb_log p @ as \<and>
    event_effect p (publication_step (PubEvent e) p) as"
proof (cases e)
  case (RequestDidSucceed i d)
  then show ?thesis
    using did_succeed_effect [OF assms, of i d] event_effect_none [OF assms]
    by (cases "is_publish i (pb_current p)") (simp_all add: pub_request_did_succeed_def)
next
  case (RequestDidFail i d)
  then show ?thesis
    using did_fail_effect [OF assms, of i d] event_effect_none [OF assms]
    by (cases "is_publish i (pb_current p)") (simp_all add: pub_request_did_fail_def)
next
  case (RequestWillExpire i d)
  then show ?thesis
    using will_expire_effect [OF assms, of i d] event_effect_none [OF assms]
    by (cases "is_publish i (pb_last p)") (simp_all add: pub_request_will_expire_def)
next
  case (RequestDidEnd i)
  then show ?thesis using did_end_effect [OF assms, of i] by simp
qed

lemma core_event_effect:
  assumes "pu_publication s = Some p" "\<not> pb_unpublishing p"
  obtains p' as where "core_event e s = fold publication_notified as (s\<lparr>pu_publication := Some p'\<rparr>)"
    "event_effect p p' as"
proof -
  obtain as where "pb_log (publication_step (PubEvent e) p) = pb_log p @ as"
    "event_effect p (publication_step (PubEvent e) p) as"
    using publication_event_effect [OF assms(2)] by blast
  then show ?thesis
    using assms(1) that by (simp add: core_event_def with_publication_def modifyE_def)
qed

text \<open>Where an event of the core leaves a publisher that is idle, and one that waits.\<close>

lemma core_event_idle:
  assumes "idle s"
  shows "idle (core_event e s)"
proof (cases "pu_publication s")
  case None
  then show ?thesis using assms by (simp add: core_event_def)
next
  case (Some p)
  with assms have p: "\<not> pb_unpublishing p" "pb_current p = None" by (auto simp: idle_def channel_ok_def)
  obtain p' as where c: "core_event e s = fold publication_notified as (s\<lparr>pu_publication := Some p'\<rparr>)"
    and e: "event_effect p p' as" by (rule core_event_effect [OF Some p(1)])
  from e p(2) consider
      "pb_current p' = None" "\<not> pb_unpublishing p'" "is_published p' = is_published p"
        "silent as \<or> (\<exists>n. as = [Post (PubWillExpire n)])"
    | bs where "pb_current p' = None" "\<not> pb_unpublishing p'" "is_published p" "\<not> is_published p'"
        "silent bs" "as = bs @ [Post (PubDidEnd True)]"
    unfolding event_effect_def by auto
  then show ?thesis
  proof cases
    case 1
    have "idle (s\<lparr>pu_publication := Some p'\<rparr>)"
      using 1 assms Some by (auto simp: idle_def channel_ok_def)
    then show ?thesis
      using 1(4) silent_notified view_cong(2) [OF publish_state_keeps(1)] unfolding c by auto
  next
    case 2
    then show ?thesis
      using assms Some silent_notified [OF 2(5)] unfolding c
      by (auto simp: idle_def channel_ok_def)
  qed
qed

lemma core_event_waiting:
  assumes "waiting s" "pu_channel s = []"
  shows "waiting (core_event e s) \<and> pu_channel (core_event e s) = [] \<or> arrived (core_event e s)"
proof -
  obtain p where p: "pu_publication s = Some p" "pb_current p \<noteq> None" "\<not> pb_unpublishing p"
    using assms(1) by (auto simp: waiting_def channel_ok_def)
  obtain p' as where c: "core_event e s = fold publication_notified as (s\<lparr>pu_publication := Some p'\<rparr>)"
    and e: "event_effect p p' as" by (rule core_event_effect [OF p(1,3)])
  from e consider
      "pb_current p' = pb_current p" "\<not> pb_unpublishing p'" "is_published p' = is_published p"
        "silent as \<or> (\<exists>n. as = [Post (PubWillExpire n)])"
    | c x r where "pb_current p' = None" "\<not> pb_unpublishing p'" "is_published p'" "as = [Post (PubDidSucceed c x r)]"
    | c r where "pb_current p' = None" "\<not> pb_unpublishing p'" "is_published p' = is_published p"
        "as = [Post (PubDidFail c r)]"
    | bs where "pb_current p' = None" "\<not> pb_unpublishing p'" "silent bs" "as = bs @ [Post (PubDidEnd True)]"
    unfolding event_effect_def by blast
  then show ?thesis
  proof cases
    case 1
    have w: "waiting (s\<lparr>pu_publication := Some p'\<rparr>)"
      using 1 assms p by (auto simp: waiting_def channel_ok_def)
    note v = waiting_view [OF publish_state_keeps(1) [of SameState "s\<lparr>pu_publication := Some p'\<rparr>"]]
    from w v have "waiting (publish_state SameState (s\<lparr>pu_publication := Some p'\<rparr>))"
      "pu_channel (publish_state SameState (s\<lparr>pu_publication := Some p'\<rparr>)) = []"
      using assms(2) by simp_all
    then show ?thesis
      using 1(4) silent_notified w assms(2) unfolding c by auto
  next
    case 2
    then show ?thesis unfolding c using assms(2) by (simp add: arrived_def)
  next
    case 3
    have "channel_ok s" using assms(1) by (simp add: waiting_def)
    then have "idle (s\<lparr>pu_publication := Some p', pu_channel := []\<rparr>)"
      using 3 assms(2) p(1) by (simp add: idle_def channel_ok_def)
    then show ?thesis
      unfolding c using 3 assms(2) by (simp add: arrived_def)
  next
    case 4
    then show ?thesis unfolding c using silent_notified [OF 4(3)] assms(2) by (simp add: arrived_def)
  qed
qed

section \<open>What happens meanwhile\<close>

definition quiet :: "publisher \<Rightarrow> publisher \<Rightarrow> bool" where
  "quiet s t = (pu_publishing t = pu_publishing s \<and> pu_log t = pu_log s)"

lemma core_event_frame:
  "quiet s (core_event e s)" "same_process s (core_event e s)" "publishes b s \<Longrightarrow> publishes b (core_event e s)"
  "active_started (core_event e s) = active_started s" "kept s \<Longrightarrow> kept (core_event e s)"
proof -
  have "core_event e s = s \<or>
      (\<exists>p as. core_event e s = fold publication_notified as (s\<lparr>pu_publication := Some p\<rparr>))"
    by (auto simp: core_event_def with_publication_def modifyE_def split: option.split)
  then have "quiet s (core_event e s) \<and> same_process s (core_event e s) \<and> (publishes b s \<longrightarrow> publishes b (core_event e s)) \<and>
      active_started (core_event e s) = active_started s \<and> (kept s \<longrightarrow> kept (core_event e s))"
  proof (elim disjE exE)
    fix p as assume c: "core_event e s = fold publication_notified as (s\<lparr>pu_publication := Some p\<rparr>)"
    let ?s = "s\<lparr>pu_publication := Some p\<rparr>"
    have "same_process s t = same_process ?s t" "publishes b s = publishes b ?s"
      "active_started s = active_started ?s" "quiet s t = quiet ?s t" "kept s = kept ?s" for t
      by (simp_all add: quiet_def kept_def same_process_def publishes_def active_started_def)
    then show ?thesis
      unfolding c using notified_fold_frame [of ?s as] by (simp add: notified_frame_def quiet_def)
  qed (simp add: same_process_def quiet_def)
  then show "quiet s (core_event e s)" "same_process s (core_event e s)" "publishes b s \<Longrightarrow> publishes b (core_event e s)"
    "active_started (core_event e s) = active_started s" "kept s \<Longrightarrow> kept (core_event e s)" by simp_all
qed

lemma happens_process: "same_process s (happens h s)"
  by (cases "(h, s)" rule: happens.cases)
    (simp_all add: core_event_frame(2), auto simp: same_process_def publisher_ops Let_def)

lemma happens_quiet: "quiet s (happens h s)"
  by (cases "(h, s)" rule: happens.cases)
    (simp_all add: core_event_frame(1), auto simp: quiet_def publisher_ops Let_def)

lemma happens_active_started: "active_started s \<Longrightarrow> active_started (happens h s)"
  by (cases "(h, s)" rule: happens.cases)
    (simp_all add: core_event_frame(4), auto simp: active_started_def publisher_ops Let_def)

lemma happens_kept: "kept s \<Longrightarrow> kept (happens h s)"
  by (cases "(h, s)" rule: happens.cases)
    (simp_all add: core_event_frame(5), auto simp: kept_def publisher_ops Let_def)

lemma happens_publishes: "publishes b s \<Longrightarrow> publishes b (happens h s)"
proof (cases h)
  case (SetState elem same d)
  then show "publishes b s \<Longrightarrow> ?thesis"
    by (cases d; cases "pu_state s") (simp_all add: publishes_def publisher_ops Let_def)
qed (cases "pu_state s"; simp add: core_event_frame(3); simp add: publishes_def publisher_ops Let_def)+

lemma happens_view: "(\<And>e. h \<noteq> CoreEvent e) \<Longrightarrow> pu_view (happens h s) = pu_view s"
  by (cases h) (auto simp: pu_view_def publisher_ops Let_def)

lemma happens_idle: "idle s \<Longrightarrow> idle (happens h s)"
  using happens_view [of h s] view_cong(2) [of "happens h s" s]
  by (cases h) (auto simp: core_event_idle)

lemma happens_waiting:
  "waiting s \<Longrightarrow> pu_channel s = [] \<Longrightarrow> waiting (happens h s) \<and> pu_channel (happens h s) = [] \<or> arrived (happens h s)"
  using happens_view [of h s] waiting_view [of "happens h s" s]
  by (cases h) (auto simp: core_event_waiting)

text \<open>What is left once an answer has been read.\<close>

definition popped :: "pub_data \<Rightarrow> publisher \<Rightarrow> bool" where
  "popped d s =
     (pu_channel s = [] \<and> pu_publication s \<noteq> None \<and>
      (case d of
         PubSucceeded \<Rightarrow> (\<exists>p. pu_publication s = Some p \<and> pb_current p = None \<and> \<not> pb_unpublishing p \<and> is_published p)
       | PubEnded \<Rightarrow> True
       | ExcPubFailed c \<Rightarrow> idle s
       | ExcPubNotEnded \<Rightarrow> False))"

lemma arrived_pops:
  "arrived s \<Longrightarrow> \<exists>d. wait_data hs s = (Some d, s\<lparr>pu_channel := []\<rparr>) \<and> popped d (s\<lparr>pu_channel := []\<rparr>)"
  by (cases hs) (auto simp: arrived_def popped_def)

lemma wait_data_pops:
  "waiting s \<Longrightarrow> wait_data hs s = (Some d, t) \<Longrightarrow> popped d t"
proof (induction hs arbitrary: s)
  case Nil
  then show ?case by (auto simp: waiting_def channel_ok_def popped_def split: list.splits)
next
  case (Cons h hs)
  show ?case
  proof (cases "pu_channel s")
    case Nil
    with Cons.prems(2) have w: "wait_data hs (happens h s) = (Some d, t)" by simp
    from happens_waiting [OF Cons.prems(1) Nil, of h] show ?thesis
    proof
      assume "arrived (happens h s)"
      from arrived_pops [OF this, of hs] w show ?thesis by auto
    qed (use Cons.IH w in blast)
  next
    case (Cons x xs)
    with \<open>waiting s\<close> have "pu_channel s = [PubEnded]" "pu_publication s \<noteq> None"
      by (auto simp: waiting_def channel_ok_def)
    with \<open>wait_data (h # hs) s = (Some d, t)\<close> show ?thesis by (auto simp: popped_def)
  qed
qed

lemma wait_data_frame:
  "wait_data hs s = (r, t) \<Longrightarrow> same_process s t \<and> (active_started s \<longrightarrow> active_started t) \<and>
     (kept s \<longrightarrow> kept t) \<and> (publishes b s \<longrightarrow> publishes b t)"
proof (induction hs s rule: wait_data.induct)
  case (1 hs s)
  show ?case
  proof (cases "pu_channel s = [] \<and> hs \<noteq> []")
    case True
    then obtain h hs' where h: "hs = h # hs'" by (cases hs) auto
    with 1 True have "same_process (happens h s) t \<and> (active_started (happens h s) \<longrightarrow> active_started t) \<and>
        (kept (happens h s) \<longrightarrow> kept t) \<and> (publishes b (happens h s) \<longrightarrow> publishes b t)" by simp
    then show ?thesis
      using happens_process [of s h] happens_active_started [of s h] happens_publishes [of b s h] happens_kept [of s h]
      by (auto simp: same_process_def)
  next
    case False
    then show ?thesis
      using 1(2) by (auto simp: same_process_def active_started_def kept_def publishes_def split: list.splits)
  qed
qed

section \<open>The commands keep the invariant\<close>

definition proceeds :: "publisher \<Rightarrow> publisher \<Rightarrow> bool" where
  "proceeds s t =
     (same_process s t \<and> (active_started s \<longrightarrow> active_started t) \<and> (kept s \<longrightarrow> kept t) \<and>
      (\<forall>b. publishes b s \<longrightarrow> publishes b t))"

lemma proceeds_refl: "proceeds s s"
  by (simp add: proceeds_def same_process_def)

lemma proceeds_trans: "proceeds s t \<Longrightarrow> proceeds t u \<Longrightarrow> proceeds s u"
  by (simp add: proceeds_def same_process_def)

lemma proceeds_cong:
  "pu_timer t = pu_timer s \<Longrightarrow> pu_running t = pu_running s \<Longrightarrow> pu_active t = pu_active s \<Longrightarrow>
   pu_started t = pu_started s \<Longrightarrow> pu_queue t = pu_queue s \<Longrightarrow> pu_state t = pu_state s \<Longrightarrow> proceeds s t"
  by (simp add: proceeds_def same_process_def active_started_def kept_def publishes_def)

lemma wait_data_proceeds: "wait_data hs s = (r, t) \<Longrightarrow> proceeds s t"
  using wait_data_frame by (auto simp: proceeds_def)

definition publish_outcome :: "string option \<Rightarrow> publish_result \<Rightarrow> publisher \<Rightarrow> bool" where
  "publish_outcome body r t =
     (case r of
        Published \<Rightarrow> idle t \<and> pu_publishing t
      | Returned \<Rightarrow> idle t \<and> body = None \<and> pu_state t = None
      | PubRaised e \<Rightarrow> pu_channel t \<in> {[], [PubEnded]}
      | PubCrashed \<Rightarrow> idle t
      | PubBlocked \<Rightarrow> True)"

lemma publish_answered_outcome:
  assumes "popped d t" "publish_answered env (Some d) = Some r"
  shows "publish_outcome body r (if r = Published then t\<lparr>pu_publishing := True, pu_publish_wait := 1\<rparr> else t)"
  using assms
  by (cases d)
    (auto simp: publish_answered_def popped_def publish_outcome_def idle_def channel_ok_def
      split: sum.splits option.splits)

lemma publish_answered_next: "popped d t \<Longrightarrow> publish_answered env (Some d) = None \<Longrightarrow> idle t"
  by (cases d) (auto simp: publish_answered_def popped_def split: sum.splits option.splits)

lemma try_publish_ok:
  "idle s \<Longrightarrow> pu_publication s \<noteq> None \<Longrightarrow> try_publish limiter env body as s = (r, t) \<Longrightarrow>
   proceeds s t \<and> publish_outcome body r t"
proof (induction as arbitrary: s)
  case Nil
  then show ?case
    by (auto simp: publish_outcome_def idle_def channel_ok_def Let_def intro: proceeds_cong)
next
  case (Cons a as)
  show ?case
  proof (cases "pa_time_left a")
    case False
    then show ?thesis using Cons by simp
  next
    case True
    obtain p where p: "pu_publication s = Some p" using Cons.prems(2) by blast
    obtain q s1 where q: "send_publish a body s = (q, s1)" by (cases "send_publish a body s")
    from send_publish_ok [OF Cons.prems(1) p q] obtain p' where p': "s1 = s\<lparr>pu_publication := Some p'\<rparr>"
      "is_published p' = is_published p"
      and o: "case q of
         Inl e \<Rightarrow> False
       | Inr None \<Rightarrow> pb_current p' \<noteq> None \<and> \<not> pb_unpublishing p'
       | Inr (Some x) \<Rightarrow> pb_current p' = None \<and> \<not> pb_unpublishing p' \<and>
           (x = Returned \<and> pu_state s = None \<and> body = None \<or> (\<exists>e. x = PubRaised e))" by blast
    have s1: "proceeds s s1" by (rule proceeds_cong) (simp_all add: p')
    from o consider e where "False" "q = Inl e" | "q = Inr None" | x where "q = Inr (Some x)"
      by (cases q; cases "projr q") auto
    then show ?thesis
    proof cases
      case 2
      with o p' Cons.prems(1) p have w: "waiting s1" by (auto simp: waiting_def idle_def channel_ok_def)
      obtain d s2 where d: "wait_data (pa_happenings a) s1 = (d, s2)"
        by (cases "wait_data (pa_happenings a) s1")
      have s2: "proceeds s s2" using s1 wait_data_proceeds [OF d] by (rule proceeds_trans)
      show ?thesis
      proof (cases d)
        case None
        with Cons.prems(3) True q 2 d s2 show ?thesis
          by (simp add: publish_answered_def publish_outcome_def)
      next
        case (Some x)
        with wait_data_pops [OF w] d have x: "popped x s2" by simp
        show ?thesis
        proof (cases "publish_answered env d")
          case None
          then have "try_publish limiter env body as s2 = (r, t)" using Cons.prems(3) True q 2 d by simp
          moreover have "idle s2" using publish_answered_next [OF x] None Some by simp
          moreover have "pu_publication s2 \<noteq> None" using x by (simp add: popped_def)
          ultimately show ?thesis using Cons.IH s2 proceeds_trans by blast
        next
          case (Some y)
          have "proceeds s2 (s2\<lparr>pu_publishing := True, pu_publish_wait := 1\<rparr>)" by (rule proceeds_cong) simp_all
          with proceeds_trans [OF s2] have "proceeds s (s2\<lparr>pu_publishing := True, pu_publish_wait := 1\<rparr>)" by blast
          with publish_answered_outcome [OF x, of env y body] Some \<open>d = Some x\<close> Cons.prems(3) True q 2 d s2
          show ?thesis by (cases y) auto
        qed
      qed
    next
      case (3 x)
      with o Cons.prems q True p' p s1 show ?thesis
        by (auto simp: publish_outcome_def idle_def channel_ok_def)
    qed simp
  qed
qed

lemma lookup_and_publish_ok:
  assumes "idle s" "pu_publication s \<noteq> None" "lookup_and_publish limiter env c s = (r, t)"
  shows "proceeds s t \<and> publish_outcome (case c of NewState d \<Rightarrow> Some (doc_xml d) | _ \<Rightarrow> None) r t"
proof (cases "pe_routes env")
  case None
  then show ?thesis
    using assms
    by (auto simp: lookup_and_publish_def publish_outcome_def idle_def channel_ok_def Let_def
        intro: proceeds_cong)
next
  case (Some as)
  let ?s = "s\<lparr>pu_dns_wait := 1\<rparr>"
  have "idle ?s" "pu_publication ?s \<noteq> None" "proceeds s ?s"
    using assms(1,2) by (auto simp: idle_def channel_ok_def intro: proceeds_cong)
  with try_publish_ok [OF this(1,2)] Some assms(3) show ?thesis
    by (auto simp: lookup_and_publish_def Let_def intro: proceeds_trans)
qed

lemma init_publication_ok:
  assumes "idle s" "c \<noteq> NoDocument" "pu_publication s = None \<longrightarrow> c \<noteq> SameState"
  shows "idle (init_publication env c refresh s) \<and>
    pu_publication (init_publication env c refresh s) \<noteq> None \<and> proceeds s (init_publication env c refresh s)"
  using assms
  by (cases c; cases "pu_publication s")
    (auto simp: init_publication_def pu_post_def idle_def channel_ok_def publication_init_def
      is_published_def Let_def intro: proceeds_cong)

definition working :: "publisher \<Rightarrow> bool" where
  "working s = (pu_publishing s \<or> pu_timer s \<noteq> None)"

lemma publishes_mono: "publishes b s \<Longrightarrow> b \<le> b' \<Longrightarrow> publishes b' s"
  using settled_mono by (auto simp: publishes_def)

lemma ch_publish_ok:
  assumes "idle s" "active_started s" "ch_publish limiter env c refresh s = (r, t)" "r \<noteq> Blocked"
    and "publishes (case pub_effect (PubPublish c refresh) of None \<Rightarrow> working s | Some v \<Rightarrow> v) s"
  shows "idle t \<and> active_started t \<and> (kept s \<longrightarrow> kept t) \<and> pu_running t = pu_running s \<and>
    (r = Crashed \<or> r = Done \<and> publishes (working t) t)"
proof (cases "c = NoDocument \<or> pu_publication s = None \<and> c = SameState")
  case True
  then show ?thesis using assms by (auto simp: ch_publish_def)
next
  case False
  let ?s = "s\<lparr>pu_timer := None\<rparr>"
  let ?i = "init_publication env c refresh ?s"
  have s: "idle ?s" "active_started ?s" using assms(1,2) by (auto simp: idle_def channel_ok_def active_started_def)
  have i: "idle ?i" "pu_publication ?i \<noteq> None" "proceeds ?s ?i"
    using init_publication_ok [OF s(1), of c env refresh] False by auto
  obtain x u where u: "lookup_and_publish limiter env c ?i = (x, u)" by (cases "lookup_and_publish limiter env c ?i")
  from lookup_and_publish_ok [OF i(1,2) u] have p: "proceeds ?s u"
    and o: "publish_outcome (case c of NewState d \<Rightarrow> Some (doc_xml d) | _ \<Rightarrow> None) x u"
    using proceeds_trans [OF i(3)] by auto
  from p s(2) have k: "active_started u" "pu_running u = pu_running s" "\<And>b. publishes b s \<Longrightarrow> publishes b u"
    "kept s \<longrightarrow> kept u"
    by (auto simp: proceeds_def same_process_def publishes_def kept_def)
  have t: "publishes True u" using k(3) publishes_mono [OF assms(5), of True] by simp
  have e: "ch_publish limiter env c refresh s =
      (case x of
         Published \<Rightarrow> (Done, pu_post PuDidSucceed u)
       | Returned \<Rightarrow> (Done, u)
       | PubRaised e \<Rightarrow> (Done, publish_failed e u)
       | PubCrashed \<Rightarrow> (Crashed, u)
       | PubBlocked \<Rightarrow> (Blocked, u))"
    using False u by (cases x) (auto simp: ch_publish_def)
  show ?thesis
  proof (cases x)
    case (PubRaised err)
    have "idle (publish_failed err u)" using o PubRaised
      by (auto simp: publish_outcome_def publish_failed_def pu_post_def idle_def channel_ok_def)
    moreover have "publishes True (publish_failed err u)" "active_started (publish_failed err u)"
      "pu_running (publish_failed err u) = pu_running s" "working (publish_failed err u)"
      "kept s \<longrightarrow> kept (publish_failed err u)"
      using t k(1,2,4)
      by (simp_all add: publish_failed_def pu_post_def publishes_def active_started_def working_def kept_def)
    ultimately show ?thesis using e assms(3) PubRaised by simp
  next
    case Published
    have "idle (pu_post PuDidSucceed u)" "working (pu_post PuDidSucceed u)"
      using o Published by (auto simp: publish_outcome_def pu_post_def idle_def channel_ok_def working_def)
    moreover have "publishes True (pu_post PuDidSucceed u)" "active_started (pu_post PuDidSucceed u)"
      "pu_running (pu_post PuDidSucceed u) = pu_running s" "kept s \<longrightarrow> kept (pu_post PuDidSucceed u)"
      using t k(1,2,4) by (simp_all add: pu_post_def publishes_def active_started_def kept_def)
    ultimately show ?thesis using e assms(3) Published by simp
  next
    case Returned
    then show ?thesis
      using e assms(3) o k by (auto simp: publish_outcome_def publishes_def)
  next
    case PubCrashed
    then show ?thesis using e assms(3) o k by (auto simp: publish_outcome_def)
  next
    case PubBlocked
    then show ?thesis using e assms(3,4) by simp
  qed
qed

section \<open>Withdrawing ends\<close>

text \<open>The publication waits for the answer to the request that withdraws it.\<close>

definition ending :: "nat \<Rightarrow> publisher \<Rightarrow> bool" where
  "ending i s =
     (pu_channel s = [] \<and>
      (\<exists>p. pu_publication s = Some p \<and> pb_unpublishing p \<and> is_publish i (pb_current p)))"

fun answers :: "nat \<Rightarrow> happening \<Rightarrow> bool" where
  "answers i (CoreEvent (RequestDidSucceed j d)) = (j = i)"
| "answers i (CoreEvent (RequestDidFail j d)) = (j = i)"
| "answers i h = False"

definition end_arrived :: "publisher \<Rightarrow> bool" where
  "end_arrived s = (\<exists>d. pu_channel s = [d] \<and> d \<noteq> PubSucceeded)"

lemma ending_core:
  assumes "pu_publication s = Some p" "pu_channel s = []" "publication_step (PubEvent e) p = p'"
    "pb_log p' = pb_log p @ as @ [Post n]" "silent as"
    "(\<exists>b. n = PubDidEnd b) \<or> (\<exists>c. n = PubDidNotEnd c)"
  shows "end_arrived (core_event e s)"
  using assms silent_notified [OF assms(5)]
  by (auto simp: core_event_def with_publication_def modifyE_def end_arrived_def)

lemma ending_same:
  assumes "ending i s" "pu_publication s = Some p" "publication_step (PubEvent e) p = p'"
    "pb_log p' = pb_log p @ as" "silent as \<or> as = [Post (PubWillExpire m)]"
    "pb_unpublishing p'" "pb_current p' = pb_current p"
  shows "ending i (core_event e s)"
proof -
  let ?s = "s\<lparr>pu_publication := Some p'\<rparr>"
  have e: "core_event e s = fold publication_notified as ?s"
    using assms(2-4) by (simp add: core_event_def with_publication_def modifyE_def)
  have s: "ending i ?s" using assms(1,2,6,7) by (simp add: ending_def)
  have "pu_view (publish_state SameState ?s) = pu_view ?s" by (rule publish_state_keeps)
  with s have "ending i (publish_state SameState ?s)" by (simp add: ending_def pu_view_def)
  with s e assms(5) silent_notified show ?thesis by auto
qed

lemma ending_event:
  assumes "ending i s"
  shows "if answers i (CoreEvent e) then end_arrived (core_event e s)
    else ending i (core_event e s) \<or> end_arrived (core_event e s)"
proof -
  obtain p q where p: "pu_publication s = Some p" "pb_unpublishing p" "pb_current p = Some q" "rq_id q = i"
    "pu_channel s = []"
    using assms by (auto simp: ending_def is_publish_def split: option.splits)
  note c = ending_core [OF p(1,5)] and k = ending_same [OF assms p(1)]
  have same: "publication_step (PubEvent e) p = p \<Longrightarrow> ending i (core_event e s)" for e
    using k [of e p "[]"] p(2) by (simp add: silent_def)
  show ?thesis
  proof (cases e)
    case (RequestDidSucceed j d)
    show ?thesis
    proof (cases "j = i")
      case True
      define as where "as = (case pb_last p of None \<Rightarrow> [] | Some l \<Rightarrow> [EndRequest (rq_id l) :: publication_note action])"
      have "pb_log (publication_step (PubEvent e) p) = pb_log p @ as @ [Post (PubDidEnd False)]"
        using p(2-4) RequestDidSucceed True
        by (simp add: pub_request_did_succeed_def is_publish_def post_def as_def Let_def split: option.split)
      moreover have "silent as" by (simp add: as_def silent_def split: option.split)
      ultimately have "end_arrived (core_event e s)" using c [OF refl] by blast
      then show ?thesis using True RequestDidSucceed by simp
    next
      case False
      then have "publication_step (PubEvent e) p = p"
        using p RequestDidSucceed by (auto simp: pub_request_did_succeed_def is_publish_def)
      from same [OF this] show ?thesis using False RequestDidSucceed by simp
    qed
  next
    case (RequestDidFail j d)
    show ?thesis
    proof (cases "j = i")
      case True
      then have "pb_log (publication_step (PubEvent e) p) = pb_log p @ [] @ [Post (PubDidNotEnd (rp_code d))]"
        using p(2-4) RequestDidFail
        by (simp add: pub_request_did_fail_def is_publish_def post_def Let_def)
      moreover have "silent []" by (simp add: silent_def)
      ultimately have "end_arrived (core_event e s)" using c [OF refl] by blast
      then show ?thesis using True RequestDidFail by simp
    next
      case False
      then have "publication_step (PubEvent e) p = p"
        using p RequestDidFail by (auto simp: pub_request_did_fail_def is_publish_def)
      from same [OF this] show ?thesis using False RequestDidFail by simp
    qed
  next
    case (RequestWillExpire j d)
    have "ending i (core_event e s)"
    proof (cases "is_publish j (pb_last p)")
      case True
      then have "pb_log (publication_step (PubEvent e) p) = pb_log p @ [Post (PubWillExpire (rp_expires d))]"
        "pb_unpublishing (publication_step (PubEvent e) p)"
        "pb_current (publication_step (PubEvent e) p) = pb_current p"
        using p(2) RequestWillExpire by (simp_all add: pub_request_will_expire_def post_def)
      from k [OF refl this(1) disjI2 [OF refl] this(2,3)] show ?thesis .
    next
      case False
      then have "publication_step (PubEvent e) p = p" using RequestWillExpire by (simp add: pub_request_will_expire_def)
      from same [OF this] show ?thesis .
    qed
    then show ?thesis using RequestWillExpire by simp
  next
    case (RequestDidEnd j)
    have "ending i (core_event e s) \<or> end_arrived (core_event e s)"
    proof (cases "is_publish j (pb_last p)")
      case True
      then have "pb_log (publication_step (PubEvent e) p) =
          pb_log p @ [RemoveObserver j, EndRequest i] @ [Post (PubDidEnd True)]"
        using p(3,4) RequestDidEnd by (simp add: pub_request_did_end_def pb_cancel_current_def post_def Let_def)
      moreover have "silent [RemoveObserver j, EndRequest i]" by (simp add: silent_def)
      ultimately show ?thesis using c [OF refl] by blast
    next
      case False
      then have "pb_log (publication_step (PubEvent e) p) = pb_log p @ [RemoveObserver j]"
        "pb_unpublishing (publication_step (PubEvent e) p)"
        "pb_current (publication_step (PubEvent e) p) = pb_current p"
        using p(2) RequestDidEnd by (simp_all add: pub_request_did_end_def)
      moreover have "silent [RemoveObserver j]" by (simp add: silent_def)
      ultimately show ?thesis using k [OF refl] by blast
    qed
    then show ?thesis using RequestDidEnd by simp
  qed
qed

lemma ending_happens:
  assumes "ending i s"
  shows "if answers i h then end_arrived (happens h s) else ending i (happens h s) \<or> end_arrived (happens h s)"
proof (cases "\<exists>e. h = CoreEvent e")
  case True
  then obtain e where "h = CoreEvent e" by blast
  then show ?thesis using ending_event [OF assms, of e] by simp
next
  case False
  then have "pu_view (happens h s) = pu_view s" by (intro happens_view) auto
  then have "ending i (happens h s)" using assms by (simp add: ending_def pu_view_def)
  moreover have "\<not> answers i h" using False by (cases h) auto
  ultimately show ?thesis by simp
qed

lemma end_arrived_wait:
  "end_arrived s \<Longrightarrow> \<exists>n. wait_end hs s = (Some n, s\<lparr>pu_channel := []\<rparr>) \<and> n \<in> {PuDidEnd, PuDidNotEnd}"
  by (cases hs) (auto simp: end_arrived_def)

lemma wait_end_empty:
  assumes "pu_channel s = []"
  shows "wait_end (h # hs) s = wait_end hs (happens h s)"
proof -
  have s: "s\<lparr>pu_channel := []\<rparr> = s" using assms by simp
  show ?thesis by (subst wait_end.simps) (simp only: assms s, simp)
qed

lemma ending_wait_some:
  "ending i s \<or> end_arrived s \<Longrightarrow> wait_end hs s = (Some n, t) \<Longrightarrow>
   pu_channel t = [] \<and> quiet s t \<and> proceeds s t \<and> n \<in> {PuDidEnd, PuDidNotEnd}"
proof (induction hs arbitrary: s)
  case Nil
  then show ?case
    using end_arrived_wait [of s "[]"] by (auto simp: ending_def quiet_def intro: proceeds_cong)
next
  case (Cons h hs)
  show ?case
  proof (cases "end_arrived s")
    case True
    then show ?thesis using Cons.prems(2) end_arrived_wait [OF True, of "h # hs"]
      by (auto simp: quiet_def intro: proceeds_cong)
  next
    case False
    with Cons.prems(1) have e: "ending i s" by simp
    then have c: "pu_channel s = []" by (simp add: ending_def)
    then have "wait_end hs (happens h s) = (Some n, t)" using Cons.prems(2) wait_end_empty by simp
    moreover have "ending i (happens h s) \<or> end_arrived (happens h s)"
      using ending_happens [OF e, of h] by (auto split: if_splits)
    ultimately have "pu_channel t = [] \<and> quiet (happens h s) t \<and> proceeds (happens h s) t \<and> n \<in> {PuDidEnd, PuDidNotEnd}"
      using Cons.IH by blast
    moreover have "proceeds s (happens h s)"
      by (simp add: proceeds_def happens_process happens_active_started happens_kept happens_publishes)
    ultimately show ?thesis using happens_quiet [of s h] by (auto simp: quiet_def intro: proceeds_trans)
  qed
qed

lemma ending_wait_returns:
  "end_arrived s \<or> ending i s \<and> list_ex (answers i) hs \<Longrightarrow> fst (wait_end hs s) \<noteq> None"
proof (induction hs arbitrary: s)
  case (Cons h hs)
  show ?case
  proof (cases "end_arrived s")
    case True
    then show ?thesis using end_arrived_wait [OF True, of "h # hs"] by auto
  next
    case False
    with Cons.prems have e: "ending i s" "answers i h \<or> list_ex (answers i) hs" by auto
    have "fst (wait_end hs (happens h s)) \<noteq> None"
      using ending_happens [OF e(1), of h] e(2) by (intro Cons.IH) (auto split: if_splits)
    moreover have "pu_channel s = []" using e(1) by (simp add: ending_def)
    ultimately show ?thesis using wait_end_empty by simp
  qed
next
  case Nil
  then show ?case using end_arrived_wait [of s "[]"] by force
qed

lemma publication_end_begins:
  assumes "idle s" "pu_publishing s" "pu_publication s = Some p"
    and u: "u = s\<lparr>pu_timer := None, pu_publishing := False\<rparr>"
    and v: "v = snd (with_publication (publication_end core) p u)"
  shows "(end_arrived v \<or> ending (pb_next p) v) \<and> proceeds u v \<and> quiet u v"
proof (cases "pb_last p")
  case None
  then have "pu_channel s = [PubEnded]"
    using assms(1-3) by (auto simp: idle_def channel_ok_def is_published_def)
  then show ?thesis
    using None
    by (simp add: v u with_publication_def publication_end_def end_arrived_def quiet_def proceeds_cong)
next
  case (Some l)
  have c: "pb_current p = None" "pu_channel s = []"
    using assms(1-3) Some by (auto simp: idle_def channel_ok_def is_published_def)
  show ?thesis
    using c Some
    by (cases core)
      (simp_all add: v u with_publication_def publication_end_def make_and_send_publish_def bindE_def
        modifyE_def pb_emit_def pb_cancel_current_def catchE_def raiseE_def post_def Let_def end_arrived_def
        ending_def is_publish_def new_publish_def proceeds_cong quiet_def)
qed

lemma ch_unpublish_ok:
  assumes "idle s" "ch_unpublish core hs s = (r, t)" "r \<noteq> Blocked"
  shows "r = Done \<and> idle t \<and> (active_started s \<longrightarrow> active_started t) \<and> (kept s \<longrightarrow> kept t) \<and> pu_running t = pu_running s \<and>
    (\<forall>b. publishes b s \<longrightarrow> publishes b t) \<and> \<not> pu_publishing t \<and> pu_publication t = None \<and>
    pu_timer t = None \<and>
    (if pu_publishing s then pu_log t = pu_log s @ [PuDidEnd] \<or> pu_log t = pu_log s @ [PuDidNotEnd]
     else pu_log t = pu_log s)"
proof (cases "pu_publishing s")
  case False
  then show ?thesis
    using assms
    by (cases "pu_publication s")
      (auto simp: ch_unpublish_def idle_def channel_ok_def active_started_def kept_def publishes_def Let_def)
next
  case True
  then obtain p where p: "pu_publication s = Some p" using assms(1) by (auto simp: idle_def channel_ok_def)
  let ?u = "s\<lparr>pu_timer := None, pu_publishing := False\<rparr>"
  let ?v = "snd (with_publication (publication_end core) p ?u)"
  from publication_end_begins [OF assms(1) True p refl refl, of core]
  have v: "ending (pb_next p) ?v \<or> end_arrived ?v" "proceeds ?u ?v" "quiet ?u ?v" by auto
  obtain n w where w: "wait_end hs ?v = (n, w)" by (cases "wait_end hs ?v")
  show ?thesis
  proof (cases n)
    case None
    then show ?thesis using assms(2,3) True p w by (simp add: ch_unpublish_def Let_def)
  next
    case (Some m)
    with assms(2) True p w have t: "r = Done" "t = (pu_post m w)\<lparr>pu_publication := None\<rparr>"
      by (simp_all add: ch_unpublish_def Let_def)
    from ending_wait_some [OF v(1)] w Some have k: "pu_channel w = []" "quiet ?v w" "proceeds ?v w"
      "m \<in> {PuDidEnd, PuDidNotEnd}" by auto
    have "\<not> pu_publishing w" "pu_log w = pu_log s" using k(2) v(3) by (simp_all add: quiet_def)
    moreover from proceeds_trans [OF v(2) k(3)]
    have "pu_timer w = None" "pu_running w = pu_running s" "active_started s \<longrightarrow> active_started w"
      "\<forall>b. publishes b s \<longrightarrow> publishes b w" "kept s \<longrightarrow> kept w"
      by (simp_all add: proceeds_def same_process_def active_started_def kept_def publishes_def)
    ultimately show ?thesis
      using True k(1,4) unfolding t
      by (auto simp: pu_post_def idle_def channel_ok_def active_started_def kept_def publishes_def)
  qed
qed

section \<open>Reachable publishers\<close>

lemma queue_cong:
  "idle (s\<lparr>pu_queue := cs\<rparr>) = idle s" "active_started (s\<lparr>pu_queue := cs\<rparr>) = active_started s"
  by (rule view_cong(2), simp add: pu_view_def) (simp add: active_started_def)

definition publisher_ok :: "publisher \<Rightarrow> bool" where
  "publisher_ok s =
     (idle s \<and> active_started s \<and> (pu_running s \<longrightarrow> kept s \<and> publishes (working s) s))"

lemma happens_ok: "publisher_ok s \<Longrightarrow> publisher_ok (happens h s)"
proof -
  assume ok: "publisher_ok s"
  have "working (happens h s) = working s" "pu_running (happens h s) = pu_running s"
    using happens_quiet [of s h] happens_process [of s h]
    by (simp_all add: working_def quiet_def same_process_def)
  then show ?thesis
    using ok happens_idle happens_active_started happens_kept happens_publishes by (simp add: publisher_ok_def)
qed

lemma publisher_timer_ok: "publisher_ok s \<Longrightarrow> publisher_ok (publication_timer_fires s)"
proof (cases "pu_timer s")
  case (Some t)
  then show "publisher_ok s \<Longrightarrow> ?thesis"
    by (cases "pu_state s")
      (auto simp: publication_timer_fires_def pu_send_def publisher_ok_def idle_def channel_ok_def
        active_started_def kept_def publishes_def)
qed (simp add: publication_timer_fires_def)

lemma publisher_start_ok: "publisher_ok s \<Longrightarrow> publisher_ok (snd (publisher_start b s))"
proof (cases "pu_started s")
  case False
  assume ok: "publisher_ok s"
  have v: "pu_view (snd (publisher_start b s)) = pu_view s"
    using False by (simp add: publisher_start_def publisher_activate_def pu_send_def pu_view_def Let_def)
  have "\<not> pu_active s" using ok False by (simp add: publisher_ok_def active_started_def)
  then have "publishes (working (snd (publisher_start b s))) (snd (publisher_start b s))"
    "active_started (snd (publisher_start b s))" "kept (snd (publisher_start b s))"
    using False
    by (cases "pu_state s"; auto simp: publisher_start_def publisher_activate_def pu_send_def publishes_def
        active_started_def kept_def Let_def)+
  then show ?thesis using ok view_cong(2) [OF v] by (simp add: publisher_ok_def)
qed (simp add: publisher_start_def)

lemma run_publisher_ok:
  assumes ok: "publisher_ok s" and run: "pu_running s" "run_publisher limiter env core hs s = (r, t)" "r \<noteq> Blocked"
  shows "publisher_ok t"
proof (cases "pu_queue s")
  case Nil
  with run show ?thesis by (simp add: run_publisher_def)
next
  case (Cons c cs)
  let ?s = "s\<lparr>pu_queue := cs\<rparr>"
  have s: "idle ?s" "active_started ?s" "pu_running ?s" "working ?s = working s"
    "publishes (case pub_effect c of None \<Rightarrow> working s | Some v \<Rightarrow> v) ?s" "c \<noteq> PubTerminate \<Longrightarrow> kept ?s"
  proof -
    show "idle ?s" "active_started ?s" using ok by (simp_all add: queue_cong publisher_ok_def)
    show "c \<noteq> PubTerminate \<Longrightarrow> kept ?s" using ok run(1) Cons by (auto simp: publisher_ok_def kept_def)
    show "publishes (case pub_effect c of None \<Rightarrow> working s | Some v \<Rightarrow> v) ?s"
      using ok run(1) Cons by (auto simp: publisher_ok_def publishes_def)
  qed (use run(1) in \<open>simp_all add: working_def\<close>)
  show ?thesis
  proof (cases c)
    case (PubPublish d refresh)
    obtain q u where u: "ch_publish limiter env d refresh ?s = (q, u)" by (cases "ch_publish limiter env d refresh ?s")
    have rt: "(r, t) = (case q of Crashed \<Rightarrow> (Crashed, u\<lparr>pu_running := False\<rparr>) | _ \<Rightarrow> (q, u))"
      using run(2) Cons PubPublish u by (cases q; auto simp: run_publisher_def)
    with run(3) have "q \<noteq> Blocked" by (cases q) auto
    moreover have "publishes (case pub_effect (PubPublish d refresh) of None \<Rightarrow> working ?s | Some v \<Rightarrow> v) ?s"
      using s(5) unfolding s(4) PubPublish .
    ultimately have "idle u \<and> active_started u \<and> (kept ?s \<longrightarrow> kept u) \<and>
        (q = Crashed \<or> q = Done \<and> publishes (working u) u)"
      using ch_publish_ok [OF s(1,2) u] by blast
    with s(6) PubPublish have "idle u \<and> active_started u \<and> kept u \<and> (q = Crashed \<or> q = Done \<and> publishes (working u) u)" by simp
    with rt show ?thesis
      by (cases q) (auto simp: publisher_ok_def idle_def channel_ok_def active_started_def)
  next
    case PubUnpublish
    with run(2) Cons have "ch_unpublish core hs ?s = (r, t)" by (simp add: run_publisher_def)
    from ch_unpublish_ok [OF s(1) this run(3)] s(2,5,6) PubUnpublish publishes_mono [of False t "working t"]
    show ?thesis by (simp add: publisher_ok_def)
  next
    case PubTerminate
    obtain q u where u: "ch_unpublish core hs ?s = (q, u)" by (cases "ch_unpublish core hs ?s")
    with run(2) Cons PubTerminate
    have rt: "(r, t) = (case q of Done \<Rightarrow> (Done, u\<lparr>pu_running := False\<rparr>) | _ \<Rightarrow> (q, u))"
      by (cases q; auto simp: run_publisher_def)
    with run(3) have q: "q \<noteq> Blocked" by (cases q) auto
    from ch_unpublish_ok [OF s(1) u q] have "q = Done" "idle u" "active_started u" using s(2) by simp_all
    with rt show ?thesis by (simp add: publisher_ok_def idle_def channel_ok_def active_started_def)
  qed
qed

lemma publisher_reachable_ok: "publisher_reachable limiter s \<Longrightarrow> publisher_ok s"
proof (induction rule: publisher_reachable.induct)
  case init
  show ?case
    by (simp add: publisher_ok_def publisher_init_def idle_def channel_ok_def active_started_def publishes_def)
next
  case (step s t)
  from step(2) show ?case
    by (cases rule: publisher_step.cases)
      (auto intro: step(3) happens_ok publisher_timer_ok publisher_start_ok run_publisher_ok)
qed

text \<open>A request that goes out and is refused with 423.\<close>

lemma send_publish_sent:
  assumes "pu_publication s = Some p" "pb_current p = None" "pa_core a = Sent"
  shows "\<exists>p'. send_publish a (Some body) s = (Inr None, s\<lparr>pu_publication := Some p'\<rparr>) \<and>
    is_publish (pb_next p) (pb_current p') \<and> \<not> pb_unpublishing p'"
proof -
  obtain r p' where m: "publication_publish (pa_core a) (Some body) (pa_route a) p = (r, p')"
    by (cases "publication_publish (pa_core a) (Some body) (pa_route a) p")
  from publication_publish_current [OF assms(2) m] obtain as where as: "pb_log p' = pb_log p @ as" "silent as"
    by blast
  have "r = Inr ()" "is_publish (pb_next p) (pb_current p')" "\<not> pb_unpublishing p'"
    using m assms(2,3)
    by (auto simp: publication_publish_def make_and_send_publish_def bindE_def modifyE_def pb_emit_def
        pb_cancel_current_def new_publish_def is_publish_def)
  then show ?thesis
    using with_publication_silent [where m = "publication_publish (pa_core a) (Some body) (pa_route a)", OF m as]
      assms(1)
    by (auto simp: send_publish_def)
qed

lemma refused_crashes:
  assumes "pu_publication s = Some p" "pb_current p = None" "pu_channel s = []"
    and "pa_time_left a" "pa_core a = Sent" "rp_code data = 423"
    and "pa_happenings a = CoreEvent (RequestDidFail (pb_next p) data) # hs"
  shows "fst (try_publish limiter env (Some body) (a # as) s) = PubCrashed"
proof -
  obtain p' where p': "send_publish a (Some body) s = (Inr None, s\<lparr>pu_publication := Some p'\<rparr>)"
    "is_publish (pb_next p) (pb_current p')" "\<not> pb_unpublishing p'"
    using send_publish_sent [OF assms(1,2,5)] by blast
  let ?s = "s\<lparr>pu_publication := Some p'\<rparr>"
  have "pu_channel (core_event (RequestDidFail (pb_next p) data) ?s) = [ExcPubFailed 423]"
    using assms(3,6) p'(2,3)
    by (simp add: core_event_def with_publication_def modifyE_def pub_request_did_fail_def post_def Let_def)
  then have "fst (wait_data (pa_happenings a) ?s) = Some (ExcPubFailed 423)"
    using assms(3,7) by (cases hs) simp_all
  then show ?thesis
    using assms(4) p'(1)
    by (cases "wait_data (pa_happenings a) ?s")
      (simp add: publish_answered_def publish_failure_def del: wait_data.simps)
qed

text \<open>A process that has died without being told to end stays dead.\<close>

lemma publisher_stays_dead:
  assumes "rtranclp (publisher_step limiter) s t" "\<not> pu_running s" "kept s"
  shows "\<not> pu_running t \<and> kept t"
  using assms
proof (induction rule: rtranclp_induct)
  case (step t u)
  from step(2) show ?case
  proof (cases rule: publisher_step.cases)
    case (start b)
    then show ?thesis using step by (auto simp: publisher_start_def kept_def)
  next
    case (happening h)
    then show ?thesis using step happens_kept happens_process [of t h] by (simp add: same_process_def)
  next
    case timer
    then show ?thesis
      using step by (auto simp: publication_timer_fires_def pu_send_def kept_def split: option.split)
  qed (use step in simp)
qed simp

section \<open>A publisher with a document\<close>

definition sample_document :: document where
  "sample_document = \<lparr>doc_root = ''presence'', doc_xml = ''<presence/>''\<rparr>"

definition sample_publisher :: publisher where
  "sample_publisher =
     publisher_init\<lparr>pu_started := True, pu_active := True, pu_running := True,
       pu_queue := [PubPublish (NewState sample_document) None], pu_state := Some sample_document\<rparr>"

definition sample_reply :: "int \<Rightarrow> reply" where
  "sample_reply code =
     \<lparr>rp_code = code, rp_expires = 600, rp_contacts = None, rp_min_expires = None, rp_etag = Some ''tag''\<rparr>"

definition sample_pub_env :: "happening list \<Rightarrow> pub_env" where
  "sample_pub_env hs =
     \<lparr>pe_routes = Some [\<lparr>pa_route = ''r'', pa_time_left = True, pa_core = Sent, pa_retry_core = Sent,
                         pa_happenings = hs\<rparr>],
      pe_draw = 0, pe_interval = 600\<rparr>"

lemma sample_publisher_reachable: "publisher_reachable min sample_publisher"
proof -
  let ?h = "SetState ''presence'' (=) (Some sample_document)"
  have "publisher_reachable min (happens ?h publisher_init)"
    by (rule publisher_reachable.step [OF publisher_reachable.init happening])
  moreover have "\<not> pu_running (happens ?h publisher_init)"
    "PubTerminate \<notin> set (pu_queue (happens ?h publisher_init))"
    by (simp_all add: publisher_init_def set_state_def publish_state_def sample_document_def)
  ultimately have "publisher_reachable min (snd (publisher_start True (happens ?h publisher_init)))"
    by (blast intro: publisher_reachable.step start)
  then show ?thesis
    by (simp add: publisher_init_def set_state_def publish_state_def sample_document_def sample_publisher_def
        publisher_start_def publisher_activate_def pu_send_def Let_def)
qed

definition sample_request_pub :: publish_request where
  "sample_request_pub =
     \<lparr>rq_id = 0, rq_call_id = 0, rq_cseq = 1, rq_contact = [], rq_route = ''r'', rq_expires = 600,
      rq_if_match = None, rq_body = Some ''<presence/>''\<rparr>"

definition sample_published :: publisher where
  "sample_published =
     publisher_init\<lparr>pu_started := True, pu_active := True, pu_running := True, pu_publishing := True,
       pu_state := Some sample_document, pu_log := [PuWillPublish sample_document 600, PuDidSucceed],
       pu_publication := Some
         \<lparr>pb_duration = 600, pb_last_etag = Some ''tag'', pb_current = None, pb_last = Some sample_request_pub,
          pb_unpublishing = False, pb_next = 1,
          pb_log = [AddObserver 0, Send 0, Post (PubDidSucceed 200 600 ''r'')]\<rparr>\<rparr>"

lemma sample_published_reachable: "publisher_reachable min sample_published"
proof -
  let ?env = "sample_pub_env [CoreEvent (RequestDidSucceed 0 (sample_reply 200))]"
  have "run_publisher min ?env Sent [] sample_publisher = (Done, sample_published)"
    by (simp add: sample_pub_env_def sample_publisher_def sample_reply_def sample_document_def publisher_init_def
        run_publisher_def ch_publish_def init_publication_def pu_post_def publication_init_def interval_or_def
        lookup_and_publish_def send_publish_def with_publication_def publication_publish_def
        make_and_send_publish_def bindE_def modifyE_def pb_emit_def pb_cancel_current_def new_publish_def
        core_event_def pub_request_did_succeed_def is_publish_def post_def publish_answered_def
        sample_published_def sample_request_pub_def Let_def)
  moreover have "pu_running sample_publisher" "0 \<le> pe_draw ?env" "pe_draw ?env \<le> 1"
    by (simp_all add: sample_publisher_def sample_pub_env_def)
  ultimately have "publisher_step min sample_publisher sample_published" by (blast intro: run)
  with sample_publisher_reachable show ?thesis by (rule publisher_reachable.step)
qed

section \<open>Properties\<close>

text \<open>
  C19. An active publisher that has a document and whose process runs will publish it: whatever
  was called and whatever arrived in the meantime, it is publishing, or a timer that publishes
  again is pending, or its queue ends up publishing a document.
\<close>

theorem publisher_keeps_trying:
  assumes "publisher_reachable limiter s" "pu_running s" "pu_active s" "pu_state s \<noteq> None"
  shows "settled pub_effect (pu_queue s) (pu_publishing s \<or> pu_timer s \<noteq> None)"
  using publisher_reachable_ok [OF assms(1)] assms(2-4)
  by (simp add: publisher_ok_def publishes_def working_def)

theorem publisher_keeps_trying_witness:
  "settled pub_effect [PubPublish (NewState sample_document) None] False"
  using publisher_keeps_trying [OF sample_publisher_reachable]
  by (simp add: sample_publisher_def publisher_init_def)

text \<open>
  C20. Withdrawing a publication always comes to an end. In every reachable state the command
  is handled as soon as the core answers the request it sent, whatever else happens before and
  whatever the core does; it never raises; afterwards nothing is published and no timer is
  left, and exactly one end - or failure to end - was reported if the publisher was publishing.
\<close>

theorem publisher_unpublish_complete:
  assumes "publisher_reachable limiter s" "pu_publication s = Some p" "list_ex (answers (pb_next p)) hs"
  shows "let (r, t) = ch_unpublish core hs s
    in r = Done \<and> \<not> pu_publishing t \<and> pu_publication t = None \<and> pu_timer t = None \<and>
       (if pu_publishing s then pu_log t = pu_log s @ [PuDidEnd] \<or> pu_log t = pu_log s @ [PuDidNotEnd]
        else pu_log t = pu_log s)"
proof -
  obtain r t where t: "ch_unpublish core hs s = (r, t)" by (cases "ch_unpublish core hs s")
  have i: "idle s" using publisher_reachable_ok [OF assms(1)] by (simp add: publisher_ok_def)
  have "r \<noteq> Blocked"
  proof (cases "pu_publishing s")
    case True
    from publication_end_begins [OF i True assms(2) refl refl, of core] assms(3)
    have "fst (wait_end hs (snd (with_publication (publication_end core) p
        (s\<lparr>pu_timer := None, pu_publishing := False\<rparr>)))) \<noteq> None"
      by (intro ending_wait_returns) auto
    then show ?thesis using t True assms(2) by (auto simp: ch_unpublish_def Let_def split: prod.splits option.splits)
  next
    case False
    then show ?thesis using t assms(2) by (simp add: ch_unpublish_def Let_def)
  qed
  from ch_unpublish_ok [OF i t this] t show ?thesis by simp
qed

theorem publisher_unpublish_complete_witness:
  "let (r, t) = ch_unpublish Sent [CoreEvent (RequestDidFail 1 (sample_reply 500))] sample_published
   in r = Done \<and> \<not> pu_publishing t \<and> pu_publication t = None \<and> pu_timer t = None"
proof -
  let ?p = "the (pu_publication sample_published)"
  have "pu_publication sample_published = Some ?p"
    "list_ex (answers (pb_next ?p)) [CoreEvent (RequestDidFail 1 (sample_reply 500))]"
    by (simp_all add: sample_published_def)
  from publisher_unpublish_complete [OF sample_published_reachable this, of Sent] show ?thesis
    by (auto split: prod.splits)
qed

text \<open>
  An answer 423 (interval too brief) ends the publisher for good: reading the missing
  \<open>min_expires\<close> raises \<open>AttributeError\<close>, which nothing catches, the process of the reachable
  publisher ends, and no later step - not even stopping and starting it - runs a command again.
\<close>

theorem publisher_interval_too_short_fatal:
  assumes "publisher_reachable limiter s" "pu_running s" "pu_queue s = PubPublish (NewState d) refresh # cs"
    and "pe_routes env = Some (a # as)" "pa_time_left a" "pa_core a = Sent" "pu_channel s = []"
    and "pa_happenings a =
      CoreEvent (RequestDidFail (case pu_publication s of None \<Rightarrow> 0 | Some p \<Rightarrow> pb_next p) data) # hs"
    and "rp_code data = 423"
  shows "\<exists>t. run_publisher limiter env core later s = (Crashed, t) \<and>
    (\<forall>u. rtranclp (publisher_step limiter) t u \<longrightarrow> \<not> pu_running u)"
proof -
  have ok: "publisher_ok s" by (rule publisher_reachable_ok [OF assms(1)])
  obtain q u where u: "ch_publish limiter env (NewState d) refresh (s\<lparr>pu_queue := cs\<rparr>) = (q, u)"
    by (cases "ch_publish limiter env (NewState d) refresh (s\<lparr>pu_queue := cs\<rparr>)")
  let ?i = "init_publication env (NewState d) refresh (s\<lparr>pu_queue := cs, pu_timer := None\<rparr>)"
  obtain p where p: "pu_publication ?i = Some p" "pb_current p = None" "pu_channel ?i = []"
    "pb_next p = (case pu_publication s of None \<Rightarrow> 0 | Some p \<Rightarrow> pb_next p)"
    using ok assms(7)
    by (cases "pu_publication s")
      (simp_all add: init_publication_def pu_post_def publication_init_def publisher_ok_def idle_def Let_def)
  have "fst (try_publish limiter env (Some (doc_xml d)) (a # as) (?i\<lparr>pu_dns_wait := 1\<rparr>)) = PubCrashed"
    by (rule refused_crashes [where p = p]) (use p assms(5,6,8,9) in simp_all)
  then have l: "fst (lookup_and_publish limiter env (NewState d) ?i) = PubCrashed"
    using assms(4) by (simp add: lookup_and_publish_def Let_def del: try_publish.simps)
  obtain v where "lookup_and_publish limiter env (NewState d) ?i = (PubCrashed, v)"
    using l by (cases "lookup_and_publish limiter env (NewState d) ?i") simp
  with u have q: "q = Crashed" by (simp add: ch_publish_def)
  have s: "idle (s\<lparr>pu_queue := cs\<rparr>)" "active_started (s\<lparr>pu_queue := cs\<rparr>)"
    using ok by (simp_all add: queue_cong publisher_ok_def)
  have k: "kept (s\<lparr>pu_queue := cs\<rparr>)" using ok assms(2,3) by (simp add: publisher_ok_def kept_def)
  have "publishes True (s\<lparr>pu_queue := cs\<rparr>)"
    using ok assms(2,3) by (simp add: publisher_ok_def publishes_def)
  with ch_publish_ok [OF s u] k q have "kept u" by (simp only: pub_effect_simps option.case simp_thms command_result.distinct)
  then have "kept (u\<lparr>pu_running := False\<rparr>)" by (simp add: kept_def)
  moreover have "run_publisher limiter env core later s = (Crashed, u\<lparr>pu_running := False\<rparr>)"
    using assms(3) u q by (simp add: run_publisher_def)
  moreover have "\<not> pu_running (u\<lparr>pu_running := False\<rparr>)" by simp
  ultimately show ?thesis using publisher_stays_dead by blast
qed

theorem publisher_interval_too_short_fatal_witness:
  "\<exists>t. run_publisher min (sample_pub_env [CoreEvent (RequestDidFail 0 (sample_reply 423))]) Sent []
      sample_publisher = (Crashed, t) \<and> (\<forall>u. rtranclp (publisher_step min) t u \<longrightarrow> \<not> pu_running u)"
  by (rule publisher_interval_too_short_fatal
      [OF sample_publisher_reachable, where data = "sample_reply 423" and d = sample_document
        and hs = "[]" and as = "[]" and cs = "[]" and refresh = None
        and a = "hd (the (pe_routes (sample_pub_env [CoreEvent (RequestDidFail 0 (sample_reply 423))])))"])
    (simp_all add: sample_publisher_def publisher_init_def sample_pub_env_def sample_reply_def)

end
