(* ===== verification/Subscriber.thy ===== *)
theory Subscriber
  imports Agents Requests
begin

text \<open>
  The subscribers of an account, \<open>sipsimple/account/subscription.py\<close>: a process that takes
  commands, and a second process per subscribe command that subscribes, follows the
  subscription, and is interrupted or terminated by the next command. The second process is a
  state of its own; each of its steps runs to the next wait.
\<close>

section \<open>State\<close>

datatype sub_command = SubSubscribe "int option" | SubUnsubscribe | SubTerminate

datatype sub_data = SubDidStart | SubDidEnd | SubGotNotify nat | ExcSubDidFail int "int option"

datatype originator = Local | Remote

datatype subscriber_note =
    SuSubscribe string int
  | SuDidStart | SuGotNotify nat | SuDidEnd originator | SuDidFail

text \<open>One route: whether time is left, a contact address exists, and what the core does.\<close>

record sub_attempt =
  sa_route :: string
  sa_time_left :: bool
  sa_contact :: bool
  sa_core :: core_outcome

record sub_env =
  se_routes :: "sub_attempt list option"
  se_draw :: rat
  se_interval :: int

text \<open>
  Where the subscription process is: about to look up the routes for a refresh interval,
  waiting for the answer to a request with the routes left, subscribed, or waiting for the end.
\<close>

datatype sub_process =
    NoProcess
  | Spawned "int option"
  | Waiting sub_env "int option" "sub_attempt list"
  | Following
  | Terminating

record subscriber =
  su_started :: bool
  su_active :: bool
  su_subscribed :: bool
  su_running :: bool
  su_stopping :: bool
  su_queue :: "sub_command list"
  su_subscription :: bool
  su_process :: sub_process
  su_timer :: "retry_timer option"
  su_died :: bool
  su_log :: "subscriber_note list"

definition subscriber_init :: subscriber where
  "subscriber_init =
     \<lparr>su_started = False, su_active = False, su_subscribed = False, su_running = False, su_stopping = False,
      su_queue = [], su_subscription = False, su_process = NoProcess, su_timer = None, su_died = False,
      su_log = []\<rparr>"

definition su_post :: "subscriber_note \<Rightarrow> subscriber \<Rightarrow> subscriber" where
  "su_post n s = s\<lparr>su_log := su_log s @ [n]\<rparr>"

definition su_send :: "sub_command \<Rightarrow> subscriber \<Rightarrow> subscriber" where
  "su_send c s = s\<lparr>su_queue := su_queue s @ [c]\<rparr>"

section \<open>The subscription process\<close>

text \<open>
  The \<open>finally\<close> clause. The command process that waits for this end of a subscription goes on;
  if it was told to terminate, it ends too.
\<close>

definition process_finished :: "subscriber \<Rightarrow> subscriber" where
  "process_finished s =
     s\<lparr>su_subscribed := False, su_subscription := False, su_process := NoProcess,
       su_running := su_running s \<and> \<not> su_stopping s\<rparr>"

definition subscription_error :: "request_error \<Rightarrow> subscriber \<Rightarrow> subscriber" where
  "subscription_error e s =
     process_finished (su_post SuDidFail
       (s\<lparr>su_timer := Some \<lparr>rt_delay = re_retry_after e, rt_refresh = re_refresh e\<rparr>\<rparr>))"

text \<open>An exception that no clause catches: only the \<open>finally\<close> clause runs.\<close>

definition process_died :: "subscriber \<Rightarrow> subscriber" where
  "process_died s = process_finished (s\<lparr>su_died := True\<rparr>)"

text \<open>The routes in turn, up to a request that goes out. \<open>Subscription()\<close> is not in a \<open>try\<close>.\<close>

fun try_subscribe :: "sub_env \<Rightarrow> int option \<Rightarrow> sub_attempt list \<Rightarrow> subscriber \<Rightarrow> subscriber" where
  "try_subscribe env refresh [] s =
     subscription_error (request_error NoMoreRoutes (uniform 60 180 (se_draw env)) None) s"
| "try_subscribe env refresh (a # as) s =
     (if \<not> sa_time_left a then try_subscribe env refresh as s
      else if \<not> sa_contact a then try_subscribe env refresh as s
      else case sa_core a of
             CreateFails \<Rightarrow> process_died s
           | SendFails \<Rightarrow> subscription_error (request_error InternalError 5 None) s
           | Sent \<Rightarrow>
               su_post (SuSubscribe (sa_route a) (interval_or refresh (se_interval env)))
                 (s\<lparr>su_subscription := True, su_process := Waiting env refresh as\<rparr>))"

definition process_begins :: "sub_env \<Rightarrow> int option \<Rightarrow> subscriber \<Rightarrow> subscriber" where
  "process_begins env refresh s =
     (case se_routes env of
        None \<Rightarrow> subscription_error (request_error LookupFailed (uniform 15 30 (se_draw env)) None) s
      | Some attempts \<Rightarrow> try_subscribe env refresh attempts s)"

text \<open>The error a refusal stands for; \<open>None\<close>: try the next route.\<close>

definition subscribe_failure :: "sub_env \<Rightarrow> int \<Rightarrow> int option \<Rightarrow> request_error option" where
  "subscribe_failure env code min_expires =
     (if code = 407 then Some (request_error AuthenticationFailed (uniform 60 120 (se_draw env)) None)
      else if code = 423 then
        Some (request_error IntervalTooShort (uniform 60 120 (se_draw env))
                (min_expires_refresh min_expires (se_interval env)))
      else if code \<in> {405, 406, 489} then Some (request_error NotSupported 3600 None)
      else if code = 1400 then Some (request_error OtherFailure 3600 None)
      else None)"

definition resubscribe :: "subscriber \<Rightarrow> subscriber" where
  "resubscribe s = (if su_active s then su_send (SubSubscribe None) s else s)"

text \<open>What the process does with the next item of the data channel.\<close>

definition waiting_receives ::
  "sub_env \<Rightarrow> int option \<Rightarrow> sub_attempt list \<Rightarrow> sub_data \<Rightarrow> subscriber \<Rightarrow> subscriber" where
  "waiting_receives env refresh as d s =
     (case d of
        SubDidStart \<Rightarrow> su_post SuDidStart (s\<lparr>su_subscribed := True, su_process := Following\<rparr>)
      | ExcSubDidFail code m \<Rightarrow>
          (let s = s\<lparr>su_subscription := False\<rparr>
           in case subscribe_failure env code m of
                Some e \<Rightarrow> subscription_error e s
              | None \<Rightarrow> try_subscribe env refresh as s)
      | _ \<Rightarrow> s)"

definition following_receives :: "sub_data \<Rightarrow> subscriber \<Rightarrow> subscriber" where
  "following_receives d s =
     (case d of
        SubDidStart \<Rightarrow> s
      | SubGotNotify n \<Rightarrow> su_post (SuGotNotify n) s
      | SubDidEnd \<Rightarrow> process_finished (resubscribe (su_post (SuDidEnd Remote) s))
      | ExcSubDidFail code m \<Rightarrow> process_finished (resubscribe (su_post SuDidFail s)))"

definition terminating_receives :: "sub_data \<Rightarrow> subscriber \<Rightarrow> subscriber" where
  "terminating_receives d s =
     (case d of
        SubDidEnd \<Rightarrow> process_finished (su_post (SuDidEnd Local) s)
      | ExcSubDidFail code m \<Rightarrow> process_finished (su_post (SuDidEnd Local) s)
      | _ \<Rightarrow> s)"

text \<open>Notifications are passed on for the subscription the process holds, \<open>self._subscription\<close>.\<close>

definition subscription_notified :: "sub_data \<Rightarrow> subscriber \<Rightarrow> subscriber" where
  "subscription_notified d s =
     (if \<not> su_subscription s then s
      else case su_process s of
             Waiting env refresh as \<Rightarrow> waiting_receives env refresh as d s
           | Following \<Rightarrow> following_receives d s
           | Terminating \<Rightarrow> terminating_receives d s
           | _ \<Rightarrow> s)"

text \<open>The two exceptions another command throws into the process.\<close>

definition interrupt_process :: "subscriber \<Rightarrow> subscriber" where
  "interrupt_process s =
     (if su_process s = NoProcess then s
      else process_finished (if su_subscription s then su_post (SuDidEnd Local) s else s))"

definition terminate_process :: "core_outcome \<Rightarrow> subscriber \<Rightarrow> subscriber" where
  "terminate_process core s =
     (if su_process s = NoProcess then s
      else if \<not> su_subscription s then process_finished s
      else if core = Sent then s\<lparr>su_process := Terminating\<rparr>
      else process_finished (su_post (SuDidEnd Local) s))"

section \<open>Commands\<close>

definition ch_subscribe :: "int option \<Rightarrow> subscriber \<Rightarrow> subscriber" where
  "ch_subscribe refresh s =
     (interrupt_process (s\<lparr>su_timer := None\<rparr>))\<lparr>su_process := Spawned refresh\<rparr>"

definition ch_unsubscribe :: "core_outcome \<Rightarrow> subscriber \<Rightarrow> subscriber" where
  "ch_unsubscribe core s = terminate_process core (s\<lparr>su_timer := None\<rparr>)"

definition ch_terminate :: "core_outcome \<Rightarrow> subscriber \<Rightarrow> subscriber" where
  "ch_terminate core s =
     (let s = ch_unsubscribe core (s\<lparr>su_stopping := True\<rparr>)
      in s\<lparr>su_running := su_running s \<and> su_process s \<noteq> NoProcess\<rparr>)"

text \<open>\<open>_run\<close>: the next command; the command process waits while a subscription is terminated.\<close>

definition run_subscriber :: "core_outcome \<Rightarrow> subscriber \<Rightarrow> subscriber option" where
  "run_subscriber core s =
     (if \<not> su_running s \<or> su_process s = Terminating then None
      else case su_queue s of
             [] \<Rightarrow> None
           | c # cs \<Rightarrow>
               Some (let s = s\<lparr>su_queue := cs\<rparr>
                 in case c of
                      SubSubscribe refresh \<Rightarrow> ch_subscribe refresh s
                    | SubUnsubscribe \<Rightarrow> ch_unsubscribe core s
                    | SubTerminate \<Rightarrow> ch_terminate core s))"

definition subscriber_activate :: "(subscriber, unit) eff" where
  "subscriber_activate s =
     (if \<not> su_started s then (Inl RuntimeError, s)
      else (Inr (), su_send (SubSubscribe None) (s\<lparr>su_active := True\<rparr>)))"

definition subscriber_deactivate :: "(subscriber, unit) eff" where
  "subscriber_deactivate s =
     (if \<not> su_started s then (Inl RuntimeError, s)
      else (Inr (), su_send SubUnsubscribe (s\<lparr>su_active := False\<rparr>)))"

text \<open>\<open>start\<close>, with the handler of the start notification of the class: activate if enabled.\<close>

definition subscriber_start :: "bool \<Rightarrow> (subscriber, unit) eff" where
  "subscriber_start enabled s =
     (if su_started s then (Inr (), s)
      else
        let s = s\<lparr>su_started := True, su_running := True, su_stopping := False\<rparr>
        in if enabled then subscriber_activate s else (Inr (), s))"

definition subscriber_stop :: "subscriber \<Rightarrow> subscriber" where
  "subscriber_stop s =
     (if \<not> su_started s then s
      else su_send SubTerminate (s\<lparr>su_started := False, su_active := False\<rparr>))"

definition subscription_timer_fires :: "subscriber \<Rightarrow> subscriber" where
  "subscription_timer_fires s =
     (case su_timer s of
        None \<Rightarrow> s
      | Some t \<Rightarrow>
          (if su_active s then su_send (SubSubscribe (rt_refresh t)) s else s)\<lparr>su_timer := None\<rparr>)"

section \<open>Changes of settings\<close>

definition subscriber_settings :: "string set" where
  "subscriber_settings =
     {''__id__'', ''auth.password'', ''auth.username'', ''sip.always_use_my_proxy'', ''sip.outbound_proxy'',
      ''sip.subscribe_interval'', ''sip.transport_list''}"

text \<open>What an account setting means for a subscriber: the setting that enables it, those it reads.\<close>

definition settings_changed ::
  "string \<Rightarrow> string set \<Rightarrow> bool \<Rightarrow> string set \<Rightarrow> bool \<Rightarrow> (subscriber, unit) eff" where
  "settings_changed switch relevant follows modified enabled s =
     (if \<not> su_started s \<or> \<not> follows then (Inr (), s)
      else if ''enabled'' \<in> modified then (Inr (), s)
      else if switch \<in> modified then
        (if enabled then subscriber_activate s else subscriber_deactivate s)
      else if su_active s \<and> relevant \<inter> modified \<noteq> {} then (Inr (), su_send (SubSubscribe None) s)
      else (Inr (), s))"

definition mwi_settings_changed :: "string set \<Rightarrow> bool \<Rightarrow> (subscriber, unit) eff" where
  "mwi_settings_changed =
     settings_changed ''message_summary.enabled''
       (insert ''message_summary.voicemail_uri'' subscriber_settings) True"

definition presence_settings_changed :: "bool \<Rightarrow> string set \<Rightarrow> bool \<Rightarrow> (subscriber, unit) eff" where
  "presence_settings_changed xcap_discovered =
     settings_changed ''presence.enabled'' subscriber_settings xcap_discovered"

definition xcap_discovered :: "bool \<Rightarrow> (subscriber, unit) eff" where
  "xcap_discovered presence_enabled s =
     (if presence_enabled \<and> \<not> su_active s then subscriber_activate s else (Inr (), s))"

section \<open>Runs\<close>

datatype sub_event =
    SuStart bool | SuStop | SuActivate | SuDeactivate | SuResubscribe | SuNetworkChanged
  | SuTimer | SuData sub_data | SuBegins sub_env
  | SuMwiSettings "string set" bool | SuPresenceSettings bool "string set" bool | SuXcap bool

fun subscriber_event :: "sub_event \<Rightarrow> subscriber \<Rightarrow> subscriber" where
  "subscriber_event (SuStart b) s = snd (subscriber_start b s)"
| "subscriber_event SuStop s = subscriber_stop s"
| "subscriber_event SuActivate s = snd (subscriber_activate s)"
| "subscriber_event SuDeactivate s = snd (subscriber_deactivate s)"
| "subscriber_event SuResubscribe s = resubscribe s"
| "subscriber_event SuNetworkChanged s = resubscribe s"
| "subscriber_event SuTimer s = subscription_timer_fires s"
| "subscriber_event (SuData d) s = subscription_notified d s"
| "subscriber_event (SuBegins env) s =
     (case su_process s of Spawned refresh \<Rightarrow> process_begins env refresh s | _ \<Rightarrow> s)"
| "subscriber_event (SuMwiSettings m b) s = snd (mwi_settings_changed m b s)"
| "subscriber_event (SuPresenceSettings x m b) s = snd (presence_settings_changed x m b s)"
| "subscriber_event (SuXcap b) s = snd (xcap_discovered b s)"

text \<open>A subscriber is started again only once \<open>stop\<close> has returned.\<close>

inductive subscriber_step :: "subscriber \<Rightarrow> subscriber \<Rightarrow> bool" where
  event: "(\<And>b. e = SuStart b \<Longrightarrow> su_started s \<or> \<not> su_running s) \<Longrightarrow>
    subscriber_step s (subscriber_event e s)"
| command: "run_subscriber core s = Some t \<Longrightarrow> subscriber_step s t"

inductive subscriber_reachable :: "subscriber \<Rightarrow> bool" where
  init: "subscriber_reachable subscriber_init"
| step: "subscriber_reachable s \<Longrightarrow> subscriber_step s t \<Longrightarrow> subscriber_reachable t"

section \<open>The invariant\<close>

definition sub_effect :: "sub_command \<Rightarrow> bool option" where
  "sub_effect c = (case c of SubSubscribe r \<Rightarrow> Some True | _ \<Rightarrow> Some False)"

lemma sub_effect_simps [simp]:
  "sub_effect (SubSubscribe r) = Some True" "sub_effect SubUnsubscribe = Some False"
  "sub_effect SubTerminate = Some False"
  by (simp_all add: sub_effect_def)

definition in_pursuit :: "subscriber \<Rightarrow> bool" where
  "in_pursuit s = (su_process s \<noteq> NoProcess \<and> su_process s \<noteq> Terminating \<or> su_timer s \<noteq> None)"

text \<open>An active subscriber subscribes, will try again, or has a command that makes it try.\<close>

definition pursues :: "subscriber \<Rightarrow> bool" where
  "pursues s = (su_active s \<and> \<not> su_died s \<longrightarrow> settled sub_effect (su_queue s) (in_pursuit s))"

text \<open>Starting and stopping: at most one terminate command is on its way, and only when stopped.\<close>

definition lifecycle :: "subscriber \<Rightarrow> bool" where
  "lifecycle s =
     ((su_active s \<longrightarrow> su_started s) \<and> (su_started s \<longrightarrow> su_running s \<and> \<not> su_stopping s) \<and>
      (su_started s \<or> su_stopping s \<or> \<not> su_running s \<longrightarrow> SubTerminate \<notin> set (su_queue s)) \<and>
      count_list (su_queue s) SubTerminate \<le> 1)"

fun subscription_seen :: "subscriber_note \<Rightarrow> bool \<Rightarrow> bool" where
  "subscription_seen SuDidStart b = True"
| "subscription_seen (SuDidEnd w) b = False"
| "subscription_seen SuDidFail b = False"
| "subscription_seen n b = b"

definition truthful :: "subscriber \<Rightarrow> bool" where
  "truthful s = (su_subscribed s \<longleftrightarrow> fold subscription_seen (su_log s) False)"

text \<open>Only a process that follows or ends its subscription is subscribed.\<close>

definition subscribed_ok :: "subscriber \<Rightarrow> bool" where
  "subscribed_ok s =
     ((su_subscribed s \<longrightarrow> su_process s = Following \<or> su_process s = Terminating) \<and>
      (su_process s = Following \<longrightarrow> su_subscribed s) \<and>
      (su_subscription s \<longleftrightarrow> su_process s \<noteq> NoProcess \<and> (\<forall>r. su_process s \<noteq> Spawned r)))"

definition subscriber_ok :: "subscriber \<Rightarrow> bool" where
  "subscriber_ok s = (pursues s \<and> lifecycle s \<and> truthful s \<and> subscribed_ok s)"

lemmas subscriber_parts = pursues_def in_pursuit_def lifecycle_def truthful_def subscribed_ok_def

lemma resubscribe_settled:
  "su_active s \<Longrightarrow> settled sub_effect (su_queue (resubscribe s)) b"
  by (simp add: resubscribe_def su_send_def)

definition ready :: "subscriber \<Rightarrow> bool" where
  "ready s = (su_active s \<and> \<not> su_died s \<longrightarrow> settled sub_effect (su_queue s) True)"

lemma pursues_ready: "pursues s \<Longrightarrow> ready s"
  using settled_mono by (auto simp: pursues_def ready_def)

lemma process_finished_lifecycle: "lifecycle s \<Longrightarrow> lifecycle (process_finished s)"
  by (auto simp: lifecycle_def process_finished_def split: if_splits)

lemma process_finished_rest:
  "subscribed_ok (process_finished s)" "su_log (process_finished s) = su_log s"
  "su_subscribed (process_finished s) = False" "su_process (process_finished s) = NoProcess"
  "su_timer (process_finished s) = su_timer s" "su_queue (process_finished s) = su_queue s"
  "su_active (process_finished s) = su_active s" "su_died (process_finished s) = su_died s"
  by (simp_all add: process_finished_def subscribed_ok_def)

lemma lifecycle_cong:
  "su_active t = su_active s \<Longrightarrow> su_started t = su_started s \<Longrightarrow> su_running t = su_running s \<Longrightarrow>
   su_stopping t = su_stopping s \<Longrightarrow> su_queue t = su_queue s \<Longrightarrow> lifecycle t = lifecycle s"
  by (simp add: lifecycle_def)

lemma finished_ok:
  assumes "lifecycle s" "\<not> fold subscription_seen (su_log s) False"
    and "su_active s \<and> \<not> su_died s \<longrightarrow> settled sub_effect (su_queue s) (su_timer s \<noteq> None)"
  shows "subscriber_ok (process_finished s)"
  using assms process_finished_lifecycle process_finished_rest
  by (simp add: subscriber_ok_def truthful_def pursues_def in_pursuit_def)

lemma subscription_error_ok:
  assumes "lifecycle s" "ready s"
  shows "subscriber_ok (subscription_error e s)"
  unfolding subscription_error_def
  by (rule finished_ok) (use assms in \<open>simp_all add: su_post_def ready_def lifecycle_def\<close>)

lemma process_died_ok:
  "lifecycle s \<Longrightarrow> \<not> fold subscription_seen (su_log s) False \<Longrightarrow> subscriber_ok (process_died s)"
  unfolding process_died_def by (rule finished_ok) (simp_all add: lifecycle_def)

lemma try_subscribe_ok:
  "lifecycle s \<Longrightarrow> ready s \<Longrightarrow> truthful s \<Longrightarrow> \<not> su_subscribed s \<Longrightarrow>
   subscriber_ok (try_subscribe env refresh as s)"
proof (induction as)
  case (Cons a as)
  have "subscriber_ok (su_post (SuSubscribe (sa_route a) (interval_or refresh (se_interval env)))
      (s\<lparr>su_subscription := True, su_process := Waiting env refresh as\<rparr>))"
    using Cons.prems by (simp add: subscriber_ok_def subscriber_parts ready_def su_post_def)
  then show ?case
    using Cons subscription_error_ok process_died_ok
    by (simp add: truthful_def split: core_outcome.split)
qed (simp add: subscription_error_ok)

lemma process_begins_ok:
  assumes "subscriber_ok s" "su_process s = Spawned r"
  shows "subscriber_ok (process_begins env refresh s)"
proof -
  have "lifecycle s" "ready s" "truthful s" "\<not> su_subscribed s"
    using assms pursues_ready by (auto simp: subscriber_ok_def subscribed_ok_def)
  then show ?thesis
    using subscription_error_ok try_subscribe_ok by (simp add: process_begins_def split: option.split)
qed

lemma waiting_receives_ok:
  assumes ok: "subscriber_ok s" and w: "su_process s = Waiting env refresh as"
  shows "subscriber_ok (waiting_receives env refresh as d s)"
proof (cases d)
  case (ExcSubDidFail code m)
  let ?s = "s\<lparr>su_subscription := False\<rparr>"
  have "lifecycle ?s" "ready ?s" "truthful ?s" "\<not> su_subscribed ?s"
    using ok w pursues_ready [of s]
    by (auto simp: subscriber_ok_def subscribed_ok_def lifecycle_def ready_def truthful_def)
  then show ?thesis
    using ExcSubDidFail subscription_error_ok try_subscribe_ok
    by (simp add: waiting_receives_def Let_def split: option.split)
next
  case SubDidStart
  then show ?thesis
    using ok w by (auto simp: waiting_receives_def su_post_def subscriber_ok_def subscriber_parts)
qed (use ok in \<open>simp_all add: waiting_receives_def\<close>)

lemma resubscribe_ok:
  assumes "subscriber_ok s"
  shows "subscriber_ok (resubscribe s)"
  using assms
  by (auto simp: resubscribe_def su_send_def subscriber_ok_def subscriber_parts split: if_splits)

lemma following_receives_ok:
  assumes ok: "subscriber_ok s" and f: "su_process s = Following"
  shows "subscriber_ok (following_receives d s)"
proof -
  have l: "lifecycle (resubscribe (su_post n s))" for n
    using ok by (auto simp: resubscribe_def su_send_def su_post_def subscriber_ok_def lifecycle_def split: if_splits)
  have q: "su_active (resubscribe (su_post n s)) \<longrightarrow> settled sub_effect (su_queue (resubscribe (su_post n s))) b" for n b
    using resubscribe_settled [of "su_post n s"] by (simp add: resubscribe_def su_send_def)
  have g: "su_log (resubscribe (su_post n s)) = su_log s @ [n]" for n
    by (simp add: resubscribe_def su_send_def su_post_def)
  have "subscriber_ok (process_finished (resubscribe (su_post n s)))" if "\<And>b. \<not> subscription_seen n b" for n
  proof (rule finished_ok [OF l])
    show "\<not> fold subscription_seen (su_log (resubscribe (su_post n s))) False" using g that by simp
  qed (use q in blast)
  from this [of "SuDidEnd Remote"] this [of SuDidFail]
  have e: "subscriber_ok (process_finished (resubscribe (su_post (SuDidEnd Remote) s)))"
    "subscriber_ok (process_finished (resubscribe (su_post SuDidFail s)))" by simp_all
  have n: "subscriber_ok (su_post (SuGotNotify x) s)" for x
    using ok f by (auto simp: su_post_def subscriber_ok_def subscriber_parts)
  show ?thesis
    using ok e n by (cases d) (simp_all add: following_receives_def)
qed

lemma terminating_receives_ok:
  assumes ok: "subscriber_ok s" and f: "su_process s = Terminating"
  shows "subscriber_ok (terminating_receives d s)"
proof -
  have "subscriber_ok (process_finished (su_post (SuDidEnd Local) s))"
    by (rule finished_ok)
      (use ok f in \<open>simp_all add: su_post_def subscriber_ok_def lifecycle_def pursues_def in_pursuit_def\<close>)
  then show ?thesis using ok by (cases d) (simp_all add: terminating_receives_def)
qed

lemma subscription_notified_ok: "subscriber_ok s \<Longrightarrow> subscriber_ok (subscription_notified d s)"
  by (cases "su_process s")
    (simp_all add: subscription_notified_def waiting_receives_ok following_receives_ok terminating_receives_ok)

lemma interrupt_process_rest:
  "su_process (interrupt_process s) = NoProcess" "su_timer (interrupt_process s) = su_timer s"
  "su_queue (interrupt_process s) = su_queue s" "su_active (interrupt_process s) = su_active s"
  "su_died (interrupt_process s) = su_died s"
  by (simp_all add: interrupt_process_def process_finished_def su_post_def)

lemma interrupt_process_ok:
  assumes "lifecycle s" "truthful s" "subscribed_ok s"
  shows "lifecycle (interrupt_process s)" "truthful (interrupt_process s)" "subscribed_ok (interrupt_process s)"
proof -
  have l: "lifecycle (su_post n s)" for n using assms(1) by (simp add: su_post_def lifecycle_def)
  show "lifecycle (interrupt_process s)"
    using assms(1) l process_finished_lifecycle by (simp add: interrupt_process_def)
  show "truthful (interrupt_process s)" "subscribed_ok (interrupt_process s)"
    using assms(2,3) process_finished_rest
    by (auto simp: interrupt_process_def su_post_def truthful_def subscribed_ok_def process_finished_def)
qed

lemma ch_subscribe_ok:
  assumes "lifecycle s" "truthful s" "subscribed_ok s" "ready s"
  shows "subscriber_ok (ch_subscribe refresh s)"
proof -
  let ?s = "s\<lparr>su_timer := None\<rparr>"
  have "lifecycle ?s" "truthful ?s" "subscribed_ok ?s"
    using assms(1-3) by (simp_all add: lifecycle_def truthful_def subscribed_ok_def)
  note i = interrupt_process_ok [OF this] interrupt_process_rest [of ?s]
  from i(1-4) have "lifecycle (ch_subscribe refresh s)" "truthful (ch_subscribe refresh s)"
    "subscribed_ok (ch_subscribe refresh s)"
    by (simp_all add: ch_subscribe_def lifecycle_def truthful_def) (simp add: subscribed_ok_def)
  moreover have "pursues (ch_subscribe refresh s)"
    using assms(4) i(6-8) by (simp add: ch_subscribe_def pursues_def in_pursuit_def ready_def)
  ultimately show ?thesis by (simp add: subscriber_ok_def)
qed

lemma terminate_process_ok:
  assumes "lifecycle s" "truthful s" "subscribed_ok s" "su_process s \<noteq> Terminating"
    and "su_active s \<and> \<not> su_died s \<longrightarrow> settled sub_effect (su_queue s) False"
  shows "subscriber_ok (terminate_process core s)"
proof -
  have q: "su_active s \<and> \<not> su_died s \<longrightarrow> settled sub_effect (su_queue s) b" for b
    using assms(5) settled_mono by auto
  show ?thesis
  proof (cases "su_process s = NoProcess")
    case True
    have "pursues s" using q by (simp add: pursues_def)
    then show ?thesis using True assms(1-3) by (simp add: terminate_process_def subscriber_ok_def)
  next
    case False
    have "pursues (s\<lparr>su_process := Terminating\<rparr>)" using q by (simp add: pursues_def)
    moreover have "subscribed_ok (s\<lparr>su_process := Terminating\<rparr>)" if "su_subscription s"
      using assms(3) that by (simp add: subscribed_ok_def)
    ultimately have e: "subscriber_ok (s\<lparr>su_process := Terminating\<rparr>)" if "su_subscription s"
      using assms(1,2) that by (simp add: subscriber_ok_def lifecycle_def truthful_def)
    have "subscriber_ok (process_finished (su_post (SuDidEnd Local) s))"
      by (rule finished_ok) (use assms(1) q in \<open>simp_all add: su_post_def lifecycle_def\<close>)
    moreover have "subscriber_ok (process_finished s)" if "\<not> su_subscription s"
      by (rule finished_ok) (use assms(1-4) q that False in \<open>auto simp: truthful_def subscribed_ok_def\<close>)
    ultimately show ?thesis using False e by (simp add: terminate_process_def)
  qed
qed

lemma running_cong:
  "pursues (s\<lparr>su_running := b\<rparr>) = pursues s" "truthful (s\<lparr>su_running := b\<rparr>) = truthful s"
  "subscribed_ok (s\<lparr>su_running := b\<rparr>) = subscribed_ok s"
  by (simp_all add: pursues_def in_pursuit_def truthful_def subscribed_ok_def)

lemma run_subscriber_ok:
  assumes ok: "subscriber_ok s" and r: "run_subscriber core s = Some t"
  shows "subscriber_ok t"
proof -
  obtain c cs where c: "su_queue s = c # cs" "su_running s" "su_process s \<noteq> Terminating"
    using r by (auto simp: run_subscriber_def split: if_splits list.splits)
  let ?s = "s\<lparr>su_queue := cs\<rparr>"
  have t: "t = (case c of SubSubscribe refresh \<Rightarrow> ch_subscribe refresh ?s
      | SubUnsubscribe \<Rightarrow> ch_unsubscribe core ?s | SubTerminate \<Rightarrow> ch_terminate core ?s)"
    using r c by (cases c) (simp_all add: run_subscriber_def Let_def)
  have s: "lifecycle ?s" "truthful ?s" "subscribed_ok ?s"
    using ok c(1) by (auto simp: subscriber_ok_def lifecycle_def truthful_def subscribed_ok_def split: if_splits)
  have q: "su_active s \<and> \<not> su_died s \<longrightarrow> settled sub_effect cs (case sub_effect c of None \<Rightarrow> b | Some v \<Rightarrow> v)" for b
    using ok c(1) by (cases c) (simp_all add: subscriber_ok_def pursues_def)
  show ?thesis
  proof (cases c)
    case (SubSubscribe refresh)
    then have "ready ?s" using q by (simp add: ready_def)
    then show ?thesis using t SubSubscribe ch_subscribe_ok [OF s] by simp
  next
    case SubUnsubscribe
    have "subscriber_ok (terminate_process core (?s\<lparr>su_timer := None\<rparr>))"
      by (rule terminate_process_ok)
        (use s c(3) q SubUnsubscribe in \<open>simp_all add: lifecycle_def truthful_def subscribed_ok_def\<close>)
    then show ?thesis using t SubUnsubscribe by (simp add: ch_unsubscribe_def)
  next
    case SubTerminate
    have st: "\<not> su_started s" using ok c(1) SubTerminate by (auto simp: subscriber_ok_def lifecycle_def)
    have nt: "SubTerminate \<notin> set cs" using ok c(1) SubTerminate by (auto simp: subscriber_ok_def lifecycle_def count_list_0_iff)
    have a: "\<not> su_active s" using ok st by (auto simp: subscriber_ok_def lifecycle_def)
    let ?u = "terminate_process core (?s\<lparr>su_stopping := True, su_timer := None\<rparr>)"
    have u: "subscriber_ok ?u"
      by (rule terminate_process_ok)
        (use s c(3) a st nt in \<open>simp_all add: lifecycle_def truthful_def subscribed_ok_def\<close>)
    have "lifecycle (?u\<lparr>su_running := b\<rparr>)" for b
    proof -
      have "su_queue ?u = cs" "\<not> su_started ?u" "\<not> su_active ?u"
        using st a by (simp_all add: terminate_process_def process_finished_def su_post_def)
      then show ?thesis using nt by (simp add: lifecycle_def)
    qed
    then have "subscriber_ok (?u\<lparr>su_running := b\<rparr>)" for b
      using u by (simp add: subscriber_ok_def running_cong)
    then show ?thesis using t SubTerminate by (simp add: ch_terminate_def ch_unsubscribe_def Let_def)
  qed
qed

lemma subscriber_send_ok:
  assumes "subscriber_ok s" "su_active t \<longrightarrow> c = SubSubscribe r" "su_active t \<longrightarrow> su_started t"
    and "t = s\<lparr>su_active := a, su_timer := m\<rparr>" "c \<noteq> SubTerminate"
  shows "subscriber_ok (su_send c t)"
  using assms by (auto simp: su_send_def subscriber_ok_def subscriber_parts)

lemma subscriber_activate_ok: "subscriber_ok s \<Longrightarrow> subscriber_ok (snd (subscriber_activate s))"
  by (auto simp: subscriber_activate_def intro: subscriber_send_ok [where a = True and m = "su_timer s"])

lemma subscriber_deactivate_ok: "subscriber_ok s \<Longrightarrow> subscriber_ok (snd (subscriber_deactivate s))"
  by (auto simp: subscriber_deactivate_def intro: subscriber_send_ok [where a = False and m = "su_timer s"])

lemma settings_changed_ok:
  "subscriber_ok s \<Longrightarrow> subscriber_ok (snd (settings_changed switch relevant follows modified enabled s))"
proof -
  assume ok: "subscriber_ok s"
  have "subscriber_ok (su_send (SubSubscribe None) s)" if "su_active s" "su_started s"
    using ok that by (intro subscriber_send_ok [where a = True and m = "su_timer s"]) auto
  then show ?thesis
    using ok subscriber_activate_ok subscriber_deactivate_ok by (simp add: settings_changed_def)
qed

lemma subscriber_start_ok:
  assumes ok: "subscriber_ok s" and r: "su_started s \<or> \<not> su_running s"
  shows "subscriber_ok (snd (subscriber_start b s))"
proof (cases "su_started s")
  case False
  let ?s = "s\<lparr>su_started := True, su_running := True, su_stopping := False\<rparr>"
  have "lifecycle ?s" using ok r False by (auto simp: subscriber_ok_def lifecycle_def)
  moreover have "\<not> su_active s" using ok False by (auto simp: subscriber_ok_def lifecycle_def)
  ultimately have "subscriber_ok ?s"
    using ok by (auto simp: subscriber_ok_def pursues_def truthful_def subscribed_ok_def)
  then show ?thesis using False subscriber_activate_ok by (simp add: subscriber_start_def Let_def)
qed (use ok in \<open>simp add: subscriber_start_def\<close>)

lemma subscriber_stop_ok: "subscriber_ok s \<Longrightarrow> subscriber_ok (subscriber_stop s)"
  by (auto simp: subscriber_stop_def su_send_def subscriber_ok_def pursues_def lifecycle_def truthful_def
      subscribed_ok_def count_list_0_iff)

lemma subscriber_timer_ok: "subscriber_ok s \<Longrightarrow> subscriber_ok (subscription_timer_fires s)"
proof (cases "su_timer s")
  case (Some t)
  assume ok: "subscriber_ok s"
  then have "su_active s \<longrightarrow> su_started s" by (simp add: subscriber_ok_def lifecycle_def)
  then have "subscriber_ok (su_send (SubSubscribe (rt_refresh t)) (s\<lparr>su_timer := None\<rparr>))" if "su_active s"
    using that by (intro subscriber_send_ok [OF ok, where a = True and m = None]) auto
  moreover have "subscriber_ok (s\<lparr>su_timer := None\<rparr>)" if "\<not> su_active s"
    using ok that by (auto simp: subscriber_ok_def pursues_def lifecycle_def truthful_def subscribed_ok_def)
  moreover have "(su_send c s)\<lparr>su_timer := None\<rparr> = su_send c (s\<lparr>su_timer := None\<rparr>)" for c
    by (simp add: su_send_def)
  ultimately show ?thesis using Some by (simp add: subscription_timer_fires_def)
qed (simp add: subscription_timer_fires_def)

lemma subscriber_event_ok:
  assumes "subscriber_ok s" "\<And>b. e = SuStart b \<Longrightarrow> su_started s \<or> \<not> su_running s"
  shows "subscriber_ok (subscriber_event e s)"
proof (cases e)
  case (SuBegins env)
  then show ?thesis using assms(1) process_begins_ok by (simp split: sub_process.split)
next
  case (SuStart b)
  then show ?thesis using assms subscriber_start_ok by simp
next
  case (SuXcap b)
  then show ?thesis using assms(1) subscriber_activate_ok by (simp add: xcap_discovered_def)
qed (use assms(1) in \<open>simp_all add: subscriber_stop_ok subscriber_activate_ok subscriber_deactivate_ok
    resubscribe_ok subscriber_timer_ok subscription_notified_ok mwi_settings_changed_def
    presence_settings_changed_def settings_changed_ok\<close>)

lemma subscriber_reachable_ok: "subscriber_reachable s \<Longrightarrow> subscriber_ok s"
proof (induction rule: subscriber_reachable.induct)
  case init
  show ?case by (simp add: subscriber_ok_def subscriber_parts subscriber_init_def)
next
  case (step s t)
  from step(2) show ?case
    by (cases rule: subscriber_step.cases) (use step(3) subscriber_event_ok run_subscriber_ok in blast)+
qed

text \<open>A timer is pending only when no subscription process is there.\<close>

definition timer_alone :: "subscriber \<Rightarrow> bool" where
  "timer_alone s = (su_process s \<noteq> NoProcess \<longrightarrow> su_timer s = None)"

lemma process_finished_alone: "timer_alone (process_finished s)"
  by (simp add: timer_alone_def process_finished_def)

lemma finished_alone: "timer_alone (subscription_error e s)" "timer_alone (process_died s)"
  by (simp_all add: subscription_error_def process_died_def process_finished_alone)

lemma try_subscribe_alone: "su_timer s = None \<Longrightarrow> timer_alone (try_subscribe env refresh as s)"
proof (induction as)
  case (Cons a as)
  have "timer_alone (su_post n (s\<lparr>su_subscription := True, su_process := Waiting env refresh as\<rparr>))" for n
    using Cons.prems by (simp add: timer_alone_def su_post_def)
  with Cons show ?case by (simp add: finished_alone split: core_outcome.split)
qed (simp add: finished_alone)

lemma notified_alone: "timer_alone s \<Longrightarrow> timer_alone (subscription_notified d s)"
proof (cases "su_process s")
  case (Waiting env refresh as)
  assume "timer_alone s"
  then have t: "su_timer s = None" using Waiting by (simp add: timer_alone_def)
  have "timer_alone (try_subscribe env refresh as (s\<lparr>su_subscription := False\<rparr>))"
    by (rule try_subscribe_alone) (simp add: t)
  moreover have "timer_alone s" by (simp add: timer_alone_def t)
  moreover have "timer_alone (su_post SuDidStart (s\<lparr>su_subscribed := True, su_process := Following\<rparr>))"
    by (simp add: timer_alone_def su_post_def t)
  ultimately have "timer_alone (waiting_receives env refresh as d s)"
    by (cases d) (simp_all add: waiting_receives_def Let_def finished_alone split: option.split)
  with Waiting \<open>timer_alone s\<close> show ?thesis by (simp add: subscription_notified_def)
next
  case Following
  assume "timer_alone s"
  moreover have "timer_alone (su_post n s)" for n
    using \<open>timer_alone s\<close> by (simp add: timer_alone_def su_post_def)
  ultimately show ?thesis using Following
    by (cases d) (simp_all add: subscription_notified_def following_receives_def process_finished_alone)
next
  case Terminating
  then show "timer_alone s \<Longrightarrow> ?thesis"
    by (cases d) (simp_all add: subscription_notified_def terminating_receives_def process_finished_alone)
qed (simp_all add: subscription_notified_def)

lemma same_alone:
  "timer_alone s \<Longrightarrow> su_process t = su_process s \<Longrightarrow> su_timer t = su_timer s \<or> su_timer t = None \<Longrightarrow> timer_alone t"
  by (auto simp: timer_alone_def)

lemma send_alone: "timer_alone (su_send c s) = timer_alone s" "timer_alone (s\<lparr>su_active := b\<rparr>) = timer_alone s"
  by (simp_all add: timer_alone_def su_send_def)

lemma activate_alone:
  "timer_alone s \<Longrightarrow> timer_alone (snd (subscriber_activate s))"
  "timer_alone s \<Longrightarrow> timer_alone (snd (subscriber_deactivate s))"
  by (simp_all add: subscriber_activate_def subscriber_deactivate_def send_alone)

lemma settings_changed_alone:
  "timer_alone s \<Longrightarrow> timer_alone (snd (settings_changed switch relevant follows modified enabled s))"
  by (simp add: settings_changed_def activate_alone send_alone)

lemma subscriber_event_alone:
  assumes "timer_alone s" shows "timer_alone (subscriber_event e s)"
proof (cases e)
  case (SuBegins env)
  show ?thesis
  proof (cases "su_process s")
    case (Spawned refresh)
    then have "su_timer s = None" using assms by (simp add: timer_alone_def)
    with SuBegins Spawned show ?thesis
      by (simp add: process_begins_def finished_alone try_subscribe_alone split: option.split)
  qed (use assms SuBegins in simp_all)
next
  case (SuStart b)
  have "timer_alone (s\<lparr>su_started := True, su_running := True, su_stopping := False\<rparr>)"
    using assms by (simp add: timer_alone_def)
  with SuStart assms show ?thesis by (simp add: subscriber_start_def activate_alone Let_def)
next
  case SuStop
  have "timer_alone (s\<lparr>su_started := False, su_active := False\<rparr>)"
    using assms by (simp add: timer_alone_def)
  with SuStop assms show ?thesis by (simp add: subscriber_stop_def send_alone)
next
  case SuTimer
  with assms show ?thesis
    by (simp add: subscription_timer_fires_def timer_alone_def su_send_def split: option.split)
qed (use assms in \<open>simp_all add: activate_alone notified_alone resubscribe_def send_alone mwi_settings_changed_def
    presence_settings_changed_def settings_changed_alone xcap_discovered_def\<close>)

lemma run_subscriber_alone:
  assumes "timer_alone s" "run_subscriber core s = Some t"
  shows "timer_alone t"
proof -
  have t: "timer_alone (terminate_process core u)" if "su_timer u = None" for u
    using that by (simp add: terminate_process_def process_finished_alone) (simp add: timer_alone_def)
  have "timer_alone ((interrupt_process u)\<lparr>su_process := p\<rparr>)" if "su_timer u = None" for u p
    using that by (simp add: timer_alone_def interrupt_process_rest)
  moreover have "timer_alone (u\<lparr>su_running := b\<rparr>) = timer_alone u" for u b by (simp add: timer_alone_def)
  ultimately show ?thesis
    using assms(2) t
    by (auto simp: run_subscriber_def ch_subscribe_def ch_unsubscribe_def ch_terminate_def Let_def
        split: if_splits list.splits sub_command.splits)
qed

lemma subscriber_reachable_alone: "subscriber_reachable s \<Longrightarrow> timer_alone s"
proof (induction rule: subscriber_reachable.induct)
  case init
  show ?case by (simp add: timer_alone_def subscriber_init_def)
next
  case (step s t)
  from step(2) show ?case
    by (cases rule: subscriber_step.cases) (use step(3) subscriber_event_alone run_subscriber_alone in blast)+
qed

text \<open>
  What goes on without the application, the settings and the network: timers, notifications of
  the core, the subscription process and the commands that are queued.
\<close>

inductive unattended_step :: "subscriber \<Rightarrow> subscriber \<Rightarrow> bool" where
  timer: "unattended_step s (subscriber_event SuTimer s)"
| data: "unattended_step s (subscriber_event (SuData d) s)"
| begins: "unattended_step s (subscriber_event (SuBegins env) s)"
| command: "run_subscriber core s = Some t \<Longrightarrow> unattended_step s t"

definition stranded :: "subscriber \<Rightarrow> bool" where
  "stranded s =
     (su_process s = NoProcess \<and> su_timer s = None \<and> su_queue s = [] \<and> \<not> su_subscription s)"

lemma stranded_stays:
  assumes "rtranclp unattended_step s t" "stranded s"
  shows "t = s"
  using assms
proof (induction rule: rtranclp_induct)
  case (step t u)
  then have "unattended_step s u" by simp
  then show ?case
    by (cases rule: unattended_step.cases)
      (use step.prems in \<open>simp_all add: stranded_def subscription_timer_fires_def subscription_notified_def
        run_subscriber_def split: if_splits\<close>)
qed simp

lemma try_subscribe_dies:
  assumes "list_all (\<lambda>b. \<not> (sa_time_left b \<and> sa_contact b)) pre"
    and "sa_time_left a" "sa_contact a" "sa_core a = CreateFails"
  shows "try_subscribe env refresh (pre @ a # as) s = process_died s"
  using assms by (induction pre) auto

section \<open>Properties\<close>

text \<open>
  C21. An active subscriber keeps trying: unless the creation of a subscription ever raised, an
  active subscriber's command process runs and it is subscribed, is subscribing, has a timer that
  subscribes again, or its queue ends with a command that subscribes.
\<close>

theorem subscriber_keeps_trying:
  assumes "subscriber_reachable s" "su_active s" "\<not> su_died s"
  shows "su_running s \<and> settled sub_effect (su_queue s)
    (su_process s \<noteq> NoProcess \<and> su_process s \<noteq> Terminating \<or> su_timer s \<noteq> None)"
  using subscriber_reachable_ok [OF assms(1)] assms(2,3)
  by (simp add: subscriber_ok_def pursues_def in_pursuit_def lifecycle_def)

text \<open>
  C22. The notifications of a subscriber tell the truth: in every reachable state, interrupted or
  terminated at any point, it is subscribed exactly when the last start, end or failure it
  reported is a start; and then its process follows the subscription or waits for its end.
\<close>

theorem subscriber_notifications_true:
  assumes "subscriber_reachable s"
  shows "(su_subscribed s \<longleftrightarrow> fold subscription_seen (su_log s) False) \<and>
    (su_subscribed s \<longrightarrow> su_subscription s \<and> (su_process s = Following \<or> su_process s = Terminating))"
  using subscriber_reachable_ok [OF assms]
  by (auto simp: subscriber_ok_def truthful_def subscribed_ok_def)

text \<open>
  C23. When the core cannot create the subscription for the first route that can be tried, the
  exception ends the process before its failure is handled. In every reachable state in which
  this happens to an active subscriber with no command left, it is then active and not
  subscribed, without a process, a timer or a command, it has reported nothing, and so it stays,
  whatever timers, notifications of the core and steps of its processes follow, until the
  application, a setting or the network makes it subscribe.
\<close>

theorem subscriber_creation_failure_lost:
  assumes "subscriber_reachable s" "su_process s = Spawned refresh" "su_active s" "su_queue s = []"
    and "se_routes env = Some (pre @ a # as)" "list_all (\<lambda>b. \<not> (sa_time_left b \<and> sa_contact b)) pre"
    and "sa_time_left a" "sa_contact a" "sa_core a = CreateFails"
    and "rtranclp unattended_step (subscriber_event (SuBegins env) s) t"
  shows "su_active t \<and> \<not> su_subscribed t \<and> su_process t = NoProcess \<and> su_timer t = None \<and>
    su_queue t = [] \<and> su_log t = su_log s"
proof -
  have "su_timer s = None"
    using subscriber_reachable_alone [OF assms(1)] assms(2) by (simp add: timer_alone_def)
  moreover have e: "subscriber_event (SuBegins env) s = process_died s"
    using assms(2,5-9) by (simp add: process_begins_def try_subscribe_dies)
  ultimately have "stranded (process_died s)"
    using assms(4) by (simp add: stranded_def process_died_def process_finished_def)
  with assms(10) e have "t = process_died s" by (intro stranded_stays) simp_all
  with \<open>su_timer s = None\<close> assms(3,4) show ?thesis by (simp add: process_died_def process_finished_def)
qed

section \<open>A subscriber that loses its subscription\<close>

definition sample_sub_env :: "core_outcome \<Rightarrow> sub_env" where
  "sample_sub_env core =
     \<lparr>se_routes = Some [\<lparr>sa_route = ''r'', sa_time_left = True, sa_contact = True, sa_core = core\<rparr>],
      se_draw = 0, se_interval = 3600\<rparr>"

definition sample_subscriber :: subscriber where
  "sample_subscriber =
     subscriber_init\<lparr>su_started := True, su_active := True, su_running := True,
       su_process := Spawned None\<rparr>"

lemma sample_subscriber_reachable: "subscriber_reachable sample_subscriber"
proof -
  have "subscriber_step subscriber_init (subscriber_event (SuStart True) subscriber_init)"
    by (rule event) (simp add: subscriber_init_def)
  with subscriber_reachable.init
  have "subscriber_reachable (subscriber_event (SuStart True) subscriber_init)" by (rule subscriber_reachable.step)
  moreover have "run_subscriber Sent (subscriber_event (SuStart True) subscriber_init) = Some sample_subscriber"
    by (simp add: subscriber_init_def subscriber_start_def subscriber_activate_def su_send_def
        run_subscriber_def ch_subscribe_def interrupt_process_def sample_subscriber_def Let_def)
  ultimately show ?thesis by (blast intro: subscriber_reachable.step subscriber_step.command)
qed

lemma subscriber_events_reachable:
  "subscriber_reachable s \<Longrightarrow> \<forall>e\<in>set es. \<forall>b. e \<noteq> SuStart b \<Longrightarrow> subscriber_reachable (fold subscriber_event es s)"
proof (induction es arbitrary: s)
  case (Cons e es)
  have "subscriber_step s (subscriber_event e s)" by (rule event) (use Cons.prems(2) in auto)
  with Cons.prems(1) have "subscriber_reachable (subscriber_event e s)" by (rule subscriber_reachable.step)
  then show ?case using Cons by simp
qed simp

lemma sample_subscribed_reachable:
  "subscriber_reachable (fold subscriber_event [SuBegins (sample_sub_env Sent), SuData SubDidStart] sample_subscriber)"
  by (rule subscriber_events_reachable [OF sample_subscriber_reachable]) simp

theorem subscriber_keeps_trying_witness:
  "su_active sample_subscriber \<and> su_running sample_subscriber"
  using subscriber_keeps_trying [OF sample_subscriber_reachable]
  by (simp add: sample_subscriber_def subscriber_init_def)

theorem subscriber_notifications_true_witness:
  "let s = fold subscriber_event [SuBegins (sample_sub_env Sent), SuData SubDidStart] sample_subscriber
   in su_subscribed s \<and> fold subscription_seen (su_log s) False"
  using subscriber_notifications_true [OF sample_subscribed_reachable]
  by (simp add: sample_subscriber_def subscriber_init_def sample_sub_env_def process_begins_def su_post_def
      subscription_notified_def waiting_receives_def interval_or_def)

theorem subscriber_creation_failure_lost_witness:
  "let t = subscriber_event SuTimer (subscriber_event (SuBegins (sample_sub_env CreateFails)) sample_subscriber)
   in su_active t \<and> \<not> su_subscribed t \<and> su_process t = NoProcess \<and> su_timer t = None \<and> su_queue t = []"
proof -
  let ?e = "sample_sub_env CreateFails"
  let ?s = "subscriber_event (SuBegins ?e) sample_subscriber"
  have "rtranclp unattended_step ?s (subscriber_event SuTimer ?s)"
    by (rule r_into_rtranclp) (rule unattended_step.timer)
  then show ?thesis
    using subscriber_creation_failure_lost [OF sample_subscriber_reachable, of None ?e "[]"
        "hd (the (se_routes ?e))" "[]" "subscriber_event SuTimer ?s"]
    by (simp add: sample_subscriber_def subscriber_init_def sample_sub_env_def)
qed

end
