(* ===== verification/Session_Base.thy ===== *)
theory Session_Base
  imports Effects
begin

text \<open>
  What a session is made of, \<open>sipsimple/session.py\<close>: its state, its streams, the invitation of
  the core it holds, the channel on which a running procedure waits, and the procedures that
  are scheduled to run. A procedure of the code (a green thread) is a function that may raise;
  what wakes it up at its waits, and what the core answers to its calls, is a script in the
  state. Everything that a procedure does to the outside is a log.
\<close>

section \<open>The core's side\<close>

datatype origin = FromLocal | FromRemote

text \<open>The states of an invitation; \<open>InvNone\<close> before it is sent.\<close>

datatype inv_state =
    InvNone | InvIncoming | InvOutgoing | InvEarly | InvConnecting | InvConnected
  | InvDisconnecting | InvDisconnected

datatype inv_sub_state = SubNone | SubNormal | SubReceivedProposal | SubProposalRequest | SubOther

text \<open>The data of \<open>SIPInvitationChangedState\<close>; an attribute that may be missing is an option.\<close>

record inv_change =
  ic_state :: inv_state
  ic_prev :: inv_state
  ic_sub :: inv_sub_state
  ic_prev_sub :: inv_sub_state
  ic_origin :: origin
  ic_code :: "int option"
  ic_method :: "string option"
  ic_reason :: string
  ic_focus :: bool

text \<open>Session descriptions, as far as the sessions read and write them.\<close>

record media =
  md_kind :: string
  md_port :: nat
  md_connection :: "string option"
  md_ice :: bool

record sdp =
  sd_address :: string
  sd_connection :: "string option"
  sd_version :: nat
  sd_media :: "media list"

datatype sdp_update = SDPSucceeded sdp sdp | SDPFailed

text \<open>What waits on the channel: notifications, and exceptions sent to it.\<close>

datatype notice =
    Changed inv_change
  | SDPUpdate sdp_update
  | Initialized nat
  | StreamStarted nat

datatype sess_exn =
    NotInitialized nat
  | StreamFailed nat
  | Disconnected inv_change
  | TimedOut
  | Core pyerr
  | InvalidState
  | PJSIP
  | Exit
  | Uncaught pyerr
  | StopIteration
  | Stuck

text \<open>
  What happens while a procedure waits: an item arrives - with the state the invitation has by
  then, and whether more is queued -, or somebody asks for hold or its end.
\<close>

datatype wake_up_content = Got notice | Throw sess_exn

datatype wake_up =
    Item inv_state inv_sub_state bool wake_up_content
  | HoldRequested
  | UnholdRequested

section \<open>The session\<close>

datatype session_state =
    StNone | StIncoming | StConnecting | StAccepting | StConnected | StTerminating | StTerminated
  | StSendingProposal | StReceivedProposal | StAcceptingProposal | StRejectingProposal
  | StCancellingProposal | StProposalRequest

record stream =
  sm_id :: nat
  sm_index :: nat

datatype session_note =
    NewIncoming | NewOutgoing | GotRing | GotProvisional int
  | Transaction origin string "int option"
  | WillStart | DidStart | WillEnd origin | DidEnd origin | DidFail origin "int option"
  | NewProposal origin | ProposalAccepted origin | ProposalRejected origin "int option"
  | ProposalFailure origin | Renegotiated origin "nat list" "nat list" | HoldChanged origin bool
  | TransferNew | TransferFailed int | TransferBegun

datatype stream_call =
    Initialize nat bool | StartStream nat nat | UpdateStream nat nat | Deactivate nat | EndStream nat
  | HoldStream nat | UnholdStream nat | ResetStream nat nat

datatype inv_call =
    SendInvite sdp | SendResponse int "sdp option" | SendReinvite sdp | CancelReinvite | EndInvitation
  | TransferInvitation

datatype effect_log = Post session_note | Call inv_call | OnStream stream_call

text \<open>
  Procedures scheduled by the code: green threads that have not run yet. \<open>TEndKilled\<close> and
  \<open>TCancelKilled\<close> are what is left of \<open>end\<close> and \<open>cancel_proposal\<close> after the call of
  \<open>api.kill\<close>, which lets everything run that was scheduled before it returns.
\<close>

datatype task =
    TEnd
  | TRemoveStreams "stream list"
  | THandle notice
  | TConnect "stream list" "string list" bool bool
  | TAccept "stream list" bool bool
  | TReject int
  | TAcceptProposal "stream list"
  | TRejectProposal int
  | TAddStreams "stream list"
  | TCancelProposal
  | TRing
  | THold
  | TUnhold
  | TStreamFailed stream
  | TEndKilled
  | TCancelKilled

record session =
  se_state :: session_state
  se_outgoing :: bool
  se_on_hold :: bool
  se_proposed :: "stream list option"
  se_streams :: "stream list option"
  se_greenlet :: bool
  se_hold_in_progress :: bool
  se_ended :: bool
  se_connected :: bool
  se_local_focus :: bool
  se_remote_focus :: bool
  se_invitation :: bool
  se_inv_state :: inv_state
  se_inv_sub :: inv_sub_state
  se_inv_incoming :: bool
  se_inv_observed :: bool
  se_active_local :: sdp
  se_active_remote :: sdp
  se_proposed_remote :: "sdp option"
  se_observed :: "nat list"
  se_remote_held :: "nat list"
  se_script :: "wake_up list"
  se_calls :: "sess_exn option list"
  se_more :: bool
  se_resent :: "notice list"
  se_unhandled :: "notice list"
  se_tasks :: "task list"
  se_log :: "effect_log list"

type_synonym 'a sess = "(session, sess_exn, 'a) proc"

text \<open>
  A stream type asked to make a stream of a media of a description: another type may know it,
  no type will, or here it is. Any exception counts as an invalid stream.
\<close>

datatype new_stream = UnknownStream | InvalidStream | NewStream nat

text \<open>
  What the session asks others: the account for a contact address, the host for its address,
  the streams for their descriptions and properties, the registry for new streams.
\<close>

record world =
  wo_contact :: bool
  wo_outgoing_ip :: "string \<Rightarrow> string option"
  wo_agent :: string
  wo_local_media :: "nat \<Rightarrow> sdp option \<Rightarrow> nat \<Rightarrow> media"
  wo_ice_active :: "nat \<Rightarrow> bool"
  wo_hold_supported :: "nat \<Rightarrow> bool"
  wo_remote_hold :: "nat \<Rightarrow> sdp \<Rightarrow> bool"
  wo_validate :: "nat \<Rightarrow> sdp \<Rightarrow> nat \<Rightarrow> bool"
  wo_stream_types :: "(sdp \<Rightarrow> nat \<Rightarrow> new_stream) list"
  wo_peer :: string

section \<open>Elementary actions\<close>

definition log_effect :: "effect_log \<Rightarrow> unit sess" where
  "log_effect e = modifyE (\<lambda>s. s\<lparr>se_log := se_log s @ [e]\<rparr>)"

definition post_note :: "session_note \<Rightarrow> unit sess" where
  "post_note n = log_effect (Post n)"

definition to_state :: "session_state \<Rightarrow> unit sess" where
  "to_state st = modifyE (\<lambda>s. s\<lparr>se_state := st\<rparr>)"

definition set_greenlet :: "bool \<Rightarrow> unit sess" where
  "set_greenlet b = modifyE (\<lambda>s. s\<lparr>se_greenlet := b\<rparr>)"

definition set_proposed :: "stream list option \<Rightarrow> unit sess" where
  "set_proposed ss = modifyE (\<lambda>s. s\<lparr>se_proposed := ss\<rparr>)"

definition schedule :: "task \<Rightarrow> unit sess" where
  "schedule t = modifyE (\<lambda>s. s\<lparr>se_tasks := se_tasks s @ [t]\<rparr>)"

text \<open>A call to the invitation: the next outcome of the script, or success.\<close>

definition inv_call :: "inv_call \<Rightarrow> unit sess" where
  "inv_call c =
     bindE (log_effect (Call c)) (\<lambda>u s.
       case se_calls s of
         [] \<Rightarrow> (Inr (), s)
       | None # cs \<Rightarrow> (Inr (), s\<lparr>se_calls := cs\<rparr>)
       | Some e # cs \<Rightarrow> (Inl e, s\<lparr>se_calls := cs\<rparr>))"

definition on_stream :: "stream_call \<Rightarrow> unit sess" where
  "on_stream c = log_effect (OnStream c)"

definition observe_stream :: "stream \<Rightarrow> unit sess" where
  "observe_stream m = modifyE (\<lambda>s. s\<lparr>se_observed := sm_id m # se_observed s\<rparr>)"

text \<open>\<open>remove_observer\<close> raises \<open>KeyError\<close> when there is no such observer.\<close>

definition unobserve_stream :: "stream \<Rightarrow> unit sess" where
  "unobserve_stream m s =
     (if sm_id m \<in> set (se_observed s)
      then (Inr (), s\<lparr>se_observed := removeAll (sm_id m) (se_observed s)\<rparr>)
      else (Inl (Uncaught KeyError), s))"

definition unobserve_invitation :: "unit sess" where
  "unobserve_invitation s =
     (if se_inv_observed s then (Inr (), s\<lparr>se_inv_observed := False\<rparr>)
      else (Inl (Uncaught KeyError), s))"

text \<open>An attribute the data may not have.\<close>

definition attr :: "'a option \<Rightarrow> 'a sess" where
  "attr x = (case x of None \<Rightarrow> raiseE (Uncaught AttributeError) | Some a \<Rightarrow> retE a)"

text \<open>\<open>for stream in streams: remove_observer; deactivate; end\<close>\<close>

definition drop_stream :: "stream \<Rightarrow> unit sess" where
  "drop_stream m =
     bindE (unobserve_stream m) (\<lambda>u.
     bindE (on_stream (Deactivate (sm_id m))) (\<lambda>u.
       on_stream (EndStream (sm_id m))))"

definition drop_streams :: "stream list \<Rightarrow> unit sess" where
  "drop_streams ms = forE ms drop_stream"

definition the_list :: "'a list option \<Rightarrow> 'a list" where
  "the_list x = (case x of None \<Rightarrow> [] | Some xs \<Rightarrow> xs)"

text \<open>\<open>for stream in self.proposed_streams\<close>, which is \<open>None\<close> when there is no proposal.\<close>

definition proposed_streams :: "stream list sess" where
  "proposed_streams =
     bindE (readE se_proposed) (\<lambda>p. case p of None \<Rightarrow> raiseE (Uncaught TypeError) | Some ms \<Rightarrow> retE ms)"

definition current_streams :: "stream list sess" where
  "current_streams =
     bindE (readE se_streams) (\<lambda>p. case p of None \<Rightarrow> raiseE (Uncaught TypeError) | Some ms \<Rightarrow> retE ms)"

definition drop_proposed :: "unit sess" where
  "drop_proposed = bindE proposed_streams drop_streams"

text \<open>\<open>stream.update(local_sdp, remote_sdp, index)\<close>: the stream learns whether it is on hold.\<close>

definition update_stream :: "world \<Rightarrow> sdp \<Rightarrow> stream \<Rightarrow> nat \<Rightarrow> unit sess" where
  "update_stream w remote m i =
     bindE (on_stream (UpdateStream (sm_id m) i)) (\<lambda>u. modifyE (\<lambda>s. s\<lparr>se_remote_held :=
       (if wo_remote_hold w (sm_id m) remote then sm_id m # removeAll (sm_id m) (se_remote_held s)
        else removeAll (sm_id m) (se_remote_held s))\<rparr>))"

section \<open>Hold requests\<close>

text \<open>
  \<open>hold\<close> and \<open>unhold\<close>, up to the re-INVITE: while another procedure runs, the state is not
  connected and only the flag and the streams change.
\<close>

definition all_streams :: "session \<Rightarrow> stream list" where
  "all_streams s = the_list (se_streams s) @ the_list (se_proposed s)"

definition hold_flags :: "bool sess" where
  "hold_flags s =
     (if se_on_hold s \<or> se_hold_in_progress s then (Inr False, s)
      else
        let s = s\<lparr>se_hold_in_progress := True\<rparr>
        in if all_streams s = [] then (Inr False, s)
           else (Inr (se_state s = StConnected),
                 s\<lparr>se_log := se_log s @ map (\<lambda>m. OnStream (HoldStream (sm_id m))) (all_streams s)\<rparr>))"

definition unhold_flags :: "bool sess" where
  "unhold_flags s =
     (if \<not> se_on_hold s \<and> \<not> se_hold_in_progress s then (Inr False, s)
      else
        let s = s\<lparr>se_hold_in_progress := False\<rparr>
        in if all_streams s = [] then (Inr False, s)
           else (Inr (se_state s = StConnected),
                 s\<lparr>se_log := se_log s @ map (\<lambda>m. OnStream (UnholdStream (sm_id m))) (all_streams s)\<rparr>))"

section \<open>Waiting\<close>

text \<open>The invitation's own view changes before its notification is read.\<close>

definition arrives :: "inv_state \<Rightarrow> inv_sub_state \<Rightarrow> bool \<Rightarrow> wake_up_content \<Rightarrow> session \<Rightarrow> session" where
  "arrives st sub queued c s =
     (let s = s\<lparr>se_inv_state := st, se_inv_sub := sub, se_more := queued\<rparr>
      in case c of
           Got (SDPUpdate (SDPSucceeded l r)) \<Rightarrow> s\<lparr>se_active_local := l, se_active_remote := r\<rparr>
         | _ \<Rightarrow> s)"

fun next_item :: "wake_up list \<Rightarrow> session \<Rightarrow> (sess_exn + notice) \<times> session" where
  "next_item [] s = (Inl Stuck, s\<lparr>se_script := []\<rparr>)"
| "next_item (HoldRequested # its) s = next_item its (snd (hold_flags s))"
| "next_item (UnholdRequested # its) s = next_item its (snd (unhold_flags s))"
| "next_item (Item st sub queued c # its) s =
     (let s = arrives st sub queued c (s\<lparr>se_script := its\<rparr>)
      in case c of Got n \<Rightarrow> (Inr n, s) | Throw e \<Rightarrow> (Inl e, s))"

text \<open>
  \<open>self._channel.wait()\<close>. A time-out can only happen within \<open>api.timeout\<close>, and a procedure is
  killed only by \<open>end\<close> and \<open>cancel_proposal\<close>, which do nothing to a session that is terminating.
  What the procedure itself sent to the channel comes after what was queued there.
\<close>

definition cannot_happen :: "bool \<Rightarrow> sess_exn \<Rightarrow> session \<Rightarrow> bool" where
  "cannot_happen timed e s =
     (e = TimedOut \<and> \<not> timed \<or> e = Exit \<and> se_state s \<in> {StTerminating, StTerminated})"

definition wait :: "bool \<Rightarrow> notice sess" where
  "wait timed s =
     (if se_resent s \<noteq> [] \<and> \<not> se_more s
      then (Inr (hd (se_resent s)), s\<lparr>se_resent := tl (se_resent s)\<rparr>)
      else
        case next_item (se_script s) s of
          (Inl e, t) \<Rightarrow> (Inl (if cannot_happen timed e t then Stuck else e), t)
        | (Inr n, t) \<Rightarrow> (Inr n, t))"

text \<open>\<open>try ... finally\<close>; a procedure that is stuck has not left the \<open>try\<close>.\<close>

definition try_finally :: "'a sess \<Rightarrow> unit sess \<Rightarrow> 'a sess" where
  "try_finally m f s = (if fst (m s) = Inl Stuck then m s else finallyE m f s)"

definition channel_more :: "session \<Rightarrow> bool" where
  "channel_more s = (se_more s \<or> se_resent s \<noteq> [])"

text \<open>A loop around \<open>wait\<close>: no more turns than there are items, and one.\<close>

definition wait_loop ::
  "('st \<Rightarrow> session \<Rightarrow> bool) \<Rightarrow> ('st \<Rightarrow> 'st sess) \<Rightarrow> 'st \<Rightarrow> 'st sess" where
  "wait_loop goes turn st =
     bindE (readE (\<lambda>s. length (se_script s) + length (se_resent s)))
       (\<lambda>n. loopE n Stuck goes turn st)"

text \<open>\<open>while wait_count > 0\<close>: until all streams have been initialized, or have started.\<close>

definition wait_initialized :: "nat \<Rightarrow> unit sess" where
  "wait_initialized k =
     bindE (wait_loop (\<lambda>k s. 0 < k)
              (\<lambda>k. bindE (wait False) (\<lambda>n. retE (case n of Initialized i \<Rightarrow> k - 1 | _ \<Rightarrow> k))) k)
       (\<lambda>k. retE ())"

definition is_core :: "sess_exn \<Rightarrow> bool" where
  "is_core e = (case e of Core x \<Rightarrow> True | InvalidState \<Rightarrow> True | PJSIP \<Rightarrow> True | _ \<Rightarrow> False)"

definition is_media_failure :: "sess_exn \<Rightarrow> bool" where
  "is_media_failure e =
     (case e of NotInitialized i \<Rightarrow> True | StreamFailed i \<Rightarrow> True | TimedOut \<Rightarrow> True | _ \<Rightarrow> False)"

definition is_stream_failure :: "sess_exn \<Rightarrow> bool" where
  "is_stream_failure e = (case e of StreamFailed i \<Rightarrow> True | _ \<Rightarrow> False)"

text \<open>
  \<open>@transition_state(required, new)\<close> on a green-thread procedure: the state changes at the call,
  the procedure is scheduled. Calling it in another state raises \<open>IllegalStateError\<close>, a
  \<open>RuntimeError\<close>.
\<close>

definition transition :: "session_state \<Rightarrow> session_state \<Rightarrow> task \<Rightarrow> unit sess" where
  "transition required new t =
     bindE (readE se_state) (\<lambda>st.
       if st \<noteq> required then raiseE (Uncaught RuntimeError)
       else bindE (to_state new) (\<lambda>u. schedule t))"

text \<open>\<open>@check_state(required)\<close>.\<close>

definition check_state :: "session_state set \<Rightarrow> unit sess \<Rightarrow> unit sess" where
  "check_state required m =
     bindE (readE se_state) (\<lambda>st. if st \<notin> required then raiseE (Uncaught RuntimeError) else m)"

end
