(* ===== verification/Session_Hold.thy ===== *)
theory Session_Hold
  imports Session_Base
begin

text \<open>
  Failing a session or a proposal, and the re-INVITEs the session sends on its own: after ICE,
  to hold and to resume.
\<close>

section \<open>Failing\<close>

text \<open>
  \<open>_fail\<close>: what is posted once the invitation is disconnected, and the originator that is
  reported, which the code overwrites with the originator of the BYE.
\<close>

definition fail_disconnected :: "origin \<Rightarrow> inv_state \<Rightarrow> int \<Rightarrow> inv_change \<Rightarrow> origin sess" where
  "fail_disconnected who prev code d =
     (if prev \<in> {InvConnecting, InvConnected} then
        (if ic_reason d \<in> {''timeout'', ''missing ACK''} then
           bindE (post_note (Transaction FromLocal ''BYE'' (Some 200))) (\<lambda>u. retE FromLocal)
         else if ic_method d \<noteq> None then
           bindE (post_note (Transaction FromRemote ''BYE'' (Some 200))) (\<lambda>u. retE FromRemote)
         else
           bindE (attr (ic_code d)) (\<lambda>c.
           bindE (post_note (Transaction FromLocal ''BYE'' (Some c))) (\<lambda>u. retE FromLocal)))
      else
        bindE (readE se_inv_incoming) (\<lambda>incoming.
          if incoming \<and> prev \<in> {InvIncoming, InvEarly} then
            bindE (post_note (Transaction FromRemote ''INVITE'' (Some code))) (\<lambda>u. retE who)
          else if \<not> incoming \<and> prev \<in> {InvOutgoing, InvEarly} then
            bindE (post_note (Transaction FromLocal ''INVITE'' (Some 487))) (\<lambda>u. retE who)
          else retE who))"

definition fail_invitation :: "origin \<Rightarrow> inv_state \<Rightarrow> int \<Rightarrow> bool \<Rightarrow> origin sess" where
  "fail_invitation who prev code has_reason =
     catchE
       (bindE (readE (\<lambda>s. se_inv_incoming s \<and> se_inv_state s \<in> {InvIncoming, InvEarly})) (\<lambda>answer.
        bindE (if answer then whenE (400 \<le> code \<and> code \<le> 699 \<and> has_reason) (inv_call (SendResponse code None))
               else inv_call EndInvitation) (\<lambda>u.
        bindE (wait_loop (\<lambda>st s. st = None)
                 (\<lambda>st. bindE (wait True) (\<lambda>n.
                    case n of
                      Changed d \<Rightarrow>
                        if ic_state d = InvDisconnected
                        then bindE (fail_disconnected who prev code d) (\<lambda>o'. retE (Some o'))
                        else retE None
                    | _ \<Rightarrow> retE None)) None) (\<lambda>st. retE (the st)))))
       (\<lambda>e. if is_core e then retE who
            else if e = TimedOut then
              bindE (whenE (prev \<in> {InvConnecting, InvConnected}) (post_note (Transaction FromLocal ''BYE'' (Some 408))))
                (\<lambda>u. retE who)
            else raiseE e)"

definition fail :: "origin \<Rightarrow> int \<Rightarrow> bool \<Rightarrow> unit sess" where
  "fail who code has_reason =
     bindE (readE se_inv_state) (\<lambda>prev.
     bindE (to_state StTerminating) (\<lambda>u.
     bindE (whenE (prev \<notin> {InvNone, InvIncoming, InvOutgoing, InvEarly, InvConnecting}) (post_note (WillEnd who))) (\<lambda>u.
     bindE (readE se_inv_state) (\<lambda>st.
     bindE (if st \<notin> {InvNone, InvDisconnecting, InvDisconnected}
            then fail_invitation who prev code has_reason else retE who) (\<lambda>who'.
     bindE unobserve_invitation (\<lambda>u.
     bindE (to_state StTerminated) (\<lambda>u.
     bindE (post_note (DidFail who' (Some code))) (\<lambda>u.
       set_greenlet False))))))))"

text \<open>\<open>_fail_proposal\<close>: streams that were never observed are left alone.\<close>

definition drop_if_observed :: "stream \<Rightarrow> unit sess" where
  "drop_if_observed m =
     bindE (readE se_observed) (\<lambda>ids. if sm_id m \<in> set ids then drop_stream m else retE ())"

definition fail_proposal :: "origin \<Rightarrow> unit sess" where
  "fail_proposal who =
     bindE proposed_streams (\<lambda>ms.
     bindE (forE ms drop_if_observed) (\<lambda>u.
     bindE (readE se_inv_sub) (\<lambda>sub.
     bindE (whenE (who = FromRemote \<and> sub = SubReceivedProposal)
              (catchE
                 (bindE (inv_call (SendResponse (if ms \<noteq> [] then 488 else 500) None)) (\<lambda>u.
                   post_note (Transaction FromRemote ''INVITE'' (Some 500))))
                 (\<lambda>e. if is_core e then retE () else raiseE e))) (\<lambda>u.
     bindE (post_note (ProposalFailure who)) (\<lambda>u.
     bindE (to_state StConnected) (\<lambda>u.
     bindE (set_proposed None) (\<lambda>u.
       set_greenlet False)))))))"

section \<open>Descriptions for a re-INVITE\<close>

text \<open>\<open>local_sdp.media[index] = media\<close> raises \<open>IndexError\<close> out of range.\<close>

definition put_media :: "nat \<Rightarrow> media \<Rightarrow> sdp \<Rightarrow> sdp sess" where
  "put_media i m d =
     (if i < length (sd_media d) then retE (d\<lparr>sd_media := (sd_media d)[i := m]\<rparr>)
      else raiseE (Uncaught IndexError))"

fun put_streams :: "(stream \<Rightarrow> nat) \<Rightarrow> world \<Rightarrow> sdp option \<Rightarrow> stream list \<Rightarrow> sdp \<Rightarrow> sdp sess" where
  "put_streams at w remote [] d = retE d"
| "put_streams at w remote (m # ms) d =
     bindE (put_media (at m) (wo_local_media w (sm_id m) remote (at m)) d) (put_streams at w remote ms)"

definition next_version :: "session \<Rightarrow> sdp" where
  "next_version s = (se_active_local s)\<lparr>sd_version := sd_version (se_active_local s) + 1\<rparr>"

definition update_all :: "world \<Rightarrow> sdp \<Rightarrow> unit sess" where
  "update_all w remote =
     bindE current_streams (\<lambda>ms. forE ms (\<lambda>m. update_stream w remote m (sm_index m)))"

section \<open>Waiting for the answer to a re-INVITE\<close>

text \<open>
  \<open>while not received_invitation_state or not received_sdp_update\<close>: both notifications are
  needed, in any order; the first component of the state says which have arrived.
\<close>

definition unanswered :: "bool \<times> bool \<Rightarrow> session \<Rightarrow> bool" where
  "unanswered st s = (\<not> fst st \<or> \<not> snd st)"

definition hold_turn :: "world \<Rightarrow> bool \<times> bool \<Rightarrow> (bool \<times> bool) sess" where
  "hold_turn w st =
     bindE (wait True) (\<lambda>n.
       case n of
         SDPUpdate (SDPSucceeded l r) \<Rightarrow> bindE (update_all w r) (\<lambda>u. retE (fst st, True))
       | SDPUpdate SDPFailed \<Rightarrow> retE (fst st, True)
       | Changed d \<Rightarrow>
           if ic_state d = InvConnected \<and> ic_sub d = SubNormal then
             bindE (attr (ic_code d)) (\<lambda>c.
             bindE (post_note (Transaction FromLocal ''INVITE'' (Some c))) (\<lambda>u. retE (True, snd st)))
           else if ic_state d = InvDisconnected then raiseE (Disconnected d)
           else retE st
       | _ \<Rightarrow> retE st)"

text \<open>A disconnected invitation is handled anew, without a running procedure.\<close>

definition handle_later :: "inv_change \<Rightarrow> unit sess" where
  "handle_later d = bindE (set_greenlet False) (\<lambda>u. schedule (THandle (Changed d)))"

section \<open>Hold\<close>

text \<open>\<open>_cancel_hold\<close>: whether the hold procedure goes on.\<close>

definition cancel_hold :: "bool sess" where
  "cancel_hold =
     catchE
       (bindE (inv_call CancelReinvite) (\<lambda>u.
        bindE (wait_loop (\<lambda>st s. st = None)
                 (\<lambda>st. catchE
                    (bindE (wait False) (\<lambda>n.
                       case n of
                         Changed d \<Rightarrow>
                           if ic_state d = InvConnected \<and> ic_sub d = SubNormal then
                             bindE (attr (ic_code d)) (\<lambda>c.
                             bindE (post_note (Transaction FromRemote ''INVITE'' (Some c))) (\<lambda>u.
                               if c = 200 then bindE (schedule TEnd) (\<lambda>u. retE (Some False))
                               else retE (Some True)))
                           else if ic_state d = InvDisconnected then raiseE (Disconnected d)
                           else retE (Some True)
                       | _ \<Rightarrow> retE None))
                    (\<lambda>e. case e of StreamFailed i \<Rightarrow> retE None | _ \<Rightarrow> raiseE e)) None)
          (\<lambda>st. retE (the st))))
       (\<lambda>e. if is_core e then
              bindE (post_note (Transaction FromLocal [] (Some 0))) (\<lambda>u. retE True)
            else case e of
              Disconnected d \<Rightarrow> bindE (handle_later d) (\<lambda>u. retE False)
            | _ \<Rightarrow> raiseE e)"

text \<open>The re-INVITE of \<open>_send_hold\<close> and \<open>_send_unhold\<close>: whether the procedure goes on.\<close>

definition hold_reinvite :: "world \<Rightarrow> bool sess" where
  "hold_reinvite w =
     bindE (to_state StSendingProposal) (\<lambda>u.
     bindE (set_greenlet True) (\<lambda>u.
       catchE
         (bindE (readE next_version) (\<lambda>d.
          bindE current_streams (\<lambda>ms.
          bindE (put_streams sm_index w None ms d) (\<lambda>d.
          bindE (inv_call (SendReinvite d)) (\<lambda>u.
          bindE (wait_loop unanswered (hold_turn w) (False, False)) (\<lambda>st. retE True))))))
         (\<lambda>e. case e of
                Disconnected d \<Rightarrow> bindE (handle_later d) (\<lambda>u. retE False)
              | TimedOut \<Rightarrow> cancel_hold
              | _ \<Rightarrow> if is_core e then retE True else raiseE e)))"

text \<open>
  \<open>_send_hold\<close> (\<open>True\<close>) and \<open>_send_unhold\<close> (\<open>False\<close>), which call each other when hold or its
  end was asked for in the meantime.
\<close>

primrec send_holds :: "nat \<Rightarrow> world \<Rightarrow> bool \<Rightarrow> unit sess" where
  "send_holds 0 w b = raiseE Stuck"
| "send_holds (Suc n) w b =
     bindE (hold_reinvite w) (\<lambda>goes_on.
       if \<not> goes_on then retE ()
       else
         bindE (set_greenlet False) (\<lambda>u.
         bindE (modifyE (\<lambda>s. s\<lparr>se_on_hold := b\<rparr>)) (\<lambda>u.
         bindE (to_state StConnected) (\<lambda>u.
         bindE (post_note (HoldChanged FromLocal b)) (\<lambda>u.
         bindE (readE se_hold_in_progress) (\<lambda>progress.
         bindE current_streams (\<lambda>ms.
           if b \<and> progress then modifyE (\<lambda>s. s\<lparr>se_hold_in_progress := False\<rparr>)
           else if b then
             bindE (forE ms (\<lambda>m. on_stream (UnholdStream (sm_id m)))) (\<lambda>u. send_holds n w False)
           else if progress then
             bindE (forE ms (\<lambda>m. on_stream (HoldStream (sm_id m)))) (\<lambda>u. send_holds n w True)
           else retE ())))))))"

definition send_hold :: "world \<Rightarrow> bool \<Rightarrow> unit sess" where
  "send_hold w b = bindE (readE (\<lambda>s. length (se_script s) + 3)) (\<lambda>n. send_holds n w b)"

definition hold_if_asked :: "world \<Rightarrow> unit sess" where
  "hold_if_asked w = bindE (readE se_hold_in_progress) (\<lambda>b. whenE b (send_hold w True))"

definition hold :: "world \<Rightarrow> unit sess" where
  "hold w = bindE hold_flags (\<lambda>goes_on. whenE goes_on (send_hold w True))"

definition unhold :: "world \<Rightarrow> unit sess" where
  "unhold w = bindE unhold_flags (\<lambda>goes_on. whenE goes_on (send_hold w False))"

section \<open>The re-INVITE after ICE\<close>

text \<open>
  \<open>_reinvite_after_ice\<close>: the streams are numbered anew. Sending it is not within the \<open>try\<close>;
  any exception while waiting is ignored.
\<close>

definition ice_turn :: "world \<Rightarrow> bool \<times> bool \<Rightarrow> (bool \<times> bool) sess" where
  "ice_turn w st =
     bindE (wait True) (\<lambda>n.
       case n of
         SDPUpdate (SDPSucceeded l r) \<Rightarrow>
           bindE current_streams (\<lambda>ms.
           bindE (forE (zip [0..<length ms] ms) (\<lambda>(i, m). update_stream w r m i)) (\<lambda>u. retE (fst st, True)))
       | SDPUpdate SDPFailed \<Rightarrow> retE (True, True)
       | Changed d \<Rightarrow>
           if ic_state d = InvConnected \<and> ic_sub d = SubNormal then
             bindE (attr (ic_code d)) (\<lambda>c.
             bindE (post_note (Transaction FromLocal ''INVITE'' (Some c))) (\<lambda>u. retE (True, snd st)))
           else if ic_state d = InvDisconnected then bindE (schedule TEnd) (\<lambda>u. retE (True, True))
           else retE st
       | _ \<Rightarrow> retE st)"

definition reinvite_after_ice :: "world \<Rightarrow> unit sess" where
  "reinvite_after_ice w =
     bindE (to_state StSendingProposal) (\<lambda>u.
     bindE (set_greenlet True) (\<lambda>u.
     bindE (readE next_version) (\<lambda>d.
     bindE current_streams (\<lambda>ms.
     bindE (put_streams (\<lambda>m. the (map_of (zip (map sm_id ms) [0..<length ms]) (sm_id m))) w None ms d) (\<lambda>d.
     bindE (inv_call (SendReinvite d)) (\<lambda>u.
       try_finally
         (catchE
            (bindE (wait_loop unanswered (ice_turn w) (False, False)) (\<lambda>st. retE ()))
            (\<lambda>e. if e = Exit \<or> e = Stuck then raiseE e else retE ()))
         (bindE (to_state StConnected) (\<lambda>u. set_greenlet False))))))))"

end
