(* ===== verification/Session_Calls.thy ===== *)
theory Session_Calls
  imports Session_Hold
begin

text \<open>
  Setting a session up and ending it: \<open>connect\<close>, \<open>accept\<close>, \<open>reject\<close>, \<open>send_ring_indication\<close> and
  \<open>end\<close>.
\<close>

section \<open>Descriptions\<close>

text \<open>The description of a new offer: the streams are numbered in order.\<close>

definition numbered :: "stream list \<Rightarrow> stream list" where
  "numbered ms = map (\<lambda>(i, m). m\<lparr>sm_index := i\<rparr>) (zip [0..<length ms] ms)"

definition connected_media :: "string \<Rightarrow> media \<Rightarrow> media" where
  "connected_media ip m =
     (if md_connection m = None \<or> \<not> md_ice m then m\<lparr>md_connection := Some ip\<rparr> else m)"

definition offer :: "world \<Rightarrow> string \<Rightarrow> stream list \<Rightarrow> sdp" where
  "offer w ip ms =
     \<lparr>sd_address = ip, sd_connection = None, sd_version = 0,
      sd_media = map (\<lambda>m. connected_media ip (wo_local_media w (sm_id m) None (sm_index m))) ms\<rparr>"

text \<open>The answer to a remote offer: a stream's own media, or the offered one with port 0.\<close>

definition answer_media :: "world \<Rightarrow> string \<Rightarrow> sdp \<Rightarrow> stream list \<Rightarrow> nat \<Rightarrow> media \<Rightarrow> media" where
  "answer_media w ip remote ms i offered =
     (case List.find (\<lambda>m. sm_index m = i) (rev ms) of
        Some m \<Rightarrow>
          (let md = wo_local_media w (sm_id m) (Some remote) i
           in if md_ice md then md else md\<lparr>md_connection := Some ip\<rparr>)
      | None \<Rightarrow> offered\<lparr>md_connection := Some ip, md_port := 0, md_ice := False\<rparr>)"

definition answer :: "world \<Rightarrow> string \<Rightarrow> sdp \<Rightarrow> stream list \<Rightarrow> sdp" where
  "answer w ip remote ms =
     \<lparr>sd_address = ip, sd_connection = None, sd_version = 0,
      sd_media = map (\<lambda>(i, md). answer_media w ip remote ms i md)
        (zip [0..<length (sd_media remote)] (sd_media remote))\<rparr>"

text \<open>\<open>remote_sdp.connection or (media.connection for media ... if not None).next()\<close>\<close>

definition connection_address :: "sdp \<Rightarrow> string option" where
  "connection_address d =
     (case sd_connection d of
        Some c \<Rightarrow> Some c
      | None \<Rightarrow> Option.bind (List.find (\<lambda>m. md_connection m \<noteq> None) (sd_media d)) md_connection)"

section \<open>Starting the negotiated streams\<close>

definition remove_proposed :: "stream \<Rightarrow> unit sess" where
  "remove_proposed m =
     bindE (unobserve_stream m) (\<lambda>u.
     bindE (modifyE (\<lambda>s. s\<lparr>se_proposed := map_option (filter (\<lambda>o'. sm_id o' \<noteq> sm_id m)) (se_proposed s)\<rparr>)) (\<lambda>u.
     bindE (on_stream (Deactivate (sm_id m))) (\<lambda>u.
       on_stream (EndStream (sm_id m)))))"

definition nth_media :: "sdp \<Rightarrow> nat \<Rightarrow> media sess" where
  "nth_media d i = (if i < length (sd_media d) then retE (sd_media d ! i) else raiseE (Uncaught IndexError))"

text \<open>
  One media of the negotiated description: a stream of a refused media goes, the others start.
  \<open>strict\<close>: a media without a stream is a \<open>KeyError\<close> (\<open>connect\<close>) or is skipped (\<open>accept\<close>).
\<close>

definition start_media :: "bool \<Rightarrow> stream list \<Rightarrow> sdp \<Rightarrow> nat \<Rightarrow> unit sess" where
  "start_media strict ms remote i =
     bindE (nth_media remote i) (\<lambda>md.
       case List.find (\<lambda>m. sm_index m = i) (rev ms) of
         None \<Rightarrow> if strict then raiseE (Uncaught KeyError) else retE ()
       | Some m \<Rightarrow>
           if md_port md \<noteq> 0 then on_stream (StartStream (sm_id m) i) else remove_proposed m)"

definition start_streams :: "bool \<Rightarrow> sdp \<Rightarrow> sdp \<Rightarrow> unit sess" where
  "start_streams strict local remote =
     bindE proposed_streams (\<lambda>ms.
     bindE (forE [0..<length (sd_media local)] (start_media strict ms remote)) (\<lambda>u.
     bindE proposed_streams (\<lambda>ms.
       forE (filter (\<lambda>m. length (sd_media local) \<le> sm_index m) ms) remove_proposed)))"

section \<open>connect\<close>

record negotiation =
  ng_unhandled :: "notice list"
  ng_code :: "int option"
  ng_sdp :: "(sdp \<times> sdp) option"
  ng_failed :: bool

definition negotiation_init :: negotiation where
  "negotiation_init = \<lparr>ng_unhandled = [], ng_code = Some 0, ng_sdp = None, ng_failed = False\<rparr>"

text \<open>The invitation's progress; \<open>connected\<close> of the code is \<open>se_connected\<close>.\<close>

definition connect_progress :: "inv_change \<Rightarrow> negotiation \<Rightarrow> negotiation sess" where
  "connect_progress d ng =
     (if ic_state d = InvEarly then
        bindE (attr (ic_code d)) (\<lambda>c.
        bindE (whenE (c = 180) (post_note GotRing)) (\<lambda>u.
        bindE (post_note (GotProvisional c)) (\<lambda>u. retE ng)))
      else if ic_state d = InvConnecting then
        bindE (attr (ic_code d)) (\<lambda>c. retE (ng\<lparr>ng_code := Some c\<rparr>))
      else if ic_state d = InvConnected then
        bindE (readE se_connected) (\<lambda>connected.
          if connected then retE (ng\<lparr>ng_unhandled := ng_unhandled ng @ [Changed d]\<rparr>)
          else
            bindE (modifyE (\<lambda>s. s\<lparr>se_connected := True\<rparr>)) (\<lambda>u.
            bindE (post_note (Transaction FromLocal ''INVITE'' (ng_code ng))) (\<lambda>u. retE ng)))
      else if ic_state d = InvDisconnected then raiseE (Disconnected d)
      else retE ng)"

definition connect_turn :: "negotiation \<Rightarrow> negotiation sess" where
  "connect_turn ng =
     bindE (wait True) (\<lambda>n.
       case n of
         SDPUpdate (SDPSucceeded l r) \<Rightarrow> retE (ng\<lparr>ng_sdp := Some (l, r)\<rparr>)
       | SDPUpdate SDPFailed \<Rightarrow>
           bindE drop_proposed (\<lambda>u.
           bindE (fail FromRemote 0 False) (\<lambda>u. retE (ng\<lparr>ng_failed := True\<rparr>)))
       | Changed d \<Rightarrow> connect_progress d ng
       | _ \<Rightarrow> retE ng)"

text \<open>Waiting for the streams to start; the invitation's notifications are put back.\<close>

definition connect_media_turn :: "nat \<times> notice list \<Rightarrow> (nat \<times> notice list) sess" where
  "connect_media_turn st =
     bindE (wait True) (\<lambda>n.
       retE (case n of
               StreamStarted i \<Rightarrow> (fst st - 1, snd st)
             | Changed d \<Rightarrow> (fst st, snd st @ [n])
             | _ \<Rightarrow> st))"

text \<open>The body of the \<open>try\<close>: \<open>None\<close> when it returns, otherwise what is left to handle.\<close>

definition connect_start :: "world \<Rightarrow> sdp \<Rightarrow> sdp \<Rightarrow> negotiation \<Rightarrow> notice list option sess" where
  "connect_start w local remote ng =
     bindE (post_note WillStart) (\<lambda>u.
     bindE (start_streams True local remote) (\<lambda>u.
     bindE proposed_streams (\<lambda>ms.
     bindE (wait_loop (\<lambda>st s. 0 < fst st) connect_media_turn (length ms, [])) (\<lambda>st.
     bindE (modifyE (\<lambda>s. s\<lparr>se_resent := se_resent s @ snd st\<rparr>)) (\<lambda>u.
     bindE (wait_loop (\<lambda>ng s. \<not> se_connected s \<or> channel_more s)
              (\<lambda>ng. bindE (wait False) (\<lambda>n. case n of Changed d \<Rightarrow> connect_progress d ng | _ \<Rightarrow> retE ng)) ng) (\<lambda>ng.
       retE (Some (ng_unhandled ng))))))))"

definition connect_main :: "world \<Rightarrow> string \<Rightarrow> notice list option sess" where
  "connect_main w route =
     bindE proposed_streams (\<lambda>ms.
     bindE (wait_initialized (length ms)) (\<lambda>u.
       case (wo_contact w, wo_outgoing_ip w route) of
         (True, Some ip) \<Rightarrow>
           bindE (set_proposed (Some (numbered ms))) (\<lambda>u.
           bindE (inv_call (SendInvite (offer w ip (numbered ms)))) (\<lambda>u.
           bindE (catchE
                    (bindE (wait_loop (\<lambda>ng s. ng_sdp ng = None \<and> \<not> ng_failed ng) connect_turn negotiation_init)
                       (\<lambda>ng. retE (Some ng)))
                    (\<lambda>e. if e = TimedOut then bindE (schedule TEnd) (\<lambda>u. retE None) else raiseE e)) (\<lambda>r.
             case r of
               None \<Rightarrow> retE None
             | Some ng \<Rightarrow>
                 (case ng_sdp ng of
                    None \<Rightarrow> retE None
                  | Some (l, r) \<Rightarrow> connect_start w l r ng))))
       | _ \<Rightarrow>
           bindE drop_proposed (\<lambda>u. bindE (fail FromLocal 480 True) (\<lambda>u. retE None))))"

definition connect_disconnected :: "inv_change \<Rightarrow> unit sess" where
  "connect_disconnected d =
     bindE unobserve_invitation (\<lambda>u.
     bindE drop_proposed (\<lambda>u.
     bindE (to_state StTerminated) (\<lambda>u.
     bindE (if ic_prev d \<in> {InvConnecting, InvConnected} \<or> ic_method d = Some ''BYE'' then
              bindE (post_note (WillEnd (ic_origin d))) (\<lambda>u.
              bindE (if ic_origin d = FromRemote then
                       bindE (attr (ic_method d)) (\<lambda>m. post_note (Transaction FromRemote m (Some 200)))
                     else retE ()) (\<lambda>u.
              bindE (modifyE (\<lambda>s. s\<lparr>se_ended := True\<rparr>)) (\<lambda>u.
                post_note (DidEnd (ic_origin d)))))
            else
              bindE (if ic_origin d = FromRemote then
                       bindE (attr (ic_code d)) (\<lambda>c.
                       bindE (post_note (Transaction FromLocal ''INVITE'' (Some c))) (\<lambda>u. retE c))
                     else if ic_reason d = ''timeout'' then retE 408
                     else retE (case ic_code d of None \<Rightarrow> 0 | Some c \<Rightarrow> c)) (\<lambda>c.
                post_note (DidFail (ic_origin d) (Some c)))) (\<lambda>u.
       set_greenlet False))))"

text \<open>The \<open>else\<close> clause of \<open>connect\<close> and of \<open>accept\<close>.\<close>

definition session_starts :: "world \<Rightarrow> bool \<Rightarrow> notice list \<Rightarrow> unit sess" where
  "session_starts w ice unhandled =
     bindE (set_greenlet False) (\<lambda>u.
     bindE (to_state StConnected) (\<lambda>u.
     bindE (modifyE (\<lambda>s. s\<lparr>se_streams := se_proposed s, se_proposed := None\<rparr>)) (\<lambda>u.
     bindE current_streams (\<lambda>ms.
     bindE (whenE (ice \<and> list_ex (\<lambda>m. wo_ice_active w (sm_id m)) ms) (reinvite_after_ice w)) (\<lambda>u.
     bindE (post_note DidStart) (\<lambda>u.
     bindE (forE unhandled (\<lambda>n. schedule (THandle n))) (\<lambda>u.
       hold_if_asked w)))))))"

definition connect_body :: "world \<Rightarrow> stream list \<Rightarrow> string list \<Rightarrow> bool \<Rightarrow> bool \<Rightarrow> unit sess" where
  "connect_body w ms routes is_focus bad_headers =
     bindE (modifyE (\<lambda>s. s\<lparr>se_greenlet := True, se_connected := False\<rparr>)) (\<lambda>u.
       if bad_headers then raiseE (Uncaught RuntimeError)
       else
         bindE (modifyE (\<lambda>s. s\<lparr>se_outgoing := True, se_proposed := Some ms\<rparr>)) (\<lambda>u.
           case routes of
             [] \<Rightarrow> raiseE (Uncaught IndexError)
           | route # rs \<Rightarrow>
               bindE (modifyE (\<lambda>s. s\<lparr>se_local_focus := is_focus, se_invitation := True,
                        se_inv_state := InvNone, se_inv_incoming := False, se_inv_observed := True\<rparr>)) (\<lambda>u.
               bindE (post_note NewOutgoing) (\<lambda>u.
               bindE (forE ms (\<lambda>m. bindE (observe_stream m) (\<lambda>u. on_stream (Initialize (sm_id m) False)))) (\<lambda>u.
               bindE (catchE
                        (connect_main w route)
                        (\<lambda>e. case e of
                               Disconnected d \<Rightarrow> bindE (connect_disconnected d) (\<lambda>u. retE None)
                             | _ \<Rightarrow>
                                 if is_core e \<or> is_media_failure e then
                                   bindE drop_proposed (\<lambda>u. bindE (fail FromLocal 0 False) (\<lambda>u. retE None))
                                 else raiseE e)) (\<lambda>r.
                 case r of None \<Rightarrow> retE () | Some unhandled \<Rightarrow> session_starts w True unhandled))))))"

section \<open>accept\<close>

text \<open>The streams to accept are the proposed objects, with the index the proposal gave them.\<close>

definition same_objects :: "stream list \<Rightarrow> stream list \<Rightarrow> stream list" where
  "same_objects old ms =
     map (\<lambda>m. case List.find (\<lambda>o'. sm_id o' = sm_id m) old of Some o' \<Rightarrow> o' | None \<Rightarrow> m) ms"

definition accept_init :: "stream list \<Rightarrow> unit sess" where
  "accept_init ms =
     bindE (readE (\<lambda>s. the_list (se_proposed s))) (\<lambda>old.
       if old \<noteq> [] then
         bindE (forE (filter (\<lambda>o'. sm_id o' \<in> set (map sm_id ms)) old)
                  (\<lambda>m. bindE (observe_stream m) (\<lambda>u. on_stream (Initialize (sm_id m) True)))) (\<lambda>u.
           set_proposed (Some (same_objects old ms)))
       else
         bindE (forE (numbered ms) (\<lambda>m. bindE (observe_stream m) (\<lambda>u. on_stream (Initialize (sm_id m) False)))) (\<lambda>u.
           set_proposed (Some (numbered ms))))"

text \<open>\<open>state -> connected\<close> seen by \<open>accept\<close>.\<close>

definition accept_progress :: "inv_change \<Rightarrow> notice list \<Rightarrow> notice list sess" where
  "accept_progress d unhandled =
     (if ic_state d = InvConnected then
        bindE (readE se_connected) (\<lambda>connected.
          if \<not> connected then
            bindE (modifyE (\<lambda>s. s\<lparr>se_connected := True\<rparr>)) (\<lambda>u.
            bindE (post_note (Transaction FromRemote ''INVITE'' (Some 200))) (\<lambda>u. retE unhandled))
          else if ic_prev d = InvConnected then retE (unhandled @ [Changed d])
          else retE unhandled)
      else if ic_state d = InvDisconnected then raiseE (Disconnected d)
      else retE unhandled)"

definition accept_turn :: "negotiation \<Rightarrow> negotiation sess" where
  "accept_turn ng =
     bindE (wait False) (\<lambda>n.
       case n of
         SDPUpdate (SDPSucceeded l r) \<Rightarrow> retE (ng\<lparr>ng_sdp := Some (l, r)\<rparr>)
       | SDPUpdate SDPFailed \<Rightarrow>
           bindE (readE se_connected) (\<lambda>connected.
           bindE (whenE (\<not> connected)
                    (bindE (modifyE (\<lambda>s. s\<lparr>se_connected := True\<rparr>)) (\<lambda>u.
                       post_note (Transaction FromRemote ''INVITE'' (Some 200))))) (\<lambda>u.
           bindE drop_proposed (\<lambda>u.
           bindE (fail FromRemote 0 False) (\<lambda>u. retE (ng\<lparr>ng_failed := True\<rparr>)))))
       | Changed d \<Rightarrow> bindE (accept_progress d (ng_unhandled ng)) (\<lambda>us. retE (ng\<lparr>ng_unhandled := us\<rparr>))
       | _ \<Rightarrow> retE ng)"

text \<open>How many streams were told to start.\<close>

definition started_count :: "stream list \<Rightarrow> sdp \<Rightarrow> sdp \<Rightarrow> nat" where
  "started_count ms local remote =
     length (filter (\<lambda>i. i < length (sd_media remote) \<and> md_port (sd_media remote ! i) \<noteq> 0 \<and>
         list_ex (\<lambda>m. sm_index m = i) ms) [0..<length (sd_media local)])"

definition accept_media_turn :: "nat \<times> notice list \<Rightarrow> (nat \<times> notice list) sess" where
  "accept_media_turn st =
     bindE (wait True) (\<lambda>n.
       case n of
         StreamStarted i \<Rightarrow> retE (fst st - 1, snd st)
       | Changed d \<Rightarrow> bindE (accept_progress d (snd st)) (\<lambda>us. retE (fst st, us))
       | _ \<Rightarrow> retE (fst st, snd st @ [n]))"

definition accept_start :: "sdp \<Rightarrow> sdp \<Rightarrow> notice list \<Rightarrow> notice list option sess" where
  "accept_start local remote unhandled =
     bindE proposed_streams (\<lambda>ms.
     bindE (start_streams False local remote) (\<lambda>u.
     bindE (wait_loop (\<lambda>st s. 0 < fst st \<or> \<not> se_connected s \<or> channel_more s) accept_media_turn
              (started_count ms local remote, unhandled)) (\<lambda>st.
       retE (Some (snd st)))))"

text \<open>
  The body of the \<open>try\<close>. Without an offer \<open>remote_sdp\<close> is \<open>None\<close>, whose attribute \<open>connection\<close>
  is read first, so the code for that case further down is never reached.
\<close>

definition accept_main :: "world \<Rightarrow> notice list option sess" where
  "accept_main w =
     bindE proposed_streams (\<lambda>ms.
     bindE (wait_initialized (length ms)) (\<lambda>u.
     bindE (readE se_proposed_remote) (\<lambda>offered.
       case offered of
         None \<Rightarrow> raiseE (Uncaught AttributeError)
       | Some remote \<Rightarrow>
           (case connection_address remote of
              None \<Rightarrow> raiseE StopIteration
            | Some address \<Rightarrow>
                (case (if address \<noteq> ''0.0.0.0'' then wo_outgoing_ip w address else Some address) of
                   None \<Rightarrow>
                     bindE drop_proposed (\<lambda>u. bindE (fail FromLocal 500 True) (\<lambda>u. retE None))
                 | Some ip \<Rightarrow>
                     bindE (inv_call (SendResponse 200 (Some (answer w ip remote ms)))) (\<lambda>u.
                     bindE (post_note WillStart) (\<lambda>u.
                     bindE (wait_loop (\<lambda>ng s. ng_sdp ng = None \<and> \<not> ng_failed ng) accept_turn negotiation_init) (\<lambda>ng.
                       case ng_sdp ng of
                         None \<Rightarrow> retE None
                       | Some (l, r) \<Rightarrow> accept_start l r (ng_unhandled ng)))))))))"

definition accept_media_failed :: "unit sess" where
  "accept_media_failed =
     bindE (readE se_inv_state) (\<lambda>st.
     bindE (readE se_connected) (\<lambda>connected.
     bindE (whenE (st = InvConnecting \<or> st = InvConnected \<and> \<not> connected)
              (post_note (Transaction FromRemote ''INVITE'' (Some 200)))) (\<lambda>u.
     bindE drop_proposed (\<lambda>u.
     bindE (readE se_inv_state) (\<lambda>st.
       if st \<in> {InvIncoming, InvEarly} then fail FromLocal 500 True else fail FromLocal 0 False)))))"

definition accept_disconnected :: "inv_change \<Rightarrow> unit sess" where
  "accept_disconnected d =
     bindE unobserve_invitation (\<lambda>u.
     bindE drop_proposed (\<lambda>u.
     bindE (to_state StTerminated) (\<lambda>u.
     bindE (if ic_prev d \<in> {InvIncoming, InvEarly} then
              bindE (post_note (Transaction FromRemote ''INVITE'' (Some 487))) (\<lambda>u.
                post_note (DidFail FromRemote (Some 487)))
            else if ic_prev d = InvConnecting \<and> ic_reason d = ''missing ACK'' then
              bindE (post_note (Transaction FromRemote ''INVITE'' (Some 200))) (\<lambda>u.
                post_note (DidFail FromLocal (Some 200)))
            else
              bindE (post_note (WillEnd FromRemote)) (\<lambda>u.
              bindE (post_note (Transaction FromRemote
                       (case ic_method d of None \<Rightarrow> ''INVITE'' | Some m \<Rightarrow> m) (Some 200))) (\<lambda>u.
              bindE (modifyE (\<lambda>s. s\<lparr>se_ended := True\<rparr>)) (\<lambda>u.
                post_note (DidEnd FromRemote))))) (\<lambda>u.
       set_greenlet False))))"

text \<open>The invitation was cancelled before the answer could be sent.\<close>

definition cancelled_meanwhile :: "unit sess" where
  "cancelled_meanwhile =
     bindE (set_greenlet False) (\<lambda>u.
     bindE (to_state StTerminated) (\<lambda>u.
     bindE (post_note (Transaction FromRemote ''INVITE'' (Some 487))) (\<lambda>u.
       post_note (DidFail FromRemote (Some 487)))))"

definition accept_body :: "world \<Rightarrow> stream list \<Rightarrow> bool \<Rightarrow> bool \<Rightarrow> unit sess" where
  "accept_body w ms is_focus bad_headers =
     bindE (modifyE (\<lambda>s. s\<lparr>se_greenlet := True, se_local_focus := is_focus, se_connected := False\<rparr>)) (\<lambda>u.
       if bad_headers then raiseE (Uncaught RuntimeError)
       else
         bindE (accept_init ms) (\<lambda>u.
         bindE (catchE
                  (accept_main w)
                  (\<lambda>e. case e of
                         Disconnected d \<Rightarrow> bindE (accept_disconnected d) (\<lambda>u. retE None)
                       | InvalidState \<Rightarrow>
                           bindE unobserve_invitation (\<lambda>u.
                           bindE drop_proposed (\<lambda>u.
                           bindE cancelled_meanwhile (\<lambda>u. retE None)))
                       | _ \<Rightarrow>
                           if is_media_failure e then bindE accept_media_failed (\<lambda>u. retE None)
                           else if is_core e then
                             bindE drop_proposed (\<lambda>u. bindE (fail FromLocal 500 True) (\<lambda>u. retE None))
                           else raiseE e)) (\<lambda>r.
           case r of None \<Rightarrow> retE () | Some unhandled \<Rightarrow> session_starts w False unhandled)))"

section \<open>reject and send_ring_indication\<close>

definition reject_main :: "int \<Rightarrow> unit sess" where
  "reject_main code =
     bindE (inv_call (SendResponse code None)) (\<lambda>u.
     bindE (wait_loop (\<lambda>stop s. \<not> stop)
              (\<lambda>stop. bindE (wait True) (\<lambda>n.
                 case n of
                   Changed d \<Rightarrow>
                     if ic_state d = InvDisconnected then
                       bindE (post_note (Transaction FromRemote ''INVITE'' (Some code))) (\<lambda>u. retE True)
                     else retE False
                 | _ \<Rightarrow> retE False)) False) (\<lambda>stop. retE ()))"

definition rejected :: "int \<Rightarrow> bool \<Rightarrow> unit sess" where
  "rejected code timed_out =
     bindE unobserve_invitation (\<lambda>u.
     bindE (set_greenlet False) (\<lambda>u.
     bindE (to_state StTerminated) (\<lambda>u.
     bindE (if timed_out then post_note (Transaction FromRemote ''INVITE'' (Some code)) else set_proposed None) (\<lambda>u.
       post_note (DidFail FromLocal (Some code))))))"

text \<open>A disconnected invitation (\<open>InvitationDisconnectedError\<close>) has no clause here.\<close>

definition reject_body :: "int \<Rightarrow> unit sess" where
  "reject_body code =
     bindE (set_greenlet True) (\<lambda>u.
     bindE (catchE
              (bindE (reject_main code) (\<lambda>u. retE True))
              (\<lambda>e. if e = InvalidState then
                     bindE unobserve_invitation (\<lambda>u. bindE cancelled_meanwhile (\<lambda>u. retE False))
                   else if is_core e then bindE (fail FromLocal 500 True) (\<lambda>u. retE False)
                   else if e = TimedOut then bindE (rejected code True) (\<lambda>u. retE False)
                   else raiseE e)) (\<lambda>ok.
       whenE ok (rejected code False)))"

definition ring_body :: "unit sess" where
  "ring_body = catchE (inv_call (SendResponse 180 None)) (\<lambda>e. if e = InvalidState then retE () else raiseE e)"

section \<open>end\<close>

text \<open>What is posted for the transaction that ended the session.\<close>

definition end_transaction :: "bool \<Rightarrow> inv_change \<Rightarrow> unit sess" where
  "end_transaction cancelling d =
     (if ic_reason d \<in> {''internal error'', ''missing ACK''} then retE ()
      else if ic_reason d = ''timeout'' then
        bindE (readE se_outgoing) (\<lambda>out.
          post_note (Transaction (if out then FromLocal else FromRemote) ''INVITE'' (Some 408)))
      else if cancelling then
        bindE (attr (ic_code d)) (\<lambda>c. post_note (Transaction FromLocal ''INVITE'' (Some c)))
      else
        case ic_method d of
          Some m \<Rightarrow> post_note (Transaction FromRemote m (Some 200))
        | None \<Rightarrow>
            if ic_reason d = ''user request'' then
              bindE (attr (ic_code d)) (\<lambda>c. post_note (Transaction FromLocal ''BYE'' (Some c)))
            else retE ())"

definition end_turn :: "bool \<Rightarrow> bool \<Rightarrow> bool sess" where
  "end_turn cancelling stop =
     bindE (catchE
              (bindE (wait False) (\<lambda>n. retE (Some n)))
              (\<lambda>e. case e of StreamFailed i \<Rightarrow> retE None | _ \<Rightarrow> raiseE e)) (\<lambda>n.
       case n of
         Some (Changed d) \<Rightarrow>
           if ic_state d = InvDisconnected
           then bindE (end_transaction cancelling d) (\<lambda>u. retE True) else retE False
       | _ \<Rightarrow> retE False)"

definition end_main :: "bool \<Rightarrow> unit sess" where
  "end_main cancelling =
     bindE (inv_call EndInvitation) (\<lambda>u.
     bindE (wait_loop (\<lambda>stop s. \<not> stop) (end_turn cancelling) False) (\<lambda>stop. retE ()))"

definition session_ended :: "origin \<Rightarrow> unit sess" where
  "session_ended who = bindE (modifyE (\<lambda>s. s\<lparr>se_ended := True\<rparr>)) (\<lambda>u. post_note (DidEnd who))"

definition end_disconnected :: "inv_change \<Rightarrow> unit sess" where
  "end_disconnected d =
     (if ic_prev d = InvConnected then
        bindE (if ic_origin d = FromRemote then
                 bindE (attr (ic_method d)) (\<lambda>m. post_note (Transaction FromRemote m (Some 200)))
               else retE ()) (\<lambda>u.
          session_ended (ic_origin d))
      else if ic_method d = Some ''BYE'' \<and> ic_origin d = FromRemote then
        bindE (post_note (Transaction FromRemote ''BYE'' (Some 200))) (\<lambda>u.
          post_note (DidFail FromRemote (Some 0)))
      else
        bindE (if ic_origin d = FromRemote then attr (ic_code d)
               else retE (if ic_reason d = ''timeout'' then 408 else 0)) (\<lambda>c.
        bindE (post_note (Transaction FromLocal ''INVITE'' (Some c))) (\<lambda>u.
          post_note (DidFail (ic_origin d) (Some c)))))"

text \<open>The session was never sent: it fails at once.\<close>

definition end_unsent :: "unit sess" where
  "end_unsent =
     bindE (to_state StTerminated) (\<lambda>u. post_note (DidFail FromLocal (Some 487)))"

fun deactivate_observed :: "stream list \<Rightarrow> stream list sess" where
  "deactivate_observed [] = retE []"
| "deactivate_observed (m # ms) =
     bindE (readE se_observed) (\<lambda>ids.
       if sm_id m \<in> set ids then
         bindE (unobserve_stream m) (\<lambda>u.
         bindE (on_stream (Deactivate (sm_id m))) (\<lambda>u.
         bindE (deactivate_observed ms) (\<lambda>ms'. retE (m # ms'))))
       else deactivate_observed ms)"

definition end_sent :: "unit sess" where
  "end_sent =
     bindE (readE se_inv_state) (\<lambda>st.
     bindE (set_greenlet True) (\<lambda>u.
     bindE (to_state StTerminating) (\<lambda>u.
     bindE (whenE (st = InvConnected) (post_note (WillEnd FromLocal))) (\<lambda>u.
     bindE (readE all_streams) (\<lambda>ms.
     bindE (deactivate_observed ms) (\<lambda>ms.
     bindE (readE se_outgoing) (\<lambda>out.
       let cancelling = st \<noteq> InvConnected \<and> out
       in try_finally
            (bindE (catchE
                      (bindE (end_main cancelling) (\<lambda>u. retE True))
                      (\<lambda>e. if is_core e then
                             bindE (if cancelling then post_note (DidFail FromLocal (Some 0))
                                    else session_ended FromLocal) (\<lambda>u. retE False)
                           else case e of
                             Disconnected d \<Rightarrow> bindE (end_disconnected d) (\<lambda>u. retE False)
                           | _ \<Rightarrow> raiseE e)) (\<lambda>ok.
               whenE ok (if cancelling then post_note (DidFail FromLocal (Some 487)) else session_ended FromLocal)))
            (bindE (forE ms (\<lambda>m. on_stream (EndStream (sm_id m)))) (\<lambda>u.
             bindE unobserve_invitation (\<lambda>u.
             bindE (set_greenlet False) (\<lambda>u.
               to_state StTerminated)))))))))))"

text \<open>From \<open>self.greenlet = None\<close> on; the state is not looked at again after the kill.\<close>

definition end_goes_on :: "unit sess" where
  "end_goes_on =
     bindE (set_greenlet False) (\<lambda>u.
     bindE (readE se_invitation) (\<lambda>built.
     bindE (readE se_inv_state) (\<lambda>inv.
       if \<not> built then end_unsent
       else if inv = InvNone then
         bindE (readE all_streams) (\<lambda>ms. bindE (forE ms drop_if_observed) (\<lambda>u. end_unsent))
       else if inv \<in> {InvDisconnecting, InvDisconnected} then retE ()
       else end_sent)))"

definition end_body :: "unit sess" where
  "end_body =
     bindE (readE se_state) (\<lambda>st.
       if st \<in> {StNone, StTerminating, StTerminated} then retE ()
       else
         bindE (readE se_greenlet) (\<lambda>running.
           if running then schedule TEndKilled else end_goes_on))"

end
