(* ===== verification/Session_Proposals.thy ===== *)
theory Session_Proposals
  imports Session_Calls
begin

text \<open>
  Changing the streams of a session that is set up: \<open>accept_proposal\<close>, \<open>reject_proposal\<close>,
  \<open>add_streams\<close>, \<open>remove_streams\<close> and \<open>cancel_proposal\<close>.
\<close>

section \<open>Common parts\<close>

definition has_stream :: "stream list \<Rightarrow> stream \<Rightarrow> bool" where
  "has_stream ms m = list_ex (\<lambda>o'. sm_id o' = sm_id m) ms"

text \<open>The clauses of a proposal's \<open>try\<close>; a disconnected invitation is handled anew.\<close>

definition proposal_failed :: "origin \<Rightarrow> sess_exn \<Rightarrow> unit sess" where
  "proposal_failed who e =
     (case e of
        Disconnected d \<Rightarrow>
          bindE (fail_proposal who) (\<lambda>u. schedule (THandle (Changed d)))
      | _ \<Rightarrow>
          if is_media_failure e \<or> is_core e then fail_proposal who else raiseE e)"

text \<open>The \<open>else\<close> clauses end alike: announce, hand on what was not handled, hold if asked.\<close>

definition proposal_done :: "world \<Rightarrow> notice list \<Rightarrow> unit sess" where
  "proposal_done w unhandled =
     bindE (forE unhandled (\<lambda>n. schedule (THandle n))) (\<lambda>u. hold_if_asked w)"

definition held_by_remote :: "world \<Rightarrow> session \<Rightarrow> nat list" where
  "held_by_remote w s =
     filter (\<lambda>i. wo_hold_supported w i \<and> i \<in> set (se_remote_held s)) (map sm_id (the_list (se_streams s)))"

definition announce_remote_hold :: "world \<Rightarrow> nat list \<Rightarrow> unit sess" where
  "announce_remote_hold w before =
     bindE (readE (held_by_remote w)) (\<lambda>now.
       whenE (set now \<noteq> set before) (post_note (HoldChanged FromRemote (now \<noteq> []))))"

section \<open>accept_proposal\<close>

text \<open>One media of the remote proposal, in the running description.\<close>

definition proposal_media :: "world \<Rightarrow> sdp \<Rightarrow> stream list \<Rightarrow> nat \<Rightarrow> sdp \<Rightarrow> sdp" where
  "proposal_media w remote ms i local =
     (case List.find (\<lambda>m. sm_index m = i) (rev ms) of
        Some m \<Rightarrow>
          (let md = wo_local_media w (sm_id m) (Some remote) i;
               md = (if md_ice md then md else md\<lparr>md_connection := Some (sd_address local)\<rparr>)
           in if i < length (sd_media local) then local\<lparr>sd_media := (sd_media local)[i := md]\<rparr>
              else local\<lparr>sd_media := sd_media local @ [md]\<rparr>)
      | None \<Rightarrow>
          if length (sd_media local) \<le> i then
            local\<lparr>sd_media := sd_media local @
              [(sd_media remote ! i)\<lparr>md_connection := Some (sd_address local), md_port := 0, md_ice := False\<rparr>]\<rparr>
          else local)"

definition proposal_answer :: "world \<Rightarrow> sdp \<Rightarrow> stream list \<Rightarrow> sdp \<Rightarrow> sdp" where
  "proposal_answer w remote ms local = fold (proposal_media w remote ms) [0..<length (sd_media remote)] local"

text \<open>
  Waiting for the acknowledgement and the new description. The second component is the
  description once it is known; \<open>None\<close> in the third says that the proposal failed.
\<close>

record proposal_wait =
  pw_confirmed :: bool
  pw_updated :: bool
  pw_sdp :: "(sdp \<times> sdp) option"
  pw_returned :: bool

definition proposal_wait_init :: proposal_wait where
  "proposal_wait_init = \<lparr>pw_confirmed = False, pw_updated = False, pw_sdp = None, pw_returned = False\<rparr>"

definition proposal_pending :: "proposal_wait \<Rightarrow> session \<Rightarrow> bool" where
  "proposal_pending pw s = (\<not> pw_returned pw \<and> (\<not> pw_confirmed pw \<or> \<not> pw_updated pw))"

definition accept_proposal_turn :: "world \<Rightarrow> proposal_wait \<Rightarrow> proposal_wait sess" where
  "accept_proposal_turn w pw =
     bindE (wait False) (\<lambda>n.
       case n of
         SDPUpdate (SDPSucceeded l r) \<Rightarrow>
           bindE (update_all w r) (\<lambda>u. retE (pw\<lparr>pw_updated := True, pw_sdp := Some (l, r)\<rparr>))
       | SDPUpdate SDPFailed \<Rightarrow>
           bindE (fail_proposal FromRemote) (\<lambda>u. retE (pw\<lparr>pw_returned := True\<rparr>))
       | Changed d \<Rightarrow>
           if ic_state d = InvConnected \<and> ic_sub d = SubNormal then
             bindE (post_note (Transaction FromRemote ''INVITE'' (Some 200))) (\<lambda>u. retE (pw\<lparr>pw_confirmed := True\<rparr>))
           else if ic_state d = InvDisconnected then raiseE (Disconnected d)
           else retE pw
       | _ \<Rightarrow> retE pw)"

definition accept_proposal_media_turn :: "nat \<times> notice list \<Rightarrow> (nat \<times> notice list) sess" where
  "accept_proposal_media_turn st =
     bindE (wait True) (\<lambda>n.
       retE (case n of StreamStarted i \<Rightarrow> (fst st - 1, snd st) | _ \<Rightarrow> (fst st, snd st @ [n])))"

definition accept_proposal_main :: "world \<Rightarrow> stream list \<Rightarrow> notice list option sess" where
  "accept_proposal_main w ms =
     bindE (wait_initialized (length ms)) (\<lambda>u.
     bindE (readE next_version) (\<lambda>local.
     bindE (readE se_proposed_remote) (\<lambda>offered.
       case offered of
         None \<Rightarrow> raiseE (Uncaught AttributeError)
       | Some remote \<Rightarrow>
           bindE (inv_call (SendResponse 200 (Some (proposal_answer w remote ms local)))) (\<lambda>u.
           bindE (readE (held_by_remote w)) (\<lambda>held.
           bindE (wait_loop proposal_pending (accept_proposal_turn w) proposal_wait_init) (\<lambda>pw.
             if pw_returned pw then retE None
             else
               bindE (announce_remote_hold w held) (\<lambda>u.
               bindE (forE ms (\<lambda>m. on_stream (StartStream (sm_id m) (sm_index m)))) (\<lambda>u.
               bindE (wait_loop (\<lambda>st s. 0 < fst st \<or> channel_more s) accept_proposal_media_turn (length ms, []))
                 (\<lambda>st. retE (Some (snd st)))))))))))"

definition accept_proposal_body :: "world \<Rightarrow> stream list \<Rightarrow> unit sess" where
  "accept_proposal_body w wanted =
     bindE (set_greenlet True) (\<lambda>u.
     bindE proposed_streams (\<lambda>proposed.
       let ms = same_objects proposed (filter (has_stream proposed) wanted)
       in bindE (forE ms (\<lambda>m. bindE (observe_stream m) (\<lambda>u. on_stream (Initialize (sm_id m) True)))) (\<lambda>u.
          bindE (catchE
                   (accept_proposal_main w ms)
                   (\<lambda>e. bindE (proposal_failed FromRemote e) (\<lambda>u. retE None))) (\<lambda>r.
            case r of
              None \<Rightarrow> retE ()
            | Some unhandled \<Rightarrow>
                bindE (set_greenlet False) (\<lambda>u.
                bindE (to_state StConnected) (\<lambda>u.
                bindE current_streams (\<lambda>old.
                bindE (modifyE (\<lambda>s. s\<lparr>se_streams := Some (old @ ms), se_proposed := None\<rparr>)) (\<lambda>u.
                bindE (post_note (ProposalAccepted FromRemote)) (\<lambda>u.
                bindE (post_note (Renegotiated FromRemote (map sm_id ms) [])) (\<lambda>u.
                  proposal_done w unhandled))))))))))"

section \<open>reject_proposal\<close>

text \<open>
  The time-out is silent (\<open>api.timeout(1, None)\<close>) and counts as success. There is no clause for
  a disconnected invitation.
\<close>

definition reject_proposal_main :: "int \<Rightarrow> unit sess" where
  "reject_proposal_main code =
     bindE (inv_call (SendResponse code None)) (\<lambda>u.
       catchE
         (bindE (wait_loop (\<lambda>stop s. \<not> stop)
                   (\<lambda>stop. bindE (wait True) (\<lambda>n.
                      case n of
                        Changed d \<Rightarrow>
                          if ic_state d = InvConnected \<and> ic_sub d = SubNormal then
                            bindE (post_note (Transaction FromRemote ''INVITE'' (Some code))) (\<lambda>u. retE True)
                          else retE False
                      | _ \<Rightarrow> retE False)) False) (\<lambda>stop. retE ()))
         (\<lambda>e. if e = TimedOut then retE () else raiseE e))"

definition reject_proposal_body :: "world \<Rightarrow> int \<Rightarrow> unit sess" where
  "reject_proposal_body w code =
     bindE (set_greenlet True) (\<lambda>u.
     bindE (catchE
              (bindE (reject_proposal_main code) (\<lambda>u. retE True))
              (\<lambda>e. if is_core e then bindE (fail_proposal FromRemote) (\<lambda>u. retE False) else raiseE e)) (\<lambda>ok.
       whenE ok
         (bindE (set_greenlet False) (\<lambda>u.
          bindE (to_state StConnected) (\<lambda>u.
          bindE proposed_streams (\<lambda>ms.
          bindE (set_proposed None) (\<lambda>u.
          bindE (post_note (ProposalRejected FromRemote (Some code))) (\<lambda>u.
            hold_if_asked w))))))))"

section \<open>add_streams\<close>

text \<open>
  While the new streams initialize, a proposal of the remote party wins: ours fails and its
  notification is handled anew. \<open>None\<close>: it did.
\<close>

definition add_init_turn :: "nat \<times> bool \<Rightarrow> (nat \<times> bool) sess" where
  "add_init_turn st =
     bindE (wait False) (\<lambda>n.
       case n of
         Initialized i \<Rightarrow> retE (fst st - 1, False)
       | Changed d \<Rightarrow>
           if ic_state d = InvConnected \<and> ic_sub d = SubReceivedProposal then
             bindE (fail_proposal FromLocal) (\<lambda>u.
             bindE (schedule (THandle n)) (\<lambda>u. retE (fst st, True)))
           else retE st
       | _ \<Rightarrow> retE st)"

text \<open>Every new stream takes the place of a disabled media, or a new one at the end.\<close>

fun place_streams :: "world \<Rightarrow> stream list \<Rightarrow> sdp \<Rightarrow> stream list \<times> sdp" where
  "place_streams w [] d = ([], d)"
| "place_streams w (m # ms) d =
     (let free = filter (\<lambda>i. md_port (sd_media d ! i) = 0) [0..<length (sd_media d)];
          i = (case free of [] \<Rightarrow> length (sd_media d) | j # js \<Rightarrow> j);
          md = wo_local_media w (sm_id m) None i;
          d' = (if free \<noteq> [] then d\<lparr>sd_media := (sd_media d)[i := md]\<rparr> else d\<lparr>sd_media := sd_media d @ [md]\<rparr>)
      in case place_streams w ms d' of (placed, r) \<Rightarrow> (m\<lparr>sm_index := i\<rparr> # placed, r))"

definition proposal_refused :: "int \<Rightarrow> unit sess" where
  "proposal_refused code =
     bindE drop_proposed (\<lambda>u.
     bindE (set_greenlet False) (\<lambda>u.
     bindE (to_state StConnected) (\<lambda>u.
     bindE (set_proposed None) (\<lambda>u.
       post_note (ProposalRejected FromLocal (Some code))))))"

definition add_turn :: "world \<Rightarrow> proposal_wait \<Rightarrow> proposal_wait sess" where
  "add_turn w pw =
     bindE (wait True) (\<lambda>n.
       case n of
         SDPUpdate (SDPSucceeded l r) \<Rightarrow>
           bindE (update_all w r) (\<lambda>u. retE (pw\<lparr>pw_updated := True, pw_sdp := Some (l, r)\<rparr>))
       | SDPUpdate SDPFailed \<Rightarrow>
           bindE (fail_proposal FromLocal) (\<lambda>u. retE (pw\<lparr>pw_returned := True\<rparr>))
       | Changed d \<Rightarrow>
           if ic_state d = InvConnected \<and> ic_sub d = SubNormal then
             bindE (attr (ic_code d)) (\<lambda>c.
             bindE (post_note (Transaction FromLocal ''INVITE'' (Some c))) (\<lambda>u.
               if c \<ge> 300 then bindE (proposal_refused c) (\<lambda>u. retE (pw\<lparr>pw_returned := True\<rparr>))
               else retE (pw\<lparr>pw_confirmed := True\<rparr>)))
           else if ic_state d = InvDisconnected then raiseE (Disconnected d)
           else retE pw
       | _ \<Rightarrow> retE pw)"

text \<open>The streams the remote party took start; \<open>None\<close> when its answer lacks a media.\<close>

fun start_accepted :: "sdp \<Rightarrow> stream list \<Rightarrow> stream list option sess" where
  "start_accepted remote [] = retE (Some [])"
| "start_accepted remote (m # ms) =
     (if sm_index m < length (sd_media remote) then
        if md_port (sd_media remote ! sm_index m) \<noteq> 0 then
          bindE (on_stream (StartStream (sm_id m) (sm_index m))) (\<lambda>u.
          bindE (start_accepted remote ms) (\<lambda>r. retE (map_option ((#) m) r)))
        else bindE (drop_stream m) (\<lambda>u. start_accepted remote ms)
      else bindE (fail_proposal FromLocal) (\<lambda>u. retE None))"

definition wait_started :: "nat \<Rightarrow> unit sess" where
  "wait_started k =
     bindE (wait_loop (\<lambda>k s. 0 < k)
              (\<lambda>k. bindE (wait True) (\<lambda>n. retE (case n of StreamStarted i \<Rightarrow> k - 1 | _ \<Rightarrow> k))) k)
       (\<lambda>k. retE ())"

definition add_negotiate :: "world \<Rightarrow> stream list option sess" where
  "add_negotiate w =
     bindE (readE next_version) (\<lambda>local.
     bindE proposed_streams (\<lambda>ms.
       case place_streams w ms local of
         (placed, d) \<Rightarrow>
           bindE (set_proposed (Some placed)) (\<lambda>u.
           bindE (inv_call (SendReinvite d)) (\<lambda>u.
           bindE (post_note (NewProposal FromLocal)) (\<lambda>u.
           bindE (catchE
                    (bindE (wait_loop proposal_pending (add_turn w) proposal_wait_init) (\<lambda>pw. retE (Some pw)))
                    (\<lambda>e. if e = TimedOut then
                           bindE (transition StSendingProposal StCancellingProposal TCancelProposal) (\<lambda>u. retE None)
                         else raiseE e)) (\<lambda>r.
             case r of
               None \<Rightarrow> retE None
             | Some pw \<Rightarrow>
                 (case (pw_returned pw, pw_sdp pw) of
                    (False, Some (l, remote)) \<Rightarrow>
                      bindE (start_accepted remote placed) (\<lambda>accepted.
                        case accepted of
                          None \<Rightarrow> retE None
                        | Some as \<Rightarrow> bindE (wait_started (length as)) (\<lambda>u. retE (Some as)))
                  | _ \<Rightarrow> retE None)))))))"

definition add_main :: "world \<Rightarrow> stream list option sess" where
  "add_main w =
     bindE proposed_streams (\<lambda>ms.
     bindE (wait_loop (\<lambda>st s. 0 < fst st \<and> \<not> snd st) add_init_turn (length ms, False)) (\<lambda>st.
       if snd st then retE None else add_negotiate w))"

text \<open>\<open>accepted\<close> are the streams of the session from here on.\<close>

definition streams_added :: "world \<Rightarrow> stream list \<Rightarrow> unit sess" where
  "streams_added w accepted =
     bindE (set_greenlet False) (\<lambda>u.
     bindE (to_state StConnected) (\<lambda>u.
     bindE current_streams (\<lambda>old.
     bindE (modifyE (\<lambda>s. s\<lparr>se_streams := Some (old @ accepted), se_proposed := None\<rparr>)) (\<lambda>u.
     bindE (whenE (list_ex (\<lambda>m. wo_ice_active w (sm_id m)) accepted) (reinvite_after_ice w)) (\<lambda>u.
     bindE (post_note (ProposalAccepted FromLocal)) (\<lambda>u.
     bindE (post_note (Renegotiated FromLocal (map sm_id accepted) [])) (\<lambda>u.
       proposal_done w [])))))))"

definition add_streams_body :: "world \<Rightarrow> stream list \<Rightarrow> unit sess" where
  "add_streams_body w wanted =
     bindE current_streams (\<lambda>old.
       let new = filter (\<lambda>m. \<not> has_stream old m) (remdups wanted)
       in if new = [] then to_state StConnected
          else
            bindE (set_greenlet True) (\<lambda>u.
            bindE (set_proposed (Some new)) (\<lambda>u.
            bindE (forE new (\<lambda>m. bindE (observe_stream m) (\<lambda>u. on_stream (Initialize (sm_id m) False)))) (\<lambda>u.
            bindE (catchE
                     (add_main w)
                     (\<lambda>e. bindE (proposal_failed FromLocal e) (\<lambda>u. retE None))) (\<lambda>r.
              case r of None \<Rightarrow> retE () | Some accepted \<Rightarrow> streams_added w accepted)))))"

section \<open>remove_streams\<close>

text \<open>A stream leaves the session, and its media is disabled in the description.\<close>

definition remove_stream_media :: "stream \<Rightarrow> sdp \<Rightarrow> sdp sess" where
  "remove_stream_media m d =
     bindE (unobserve_stream m) (\<lambda>u.
     bindE (on_stream (Deactivate (sm_id m))) (\<lambda>u.
     bindE (modifyE (\<lambda>s. s\<lparr>se_streams := map_option (filter (\<lambda>o'. sm_id o' \<noteq> sm_id m)) (se_streams s)\<rparr>)) (\<lambda>u.
     bindE (nth_media d (sm_index m)) (\<lambda>md.
       put_media (sm_index m) (md\<lparr>md_port := 0, md_ice := False\<rparr>) d))))"

fun remove_all_media :: "stream list \<Rightarrow> sdp \<Rightarrow> sdp sess" where
  "remove_all_media [] d = retE d"
| "remove_all_media (m # ms) d = bindE (remove_stream_media m d) (remove_all_media ms)"

definition remove_turn :: "world \<Rightarrow> bool \<times> bool \<Rightarrow> (bool \<times> bool) sess" where
  "remove_turn w st =
     bindE (wait True) (\<lambda>n.
       case n of
         SDPUpdate (SDPSucceeded l r) \<Rightarrow> bindE (update_all w r) (\<lambda>u. retE (fst st, True))
       | SDPUpdate SDPFailed \<Rightarrow> retE (fst st, True)
       | Changed d \<Rightarrow>
           if ic_state d = InvConnected \<and> ic_sub d = SubNormal then
             bindE (attr (ic_code d)) (\<lambda>c.
             bindE (post_note (Transaction FromLocal ''INVITE'' (Some c))) (\<lambda>u.
               retE (if 200 \<le> c \<and> c < 300 then (True, snd st) else (True, True))))
           else if ic_state d = InvDisconnected then raiseE (Disconnected d)
           else retE st
       | _ \<Rightarrow> retE st)"

definition end_all :: "stream list \<Rightarrow> unit sess" where
  "end_all ms = forE ms (\<lambda>m. on_stream (EndStream (sm_id m)))"

definition remove_streams_body :: "world \<Rightarrow> stream list \<Rightarrow> unit sess" where
  "remove_streams_body w wanted =
     bindE current_streams (\<lambda>old.
       let gone = filter (has_stream wanted) old
       in if gone = [] then to_state StConnected
          else
            bindE (set_greenlet True) (\<lambda>u.
            bindE (catchE
                     (bindE (readE next_version) (\<lambda>d.
                      bindE (remove_all_media gone d) (\<lambda>d.
                      bindE (inv_call (SendReinvite d)) (\<lambda>u.
                      bindE (wait_loop unanswered (remove_turn w) (False, False)) (\<lambda>st. retE True)))))
                     (\<lambda>e. case e of
                            Disconnected d \<Rightarrow>
                              bindE (end_all gone) (\<lambda>u. bindE (handle_later d) (\<lambda>u. retE False))
                          | _ \<Rightarrow>
                              if e = TimedOut \<or> is_core e \<or> is_stream_failure e
                              then bindE (end_all gone) (\<lambda>u. bindE (schedule TEnd) (\<lambda>u. retE False))
                              else raiseE e)) (\<lambda>ok.
              if \<not> ok then retE ()
              else
                bindE (end_all gone) (\<lambda>u.
                bindE (set_greenlet False) (\<lambda>u.
                bindE (to_state StConnected) (\<lambda>u.
                bindE (post_note (Renegotiated FromLocal [] (map sm_id gone))) (\<lambda>u.
                  proposal_done w [])))))))"

section \<open>cancel_proposal\<close>

definition cancel_turn :: "bool \<Rightarrow> bool sess" where
  "cancel_turn stop =
     bindE (catchE
              (bindE (wait False) (\<lambda>n. retE (Some n)))
              (\<lambda>e. case e of StreamFailed i \<Rightarrow> retE None | _ \<Rightarrow> raiseE e)) (\<lambda>n.
       case n of
         Some (Changed d) \<Rightarrow>
           if ic_state d = InvConnected \<and> ic_sub d = SubNormal then
             bindE (attr (ic_code d)) (\<lambda>c.
             bindE (post_note (Transaction FromRemote ''INVITE'' (Some c))) (\<lambda>u.
             bindE (if c = 487 then
                      bindE (readE (\<lambda>s. the_list (se_proposed s))) (\<lambda>ms.
                      bindE (forE ms (\<lambda>m. bindE (on_stream (Deactivate (sm_id m))) (\<lambda>u. on_stream (EndStream (sm_id m))))) (\<lambda>u.
                      bindE (to_state StConnected) (\<lambda>u.
                      bindE (set_proposed None) (\<lambda>u.
                        post_note (ProposalRejected FromLocal (Some c))))))
                    else if c = 200 then schedule TEnd
                    else retE ()) (\<lambda>u. retE True)))
           else if ic_state d = InvDisconnected then raiseE (Disconnected d)
           else retE True
       | _ \<Rightarrow> retE False)"

text \<open>From \<open>self.greenlet = api.getcurrent()\<close> on.\<close>

definition cancel_goes_on :: "world \<Rightarrow> unit sess" where
  "cancel_goes_on w =
     bindE (set_greenlet True) (\<lambda>u.
       try_finally
         (bindE (catchE
                   (bindE (inv_call CancelReinvite) (\<lambda>u.
                    bindE (wait_loop (\<lambda>stop s. \<not> stop) cancel_turn False) (\<lambda>stop. retE True)))
                   (\<lambda>e. if is_core e then
                          bindE (readE (\<lambda>s. the_list (se_proposed s))) (\<lambda>ms.
                          bindE (forE ms (\<lambda>m. bindE (on_stream (Deactivate (sm_id m))) (\<lambda>u. on_stream (EndStream (sm_id m))))) (\<lambda>u.
                          bindE (post_note (Transaction FromLocal [] (Some 0))) (\<lambda>u.
                          bindE (set_greenlet False) (\<lambda>u.
                          bindE (to_state StConnected) (\<lambda>u.
                          bindE (set_proposed None) (\<lambda>u.
                          bindE (post_note (ProposalRejected FromLocal (Some 0))) (\<lambda>u. retE False)))))))
                        else case e of
                          Disconnected d \<Rightarrow>
                            bindE (set_proposed None) (\<lambda>u. bindE (handle_later d) (\<lambda>u. retE False))
                        | _ \<Rightarrow> raiseE e)) (\<lambda>ok.
            whenE ok
              (bindE (set_proposed None) (\<lambda>u.
               bindE (set_greenlet False) (\<lambda>u. to_state StConnected)))))
         (hold_if_asked w))"

definition cancel_proposal_body :: "world \<Rightarrow> unit sess" where
  "cancel_proposal_body w =
     bindE (readE se_greenlet) (\<lambda>running.
       if running then schedule TCancelKilled else cancel_goes_on w)"

end
