(* ===== verification/Session_Events.thy ===== *)
theory Session_Events
  imports Session_Proposals
begin

text \<open>
  Notifications that find no procedure running: the remote party's proposals, the end of the
  invitation, failing streams; transfers, incoming sessions and the manager of all sessions.
\<close>

section \<open>Streams of a remote description\<close>

text \<open>The first stream type that knows the media makes the stream, unless it is invalid.\<close>

fun first_stream :: "(sdp \<Rightarrow> nat \<Rightarrow> new_stream) list \<Rightarrow> sdp \<Rightarrow> nat \<Rightarrow> nat option" where
  "first_stream [] d i = None"
| "first_stream (t # ts) d i =
     (case t d i of
        UnknownStream \<Rightarrow> first_stream ts d i
      | InvalidStream \<Rightarrow> None
      | NewStream j \<Rightarrow> Some j)"

definition streams_from :: "world \<Rightarrow> sdp \<Rightarrow> nat list \<Rightarrow> stream list" where
  "streams_from w d js =
     List.map_filter
       (\<lambda>i. if md_port (sd_media d ! i) = 0 then None
            else map_option (\<lambda>j. \<lparr>sm_id = j, sm_index = i\<rparr>) (first_stream (wo_stream_types w) d i)) js"

section \<open>A proposal of the remote party\<close>

text \<open>What becomes of a media: \<open>active\<close> is the running description.\<close>

definition is_added :: "sdp \<Rightarrow> sdp \<Rightarrow> nat \<Rightarrow> bool" where
  "is_added proposed active i =
     (length (sd_media active) \<le> i \<or>
      \<not> (md_port (sd_media proposed ! i) = 0 \<and> 0 < md_port (sd_media active ! i)) \<and>
      \<not> (0 < md_port (sd_media proposed ! i) \<and> md_port (sd_media active ! i) = 0) \<and>
      md_kind (sd_media proposed ! i) \<noteq> md_kind (sd_media active ! i))"

definition is_removed :: "sdp \<Rightarrow> sdp \<Rightarrow> nat \<Rightarrow> bool" where
  "is_removed proposed active i =
     (i < length (sd_media active) \<and>
      (md_port (sd_media proposed ! i) = 0 \<and> 0 < md_port (sd_media active ! i) \<or>
       \<not> (0 < md_port (sd_media proposed ! i) \<and> md_port (sd_media active ! i) = 0) \<and>
       md_kind (sd_media proposed ! i) \<noteq> md_kind (sd_media active ! i)))"

definition is_reused :: "sdp \<Rightarrow> sdp \<Rightarrow> nat \<Rightarrow> bool" where
  "is_reused proposed active i =
     (i < length (sd_media active) \<and>
      0 < md_port (sd_media proposed ! i) \<and> md_port (sd_media active ! i) = 0)"

definition media_indexes :: "sdp \<Rightarrow> nat list" where
  "media_indexes d = [0..<length (sd_media d)]"

text \<open>\<open>added_media_indexes | reused_media_indexes\<close>, taken in ascending order.\<close>

definition new_indexes :: "sdp \<Rightarrow> sdp \<Rightarrow> nat list" where
  "new_indexes proposed active =
     filter (\<lambda>i. is_added proposed active i \<or> is_reused proposed active i) (media_indexes proposed)"

definition removed_indexes :: "sdp \<Rightarrow> sdp \<Rightarrow> nat list" where
  "removed_indexes proposed active = filter (is_removed proposed active) (media_indexes proposed)"

definition refuse_proposal :: "unit sess" where
  "refuse_proposal =
     bindE (inv_call (SendResponse 488 None)) (\<lambda>u.
     bindE (to_state StConnected) (\<lambda>u.
       post_note (Transaction FromRemote ''INVITE'' (Some 488))))"

text \<open>New streams: it is up to the application; the state stays \<open>received_proposal\<close>.\<close>

definition remote_adds :: "world \<Rightarrow> sdp \<Rightarrow> nat list \<Rightarrow> unit sess" where
  "remote_adds w proposed js =
     bindE (set_proposed (Some (streams_from w proposed js))) (\<lambda>u.
       if streams_from w proposed js \<noteq> [] then
         bindE (inv_call (SendResponse 100 None)) (\<lambda>u. post_note (NewProposal FromRemote))
       else refuse_proposal)"

text \<open>
  The wait for the acknowledgement and the new descriptions; what arrives meanwhile and is not
  about the invitation, or says something else about it, is left for later.
\<close>

definition leave_for_later :: "notice \<Rightarrow> unit sess" where
  "leave_for_later n = modifyE (\<lambda>s. s\<lparr>se_unhandled := se_unhandled s @ [n]\<rparr>)"

definition negotiated_turn :: "world \<Rightarrow> bool \<times> bool \<Rightarrow> (bool \<times> bool) sess" where
  "negotiated_turn w st =
     bindE (wait False) (\<lambda>n.
       case n of
         SDPUpdate (SDPSucceeded l r) \<Rightarrow> bindE (update_all w r) (\<lambda>u. retE (fst st, True))
       | SDPUpdate SDPFailed \<Rightarrow> retE (fst st, True)
       | Changed d \<Rightarrow>
           if ic_state d = InvConnected \<and> ic_sub d = SubNormal then retE (True, snd st)
           else if ic_state d = InvDisconnected then raiseE (Disconnected d)
           else bindE (leave_for_later n) (\<lambda>u. retE st)
       | _ \<Rightarrow> bindE (leave_for_later n) (\<lambda>u. retE st))"

definition wait_negotiated :: "world \<Rightarrow> unit sess" where
  "wait_negotiated w =
     bindE (wait_loop (\<lambda>st s. unanswered st s \<or> channel_more s) (negotiated_turn w) (False, False))
       (\<lambda>st. retE ())"

definition leaves_session :: "stream \<Rightarrow> unit sess" where
  "leaves_session m =
     bindE (modifyE (\<lambda>s. s\<lparr>se_streams := map_option (filter (\<lambda>o'. sm_id o' \<noteq> sm_id m)) (se_streams s)\<rparr>)) (\<lambda>u.
       on_stream (EndStream (sm_id m)))"

fun disable_removed :: "stream list \<Rightarrow> sdp \<Rightarrow> sdp sess" where
  "disable_removed [] d = retE d"
| "disable_removed (m # ms) d =
     bindE (unobserve_stream m) (\<lambda>u.
     bindE (on_stream (Deactivate (sm_id m))) (\<lambda>u.
     bindE (nth_media d (sm_index m)) (\<lambda>md.
     bindE (put_media (sm_index m) (md\<lparr>md_port := 0, md_ice := False\<rparr>) d) (disable_removed ms))))"

text \<open>
  The answer could not be sent. \<open>False\<close>: the session is being ended and the handler returns.
\<close>

definition answer_not_sent :: "stream list \<Rightarrow> bool sess" where
  "answer_not_sent gone =
     bindE (forE gone leaves_session) (\<lambda>u.
       if gone \<noteq> [] then bindE (schedule TEnd) (\<lambda>u. retE False)
       else
         catchE
           (bindE (inv_call (SendResponse 488 None)) (\<lambda>u. retE True))
           (\<lambda>e. if e = PJSIP then bindE (schedule TEnd) (\<lambda>u. retE False) else raiseE e))"

definition try_answer :: "sdp \<Rightarrow> bool sess" where
  "try_answer d =
     catchE
       (bindE (inv_call (SendResponse 200 (Some d))) (\<lambda>u. retE True))
       (\<lambda>e. if e = PJSIP then retE False else raiseE e)"

definition answer_sent :: "world \<Rightarrow> nat list \<Rightarrow> stream list \<Rightarrow> nat list \<Rightarrow> unit sess" where
  "answer_sent w removed gone held =
     bindE (forE gone leaves_session) (\<lambda>u.
     bindE (post_note (Transaction FromRemote ''INVITE'' (Some 200))) (\<lambda>u.
     bindE (wait_negotiated w) (\<lambda>u.
     bindE (announce_remote_hold w held) (\<lambda>u.
       whenE (removed \<noteq> []) (post_note (Renegotiated FromRemote [] (map sm_id gone)))))))"

definition remote_updates :: "world \<Rightarrow> sdp \<Rightarrow> nat list \<Rightarrow> bool sess" where
  "remote_updates w proposed removed =
     bindE (readE next_version) (\<lambda>d.
     bindE current_streams (\<lambda>ms.
     bindE (readE (held_by_remote w)) (\<lambda>held.
       let gone = filter (\<lambda>m. sm_index m \<in> set removed) ms
       in bindE (disable_removed gone d) (\<lambda>d.
          bindE (put_streams sm_index w (Some proposed) ms d) (\<lambda>d.
          bindE (try_answer d) (\<lambda>ok.
            if ok then bindE (answer_sent w removed gone held) (\<lambda>u. retE True)
            else answer_not_sent gone))))))"

text \<open>The body of the \<open>try\<close>; \<open>False\<close> when it returns.\<close>

definition remote_proposal_main :: "world \<Rightarrow> bool sess" where
  "remote_proposal_main w =
     bindE (readE se_proposed_remote) (\<lambda>offered.
     bindE (readE se_active_remote) (\<lambda>active.
     bindE (attr offered) (\<lambda>proposed.
       if length (sd_media proposed) < length (sd_media active) then
         bindE refuse_proposal (\<lambda>u. retE False)
       else
         bindE current_streams (\<lambda>ms.
           if \<not> list_all (\<lambda>m. wo_validate w (sm_id m) proposed (sm_index m)) ms then
             bindE refuse_proposal (\<lambda>u. retE False)
           else
             let new = new_indexes proposed active; removed = removed_indexes proposed active
             in if new \<noteq> [] \<and> removed \<noteq> [] then bindE refuse_proposal (\<lambda>u. retE False)
                else if new \<noteq> [] then bindE (remote_adds w proposed new) (\<lambda>u. retE False)
                else remote_updates w proposed removed))))"

definition disconnected_later :: "inv_change \<Rightarrow> unit sess" where
  "disconnected_later d =
     bindE (set_greenlet False) (\<lambda>u.
     bindE (to_state StConnected) (\<lambda>u. schedule (THandle (Changed d))))"

definition remote_proposal :: "world \<Rightarrow> unit sess" where
  "remote_proposal w =
     bindE (to_state StReceivedProposal) (\<lambda>u.
     bindE (catchE
              (remote_proposal_main w)
              (\<lambda>e. case e of
                     Disconnected d \<Rightarrow> bindE (disconnected_later d) (\<lambda>u. retE False)
                   | _ \<Rightarrow> if is_core e then bindE (schedule TEnd) (\<lambda>u. retE False) else raiseE e)) (\<lambda>goes_on.
       whenE goes_on (to_state StConnected)))"

section \<open>A request for a proposal\<close>

text \<open>The address of the host replaces the one a media or the description has.\<close>

definition relocate :: "string option \<Rightarrow> string option \<Rightarrow> string option sess" where
  "relocate address c =
     (case c of
        None \<Rightarrow> retE None
      | Some old \<Rightarrow> (case address of None \<Rightarrow> raiseE (Uncaught TypeError) | Some a \<Rightarrow> retE (Some a)))"

fun offer_again :: "world \<Rightarrow> string option \<Rightarrow> (nat \<times> stream) list \<Rightarrow> sdp \<Rightarrow> sdp sess" where
  "offer_again w address [] d = retE d"
| "offer_again w address ((i, m) # ms) d =
     bindE (on_stream (ResetStream (sm_id m) i)) (\<lambda>u.
       let md = wo_local_media w (sm_id m) None i
       in bindE (relocate address (md_connection md)) (\<lambda>c.
          bindE (put_media (sm_index m) (md\<lparr>md_connection := c\<rparr>) d) (offer_again w address ms)))"

definition proposal_request_main :: "world \<Rightarrow> unit sess" where
  "proposal_request_main w =
     bindE (inv_call (SendResponse 100 None)) (\<lambda>u.
     bindE (readE next_version) (\<lambda>d.
     bindE (relocate (wo_outgoing_ip w (wo_peer w)) (sd_connection d)) (\<lambda>c.
     bindE current_streams (\<lambda>ms.
     bindE (offer_again w (wo_outgoing_ip w (wo_peer w)) (zip [0..<length ms] ms) (d\<lparr>sd_connection := c\<rparr>)) (\<lambda>d.
     bindE (inv_call (SendResponse 200 (Some d))) (\<lambda>u.
     bindE (post_note (Transaction FromRemote ''INVITE'' (Some 200))) (\<lambda>u.
       wait_negotiated w)))))))"

definition proposal_request :: "world \<Rightarrow> unit sess" where
  "proposal_request w =
     bindE (to_state StProposalRequest) (\<lambda>u.
     bindE (catchE
              (bindE (proposal_request_main w) (\<lambda>u. retE True))
              (\<lambda>e. case e of
                     Disconnected d \<Rightarrow> bindE (disconnected_later d) (\<lambda>u. retE False)
                   | _ \<Rightarrow> raiseE e)) (\<lambda>goes_on.
       whenE goes_on (to_state StConnected)))"

section \<open>A cancelled proposal and the end of the invitation\<close>

definition proposal_cancelled :: "world \<Rightarrow> inv_change \<Rightarrow> unit sess" where
  "proposal_cancelled w d =
     (if ic_origin d \<noteq> FromLocal then retE ()
      else
        bindE (attr (ic_code d)) (\<lambda>c.
          whenE (c = 487)
            (bindE (to_state StConnected) (\<lambda>u.
             bindE proposed_streams (\<lambda>ms.
             bindE (set_proposed None) (\<lambda>u.
             bindE (post_note (ProposalRejected FromRemote (Some c))) (\<lambda>u.
               hold_if_asked w)))))))"

definition cancelled_incoming :: "inv_change \<Rightarrow> unit sess" where
  "cancelled_incoming d =
     bindE (to_state StTerminated) (\<lambda>u.
       if ic_origin d = FromRemote then
         bindE (post_note (Transaction FromRemote ''INVITE'' (Some 487))) (\<lambda>u.
           post_note (DidFail FromRemote (Some 487)))
       else post_note (DidFail FromLocal (Some 0)))"

definition remote_end :: "inv_change \<Rightarrow> unit sess" where
  "remote_end d =
     bindE (post_note (WillEnd (ic_origin d))) (\<lambda>u.
     bindE current_streams (\<lambda>ms.
     bindE (drop_streams ms) (\<lambda>u.
     bindE (to_state StTerminated) (\<lambda>u.
     bindE (if ic_origin d = FromRemote then
              (case ic_method d of
                 Some m \<Rightarrow> post_note (Transaction FromRemote m (Some 200))
               | None \<Rightarrow>
                   bindE (attr (ic_code d)) (\<lambda>c. post_note (Transaction FromRemote ''INVITE'' (Some c))))
            else retE ()) (\<lambda>u.
       session_ended (ic_origin d))))))"

definition invitation_ended :: "inv_change \<Rightarrow> unit sess" where
  "invitation_ended d =
     bindE (readE se_state) (\<lambda>st.
     bindE (if st = StIncoming then cancelled_incoming d else remote_end d) (\<lambda>u.
       unobserve_invitation))"

section \<open>The handlers\<close>

text \<open>\<open>_NH_SIPInvitationChangedState\<close> without a running procedure: it becomes the procedure.\<close>

definition change_handled :: "world \<Rightarrow> inv_change \<Rightarrow> unit sess" where
  "change_handled w d =
     (if ic_state d = InvConnected \<and> ic_sub d = SubReceivedProposal then remote_proposal w
      else if ic_state d = InvConnected \<and> ic_sub d = SubProposalRequest then proposal_request w
      else if ic_prev d = InvConnected \<and> ic_state d = InvConnected \<and>
              ic_prev_sub d = SubReceivedProposal \<and> ic_sub d = SubNormal then proposal_cancelled w d
      else if ic_state d = InvDisconnected then invitation_ended d
      else retE ())"

definition handle_change :: "world \<Rightarrow> inv_change \<Rightarrow> unit sess" where
  "handle_change w d =
     bindE (readE se_state) (\<lambda>st.
       if st = StTerminated then retE ()
       else
         bindE (whenE (ic_origin d = FromRemote \<and> ic_state d \<notin> {InvDisconnecting, InvDisconnected} \<and> ic_focus d)
                  (modifyE (\<lambda>s. s\<lparr>se_remote_focus := True\<rparr>))) (\<lambda>u.
         bindE (readE se_greenlet) (\<lambda>running.
           if running then retE ()
           else
             bindE (modifyE (\<lambda>s. s\<lparr>se_greenlet := True, se_unhandled := []\<rparr>)) (\<lambda>u.
               try_finally (change_handled w d)
                 (bindE (set_greenlet False) (\<lambda>u.
                  bindE (readE se_unhandled) (\<lambda>ns. forE ns (\<lambda>n. schedule (THandle n)))))))))"

text \<open>
  \<open>handle_notification\<close>: with a running procedure what arrives goes to its channel, the other
  kinds of notification are lost without one.
\<close>

definition handle_notice :: "world \<Rightarrow> notice \<Rightarrow> unit sess" where
  "handle_notice w n = (case n of Changed d \<Rightarrow> handle_change w d | _ \<Rightarrow> retE ())"

text \<open>\<open>_NH_MediaStreamDidFail\<close> without a running procedure.\<close>

definition stream_did_fail :: "stream \<Rightarrow> unit sess" where
  "stream_did_fail m =
     bindE (readE se_greenlet) (\<lambda>running.
     bindE (readE se_streams) (\<lambda>ms.
       if running then retE ()
       else if map_option (map sm_id) ms = Some [sm_id m] then schedule TEnd
       else
         catchE (transition StConnected StSendingProposal (TRemoveStreams [m]))
           (\<lambda>e. if e = Uncaught RuntimeError then schedule TEnd else raiseE e)))"

section \<open>Transfers\<close>

definition transfer_states :: "session_state set" where
  "transfer_states =
     {StConnected, StReceivedProposal, StSendingProposal, StAcceptingProposal, StRejectingProposal,
      StCancellingProposal}"

text \<open>The state of the transfer handler: a direction and a state, both \<open>None\<close> at rest.\<close>

datatype transfer_phase = TransferStarting | TransferStarted

type_synonym transfer = "origin option \<times> transfer_phase option"

definition check_transfer :: "transfer \<Rightarrow> transfer \<Rightarrow> unit sess \<Rightarrow> unit sess" where
  "check_transfer required t m = (if t = required then m else raiseE (Uncaught RuntimeError))"

definition transfer_session :: "transfer \<Rightarrow> unit sess" where
  "transfer_session t =
     check_state {StConnected} (check_transfer (None, None) t
       (bindE (post_note TransferNew) (\<lambda>u.
          catchE (inv_call TransferInvitation)
            (\<lambda>e. if is_core e then post_note (TransferFailed 500) else raiseE e))))"

definition accept_transfer :: "transfer \<Rightarrow> unit sess" where
  "accept_transfer t =
     check_state transfer_states
       (check_transfer (Some FromRemote, Some TransferStarting) t (post_note TransferBegun))"

definition reject_transfer :: "transfer \<Rightarrow> int \<Rightarrow> unit sess" where
  "reject_transfer t code =
     check_state transfer_states
       (check_transfer (Some FromRemote, Some TransferStarting) t (post_note (TransferFailed code)))"

section \<open>New sessions\<close>

definition no_sdp :: sdp where
  "no_sdp = \<lparr>sd_address = [], sd_connection = None, sd_version = 0, sd_media = []\<rparr>"

definition session_new :: session where
  "session_new =
     \<lparr>se_state = StNone, se_outgoing = False, se_on_hold = False, se_proposed = None, se_streams = None,
      se_greenlet = False, se_hold_in_progress = False, se_ended = False, se_connected = False,
      se_local_focus = False, se_remote_focus = False, se_invitation = False, se_inv_state = InvNone,
      se_inv_sub = SubNone, se_inv_incoming = False, se_inv_observed = False,
      se_active_local = no_sdp, se_active_remote = no_sdp, se_proposed_remote = None,
      se_observed = [], se_remote_held = [], se_script = [], se_calls = [], se_more = False,
      se_resent = [], se_unhandled = [], se_tasks = [], se_log = []\<rparr>"

text \<open>
  \<open>init_incoming\<close>; \<open>replaces\<close> says whether the session a \<open>Replaces\<close> header names is found.
\<close>

definition init_incoming :: "world \<Rightarrow> bool \<Rightarrow> bool option \<Rightarrow> unit sess" where
  "init_incoming w focus replaces =
     bindE (readE se_proposed_remote) (\<lambda>offered.
     bindE (set_proposed (Some (case offered of
              None \<Rightarrow> [] | Some d \<Rightarrow> streams_from w d (media_indexes d)))) (\<lambda>u.
     bindE (modifyE (\<lambda>s. s\<lparr>se_outgoing := False, se_state := StIncoming, se_invitation := True,
              se_inv_incoming := True\<rparr>)) (\<lambda>u.
     bindE (whenE focus (modifyE (\<lambda>s. s\<lparr>se_remote_focus := True\<rparr>))) (\<lambda>u.
       if replaces = Some False then inv_call (SendResponse 481 None)
       else
         bindE (modifyE (\<lambda>s. s\<lparr>se_inv_observed := True\<rparr>)) (\<lambda>u. post_note NewIncoming)))))"

end
