(* ===== verification/Session_Runs.thy ===== *)
theory Session_Runs
  imports Session_Events
begin

text \<open>
  What can happen to a session: the application calls its operations, notifications arrive - both
  at any time, also while procedures wait to be run -, and the procedures that were scheduled run
  in the order they were scheduled in.

  A procedure runs from its start to its end in one step. What happens while it waits is in the
  script it is given: the notifications that reach its channel, and \<open>GreenletExit\<close> when \<open>end\<close> or
  \<open>cancel_proposal\<close> kills it. It owns \<open>self.greenlet\<close> meanwhile, so that nothing else handles
  notifications, and the state it has set refuses the other operations, with two exceptions that
  are left out: \<open>hold\<close> and \<open>unhold\<close> change the session's flags, and \<open>accept_proposal\<close> and
  \<open>reject_proposal\<close> could be called while a proposal the application was not told of is being
  answered. The one point inside a procedure where others run although it waits for nothing is
  \<open>api.kill\<close>: there \<open>end\<close> and \<open>cancel_proposal\<close> go on in a step of their own.
\<close>

section \<open>Operations\<close>

datatype api =
    Connect "stream list" "string list" bool bool
  | Accept "stream list" bool bool
  | Reject int
  | RingIndication
  | AcceptProposal "stream list"
  | RejectProposal int
  | AddStreams "stream list"
  | RemoveStreams "stream list"
  | CancelProposal
  | Hold
  | Unhold
  | End
  | Transfer transfer
  | AcceptTransfer transfer
  | RejectTransfer transfer int

definition api_call :: "api \<Rightarrow> unit sess" where
  "api_call a =
     (case a of
        Connect ms routes focus bad \<Rightarrow> transition StNone StConnecting (TConnect ms routes focus bad)
      | Accept ms focus bad \<Rightarrow> transition StIncoming StAccepting (TAccept ms focus bad)
      | Reject code \<Rightarrow> transition StIncoming StTerminating (TReject code)
      | RingIndication \<Rightarrow> check_state {StIncoming, StReceivedProposal} (schedule TRing)
      | AcceptProposal ms \<Rightarrow> transition StReceivedProposal StAcceptingProposal (TAcceptProposal ms)
      | RejectProposal code \<Rightarrow> transition StReceivedProposal StRejectingProposal (TRejectProposal code)
      | AddStreams ms \<Rightarrow> transition StConnected StSendingProposal (TAddStreams ms)
      | RemoveStreams ms \<Rightarrow> transition StConnected StSendingProposal (TRemoveStreams ms)
      | CancelProposal \<Rightarrow> transition StSendingProposal StCancellingProposal TCancelProposal
      | Hold \<Rightarrow> schedule THold
      | Unhold \<Rightarrow> schedule TUnhold
      | End \<Rightarrow> schedule TEnd
      | Transfer t \<Rightarrow> transfer_session t
      | AcceptTransfer t \<Rightarrow> accept_transfer t
      | RejectTransfer t code \<Rightarrow> reject_transfer t code)"

definition run_task :: "world \<Rightarrow> task \<Rightarrow> unit sess" where
  "run_task w t =
     (case t of
        TEnd \<Rightarrow> end_body
      | TRemoveStreams ms \<Rightarrow> remove_streams_body w ms
      | THandle n \<Rightarrow> handle_notice w n
      | TConnect ms routes focus bad \<Rightarrow> connect_body w ms routes focus bad
      | TAccept ms focus bad \<Rightarrow> accept_body w ms focus bad
      | TReject code \<Rightarrow> reject_body code
      | TAcceptProposal ms \<Rightarrow> accept_proposal_body w ms
      | TRejectProposal code \<Rightarrow> reject_proposal_body w code
      | TAddStreams ms \<Rightarrow> add_streams_body w ms
      | TCancelProposal \<Rightarrow> cancel_proposal_body w
      | TRing \<Rightarrow> ring_body
      | THold \<Rightarrow> hold w
      | TUnhold \<Rightarrow> unhold w
      | TStreamFailed m \<Rightarrow> stream_did_fail m
      | TEndKilled \<Rightarrow> end_goes_on
      | TCancelKilled \<Rightarrow> cancel_goes_on w)"

text \<open>\<open>handle_notification\<close> runs in a green thread of its own.\<close>

datatype event = Notified notice | StreamDidFail stream

definition occurs :: "event \<Rightarrow> unit sess" where
  "occurs e =
     schedule (case e of Notified n \<Rightarrow> THandle n | StreamDidFail m \<Rightarrow> TStreamFailed m)"

section \<open>Runs\<close>

text \<open>What the core, the streams and the network hold ready for the next procedure.\<close>

record surroundings =
  su_inv_state :: inv_state
  su_inv_sub :: inv_sub_state
  su_active_local :: sdp
  su_active_remote :: sdp
  su_proposed_remote :: "sdp option"
  su_script :: "wake_up list"
  su_calls :: "sess_exn option list"

definition provide :: "surroundings \<Rightarrow> session \<Rightarrow> session" where
  "provide x s = s\<lparr>se_inv_state := su_inv_state x, se_inv_sub := su_inv_sub x,
     se_active_local := su_active_local x, se_active_remote := su_active_remote x,
     se_proposed_remote := su_proposed_remote x, se_script := su_script x, se_calls := su_calls x,
     se_more := False, se_resent := []\<rparr>"

inductive session_step :: "world \<Rightarrow> session \<Rightarrow> session \<Rightarrow> bool" where
  run: "se_tasks s = t # ts \<Longrightarrow> session_step w s (snd (run_task w t (provide x (s\<lparr>se_tasks := ts\<rparr>))))"
| call: "session_step w s (snd (api_call a (provide x s)))"
| event: "session_step w s (snd (occurs e s))"

inductive session_reachable :: "world \<Rightarrow> session \<Rightarrow> bool" where
  new: "session_reachable w session_new"
| incoming: "session_reachable w (snd (init_incoming w focus replaces (provide x session_new)))"
| step: "session_reachable w s \<Longrightarrow> session_step w s t \<Longrightarrow> session_reachable w t"

section \<open>Procedures in order\<close>

text \<open>
  Procedures that may wait behind another: they report the end of the session at most when they
  find it unended, and change nothing of a session that is over.
\<close>

fun is_simple :: "task \<Rightarrow> bool" where
  "is_simple TEnd = True"
| "is_simple (THandle n) = True"
| "is_simple (TStreamFailed m) = True"
| "is_simple THold = True"
| "is_simple TUnhold = True"
| "is_simple TRing = True"
| "is_simple t = False"

definition simple_tasks :: "session \<Rightarrow> bool" where
  "simple_tasks s = list_all is_simple (se_tasks s)"

text \<open>A notification that finds a procedure on the session goes to its channel.\<close>

fun is_news :: "task \<Rightarrow> bool" where
  "is_news (THandle n) = True"
| "is_news (TStreamFailed m) = True"
| "is_news t = False"

definition pending :: "session \<Rightarrow> task list" where
  "pending s = (if se_greenlet s then dropWhile is_news (se_tasks s) else se_tasks s)"

text \<open>
  Only simple procedures wait behind another. The application keeps to it by calling the other
  operations when nothing is scheduled, and \<open>end\<close> once while a procedure is being killed.
\<close>

definition in_order :: "session \<Rightarrow> bool" where
  "in_order s = list_all is_simple (tl (pending s))"

inductive orderly_session :: "world \<Rightarrow> session \<Rightarrow> bool" where
  orderly_new: "orderly_session w session_new"
| orderly_incoming:
    "orderly_session w (snd (init_incoming w focus replaces (provide x session_new)))"
| orderly_step:
    "orderly_session w s \<Longrightarrow> in_order s \<Longrightarrow> session_step w s t \<Longrightarrow> orderly_session w t"

section \<open>Reports of the end\<close>

fun is_final :: "effect_log \<Rightarrow> bool" where
  "is_final (Post (DidEnd who)) = True"
| "is_final (Post (DidFail who code)) = True"
| "is_final e = False"

definition finals :: "session \<Rightarrow> nat" where
  "finals s = length (filter is_final (se_log s))"

text \<open>
  Not over, nothing but simple procedures scheduled; over; and over but for the end of a procedure
  that is stuck in its last part.
\<close>

definition alive :: "session \<Rightarrow> bool" where
  "alive s = (finals s = 0 \<and> se_state s \<noteq> StTerminated \<and> simple_tasks s)"

definition terminated :: "session \<Rightarrow> bool" where
  "terminated s = (finals s \<le> 1 \<and> se_state s = StTerminated \<and> simple_tasks s)"

definition ending :: "session \<Rightarrow> bool" where
  "ending s = (finals s \<le> 1 \<and> se_state s = StTerminating \<and> se_greenlet s \<and> simple_tasks s)"

end
