(* ===== verification/Session_Kept.thy ===== *)
theory Session_Kept
  imports Session_Runs
begin

text \<open>
  What the procedures of a session leave as it was. A condition on the log's reports, the state,
  the running procedure and the scheduled ones is kept by every step that does not touch those;
  conditions that also allow other states, or more procedures, are kept by more.
\<close>

section \<open>Case splits and the session's own combinators\<close>

lemma stable_notice [stable_intro]:
  "(\<And>d. stable I (f d)) \<Longrightarrow> (\<And>u. stable I (g u)) \<Longrightarrow> (\<And>i. stable I (h i)) \<Longrightarrow> (\<And>i. stable I (k i)) \<Longrightarrow>
   stable I (case_notice f g h k n)"
  by (cases n) simp_all

lemma stable_update [stable_intro]:
  "(\<And>l r. stable I (f l r)) \<Longrightarrow> stable I g \<Longrightarrow> stable I (case_sdp_update f g u)"
  by (cases u) simp_all

lemma stable_exn [stable_intro]:
  "(\<And>i. stable I (f1 i)) \<Longrightarrow> (\<And>i. stable I (f2 i)) \<Longrightarrow> (\<And>d. stable I (f3 d)) \<Longrightarrow> stable I f4 \<Longrightarrow>
   (\<And>x. stable I (f5 x)) \<Longrightarrow> stable I f6 \<Longrightarrow> stable I f7 \<Longrightarrow> stable I f8 \<Longrightarrow> (\<And>x. stable I (f9 x)) \<Longrightarrow>
   stable I f10 \<Longrightarrow> stable I f11 \<Longrightarrow>
   stable I (case_sess_exn f1 f2 f3 f4 f5 f6 f7 f8 f9 f10 f11 e)"
  by (cases e) simp_all

lemma stable_try_finally [stable_intro]:
  "stable I m \<Longrightarrow> stable I f \<Longrightarrow> stable I (try_finally m f)"
  by (rule stableI) (auto simp: try_finally_def dest: stableD stableD [OF stable_finally])

lemma stable_wait_loop [stable_intro]:
  "(\<And>st. stable I (turn st)) \<Longrightarrow> stable I (wait_loop goes turn st)"
  unfolding wait_loop_def by (intro stable_intro)

lemma triple_notice [triple_cases]:
  "(\<And>d. n = Changed d \<Longrightarrow> triple P (f d) Q E) \<Longrightarrow> (\<And>u. n = SDPUpdate u \<Longrightarrow> triple P (g u) Q E) \<Longrightarrow>
   (\<And>i. n = Initialized i \<Longrightarrow> triple P (h i) Q E) \<Longrightarrow> (\<And>i. n = StreamStarted i \<Longrightarrow> triple P (k i) Q E) \<Longrightarrow>
   triple P (case_notice f g h k n) Q E"
  by (cases n) simp_all

lemma triple_update [triple_cases]:
  "(\<And>l r. u = SDPSucceeded l r \<Longrightarrow> triple P (f l r) Q E) \<Longrightarrow> (u = SDPFailed \<Longrightarrow> triple P g Q E) \<Longrightarrow>
   triple P (case_sdp_update f g u) Q E"
  by (cases u) simp_all

lemma triple_disconnected:
  "(\<And>d. e = Disconnected d \<Longrightarrow> triple P (f d) Q E) \<Longrightarrow> ((\<And>d. e \<noteq> Disconnected d) \<Longrightarrow> triple P g Q E) \<Longrightarrow>
   triple P (case e of Disconnected d \<Rightarrow> f d | _ \<Rightarrow> g) Q E"
  by (cases e) simp_all

lemma triple_wait_loop:
  assumes "\<And>st. triple (\<lambda>s. I st s \<and> goes st s) (turn st) I E"
    and "\<And>st s. I st s \<and> \<not> goes st s \<Longrightarrow> Q st s" "\<And>st s. I st s \<and> goes st s \<Longrightarrow> E Stuck s"
  shows "triple (I st) (wait_loop goes turn st) Q E"
  unfolding wait_loop_def
  by (rule triple_bind [where R = "\<lambda>n. I st"])
    (simp add: triple_read, rule triple_loop [OF assms])

section \<open>Conditions on a session's state\<close>

definition same_view :: "session \<Rightarrow> session \<Rightarrow> bool" where
  "same_view s t =
     (se_log t = se_log s \<and> se_state t = se_state s \<and> se_greenlet t = se_greenlet s \<and>
      se_tasks t = se_tasks s)"

locale kept =
  fixes I :: "session \<Rightarrow> bool"
  assumes view: "same_view s t \<Longrightarrow> I s \<Longrightarrow> I t"
    and logs: "\<not> is_final e \<Longrightarrow> I s \<Longrightarrow> I (s\<lparr>se_log := se_log s @ [e]\<rparr>)"
begin

lemma stable_view: "(\<And>s. same_view s (f s)) \<Longrightarrow> stable I (modifyE f)"
  unfolding stable_def by (rule triple_modify) (rule view)

lemma stable_log: "\<not> is_final e \<Longrightarrow> stable I (log_effect e)"
  unfolding stable_def log_effect_def by (rule triple_modify) (rule logs)

lemma logs_calls: "I s \<Longrightarrow> I (s\<lparr>se_log := se_log s @ map (\<lambda>m. OnStream (f m)) ms\<rparr>)"
proof (induction ms arbitrary: s)
  case (Cons m ms)
  have "I (s\<lparr>se_log := se_log s @ [OnStream (f m)]\<rparr>)" by (rule logs [OF _ Cons.prems]) simp
  from Cons.IH [OF this] show ?case by simp
qed simp

lemma stable_post [stable_intro]: "\<not> is_final (Post n) \<Longrightarrow> stable I (post_note n)"
  unfolding post_note_def by (rule stable_log)

lemma stable_on_stream [stable_intro]: "stable I (on_stream c)"
  unfolding on_stream_def by (rule stable_log) simp

lemma stable_call [stable_intro]: "stable I (inv_call c)"
  unfolding inv_call_def
proof (rule stable_bind [OF stable_log], goal_cases)
  case (2 u)
  have "same_view s (s\<lparr>se_calls := cs\<rparr>)" for s cs by (simp add: same_view_def)
  then show ?case
    by (intro stableI) (auto split: list.split option.split intro: view)
qed simp

lemma stable_set_proposed [stable_intro]: "stable I (set_proposed ms)"
  unfolding set_proposed_def by (rule stable_view) (simp add: same_view_def)

lemma stable_observe [stable_intro]: "stable I (observe_stream m)"
  unfolding observe_stream_def by (rule stable_view) (simp add: same_view_def)

lemma stable_unobserve [stable_intro]: "stable I (unobserve_stream m)"
proof (rule stableI)
  fix s assume "I s"
  moreover have "same_view s (s\<lparr>se_observed := removeAll (sm_id m) (se_observed s)\<rparr>)"
    by (simp add: same_view_def)
  ultimately show "I (snd (unobserve_stream m s))" by (auto simp: unobserve_stream_def intro: view)
qed

lemma stable_unobserve_invitation [stable_intro]: "stable I unobserve_invitation"
proof (rule stableI)
  fix s assume "I s"
  moreover have "same_view s (s\<lparr>se_inv_observed := False\<rparr>)" by (simp add: same_view_def)
  ultimately show "I (snd (unobserve_invitation s))" by (auto simp: unobserve_invitation_def intro: view)
qed

lemma stable_attr [stable_intro]: "stable I (attr x)"
  unfolding attr_def by (intro stable_intro)

lemma stable_proposed [stable_intro]: "stable I proposed_streams"
  unfolding proposed_streams_def by (intro stable_intro)

lemma stable_current [stable_intro]: "stable I current_streams"
  unfolding current_streams_def by (intro stable_intro)

lemma stable_drop_stream [stable_intro]: "stable I (drop_stream m)"
  unfolding drop_stream_def by (intro stable_intro)

lemma stable_drop_streams [stable_intro]: "stable I (drop_streams ms)"
  unfolding drop_streams_def by (intro stable_intro)

lemma stable_drop_proposed [stable_intro]: "stable I drop_proposed"
  unfolding drop_proposed_def by (intro stable_intro)

lemma stable_update_stream [stable_intro]: "stable I (update_stream w r m i)"
  unfolding update_stream_def by (intro stable_intro stable_view) (simp add: same_view_def)

lemma stable_update_all [stable_intro]: "stable I (update_all w r)"
  unfolding update_all_def by (intro stable_intro)

lemma stable_put_media [stable_intro]: "stable I (put_media i m d)"
  unfolding put_media_def by (intro stable_intro)

lemma stable_nth_media [stable_intro]: "stable I (nth_media d i)"
  unfolding nth_media_def by (intro stable_intro)

lemma stable_put_streams [stable_intro]: "stable I (put_streams at w r ms d)"
  by (induction ms arbitrary: d) (auto intro!: stable_intro)

end

section \<open>Waiting\<close>

context kept begin

lemma kept_flag: "I s \<Longrightarrow> I (s\<lparr>se_hold_in_progress := b\<rparr>)"
  by (rule view) (simp_all add: same_view_def)

lemma stable_hold_flags [stable_intro]: "stable I hold_flags"
proof (rule stableI)
  fix s assume "I s"
  then have flag: "I (s\<lparr>se_hold_in_progress := True\<rparr>)" by (rule kept_flag)
  have logged: "I (snd (hold_flags s))" if "\<not> (se_on_hold s \<or> se_hold_in_progress s)" "all_streams s \<noteq> []"
    using logs_calls [OF flag, of "\<lambda>m. HoldStream (sm_id m)" "all_streams s"] that
    unfolding hold_flags_def Let_def by (auto simp: all_streams_def)
  show "I (snd (hold_flags s))"
  proof (cases "\<not> (se_on_hold s \<or> se_hold_in_progress s) \<and> all_streams s \<noteq> []")
    case True
    then show ?thesis using logged by blast
  next
    case False
    then show ?thesis using flag \<open>I s\<close> unfolding hold_flags_def Let_def by (auto simp: all_streams_def)
  qed
qed

lemma stable_unhold_flags [stable_intro]: "stable I unhold_flags"
proof (rule stableI)
  fix s assume "I s"
  then have flag: "I (s\<lparr>se_hold_in_progress := False\<rparr>)" by (rule kept_flag)
  have logged: "I (snd (unhold_flags s))" if "\<not> (\<not> se_on_hold s \<and> \<not> se_hold_in_progress s)" "all_streams s \<noteq> []"
    using logs_calls [OF flag, of "\<lambda>m. UnholdStream (sm_id m)" "all_streams s"] that
    unfolding unhold_flags_def Let_def by (auto simp: all_streams_def)
  show "I (snd (unhold_flags s))"
  proof (cases "\<not> (\<not> se_on_hold s \<and> \<not> se_hold_in_progress s) \<and> all_streams s \<noteq> []")
    case True
    then show ?thesis using logged by blast
  next
    case False
    then show ?thesis using flag \<open>I s\<close> unfolding unhold_flags_def Let_def by (auto simp: all_streams_def)
  qed
qed

lemma kept_arrives: "I s \<Longrightarrow> I (arrives st sub queued c s)"
  by (rule view) (auto simp: same_view_def arrives_def Let_def split: wake_up_content.split notice.split sdp_update.split)

lemma kept_next_item: "I s \<Longrightarrow> I (snd (next_item its s))"
proof (induction its s rule: next_item.induct)
  case (1 s)
  have "same_view s (s\<lparr>se_script := []\<rparr>)" by (simp add: same_view_def)
  with 1 show ?case by (auto intro: view)
next
  case (2 its s)
  then show ?case using stableD [OF stable_hold_flags] by simp
next
  case (3 its s)
  then show ?case using stableD [OF stable_unhold_flags] by simp
next
  case (4 st sub queued c its s)
  have "same_view s (s\<lparr>se_script := its\<rparr>)" by (simp add: same_view_def)
  then have "I (s\<lparr>se_script := its\<rparr>)" using 4 by (rule view)
  then show ?case by (cases c) (simp_all add: Let_def kept_arrives)
qed

lemma stable_wait [stable_intro]: "stable I (wait timed)"
proof (rule stableI)
  fix s assume s: "I s"
  have "same_view s (s\<lparr>se_resent := tl (se_resent s)\<rparr>)" by (simp add: same_view_def)
  then have "I (s\<lparr>se_resent := tl (se_resent s)\<rparr>)" using s by (rule view)
  then show "I (snd (wait timed s))"
    using kept_next_item [OF s, of "se_script s"]
    by (auto simp: wait_def split: prod.split sum.split)
qed

lemma stable_wait_initialized [stable_intro]: "stable I (wait_initialized k)"
  unfolding wait_initialized_def by (intro stable_intro)

lemma stable_wait_started [stable_intro]: "stable I (wait_started k)"
  unfolding wait_started_def by (intro stable_intro)

lemma stable_announce [stable_intro]: "stable I (announce_remote_hold w held)"
  unfolding announce_remote_hold_def by (intro stable_intro) simp

lemma stable_ring [stable_intro]: "stable I ring_body"
  unfolding ring_body_def by (intro stable_intro)

lemma stable_end_all [stable_intro]: "stable I (end_all ms)"
  unfolding end_all_def by (intro stable_intro)

lemma stable_end_transaction [stable_intro]: "stable I (end_transaction cancelling d)"
  unfolding end_transaction_def by (intro stable_intro) simp_all

lemma stable_end_turn [stable_intro]: "stable I (end_turn cancelling stop)"
  unfolding end_turn_def by (intro stable_intro)

lemma stable_end_main [stable_intro]: "stable I (end_main cancelling)"
  unfolding end_main_def by (intro stable_intro)

lemma stable_deactivate [stable_intro]: "stable I (deactivate_observed ms)"
  by (induction ms) (auto intro!: stable_intro)

end

section \<open>Conditions that allow the state to change\<close>

locale kept_open = kept +
  assumes state: "st \<noteq> StTerminated \<Longrightarrow> I s \<Longrightarrow> I (s\<lparr>se_state := st\<rparr>)"
    and running: "I s \<Longrightarrow> I (s\<lparr>se_greenlet := b\<rparr>)"
begin

lemma stable_to_state [stable_intro]: "st \<noteq> StTerminated \<Longrightarrow> stable I (to_state st)"
  unfolding stable_def to_state_def by (rule triple_modify) (rule state)

lemma stable_greenlet [stable_intro]: "stable I (set_greenlet b)"
  unfolding stable_def set_greenlet_def by (rule triple_modify) (rule running)

lemma stable_started: "(\<And>s. same_view (s\<lparr>se_greenlet := se_greenlet (f s)\<rparr>) (f s)) \<Longrightarrow> stable I (modifyE f)"
  unfolding stable_def by (rule triple_modify) (rule view, assumption, rule running)

lemma stable_drop_observed [stable_intro]: "stable I (drop_if_observed m)"
  unfolding drop_if_observed_def by (intro stable_intro)

lemma stable_fail_disconnected [stable_intro]: "stable I (fail_disconnected who prev code d)"
  unfolding fail_disconnected_def by (intro stable_intro) simp_all

lemma stable_fail_invitation [stable_intro]: "stable I (fail_invitation who prev code r)"
  unfolding fail_invitation_def by (intro stable_intro) simp_all

lemma stable_fail_proposal [stable_intro]: "stable I (fail_proposal who)"
  unfolding fail_proposal_def by (intro stable_intro) simp_all

lemma stable_remove_proposed [stable_intro]: "stable I (remove_proposed m)"
  unfolding remove_proposed_def by (intro stable_intro stable_view) (simp add: same_view_def)

lemma stable_start_streams [stable_intro]: "stable I (start_streams strict l r)"
  unfolding start_streams_def start_media_def by (intro stable_intro)

lemma stable_connect_progress [stable_intro]: "stable I (connect_progress d ng)"
  unfolding connect_progress_def by (intro stable_intro stable_view) (simp_all add: same_view_def)

lemma stable_connect_media [stable_intro]: "stable I (connect_media_turn st)"
  unfolding connect_media_turn_def by (intro stable_intro)

lemma stable_connect_start [stable_intro]: "stable I (connect_start w l r ng)"
  unfolding connect_start_def by (intro stable_intro stable_view) (simp_all add: same_view_def)

lemma stable_accept_init [stable_intro]: "stable I (accept_init ms)"
  unfolding accept_init_def by (intro stable_intro)

lemma stable_accept_progress [stable_intro]: "stable I (accept_progress d us)"
  unfolding accept_progress_def by (intro stable_intro stable_view) (simp_all add: same_view_def)

lemma stable_accept_media [stable_intro]: "stable I (accept_media_turn st)"
  unfolding accept_media_turn_def by (intro stable_intro)

lemma stable_accept_start [stable_intro]: "stable I (accept_start l r us)"
  unfolding accept_start_def by (intro stable_intro)

lemma stable_reject_main [stable_intro]: "stable I (reject_main code)"
  unfolding reject_main_def by (intro stable_intro) simp_all

lemma stable_accept_proposal_main [stable_intro]: "stable I (accept_proposal_main w ms)"
  unfolding accept_proposal_main_def accept_proposal_turn_def accept_proposal_media_turn_def
  by (intro stable_intro) simp_all

lemma stable_proposal_refused [stable_intro]: "stable I (proposal_refused code)"
  unfolding proposal_refused_def by (intro stable_intro) simp_all

lemma stable_add_turn [stable_intro]: "stable I (add_turn w pw)"
  unfolding add_turn_def by (intro stable_intro) simp_all

lemma stable_start_accepted [stable_intro]: "stable I (start_accepted r ms)"
  by (induction ms) (auto intro!: stable_intro)

lemma stable_remove_stream_media [stable_intro]: "stable I (remove_stream_media m d)"
  unfolding remove_stream_media_def by (intro stable_intro stable_view) (simp_all add: same_view_def)

lemma stable_remove_all_media [stable_intro]: "stable I (remove_all_media ms d)"
  by (induction ms arbitrary: d) (auto intro!: stable_intro)

lemma stable_remove_turn [stable_intro]: "stable I (remove_turn w st)"
  unfolding remove_turn_def by (intro stable_intro) simp_all

lemma stable_refuse [stable_intro]: "stable I refuse_proposal"
  unfolding refuse_proposal_def by (intro stable_intro) simp_all

lemma stable_remote_adds [stable_intro]: "stable I (remote_adds w p js)"
  unfolding remote_adds_def by (intro stable_intro) simp_all

lemma stable_wait_negotiated [stable_intro]: "stable I (wait_negotiated w)"
  unfolding wait_negotiated_def negotiated_turn_def leave_for_later_def
  by (intro stable_intro stable_view) (simp_all add: same_view_def)

lemma stable_leaves [stable_intro]: "stable I (leaves_session m)"
  unfolding leaves_session_def by (intro stable_intro stable_view) (simp_all add: same_view_def)

lemma stable_disable_removed [stable_intro]: "stable I (disable_removed ms d)"
  by (induction ms arbitrary: d) (auto intro!: stable_intro)

lemma stable_try_answer [stable_intro]: "stable I (try_answer d)"
  unfolding try_answer_def by (intro stable_intro)

lemma stable_answer_sent [stable_intro]: "stable I (answer_sent w removed gone held)"
  unfolding answer_sent_def by (intro stable_intro) simp_all

lemma stable_relocate [stable_intro]: "stable I (relocate address c)"
  unfolding relocate_def by (intro stable_intro)

lemma stable_offer_again [stable_intro]: "stable I (offer_again w address ms d)"
proof (induction ms arbitrary: d)
  case (Cons m ms)
  then show ?case by (cases m) (auto intro!: stable_intro)
qed (auto intro: stable_intro)

lemma stable_proposal_request_main [stable_intro]: "stable I (proposal_request_main w)"
  unfolding proposal_request_main_def by (intro stable_intro) simp_all

lemma stable_accept_transfer [stable_intro]: "stable I (accept_transfer t)"
  unfolding accept_transfer_def check_state_def check_transfer_def by (intro stable_intro) simp_all

lemma stable_reject_transfer [stable_intro]: "stable I (reject_transfer t code)"
  unfolding reject_transfer_def check_state_def check_transfer_def by (intro stable_intro) simp_all

lemma stable_transfer [stable_intro]: "stable I (transfer_session t)"
  unfolding transfer_session_def check_state_def check_transfer_def by (intro stable_intro) simp_all

end

section \<open>Conditions that allow procedures to be scheduled\<close>

locale kept_busy = kept_open +
  assumes scheduled: "is_simple t \<Longrightarrow> I s \<Longrightarrow> I (s\<lparr>se_tasks := se_tasks s @ [t]\<rparr>)"
begin

lemma stable_schedule [stable_intro]: "is_simple t \<Longrightarrow> stable I (schedule t)"
  unfolding stable_def schedule_def by (rule triple_modify) (rule scheduled)

lemma stable_handle_later [stable_intro]: "stable I (handle_later d)"
  unfolding handle_later_def by (intro stable_intro) simp_all

lemma stable_cancel_hold [stable_intro]: "stable I cancel_hold"
  unfolding cancel_hold_def by (intro stable_intro) simp_all

lemma stable_hold_reinvite [stable_intro]: "stable I (hold_reinvite w)"
  unfolding hold_reinvite_def hold_turn_def by (intro stable_intro) simp_all

lemma stable_on_hold: "stable I (modifyE (\<lambda>s. s\<lparr>se_on_hold := b\<rparr>))"
  by (rule stable_view) (simp add: same_view_def)

lemma stable_in_progress: "stable I (modifyE (\<lambda>s. s\<lparr>se_hold_in_progress := b\<rparr>))"
  by (rule stable_view) (simp add: same_view_def)

lemma stable_send_holds [stable_intro]: "stable I (send_holds n w b)"
proof (induction n arbitrary: b)
  case (Suc n)
  show ?case
    unfolding send_holds.simps by (intro stable_intro stable_on_hold stable_in_progress Suc) simp_all
qed (simp add: stable_raise)

lemma stable_hold_if_asked [stable_intro]: "stable I (hold_if_asked w)"
  unfolding hold_if_asked_def send_hold_def by (intro stable_intro)

lemma stable_hold [stable_intro]: "stable I (hold w)"
  unfolding hold_def send_hold_def by (intro stable_intro)

lemma stable_unhold [stable_intro]: "stable I (unhold w)"
  unfolding unhold_def send_hold_def by (intro stable_intro)

lemma stable_reinvite_after_ice [stable_intro]: "stable I (reinvite_after_ice w)"
  unfolding reinvite_after_ice_def ice_turn_def by (intro stable_intro) simp_all

lemma stable_moves_streams:
  "stable I (modifyE (\<lambda>s. s\<lparr>se_streams := f s, se_proposed := g s\<rparr>))"
  by (rule stable_view) (simp add: same_view_def)

lemma stable_session_starts [stable_intro]: "stable I (session_starts w ice us)"
  unfolding session_starts_def by (intro stable_intro stable_moves_streams) simp_all

lemma stable_proposal_failed [stable_intro]: "stable I (proposal_failed who e)"
  unfolding proposal_failed_def by (intro stable_intro) simp_all

lemma stable_proposal_done [stable_intro]: "stable I (proposal_done w us)"
  unfolding proposal_done_def by (intro stable_intro) simp_all

lemma stable_accept_proposal [stable_intro]: "stable I (accept_proposal_body w ms)"
  unfolding accept_proposal_body_def by (intro stable_intro stable_moves_streams) simp_all

lemma stable_reject_proposal [stable_intro]: "stable I (reject_proposal_body w code)"
  unfolding reject_proposal_body_def reject_proposal_main_def by (intro stable_intro) simp_all

lemma stable_streams_added [stable_intro]: "stable I (streams_added w ms)"
  unfolding streams_added_def by (intro stable_intro stable_moves_streams) simp_all

lemma stable_remove_streams [stable_intro]: "stable I (remove_streams_body w ms)"
  unfolding remove_streams_body_def by (intro stable_intro) simp_all

lemma stable_cancel_goes_on [stable_intro]: "stable I (cancel_goes_on w)"
  unfolding cancel_goes_on_def cancel_turn_def by (intro stable_intro) simp_all

lemma stable_remote_proposal [stable_intro]: "stable I (remote_proposal w)"
  unfolding remote_proposal_def remote_proposal_main_def remote_updates_def answer_not_sent_def
    disconnected_later_def
  by (intro stable_intro) simp_all

lemma stable_proposal_request [stable_intro]: "stable I (proposal_request w)"
  unfolding proposal_request_def disconnected_later_def by (intro stable_intro) simp_all

lemma stable_proposal_cancelled [stable_intro]: "stable I (proposal_cancelled w d)"
  unfolding proposal_cancelled_def by (intro stable_intro) simp_all

end

section \<open>Conditions that do not look at what is scheduled\<close>

locale kept_any = kept_busy +
  assumes any: "I s \<Longrightarrow> I (s\<lparr>se_tasks := se_tasks s @ [t]\<rparr>)"
begin

lemma stable_schedule_any: "stable I (schedule t)"
  unfolding stable_def schedule_def by (rule triple_modify) (rule any)

lemma stable_transition: "b \<noteq> StTerminated \<Longrightarrow> stable I (transition a b t)"
  unfolding transition_def by (intro stable_intro stable_schedule_any)

lemma stable_cancel_proposal: "stable I (cancel_proposal_body w)"
  unfolding cancel_proposal_body_def by (intro stable_intro stable_schedule_any)

lemma stable_stream_did_fail: "stable I (stream_did_fail m)"
  unfolding stream_did_fail_def by (intro stable_intro stable_schedule_any stable_transition) simp_all

lemma stable_occurs: "stable I (occurs e)"
  unfolding occurs_def by (rule stable_schedule_any)

lemma stable_add_turns [stable_intro]: "stable I (add_init_turn st)" "stable I (add_turn w pw)"
  unfolding add_init_turn_def add_turn_def by (intro stable_intro; simp)+

lemma stable_add_negotiate [stable_intro]: "stable I (add_negotiate w)"
  unfolding add_negotiate_def
  by (intro stable_intro stable_transition) (auto split: bool.split intro!: stable_intro)

lemma stable_add_streams: "stable I (add_streams_body w ms)"
  unfolding add_streams_body_def add_main_def Let_def by (intro stable_intro) simp_all

lemma stable_api_call: "stable I (api_call a)"
  by (cases a)
    (auto simp: api_call_def check_state_def intro!: stable_transition stable_schedule_any stable_intro)

end

end
