(* ===== verification/Session_Ends.thy ===== *)
theory Session_Ends
  imports Session_Kept
begin

text \<open>
  A session reports its end at most once, by \<open>SIPSessionDidEnd\<close> or \<open>SIPSessionDidFail\<close>,
  whatever is called, notified and answered, and whatever exception a procedure dies of, as long
  as its procedures run in order; twice, when \<open>end\<close> is called twice while a procedure runs.
\<close>

section \<open>The conditions a session goes through\<close>

text \<open>Terminated without having reported it yet; on the way there, in \<open>end\<close>.\<close>

definition unreported :: "session \<Rightarrow> bool" where
  "unreported s = (terminated s \<and> finals s = 0)"

definition closing :: "session \<Rightarrow> bool" where
  "closing s = (alive s \<and> se_state s = StTerminating \<and> se_greenlet s)"

definition sound :: "session \<Rightarrow> bool" where
  "sound s = (alive s \<or> terminated s)"

lemmas session_conditions = alive_def terminated_def ending_def unreported_def closing_def

lemma final_counts [simp]:
  "finals (s\<lparr>se_log := se_log s @ [e]\<rparr>) = finals s + (if is_final e then 1 else 0)"
  by (simp add: finals_def)

lemma view_facts:
  "same_view s t \<Longrightarrow>
   finals t = finals s \<and> simple_tasks t = simple_tasks s \<and> se_state t = se_state s \<and>
   se_greenlet t = se_greenlet s \<and> se_tasks t = se_tasks s"
  by (simp add: same_view_def finals_def simple_tasks_def)

lemma counts_simps [simp]:
  "finals (s\<lparr>se_state := st\<rparr>) = finals s" "finals (s\<lparr>se_greenlet := b\<rparr>) = finals s"
  "finals (s\<lparr>se_tasks := ts\<rparr>) = finals s"
  "simple_tasks (s\<lparr>se_state := st\<rparr>) = simple_tasks s" "simple_tasks (s\<lparr>se_greenlet := b\<rparr>) = simple_tasks s"
  "simple_tasks (s\<lparr>se_log := l\<rparr>) = simple_tasks s"
  by (simp_all add: finals_def simple_tasks_def)

lemma simple_appended [simp]: "simple_tasks (s\<lparr>se_tasks := ts @ [t]\<rparr>) = (simple_tasks (s\<lparr>se_tasks := ts\<rparr>) \<and> is_simple t)"
  by (simp add: simple_tasks_def)

lemma simple_same [simp]: "simple_tasks (s\<lparr>se_tasks := se_tasks s\<rparr>) = simple_tasks s"
  by (simp add: simple_tasks_def)

interpretation alive: kept_busy alive
  by unfold_locales (auto simp: alive_def dest!: view_facts)

interpretation terminated: kept terminated
  by unfold_locales (auto simp: terminated_def dest!: view_facts)

interpretation unreported: kept unreported
  by unfold_locales (auto simp: unreported_def terminated_def dest!: view_facts)

interpretation closing: kept closing
  by unfold_locales (auto simp: closing_def alive_def dest!: view_facts)

interpretation ending: kept ending
  by unfold_locales (auto simp: ending_def dest!: view_facts)

text \<open>Not over, whatever is scheduled.\<close>

definition settled :: "session \<Rightarrow> bool" where
  "settled s = (finals s = 0 \<and> se_state s \<noteq> StTerminated)"

interpretation settled: kept_any settled
  by unfold_locales (auto simp: settled_def finals_def dest!: view_facts)

section \<open>The last steps\<close>

lemma triple_greenlet: "triple terminated (set_greenlet b) (\<lambda>u. terminated) E"
  unfolding set_greenlet_def by (rule triple_modify) (simp add: terminated_def)

lemma unreported_greenlet: "triple unreported (set_greenlet b) (\<lambda>u. unreported) E"
  unfolding set_greenlet_def by (rule triple_modify) (simp add: unreported_def terminated_def)

lemma unreported_post: "\<not> is_final (Post n) \<Longrightarrow> triple unreported (post_note n) (\<lambda>u. unreported) E"
  unfolding post_note_def log_effect_def by (rule triple_modify) (simp add: unreported_def terminated_def)

lemma terminated_sound: "terminated s \<Longrightarrow> sound s"
  and unreported_sound: "unreported s \<Longrightarrow> sound s"
  and alive_sound: "alive s \<Longrightarrow> sound s"
  and unreported_terminated: "unreported s \<Longrightarrow> terminated s"
  by (simp_all add: sound_def unreported_def)

lemma triple_terminate:
  "(\<And>u. triple unreported (f u) Q E) \<Longrightarrow> triple alive (bindE (to_state StTerminated) f) Q E"
  unfolding to_state_def
  by (rule triple_bind [OF triple_modify]) (auto simp: unreported_def alive_def terminated_def)

lemma triple_report:
  "is_final (Post n) \<Longrightarrow> triple unreported (post_note n) (\<lambda>u. terminated) E"
  unfolding post_note_def log_effect_def
  by (rule triple_modify) (simp add: unreported_def terminated_def)

lemma fail_terminates: "triple alive (fail who code r) (\<lambda>u. terminated) (\<lambda>e. alive)"
  unfolding fail_def
  by (rule triple_after_stable, (intro stable_intro; simp), assumption)+
    (rule triple_terminate, rule triple_bind, rule triple_report, simp, rule triple_greenlet)

section \<open>connect\<close>

definition negotiating :: "negotiation \<Rightarrow> session \<Rightarrow> bool" where
  "negotiating ng s = (if ng_failed ng then terminated s \<and> ng_sdp ng = None else alive s)"

lemma connect_progress_ends:
  assumes "\<not> ng_failed ng"
  shows "triple alive (connect_progress d ng) negotiating (\<lambda>e. alive)"
proof -
  have ret: "triple alive (retE ng') negotiating E" if "\<not> ng_failed ng'" for ng' and E :: "sess_exn \<Rightarrow> session \<Rightarrow> bool"
    using that by (intro triple_ret) (simp add: negotiating_def)
  show ?thesis
    unfolding connect_progress_def
    by (intro triple_if triple_after_stable stable_intro alive.stable_view ret assms triple_raise)
      (auto simp: same_view_def assms)
qed

lemma failing_ends: "triple alive (bindE drop_proposed (\<lambda>u. fail who code r)) (\<lambda>u. terminated) (\<lambda>e. alive)"
  by (rule triple_after_stable) (intro stable_intro, assumption, rule fail_terminates)

lemma connect_turn_ends:
  assumes "\<not> ng_failed ng" "ng_sdp ng = None"
  shows "triple alive (connect_turn ng) negotiating (\<lambda>e. alive)"
proof -
  have ret: "triple alive (retE ng') negotiating E" if "\<not> ng_failed ng'" for ng' and E :: "sess_exn \<Rightarrow> session \<Rightarrow> bool"
    using that by (intro triple_ret) (simp add: negotiating_def)
  have failed: "triple alive (bindE (fail who code r) (\<lambda>u. retE (ng\<lparr>ng_failed := True\<rparr>))) negotiating (\<lambda>e. alive)" for who code r
    using assms by (intro triple_bind [OF fail_terminates] triple_ret) (simp add: negotiating_def)
  show ?thesis
    unfolding connect_turn_def
    by (intro triple_cases triple_after_stable stable_intro failed connect_progress_ends ret)
      (auto simp: assms)
qed

definition goes_on :: "'a option \<Rightarrow> session \<Rightarrow> bool" where
  "goes_on r s = (case r of None \<Rightarrow> sound s | Some x \<Rightarrow> alive s)"

lemma goes_on_simps [simp]: "goes_on None = sound" "goes_on (Some x) = alive"
  by (auto simp: goes_on_def)

lemma ret_none: "triple alive (retE None) goes_on E" "triple terminated (retE None) goes_on E"
  and ret_some: "triple alive (retE (Some x)) goes_on E"
  by (auto intro!: triple_ret simp: sound_def)

lemma triple_pre: "triple P m Q E \<Longrightarrow> (\<And>s. P' s \<Longrightarrow> P s) \<Longrightarrow> triple P' m Q E"
  by (rule triple_weaken)

lemma triple_bool [triple_cases]:
  "(b \<Longrightarrow> triple P m Q E) \<Longrightarrow> (\<not> b \<Longrightarrow> triple P n Q E) \<Longrightarrow> triple P (case_bool m n b) Q E"
  by (cases b) simp_all

lemma negotiation_loop:
  assumes "\<And>ng. \<not> ng_failed ng \<Longrightarrow> ng_sdp ng = None \<Longrightarrow> triple alive (turn ng) negotiating (\<lambda>e. alive)"
  shows "triple alive (wait_loop (\<lambda>ng s. ng_sdp ng = None \<and> \<not> ng_failed ng) turn negotiation_init)
     negotiating (\<lambda>e. alive)"
proof (rule triple_pre [OF triple_wait_loop [where I = negotiating]])
  fix ng
  have turn: "triple alive (turn ng) negotiating (\<lambda>e. alive)" if "\<not> ng_failed ng" "ng_sdp ng = None"
    by (rule assms) (use that in simp_all)
  show "triple (\<lambda>s. negotiating ng s \<and> ng_sdp ng = None \<and> \<not> ng_failed ng) (turn ng) negotiating (\<lambda>e. alive)"
  proof (cases "ng_sdp ng = None \<and> \<not> ng_failed ng")
    case True
    then show ?thesis by (intro triple_weaken [OF turn]) (auto simp: negotiating_def)
  qed (auto simp: triple_def)
qed (auto simp: negotiating_def negotiation_init_def)

lemma failing_none: "triple alive (bindE drop_proposed (\<lambda>u. bindE (fail who code r) (\<lambda>u. retE None))) goes_on (\<lambda>e. alive)"
  by (rule triple_after_stable) (intro stable_intro, assumption, rule triple_bind [OF fail_terminates], rule ret_none)

lemma connect_main_ends: "triple alive (connect_main w route) goes_on (\<lambda>e. alive)"
proof -
  define Q where "Q = (\<lambda>r s. case r of None \<Rightarrow> alive s | Some ng \<Rightarrow> negotiating ng s)"
  have loop: "triple alive (catchE
        (bindE (wait_loop (\<lambda>ng s. ng_sdp ng = None \<and> \<not> ng_failed ng) connect_turn negotiation_init) (\<lambda>ng. retE (Some ng)))
        (\<lambda>e. if e = TimedOut then bindE (schedule TEnd) (\<lambda>u. retE None) else raiseE e)) Q (\<lambda>e. alive)"
    unfolding Q_def
    by (rule triple_catch [OF triple_bind [OF negotiation_loop [OF connect_turn_ends]]])
      (auto intro!: triple_ret triple_if triple_raise triple_after_stable stable_intro)
  have rest: "triple (Q r) (case r of None \<Rightarrow> retE None
      | Some ng \<Rightarrow> (case ng_sdp ng of None \<Rightarrow> retE None | Some (l, r) \<Rightarrow> connect_start w l r ng)) goes_on (\<lambda>e. alive)" for r
    unfolding Q_def
    by (auto intro!: triple_ret triple_of_stable [OF alive.stable_connect_start] split: option.split
        simp: negotiating_def sound_def goes_on_def)
  show ?thesis
    unfolding connect_main_def
    by (intro triple_cases failing_none triple_after_stable [OF alive.stable_proposed]
        triple_after_stable [OF alive.stable_wait_initialized] triple_after_stable [OF alive.stable_set_proposed]
        triple_after_stable [OF alive.stable_call] triple_bind [OF loop] rest)
qed

text \<open>The clauses for a disconnected invitation: whatever they die of, the session is over.\<close>

lemma stable_unreported:
  "stable unreported m \<Longrightarrow> (\<And>a. triple unreported (f a) Q (\<lambda>e. sound)) \<Longrightarrow> triple unreported (bindE m f) Q (\<lambda>e. sound)"
  by (rule triple_after_stable) (simp_all add: unreported_sound)

lemma stable_alive:
  "stable alive m \<Longrightarrow> (\<And>a. triple alive (f a) Q (\<lambda>e. sound)) \<Longrightarrow> triple alive (bindE m f) Q (\<lambda>e. sound)"
  by (rule triple_after_stable) (simp_all add: alive_sound)

lemma stable_ended: "triple unreported (session_ended who) (\<lambda>u. terminated) E"
  unfolding session_ended_def
proof (rule triple_bind)
  show "triple unreported (modifyE (\<lambda>s. s\<lparr>se_ended := True\<rparr>)) (\<lambda>u. unreported) E"
    by (rule triple_modify) (erule unreported.view [rotated], simp add: same_view_def)
qed (rule triple_report, simp)

lemma ended_inline:
  "triple unreported (bindE (modifyE (\<lambda>s. s\<lparr>se_ended := True\<rparr>)) (\<lambda>u. post_note (DidEnd who))) (\<lambda>u. terminated) E"
  using stable_ended unfolding session_ended_def .

lemma connect_disconnected_ends: "triple alive (connect_disconnected d) (\<lambda>u. terminated) (\<lambda>e. sound)"
proof -
  have post: "stable unreported (post_note n)" if "\<not> is_final (Post n)" for n
    using that by (intro stable_intro)
  have report: "triple unreported (bindE (if a then bindE (post_note (WillEnd who)) (\<lambda>u. bindE m f)
      else bindE k (\<lambda>c. post_note (DidFail who (Some c)))) (\<lambda>u. set_greenlet False)) (\<lambda>u. terminated) (\<lambda>e. sound)"
    if "stable unreported m" "\<And>u. triple unreported (f u) (\<lambda>u. terminated) (\<lambda>e. sound)" "stable unreported k" for a who m f k
    by (rule triple_bind [OF triple_if triple_greenlet], intro stable_unreported post that)
      (simp, intro stable_unreported that triple_report, simp)
  show ?thesis
    unfolding connect_disconnected_def
    by (intro stable_alive stable_intro triple_terminate report ended_inline) simp_all
qed

lemma session_starts_ends: "triple alive (session_starts w ice us) (\<lambda>u. sound) (\<lambda>e. sound)"
  by (rule triple_of_stable [OF alive.stable_session_starts]) (simp_all add: alive_sound)

text \<open>The end of \<open>connect\<close> and \<open>accept\<close>: their \<open>try\<close> statement gives what is left to handle.\<close>

lemma starts_after:
  assumes "triple P m goes_on (\<lambda>e. sound)"
  shows "triple P (bindE m (\<lambda>r. case r of None \<Rightarrow> retE () | Some us \<Rightarrow> session_starts w ice us)) (\<lambda>u. sound) (\<lambda>e. sound)"
  by (rule triple_bind [OF assms]) (auto intro!: triple_ret session_starts_ends split: option.split)

lemma fail_sound: "triple alive (fail who code r) (\<lambda>u. terminated) (\<lambda>e. sound)"
  by (rule triple_weaken [OF fail_terminates]) (simp_all add: alive_sound)

lemma fail_none: "triple alive (bindE (fail who code r) (\<lambda>u. retE None)) goes_on (\<lambda>e. sound)"
  by (rule triple_bind [OF fail_sound ret_none(2)])

lemma terminated_none: "triple P m (\<lambda>u. terminated) (\<lambda>e. sound) \<Longrightarrow> triple P (bindE m (\<lambda>u. retE None)) goes_on (\<lambda>e. sound)"
  by (rule triple_bind) (auto intro: ret_none)

lemma raise_alive: "triple alive (raiseE e) Q (\<lambda>e. sound)"
  by (rule triple_raise) (rule alive_sound)

lemma connect_body_ends: "triple alive (connect_body w ms routes focus bad) (\<lambda>u. sound) (\<lambda>e. sound)"
  unfolding connect_body_def
  by (intro starts_after triple_catch [OF connect_main_ends] triple_disconnected triple_if triple_cases
      terminated_none [OF connect_disconnected_ends] fail_none raise_alive stable_alive
      stable_intro alive.stable_started)
    (simp_all add: same_view_def)

section \<open>accept, reject\<close>

lemma accept_turn_ends:
  assumes "\<not> ng_failed ng" "ng_sdp ng = None"
  shows "triple alive (accept_turn ng) negotiating (\<lambda>e. alive)"
proof -
  have ret: "triple alive (retE ng') negotiating E" if "\<not> ng_failed ng'" for ng' and E :: "sess_exn \<Rightarrow> session \<Rightarrow> bool"
    using that by (intro triple_ret) (simp add: negotiating_def)
  have failed: "triple alive (bindE (fail who code r) (\<lambda>u. retE (ng\<lparr>ng_failed := True\<rparr>))) negotiating (\<lambda>e. alive)" for who code r
    using assms by (intro triple_bind [OF fail_terminates] triple_ret) (simp add: negotiating_def)
  show ?thesis
    unfolding accept_turn_def
    by (intro triple_cases failed triple_after_stable stable_intro alive.stable_view ret)
      (auto simp: assms same_view_def)
qed

lemma accept_main_ends: "triple alive (accept_main w) goes_on (\<lambda>e. alive)"
proof -
  have rest: "triple (negotiating ng) (case ng_sdp ng of None \<Rightarrow> retE None | Some (l, r) \<Rightarrow> accept_start l r us) goes_on (\<lambda>e. alive)" for ng us
    by (auto intro!: triple_ret triple_of_stable [OF alive.stable_accept_start] split: option.split
        simp: negotiating_def sound_def goes_on_def split: if_splits)
  show ?thesis
    unfolding accept_main_def
    by (intro triple_cases failing_none triple_bind [OF negotiation_loop [OF accept_turn_ends]] rest
        triple_after_stable stable_intro triple_raise) simp_all
qed

lemma accept_media_failed_ends: "triple alive accept_media_failed (\<lambda>u. terminated) (\<lambda>e. sound)"
  unfolding accept_media_failed_def
  by (intro stable_alive triple_if fail_sound stable_intro) simp_all

lemma accept_disconnected_ends: "triple alive (accept_disconnected d) (\<lambda>u. terminated) (\<lambda>e. sound)"
  unfolding accept_disconnected_def
  by (intro stable_alive stable_intro triple_terminate)
    (rule triple_bind [OF _ triple_greenlet], intro triple_if stable_unreported triple_report ended_inline stable_intro; simp)

lemma cancelled_ends: "triple alive cancelled_meanwhile (\<lambda>u. terminated) (\<lambda>e. sound)"
  unfolding cancelled_meanwhile_def
  by (intro stable_alive stable_intro triple_terminate stable_unreported triple_report) simp_all

lemma triple_invalid_state:
  "triple P a Q E \<Longrightarrow> (\<And>d. triple P (f d) Q E) \<Longrightarrow> triple P g Q E \<Longrightarrow>
   triple P (case e of Disconnected d \<Rightarrow> f d | InvalidState \<Rightarrow> a | _ \<Rightarrow> g) Q E"
  by (cases e) simp_all

lemma accept_body_ends: "triple alive (accept_body w ms focus bad) (\<lambda>u. sound) (\<lambda>e. sound)"
  unfolding accept_body_def
  by (intro starts_after triple_catch [OF accept_main_ends] triple_invalid_state triple_if
      terminated_none [OF accept_disconnected_ends] terminated_none [OF accept_media_failed_ends]
      terminated_none [OF cancelled_ends] fail_none raise_alive stable_alive stable_intro alive.stable_started)
    (simp_all add: same_view_def)

lemma rejected_ends: "triple alive (rejected code timed_out) (\<lambda>u. terminated) (\<lambda>e. sound)"
  unfolding rejected_def
  by (intro stable_alive stable_intro triple_terminate stable_unreported triple_report) simp_all

lemma reject_body_ends: "triple alive (reject_body code) (\<lambda>u. sound) (\<lambda>e. sound)"
proof -
  define Q where "Q = (\<lambda>ok s. if ok then alive s else sound s)"
  have false: "triple P (bindE m (\<lambda>u. retE False)) Q (\<lambda>e. sound)" if "triple P m (\<lambda>u. terminated) (\<lambda>e. sound)"
    for P and m :: "unit sess"
    by (rule triple_bind [OF that]) (auto intro!: triple_ret simp: Q_def terminated_sound)
  have main: "triple alive (bindE (reject_main code) (\<lambda>u. retE True)) Q (\<lambda>e. alive)"
    by (rule triple_after_stable [OF alive.stable_reject_main]) (auto intro: triple_ret simp: Q_def)
  have last: "triple (Q ok) (whenE ok (rejected code False)) (\<lambda>u. sound) (\<lambda>e. sound)" for ok
    by (cases ok) (auto simp: Q_def whenE_def intro!: triple_ret triple_weaken [OF rejected_ends] terminated_sound)
  show ?thesis
    unfolding reject_body_def
    by (rule stable_alive [OF alive.stable_greenlet], rule triple_bind [OF triple_catch [OF main] last])
      (intro triple_if false [OF cancelled_ends] false [OF fail_sound] false [OF rejected_ends] raise_alive
        stable_alive stable_intro)
qed

section \<open>end\<close>

text \<open>
  \<open>end\<close> reports and then runs its last part, which leaves the session terminated unless the
  invitation has no observer any more.
\<close>

definition over :: "session \<Rightarrow> bool" where
  "over s = (alive s \<or> terminated s \<or> ending s)"

lemma over_parts: "alive s \<Longrightarrow> over s" "terminated s \<Longrightarrow> over s" "ending s \<Longrightarrow> over s" "sound s \<Longrightarrow> over s" "closing s \<Longrightarrow> ending s"
  by (auto simp: over_def sound_def closing_def alive_def ending_def)

lemma end_unsent_ends: "triple alive end_unsent (\<lambda>u. terminated) E"
  unfolding end_unsent_def by (intro triple_terminate triple_report) simp

lemma triple_closing_report: "is_final (Post n) \<Longrightarrow> triple closing (post_note n) (\<lambda>u. ending) E"
  unfolding post_note_def log_effect_def
  by (rule triple_modify) (simp add: closing_def alive_def ending_def)

lemma stable_closing:
  "stable closing m \<Longrightarrow> (\<And>a. triple closing (f a) Q (\<lambda>e. ending)) \<Longrightarrow> triple closing (bindE m f) Q (\<lambda>e. ending)"
  by (rule triple_after_stable) (simp_all add: over_parts)

lemma closing_ended: "triple closing (session_ended who) (\<lambda>u. ending) (\<lambda>e. ending)"
  unfolding session_ended_def
  by (intro stable_closing closing.stable_view triple_closing_report) (simp_all add: same_view_def)

lemma end_disconnected_ends: "triple closing (end_disconnected d) (\<lambda>u. ending) (\<lambda>e. ending)"
  unfolding end_disconnected_def
  by (intro triple_if stable_closing closing_ended triple_closing_report stable_intro) simp_all

text \<open>The last part, after a report, an exception or both.\<close>

lemma closed: "triple ending (bindE (set_greenlet False) (\<lambda>u. to_state StTerminated)) (\<lambda>u. terminated) E"
  by (simp add: triple_def bindE_def set_greenlet_def to_state_def modifyE_def ending_def terminated_def)

lemma end_last_part:
  "triple ending (bindE (forE ms (\<lambda>m. on_stream (EndStream (sm_id m)))) (\<lambda>u.
     bindE unobserve_invitation (\<lambda>u. bindE (set_greenlet False) (\<lambda>u. to_state StTerminated))))
     (\<lambda>u. terminated) (\<lambda>e. ending)"
  by (rule triple_after_stable, intro stable_intro, assumption)+ (rule closed)

lemma triple_try_finally:
  assumes "triple P m (\<lambda>a. J) (\<lambda>e. J)" "triple J f (\<lambda>u. K) (\<lambda>e. L)"
    and "\<And>s. J s \<Longrightarrow> G s" "\<And>s. K s \<Longrightarrow> G s" "\<And>s. L s \<Longrightarrow> G s"
  shows "triple P (try_finally m f) (\<lambda>a. G) (\<lambda>e. G)"
proof -
  have "triple P (finallyE m f) (\<lambda>a. G) (\<lambda>e. G)"
    by (rule triple_finally [OF assms(1)]; rule triple_weaken [OF assms(2)]) (simp_all add: assms(4,5))
  moreover have "triple P m (\<lambda>a. G) (\<lambda>e. G)"
    by (rule triple_weaken [OF assms(1)]) (simp_all add: assms(3))
  ultimately show ?thesis by (auto simp: triple_def try_finally_def)
qed

lemma end_try:
  "triple closing (bindE (catchE
       (bindE (end_main cancelling) (\<lambda>u. retE True))
       (\<lambda>e. if is_core e then
              bindE (if cancelling then post_note (DidFail FromLocal (Some 0)) else session_ended FromLocal) (\<lambda>u. retE False)
            else case e of
              Disconnected d \<Rightarrow> bindE (end_disconnected d) (\<lambda>u. retE False)
            | _ \<Rightarrow> raiseE e)) (\<lambda>ok.
      whenE ok (if cancelling then post_note (DidFail FromLocal (Some 487)) else session_ended FromLocal)))
     (\<lambda>u. ending) (\<lambda>e. ending)"
proof -
  define Q where "Q = (\<lambda>ok s. if ok then closing s else ending s)"
  have false: "triple closing (bindE m (\<lambda>u. retE False)) Q (\<lambda>e. ending)" if "triple closing m (\<lambda>u. ending) (\<lambda>e. ending)"
    for m :: "unit sess"
    by (rule triple_bind [OF that]) (auto intro!: triple_ret simp: Q_def)
  have main: "triple closing (bindE (end_main cancelling) (\<lambda>u. retE True)) Q (\<lambda>e. closing)"
    by (rule triple_after_stable [OF closing.stable_end_main]) (auto intro: triple_ret simp: Q_def)
  have raised: "triple closing (raiseE e) Q (\<lambda>e. ending)" for e by (rule triple_raise) (rule over_parts)
  have last: "triple (Q ok) (whenE ok m) (\<lambda>u. ending) (\<lambda>e. ending)" if "triple closing m (\<lambda>u. ending) (\<lambda>e. ending)" for ok m
    using that by (cases ok) (auto simp: Q_def whenE_def intro!: triple_ret)
  show ?thesis
    by (rule triple_bind [OF triple_catch [OF main] last]; intro triple_if triple_disconnected false raised
        closing_ended triple_closing_report end_disconnected_ends; simp)
qed

lemma end_sent_ends: "triple alive end_sent (\<lambda>u. over) (\<lambda>e. over)"
proof -
  have open_closing: "triple alive (bindE (set_greenlet True) (\<lambda>u. bindE (to_state StTerminating) f)) Q E"
    if "\<And>u. triple closing (f u) Q E" for f Q and E :: "sess_exn \<Rightarrow> session \<Rightarrow> bool"
    unfolding set_greenlet_def to_state_def
    by (rule triple_bind [OF triple_modify [where Q = "\<lambda>u s. alive s \<and> se_greenlet s"]],
        simp add: alive_def, rule triple_bind [OF triple_modify that])
      (simp add: closing_def alive_def)
  have next_part: "triple closing (bindE m f) (\<lambda>u. over) (\<lambda>e. over)"
    if "stable closing m" "\<And>a. triple closing (f a) (\<lambda>u. over) (\<lambda>e. over)" for m :: "'b sess" and f
    by (rule triple_after_stable [OF that(1) _ that(2)]) (simp add: over_parts)
  show ?thesis
    unfolding end_sent_def
    by (rule triple_after_stable, intro stable_intro, erule over_parts, rule open_closing,
        (rule next_part, (intro stable_intro; simp))+, rule triple_let,
        rule triple_try_finally [OF end_try end_last_part]) (simp_all add: over_parts)
qed

lemma end_goes_on_ends: "triple alive end_goes_on (\<lambda>u. over) (\<lambda>e. over)"
proof -
  have next_part: "triple alive (bindE m f) (\<lambda>u. over) (\<lambda>e. over)"
    if "stable alive m" "\<And>a. triple alive (f a) (\<lambda>u. over) (\<lambda>e. over)" for m :: "'b sess" and f
    by (rule triple_after_stable [OF that(1) _ that(2)]) (simp add: over_parts)
  have unsent: "triple alive end_unsent (\<lambda>u. over) (\<lambda>e. over)"
    by (rule triple_weaken [OF end_unsent_ends]) (simp_all add: over_parts)
  show ?thesis
    unfolding end_goes_on_def
    by (intro next_part triple_if unsent end_sent_ends triple_ret stable_intro over_parts)
qed

section \<open>Notifications\<close>

lemma cancelled_incoming_ends: "triple alive (cancelled_incoming d) (\<lambda>u. terminated) (\<lambda>e. sound)"
  unfolding cancelled_incoming_def
  by (intro triple_terminate triple_if stable_unreported triple_report stable_intro) simp_all

lemma remote_end_ends: "triple alive (remote_end d) (\<lambda>u. terminated) (\<lambda>e. sound)"
  unfolding remote_end_def
  by (intro stable_alive stable_intro triple_terminate stable_unreported stable_ended) simp_all

lemma invitation_ended_ends: "triple alive (invitation_ended d) (\<lambda>u. terminated) (\<lambda>e. sound)"
  unfolding invitation_ended_def
  by (rule stable_alive, intro stable_intro, rule triple_bind, rule triple_if, rule cancelled_incoming_ends,
      rule remote_end_ends, rule triple_of_stable [OF terminated.stable_unobserve_invitation])
    (simp_all add: terminated_sound)

lemma change_handled_ends: "triple alive (change_handled w d) (\<lambda>u. sound) (\<lambda>e. sound)"
proof -
  have kept: "triple alive m (\<lambda>u. sound) (\<lambda>e. sound)" if "stable alive m" for m :: "unit sess"
    by (rule triple_of_stable [OF that]) (simp_all add: alive_sound)
  have ended: "triple alive (invitation_ended d) (\<lambda>u. sound) (\<lambda>e. sound)"
    by (rule triple_weaken [OF invitation_ended_ends]) (simp_all add: terminated_sound)
  show ?thesis
    unfolding change_handled_def by (intro triple_if ended kept stable_intro)
qed

lemma terminated_schedule: "is_simple t \<Longrightarrow> stable terminated (schedule t)"
  unfolding stable_def schedule_def by (rule triple_modify) (simp add: terminated_def)

lemma terminated_greenlet: "stable terminated (set_greenlet b)"
  unfolding stable_def by (rule triple_greenlet)

lemma sound_stable: "stable alive m \<Longrightarrow> stable terminated m \<Longrightarrow> stable sound m"
  by (rule stableI) (auto simp: sound_def dest: stableD)

lemma handle_change_ends: "triple alive (handle_change w d) (\<lambda>u. sound) (\<lambda>e. sound)"
proof -
  have last: "triple sound (bindE (set_greenlet False) (\<lambda>u.
      bindE (readE se_unhandled) (\<lambda>ns. forE ns (\<lambda>n. schedule (THandle n))))) (\<lambda>u. sound) (\<lambda>e. sound)"
    unfolding stable_def [symmetric]
    by (intro sound_stable) (intro stable_intro terminated_greenlet terminated_schedule; simp)+
  have body: "triple alive (try_finally (change_handled w d) (bindE (set_greenlet False) (\<lambda>u.
      bindE (readE se_unhandled) (\<lambda>ns. forE ns (\<lambda>n. schedule (THandle n)))))) (\<lambda>u. sound) (\<lambda>e. sound)"
    by (rule triple_try_finally [OF change_handled_ends last]) simp_all
  show ?thesis
    unfolding handle_change_def
    by (intro stable_alive triple_if body triple_ret stable_intro alive.stable_started)
      (simp_all add: same_view_def alive_sound)
qed

text \<open>Nothing happens to a session that is over.\<close>

definition done_for :: "session \<Rightarrow> bool" where
  "done_for s = (se_state s = StTerminated \<or> se_state s = StTerminating \<and> se_greenlet s)"

lemma done_for_handle_change:
  "done_for s \<Longrightarrow> snd (handle_change w d s) = s \<or> snd (handle_change w d s) = s\<lparr>se_remote_focus := True\<rparr>"
  by (auto simp: done_for_def handle_change_def bindE_def readE_def retE_def whenE_def modifyE_def)

lemma done_for_end: "done_for s \<Longrightarrow> end_body s = (Inr (), s)"
  by (auto simp: done_for_def end_body_def bindE_def readE_def retE_def)

lemma done_for_hold: "done_for s \<Longrightarrow> snd (hold w s) = snd (hold_flags s)" "done_for s \<Longrightarrow> snd (unhold w s) = snd (unhold_flags s)"
  by (auto simp: done_for_def hold_def unhold_def bindE_def whenE_def retE_def hold_flags_def unhold_flags_def Let_def)

section \<open>All procedures\<close>

definition ended :: "session \<Rightarrow> bool" where
  "ended s = (finals s \<le> 1 \<and> done_for s \<and> simple_tasks s)"

definition consistent :: "session \<Rightarrow> bool" where
  "consistent s = (settled s \<or> ended s)"

lemma alive_settled: "alive s \<Longrightarrow> settled s"
  by (simp add: alive_def settled_def)

lemma over_consistent: "over s \<Longrightarrow> consistent s" "settled s \<Longrightarrow> consistent s"
  by (auto simp: over_def consistent_def ended_def done_for_def terminated_def ending_def alive_settled)

lemma handle_notice_ends: "triple alive (handle_notice w n) (\<lambda>u. sound) (\<lambda>e. sound)"
  unfolding handle_notice_def
  by (cases n) (auto intro!: handle_change_ends triple_ret simp: alive_sound)

lemma run_task_ends:
  assumes a: "alive s"
  shows "consistent (snd (run_task w t s))"
proof -
  have result: "consistent (snd (m s))" if "triple alive m (\<lambda>u. over) (\<lambda>e. over)" for m :: "unit sess"
    using that a by (cases "m s"; cases "fst (m s)") (auto dest: tripleD intro: over_consistent)
  have sound: "triple alive m (\<lambda>u. over) (\<lambda>e. over)" if "triple alive m (\<lambda>u. sound) (\<lambda>e. sound)" for m :: "unit sess"
    by (rule triple_weaken [OF that]) (simp_all add: over_parts)
  have kept: "triple alive m (\<lambda>u. over) (\<lambda>e. over)" if "stable alive m" for m :: "unit sess"
    by (rule triple_of_stable [OF that]) (simp_all add: over_parts)
  have unended: "consistent (snd (m s))" if "stable settled m" for m :: "unit sess"
    by (rule over_consistent(2) [OF stableD [OF that alive_settled [OF a]]])
  have "consistent (snd (end_body s))"
  proof (cases "se_greenlet s")
    case True
    then have "end_body s \<in> {(Inr (), s), schedule TEndKilled s}"
      by (auto simp: end_body_def bindE_def readE_def retE_def)
    then show ?thesis
      using unended [OF settled.stable_schedule_any] over_consistent(2) [OF alive_settled [OF a]] by auto
  next
    case False
    then have "end_body s \<in> {(Inr (), s), end_goes_on s}"
      by (auto simp: end_body_def bindE_def readE_def retE_def)
    then show ?thesis
      using result [OF end_goes_on_ends] over_consistent(2) [OF alive_settled [OF a]] by auto
  qed
  note end_result = this
  show ?thesis
  proof (cases t)
    case TEnd
    then show ?thesis using end_result by (simp add: run_task_def)
  next
    case (TAddStreams ms)
    then show ?thesis by (simp add: run_task_def unended settled.stable_add_streams)
  next
    case TCancelProposal
    then show ?thesis by (simp add: run_task_def unended settled.stable_cancel_proposal)
  next
    case (TStreamFailed m)
    then show ?thesis by (simp add: run_task_def unended settled.stable_stream_did_fail)
  qed (simp only: run_task_def task.case,
      rule result, intro end_goes_on_ends sound handle_notice_ends connect_body_ends accept_body_ends reject_body_ends
        kept stable_intro)+
qed

lemma provide_view: "same_view s (provide x s)"
  by (simp add: same_view_def provide_def)

text \<open>A session that is over stays so, and reports nothing more.\<close>

definition after_end :: "nat \<Rightarrow> session \<Rightarrow> bool" where
  "after_end k s = (finals s = k \<and> done_for s \<and> simple_tasks s)"

interpretation after_end: kept "after_end k"
  by unfold_locales (auto simp: after_end_def done_for_def dest!: view_facts)

lemma after_end_schedule: "is_simple t \<Longrightarrow> stable (after_end k) (schedule t)"
  unfolding stable_def schedule_def by (rule triple_modify) (simp add: after_end_def done_for_def)

lemma after_end_notice: "stable (after_end k) (handle_notice w n)"
proof (rule stableI)
  fix s assume s: "after_end k s"
  have f: "after_end k (s\<lparr>se_remote_focus := True\<rparr>)"
    by (rule after_end.view [OF _ s]) (simp add: same_view_def)
  have "snd (handle_change w d s) \<in> {s, s\<lparr>se_remote_focus := True\<rparr>}" for d
    using s done_for_handle_change by (auto simp: after_end_def)
  then show "after_end k (snd (handle_notice w n s))"
    using s f by (cases n) (simp_all add: handle_notice_def retE_def, metis insertE singletonD)
qed

text \<open>Operations that require a state a session that is over is not in do nothing.\<close>

lemma after_end_transition:
  "a \<notin> {StTerminated, StTerminating} \<Longrightarrow> after_end k s \<Longrightarrow> transition a b t s = (Inl (Uncaught RuntimeError), s)"
  by (auto simp: after_end_def done_for_def transition_def bindE_def readE_def raiseE_def)

lemma after_end_check:
  "StTerminated \<notin> ss \<Longrightarrow> StTerminating \<notin> ss \<Longrightarrow> after_end k s \<Longrightarrow> check_state ss m s = (Inl (Uncaught RuntimeError), s)"
  by (auto simp: after_end_def done_for_def check_state_def bindE_def readE_def raiseE_def)

lemma after_end_stream_failed: "stable (after_end k) (stream_did_fail m)"
proof (rule stableI)
  fix s assume s: "after_end k s"
  have t: "transition StConnected StSendingProposal (TRemoveStreams [m]) s = (Inl (Uncaught RuntimeError), s)"
    by (rule after_end_transition [OF _ s]) simp
  have "stream_did_fail m s \<in> {(Inr (), s), schedule TEnd s}"
    by (simp add: stream_did_fail_def bindE_def readE_def retE_def catchE_def t)
  then show "after_end k (snd (stream_did_fail m s))"
    using s stableD [OF after_end_schedule s] by auto
qed

lemma after_end_call: "stable (after_end k) (api_call a)"
proof (rule stableI)
  fix s assume s: "after_end k s"
  have "stable (after_end k) (schedule t)" if "t \<in> {TEnd, THold, TUnhold}" for t
    using that by (intro after_end_schedule) auto
  then show "after_end k (snd (api_call a s))"
    using s after_end_transition [OF _ s] after_end_check [OF _ _ s]
    by (cases a) (auto simp: api_call_def transfer_session_def accept_transfer_def reject_transfer_def
      transfer_states_def dest: stableD)
qed

lemma after_end_run:
  assumes "after_end k s" "is_simple t"
  shows "after_end k (snd (run_task w t s))"
proof -
  have d: "done_for s" using assms by (simp add: after_end_def)
  show ?thesis
    using assms(2,1) done_for_end [OF d] done_for_hold [OF d]
      stableD [OF after_end_notice assms(1)] stableD [OF after_end_stream_failed assms(1)]
      stableD [OF after_end.stable_hold_flags assms(1)] stableD [OF after_end.stable_unhold_flags assms(1)]
      stableD [OF after_end.stable_ring assms(1)]
    by (cases t) (simp_all add: run_task_def)
qed

lemma after_end_step:
  assumes "session_step w s t" "after_end k s" shows "after_end k t"
  using assms(1)
proof (cases rule: session_step.cases)
  case (run t' ts x)
  have "after_end k (s\<lparr>se_tasks := ts\<rparr>)" "is_simple t'"
    using assms(2) run by (auto simp: after_end_def done_for_def simple_tasks_def)
  then show ?thesis using run after_end_run after_end.view [OF provide_view] by blast
next
  case (call a x)
  then show ?thesis using stableD [OF after_end_call after_end.view [OF provide_view assms(2)]] by simp
next
  case (event e)
  have "is_simple (case e of Notified n \<Rightarrow> THandle n | StreamDidFail m \<Rightarrow> TStreamFailed m)"
    by (cases e) simp_all
  then show ?thesis using event stableD [OF after_end_schedule assms(2)] by (simp add: occurs_def)
qed

text \<open>Before the end: a procedure runs with simple ones behind it, or gives its news away.\<close>

lemma news_run:
  assumes "is_news t" "se_greenlet s" "settled s"
  shows "settled (snd (run_task w t s))"
  using assms settled.view [OF _ assms(3), of "s\<lparr>se_remote_focus := True\<rparr>"]
  by (cases t rule: is_news.cases)
    (auto simp: run_task_def handle_notice_def handle_change_def stream_did_fail_def same_view_def
      bindE_def readE_def retE_def whenE_def modifyE_def split: notice.split)

lemma settled_run:
  assumes "settled s" "in_order s" "se_tasks s = t # ts"
  shows "consistent (snd (run_task w t (provide x (s\<lparr>se_tasks := ts\<rparr>))))"
proof (cases "se_greenlet s \<and> is_news t")
  case True
  have "settled (s\<lparr>se_tasks := ts\<rparr>)" using assms(1) by (simp add: settled_def finals_def)
  then show ?thesis
    using True by (intro over_consistent(2) news_run settled.view [OF provide_view]) (auto simp: provide_def)
next
  case False
  then have "list_all is_simple ts" using assms(2,3) by (auto simp: in_order_def pending_def split: if_splits)
  then have "alive (s\<lparr>se_tasks := ts\<rparr>)"
    using assms(1) by (simp add: settled_def alive_def simple_tasks_def finals_def)
  then show ?thesis by (intro run_task_ends alive.view [OF provide_view])
qed

lemma ended_after_end: "ended s = (\<exists>k\<le>1. after_end k s)"
  by (auto simp: ended_def after_end_def)

lemma consistent_step:
  assumes "session_step w s t" "in_order s" "consistent s" shows "consistent t"
proof (cases "ended s")
  case True
  then show ?thesis
    using after_end_step [OF assms(1)] by (auto simp: ended_after_end consistent_def)
next
  case False
  with assms(3) have s: "settled s" by (simp add: consistent_def)
  show ?thesis
    using assms(1)
  proof (cases rule: session_step.cases)
    case (run t' ts x)
    then show ?thesis using settled_run [OF s assms(2)] by simp
  next
    case (call a x)
    show ?thesis
      unfolding call
      by (rule over_consistent(2) [OF stableD [OF settled.stable_api_call settled.view [OF provide_view s]]])
  next
    case (event e)
    show ?thesis unfolding event by (rule over_consistent(2) [OF stableD [OF settled.stable_occurs s]])
  qed
qed

lemma new_session_settled: "settled session_new"
  by (simp add: settled_def session_new_def finals_def)

lemma incoming_settled: "settled (snd (init_incoming w focus replaces (provide x session_new)))"
proof -
  have "stable settled (modifyE (\<lambda>s. s\<lparr>se_outgoing := False, se_state := StIncoming, se_invitation := True, se_inv_incoming := True\<rparr>))"
    unfolding stable_def by (rule triple_modify) (simp add: settled_def finals_def)
  note built = this
  have "stable settled (init_incoming w focus replaces)"
    unfolding init_incoming_def by (intro built stable_intro settled.stable_view) (simp_all add: same_view_def)
  then show ?thesis by (rule stableD) (rule settled.view [OF provide_view new_session_settled])
qed

lemma orderly_consistent: "orderly_session w s \<Longrightarrow> consistent s"
proof (induction rule: orderly_session.induct)
  case (orderly_new w)
  show ?case by (rule over_consistent(2) [OF new_session_settled])
next
  case (orderly_incoming w focus replaces x)
  show ?case by (rule over_consistent(2) [OF incoming_settled])
next
  case (orderly_step w s t)
  then show ?case by (blast intro: consistent_step)
qed

lemma after_end_steps: "(session_step w)\<^sup>*\<^sup>* s t \<Longrightarrow> after_end k s \<Longrightarrow> after_end k t"
proof (induction rule: rtranclp_induct)
  case (step y z)
  show ?case by (rule after_end_step [OF step.hyps(2) step.IH [OF step.prems]])
qed

text \<open>
  C24. A session whose procedures run in order - nothing but \<open>end\<close>, \<open>hold\<close>, \<open>unhold\<close>, ring
  indications and notifications is scheduled behind another procedure, and nothing but
  notifications before \<open>end\<close> or \<open>cancel_proposal\<close> goes on after a kill - reports its end at most
  once, whatever is called, notified and answered, and whatever exceptions its procedures die of.
  Once it has reported it, it is terminated, or stuck in the last part of \<open>end\<close>, and it reports
  nothing more, in any order of calls, notifications and procedures. (A procedure is one step, and
  what reaches it while it waits - notifications, a kill - is its script, as \<open>Session_Runs\<close> says;
  without the order \<open>session_two_ends_report_twice\<close> refutes the claim.)
\<close>

theorem session_reports_end_once:
  assumes "orderly_session w s"
  shows "finals s \<le> 1 \<and>
    (finals s = 1 \<longrightarrow>
       (se_state s = StTerminated \<or> se_state s = StTerminating \<and> se_greenlet s) \<and>
       (\<forall>t. (session_step w)\<^sup>*\<^sup>* s t \<longrightarrow> finals t = 1))"
proof -
  have "settled s \<or> ended s" using orderly_consistent [OF assms] by (simp add: consistent_def)
  then show ?thesis
  proof
    assume "settled s"
    then have "finals s = 0" by (simp add: settled_def)
    then show ?thesis by simp
  next
    assume e: "ended s"
    then have a: "after_end (finals s) s" by (simp only: ended_def after_end_def simp_thms)
    have "finals t = finals s" if "(session_step w)\<^sup>*\<^sup>* s t" for t
      using after_end_steps [OF that a] by (simp only: after_end_def)
    moreover have "finals s \<le> 1 \<and> (se_state s = StTerminated \<or> se_state s = StTerminating \<and> se_greenlet s)"
      using e by (simp only: ended_def done_for_def simp_thms)
    ultimately show ?thesis by metis
  qed
qed

section \<open>A session on which reject never reports\<close>

lemma reject_disconnected:
  assumes "se_calls s = []" "se_script s = Item st sub q (Throw (Disconnected d)) # its" "se_resent s = []"
  shows "\<exists>t. reject_body code s = (Inl (Disconnected d), t) \<and> se_state t = se_state s \<and> se_greenlet t \<and>
    se_tasks t = se_tasks s \<and> finals t = finals s"
  using assms
  by (simp add: reject_body_def reject_main_def set_greenlet_def inv_call_def log_effect_def modifyE_def bindE_def
      catchE_def wait_loop_def readE_def wait_def cannot_happen_def arrives_def Let_def is_core_def raiseE_def finals_def)

text \<open>
  \<open>reject\<close> has no clause for a disconnected invitation: when the caller cancels while the
  rejection is being sent, the exception ends the procedure with the session in state
  \<open>terminating\<close>. From then on the session never reports its end, whatever happens, and \<open>end\<close>
  does nothing.
\<close>

theorem session_reject_disconnect_lost:
  assumes "orderly_session w s" "se_state s = StIncoming" "se_tasks s = []"
    and "su_calls x = []" "su_script x = Item st sub q (Throw (Disconnected d)) # its"
    and t: "t = snd (api_call (Reject code) (provide x s))"
    and u: "(r, u) = reject_body code (provide x (t\<lparr>se_tasks := []\<rparr>))"
  shows "session_step w s t \<and> session_step w t u \<and> r = Inl (Disconnected d) \<and>
    (\<forall>v. (session_step w)\<^sup>*\<^sup>* u v \<longrightarrow> finals v = 0 \<and> end_body v = (Inr (), v))"
proof -
  have "finals s = 0"
    using orderly_consistent [OF assms(1)] assms(2)
    by (auto simp: consistent_def settled_def ended_def done_for_def)
  then have t': "se_tasks t = [TReject code]" "se_state t = StTerminating" "finals t = 0"
    using assms(2,3)
    by (simp_all add: t api_call_def transition_def provide_def bindE_def readE_def to_state_def schedule_def modifyE_def finals_def)
  obtain u' where r: "reject_body code (provide x (t\<lparr>se_tasks := []\<rparr>)) = (Inl (Disconnected d), u')"
      "se_state u' = StTerminating" "se_greenlet u'" "se_tasks u' = []" "finals u' = 0"
    using reject_disconnected [of "provide x (t\<lparr>se_tasks := []\<rparr>)" st sub q d its code] t' assms(4,5)
    by (auto simp: provide_def finals_def)
  then have u': "u' = u" "r = Inl (Disconnected d)" using u by simp_all
  have "session_step w t u"
    using session_step.run [OF t'(1), of w x] u by (simp add: run_task_def r(1) u'(1))
  moreover have "session_step w s t" using session_step.call [of w s "Reject code" x] by (simp add: t)
  moreover have "finals v = 0 \<and> end_body v = (Inr (), v)" if "(session_step w)\<^sup>*\<^sup>* u v" for v
  proof -
    have "after_end 0 u" using r u' by (simp add: after_end_def done_for_def simple_tasks_def)
    then have "after_end 0 v" by (rule after_end_steps [OF that])
    then show ?thesis using done_for_end by (simp add: after_end_def)
  qed
  ultimately show ?thesis using u' by blast
qed

section \<open>Samples\<close>

definition sample_world :: world where
  "sample_world =
     \<lparr>wo_contact = True, wo_outgoing_ip = (\<lambda>a. Some ''10.0.0.1''), wo_agent = ''agent'',
      wo_local_media = (\<lambda>m r i. \<lparr>md_kind = ''audio'', md_port = 5000, md_connection = None, md_ice = False\<rparr>),
      wo_ice_active = (\<lambda>m. False), wo_hold_supported = (\<lambda>m. True), wo_remote_hold = (\<lambda>m r. False),
      wo_validate = (\<lambda>m r i. True),
      wo_stream_types = [\<lambda>d i. if md_kind (sd_media d ! i) = ''audio'' then NewStream (100 + i) else UnknownStream],
      wo_peer = ''10.0.0.2''\<rparr>"

definition sample_change :: inv_change where
  "sample_change =
     \<lparr>ic_state = InvDisconnected, ic_prev = InvIncoming, ic_sub = SubNone, ic_prev_sub = SubNone,
      ic_origin = FromRemote, ic_code = Some 487, ic_method = None, ic_reason = ''user request'', ic_focus = False\<rparr>"

definition sample_surroundings :: "wake_up list \<Rightarrow> surroundings" where
  "sample_surroundings its =
     \<lparr>su_inv_state = InvIncoming, su_inv_sub = SubNone, su_active_local = no_sdp, su_active_remote = no_sdp,
      su_proposed_remote = None, su_script = its, su_calls = []\<rparr>"

definition sample_incoming :: session where
  "sample_incoming = snd (init_incoming sample_world False None (provide (sample_surroundings []) session_new))"

lemma sample_incoming_orderly: "orderly_session sample_world sample_incoming"
  unfolding sample_incoming_def by (rule orderly_incoming)

lemma sample_incoming_state: "se_state sample_incoming = StIncoming" "se_tasks sample_incoming = []"
  by (simp_all add: sample_incoming_def init_incoming_def sample_surroundings_def provide_def session_new_def bindE_def
      readE_def whenE_def retE_def modifyE_def set_proposed_def post_note_def log_effect_def)

lemma session_reject_disconnect_lost_witness:
  "\<exists>t u. session_step sample_world sample_incoming t \<and> session_step sample_world t u \<and>
     finals u = 0 \<and> end_body u = (Inr (), u)"
proof -
  define x where "x = sample_surroundings [Item InvDisconnected SubNone False (Throw (Disconnected sample_change))]"
  define t where "t = snd (api_call (Reject 486) (provide x sample_incoming))"
  obtain r u where u: "(r, u) = reject_body 486 (provide x (t\<lparr>se_tasks := []\<rparr>))" by (metis surj_pair)
  have x: "su_calls x = []" "su_script x = [Item InvDisconnected SubNone False (Throw (Disconnected sample_change))]"
    by (simp_all add: x_def sample_surroundings_def)
  show ?thesis
    using session_reject_disconnect_lost [OF sample_incoming_orderly sample_incoming_state x t_def u] by blast
qed

text \<open>The remote party cancels an incoming session: it fails once, and that is all.\<close>

definition sample_notified :: session where
  "sample_notified = snd (occurs (Notified (Changed sample_change)) sample_incoming)"

definition sample_cancelled :: session where
  "sample_cancelled = snd (run_task sample_world (THandle (Changed sample_change))
     (provide (sample_surroundings []) (sample_notified\<lparr>se_tasks := []\<rparr>)))"

lemma sample_notified_tasks: "se_tasks sample_notified = [THandle (Changed sample_change)]"
  by (simp add: sample_notified_def occurs_def schedule_def modifyE_def sample_incoming_state)

lemma sample_cancelled_orderly: "orderly_session sample_world sample_cancelled"
proof -
  have "in_order sample_incoming" "in_order sample_notified"
    by (simp_all add: in_order_def pending_def sample_incoming_state sample_notified_tasks)
  then show ?thesis
    unfolding sample_cancelled_def
    using orderly_step [OF orderly_step [OF sample_incoming_orderly _ session_step.event]]
      session_step.run [OF sample_notified_tasks]
    by (simp add: sample_notified_def)
qed

lemma sample_cancelled_finals: "finals sample_cancelled = 1"
  by (simp add: sample_cancelled_def sample_notified_def sample_incoming_def init_incoming_def sample_surroundings_def
      provide_def session_new_def
      bindE_def readE_def whenE_def retE_def modifyE_def set_proposed_def post_note_def log_effect_def occurs_def
      schedule_def run_task_def
      handle_notice_def handle_change_def sample_change_def try_finally_def finallyE_def change_handled_def
      invitation_ended_def cancelled_incoming_def to_state_def unobserve_invitation_def set_greenlet_def finals_def)

lemma session_reports_end_once_witness:
  "finals sample_cancelled = 1 \<and>
   finals (snd (api_call End (provide (sample_surroundings []) sample_cancelled))) = 1"
proof -
  have "session_step sample_world sample_cancelled (snd (api_call End (provide (sample_surroundings []) sample_cancelled)))"
    by (rule session_step.call)
  then show ?thesis
    using session_reports_end_once [OF sample_cancelled_orderly] sample_cancelled_finals by blast
qed

section \<open>A session that reports its end twice\<close>

lemma drop_if_observed_unsent:
  "\<exists>t. drop_if_observed m s = (Inr (), t) \<and> finals t = finals s \<and> se_tasks t = se_tasks s"
  by (auto simp: drop_if_observed_def drop_stream_def unobserve_stream_def on_stream_def log_effect_def
      bindE_def readE_def retE_def modifyE_def finals_def)

lemma drop_all_unsent:
  "\<exists>t. forE ms drop_if_observed s = (Inr (), t) \<and> finals t = finals s \<and> se_tasks t = se_tasks s"
proof (induction ms arbitrary: s)
  case (Cons m ms)
  obtain u where "drop_if_observed m s = (Inr (), u)" "finals u = finals s" "se_tasks u = se_tasks s"
    using drop_if_observed_unsent by blast
  then show ?case using Cons.IH [of u] by (auto simp: bindE_def)
qed (simp add: retE_def)

lemma end_unsent_reports:
  assumes "se_inv_state s = InvNone"
  shows "finals (snd (end_goes_on s)) = Suc (finals s) \<and> se_tasks (snd (end_goes_on s)) = se_tasks s"
proof -
  obtain t where "forE (all_streams (s\<lparr>se_greenlet := False\<rparr>)) drop_if_observed (s\<lparr>se_greenlet := False\<rparr>) = (Inr (), t)"
      "finals t = finals s" "se_tasks t = se_tasks s"
    using drop_all_unsent [of "all_streams (s\<lparr>se_greenlet := False\<rparr>)" "s\<lparr>se_greenlet := False\<rparr>"] by (auto simp: finals_def)
  then show ?thesis
    using assms
    by (auto simp: end_goes_on_def end_unsent_def set_greenlet_def to_state_def post_note_def log_effect_def
        modifyE_def readE_def bindE_def finals_def)
qed

text \<open>
  \<open>end\<close> kills the procedure that runs and does not look at the state again when the kill has
  returned, and the other \<open>end\<close> has run by then. When both were called while the session was
  setting up its streams, before the invitation is sent, each reports the failure.
\<close>

definition unsent_surroundings :: surroundings where
  "unsent_surroundings =
     \<lparr>su_inv_state = InvNone, su_inv_sub = SubNone, su_active_local = no_sdp, su_active_remote = no_sdp,
      su_proposed_remote = None, su_script = [], su_calls = []\<rparr>"

lemma unsent_provided:
  "finals (provide x s) = finals s" "se_tasks (provide x s) = se_tasks s" "se_state (provide x s) = se_state s"
  "se_greenlet (provide x s) = se_greenlet s" "se_inv_state (provide unsent_surroundings s) = InvNone"
  by (simp_all add: provide_def finals_def unsent_surroundings_def)

lemma end_scheduled: "snd (api_call End s) = s\<lparr>se_tasks := se_tasks s @ [TEnd]\<rparr>"
  by (simp add: api_call_def schedule_def modifyE_def)

lemma end_kills:
  "se_state s \<notin> {StNone, StTerminating, StTerminated} \<Longrightarrow> se_greenlet s \<Longrightarrow>
   snd (end_body s) = s\<lparr>se_tasks := se_tasks s @ [TEndKilled]\<rparr>"
  by (simp add: end_body_def schedule_def modifyE_def bindE_def readE_def)

theorem session_two_ends_report_twice:
  assumes "se_state s = StConnecting" "se_inv_state s = InvNone" "se_greenlet s" "se_tasks s = []"
  shows "\<exists>t. (session_step w)\<^sup>*\<^sup>* s t \<and> finals t = finals s + 2"
proof -
  let ?p = "provide unsent_surroundings"
  define run where "run = (\<lambda>t ts s. snd (run_task w t (?p (s\<lparr>se_tasks := ts\<rparr>))))"
  define a where "a = snd (api_call End (?p s))"
  define b where "b = snd (api_call End (?p a))"
  define c where "c = run TEnd [TEnd] b"
  define d where "d = run TEnd [TEndKilled] c"
  define e where "e = run TEndKilled [TEndKilled] d"
  define f where "f = run TEndKilled [] e"
  have b: "se_tasks a = [TEnd]" "se_tasks b = [TEnd, TEnd]" "se_state b = se_state s" "se_greenlet b" "finals b = finals s"
    using assms by (simp_all add: a_def b_def end_scheduled unsent_provided)
  have c: "c = ?p (b\<lparr>se_tasks := [TEnd]\<rparr>)\<lparr>se_tasks := [TEnd, TEndKilled]\<rparr>"
    using assms(1) b by (simp add: c_def run_def run_task_def end_kills unsent_provided)
  have d: "d = ?p (c\<lparr>se_tasks := [TEndKilled]\<rparr>)\<lparr>se_tasks := [TEndKilled, TEndKilled]\<rparr>"
    using assms(1) b by (simp add: d_def run_def run_task_def end_kills unsent_provided c)
  have e: "finals e = Suc (finals s)" "se_tasks e = [TEndKilled]"
    using b by (simp_all add: e_def run_def run_task_def end_unsent_reports unsent_provided c d)
  have f: "finals f = Suc (finals e)"
    by (simp add: f_def run_def run_task_def end_unsent_reports unsent_provided)
  have step: "session_step w u (run t ts u)" if "se_tasks u = t # ts" for u t ts
    using session_step.run [OF that] by (simp add: run_def)
  have tasks: "se_tasks c = [TEnd, TEndKilled]" "se_tasks d = [TEndKilled, TEndKilled]"
    by (simp_all only: c d) simp_all
  have "session_step w s a" "session_step w a b" by (simp_all only: a_def b_def session_step.call)
  moreover have "session_step w b c" unfolding c_def by (rule step [OF b(2)])
  moreover have "session_step w c d" unfolding d_def by (rule step [OF tasks(1)])
  moreover have "session_step w d e" unfolding e_def by (rule step [OF tasks(2)])
  moreover have "session_step w e f" unfolding f_def by (rule step [OF e(2)])
  ultimately have "(session_step w)\<^sup>*\<^sup>* s f" by (meson converse_rtranclp_into_rtranclp rtranclp.rtrancl_refl)
  then show ?thesis using e f by auto
qed

text \<open>Such a session: the first kill ends its \<open>connect\<close> while a stream initializes.\<close>

definition sample_connecting :: session where
  "sample_connecting =
     (let s = snd (api_call (Connect [\<lparr>sm_id = 1, sm_index = 0\<rparr>] [''route''] False False)
                (provide unsent_surroundings session_new))
      in snd (run_task sample_world (hd (se_tasks s))
           (provide (unsent_surroundings\<lparr>su_script := [Item InvNone SubNone False (Throw Exit)]\<rparr>)
              (s\<lparr>se_tasks := []\<rparr>))))"

lemma session_two_ends_report_twice_witness:
  "\<exists>t. session_reachable sample_world t \<and> finals t = 2"
proof -
  let ?c = "snd (api_call (Connect [\<lparr>sm_id = 1, sm_index = 0\<rparr>] [''route''] False False)
              (provide unsent_surroundings session_new))"
  have c: "se_tasks ?c = [TConnect [\<lparr>sm_id = 1, sm_index = 0\<rparr>] [''route''] False False]"
    by (simp add: api_call_def transition_def session_new_def provide_def bindE_def readE_def to_state_def schedule_def modifyE_def)
  have r: "session_reachable sample_world sample_connecting"
    unfolding sample_connecting_def Let_def c list.sel
    by (rule session_reachable.step [OF session_reachable.step [OF session_reachable.new session_step.call]
          session_step.run [OF c]])
  have s: "se_state sample_connecting = StConnecting" "se_inv_state sample_connecting = InvNone"
    "se_greenlet sample_connecting" "se_tasks sample_connecting = []" "finals sample_connecting = 0"
    by (simp_all add: sample_connecting_def api_call_def transition_def session_new_def provide_def unsent_surroundings_def
        bindE_def readE_def retE_def raiseE_def to_state_def schedule_def modifyE_def run_task_def connect_body_def
        post_note_def log_effect_def observe_stream_def on_stream_def catchE_def connect_main_def proposed_streams_def
        attr_def wait_initialized_def wait_loop_def wait_def arrives_def is_core_def is_media_failure_def finals_def Let_def)
  obtain t where "(session_step sample_world)\<^sup>*\<^sup>* sample_connecting t" "finals t = 2"
    using session_two_ends_report_twice [OF s(1-4), of sample_world] s(5) by auto
  moreover from this(1) have "session_reachable sample_world t"
    by (induction rule: rtranclp_induct) (auto intro: r session_reachable.step)
  ultimately show ?thesis by blast
qed

end
