(* ===== verification/Session_Offers.thy ===== *)
theory Session_Offers
  imports Session_Ends
begin

text \<open>
  What a session does with the offers of the remote party: its proposals while the session is
  set up, and the lack of an offer when an incoming session is accepted.
\<close>

section \<open>Proposals\<close>

definition refused_at_once :: "world \<Rightarrow> sdp \<Rightarrow> sdp \<Rightarrow> stream list \<Rightarrow> bool" where
  "refused_at_once w proposed active ms =
     (length (sd_media proposed) < length (sd_media active) \<or>
      \<not> list_all (\<lambda>m. wo_validate w (sm_id m) proposed (sm_index m)) ms \<or>
      new_indexes proposed active \<noteq> [] \<and> removed_indexes proposed active \<noteq> [])"

definition nothing_known :: "world \<Rightarrow> sdp \<Rightarrow> sdp \<Rightarrow> bool" where
  "nothing_known w proposed active =
     (new_indexes proposed active \<noteq> [] \<and> streams_from w proposed (new_indexes proposed active) = [])"

lemmas session_actions =
  bindE_def catchE_def readE_def retE_def raiseE_def modifyE_def whenE_def to_state_def set_greenlet_def set_proposed_def
  post_note_def log_effect_def inv_call_def attr_def current_streams_def proposed_streams_def

lemma refused_now:
  "se_calls s = [] \<Longrightarrow>
   refuse_proposal s = (Inr (), s\<lparr>se_state := StConnected, se_log := se_log s @
     [Call (SendResponse 488 None), Post (Transaction FromRemote ''INVITE'' (Some 488))]\<rparr>)"
  by (simp add: refuse_proposal_def session_actions)

lemma remote_proposal_refused:
  assumes "se_calls s = []" "se_streams s = Some ms" "se_proposed_remote s = Some p"
    and "refused_at_once w p (se_active_remote s) ms \<or> nothing_known w p (se_active_remote s)"
  shows "remote_proposal w s = (Inr (), s\<lparr>se_state := StConnected,
     se_proposed := (if refused_at_once w p (se_active_remote s) ms then se_proposed s else Some []),
     se_log := se_log s @
       [Call (SendResponse 488 None), Post (Transaction FromRemote ''INVITE'' (Some 488))]\<rparr>)"
  using assms unfolding refused_at_once_def nothing_known_def
  by (auto simp: remote_proposal_def remote_proposal_main_def remote_adds_def refused_now session_actions Let_def)

lemma remote_proposal_offered:
  assumes "se_calls s = []" "se_streams s = Some ms" "se_proposed_remote s = Some p"
    and "\<not> refused_at_once w p (se_active_remote s) ms" "\<not> nothing_known w p (se_active_remote s)"
    and "new_indexes p (se_active_remote s) \<noteq> []"
  shows "remote_proposal w s = (Inr (), s\<lparr>se_state := StReceivedProposal,
     se_proposed := Some (streams_from w p (new_indexes p (se_active_remote s))),
     se_log := se_log s @ [Call (SendResponse 100 None), Post (NewProposal FromRemote)]\<rparr>)"
  using assms unfolding refused_at_once_def nothing_known_def
  by (auto simp: remote_proposal_def remote_proposal_main_def remote_adds_def session_actions Let_def)

lemma handle_proposal:
  assumes "se_state s = StConnected" "\<not> se_greenlet s" "ic_state d = InvConnected" "ic_sub d = SubReceivedProposal"
    and r: "\<And>b. remote_proposal w (s\<lparr>se_remote_focus := b, se_greenlet := True, se_unhandled := []\<rparr>) = (Inr (), f b)"
    and "\<And>b. se_unhandled (f b) = []"
  shows "\<exists>b. handle_notice w (Changed d) s = (Inr (), f b\<lparr>se_greenlet := False\<rparr>)"
proof -
  have r': "remote_proposal w (s\<lparr>se_greenlet := True, se_unhandled := []\<rparr>) = (Inr (), f (se_remote_focus s))"
    using r [of "se_remote_focus s"] by simp
  show ?thesis
    using assms(1-4,6) r [of True] r'
    by (auto simp: handle_notice_def handle_change_def change_handled_def try_finally_def finallyE_def
        bindE_def readE_def retE_def modifyE_def whenE_def set_greenlet_def
        intro: exI [of _ True] exI [of _ "se_remote_focus s"])
qed

text \<open>
  C25. A proposal of the remote party to a connected session (with the core accepting the
  responses): it is refused with 488 when it has fewer media than the session, when a stream
  cannot take its new description, when it both adds and removes media, or when no stream type
  knows any of the media it adds; the session then is as it was before the proposal, but for the
  list of proposed streams, which the last of these cases leaves empty, the remote focus, and the list of notifications the handler keeps for itself.
  When it is not refused and adds media, the session stays as it was, proposes the new streams to
  the application and waits for its decision in state \<open>received_proposal\<close>.
\<close>

theorem session_remote_proposal_decided:
  assumes "se_state s = StConnected" "\<not> se_greenlet s" "se_calls s = []" "se_streams s = Some ms"
    and "se_proposed_remote s = Some p" "ic_state d = InvConnected" "ic_sub d = SubReceivedProposal"
    and t: "t = snd (handle_notice w (Changed d) s)"
  shows
    "(refused_at_once w p (se_active_remote s) ms \<or> nothing_known w p (se_active_remote s) \<longrightarrow>
        (\<exists>b. t = s\<lparr>se_remote_focus := b, se_unhandled := [],
           se_proposed := (if refused_at_once w p (se_active_remote s) ms then se_proposed s else Some []),
           se_log := se_log s @
             [Call (SendResponse 488 None), Post (Transaction FromRemote ''INVITE'' (Some 488))]\<rparr>)) \<and>
     (\<not> refused_at_once w p (se_active_remote s) ms \<and> \<not> nothing_known w p (se_active_remote s) \<and>
      new_indexes p (se_active_remote s) \<noteq> [] \<longrightarrow>
        (\<exists>b. t = s\<lparr>se_remote_focus := b, se_unhandled := [], se_state := StReceivedProposal,
           se_proposed := Some (streams_from w p (new_indexes p (se_active_remote s))),
           se_log := se_log s @ [Call (SendResponse 100 None), Post (NewProposal FromRemote)]\<rparr>))"
proof (intro conjI impI)
  let ?s = "\<lambda>b. s\<lparr>se_remote_focus := b, se_greenlet := True, se_unhandled := []\<rparr>"
  have idle: "s = s\<lparr>se_state := StConnected, se_greenlet := False\<rparr>" using assms(1,2) by simp
  {
    assume refuse: "refused_at_once w p (se_active_remote s) ms \<or> nothing_known w p (se_active_remote s)"
    define q where "q = (if refused_at_once w p (se_active_remote s) ms then se_proposed s else Some [])"
    have r: "remote_proposal w (?s b) = (Inr (), ?s b\<lparr>se_state := StConnected, se_proposed := q, se_log := se_log s @
        [Call (SendResponse 488 None), Post (Transaction FromRemote ''INVITE'' (Some 488))]\<rparr>)" for b
      using remote_proposal_refused [of "?s b" ms p w] assms refuse by (simp add: q_def)
    obtain b where "t = ?s b\<lparr>se_state := StConnected, se_proposed := q, se_log := se_log s @
        [Call (SendResponse 488 None), Post (Transaction FromRemote ''INVITE'' (Some 488))]\<rparr>\<lparr>se_greenlet := False\<rparr>"
      using handle_proposal [OF assms(1,2,6,7) r] t by auto
    also have "\<dots> = (s\<lparr>se_state := StConnected, se_greenlet := False\<rparr>)\<lparr>se_remote_focus := b, se_unhandled := [],
        se_proposed := q, se_log := se_log s @
        [Call (SendResponse 488 None), Post (Transaction FromRemote ''INVITE'' (Some 488))]\<rparr>" by simp
    finally show "\<exists>b. t = s\<lparr>se_remote_focus := b, se_unhandled := [],
        se_proposed := (if refused_at_once w p (se_active_remote s) ms then se_proposed s else Some []),
        se_log := se_log s @ [Call (SendResponse 488 None), Post (Transaction FromRemote ''INVITE'' (Some 488))]\<rparr>"
      unfolding idle [symmetric] q_def by blast
  next
    assume "\<not> refused_at_once w p (se_active_remote s) ms \<and> \<not> nothing_known w p (se_active_remote s) \<and>
      new_indexes p (se_active_remote s) \<noteq> []"
    then have r: "remote_proposal w (?s b) = (Inr (), ?s b\<lparr>se_state := StReceivedProposal,
        se_proposed := Some (streams_from w p (new_indexes p (se_active_remote s))),
        se_log := se_log s @ [Call (SendResponse 100 None), Post (NewProposal FromRemote)]\<rparr>)" for b
      using remote_proposal_offered [of "?s b" ms p w] assms by simp
    obtain b where "t = ?s b\<lparr>se_state := StReceivedProposal,
        se_proposed := Some (streams_from w p (new_indexes p (se_active_remote s))),
        se_log := se_log s @ [Call (SendResponse 100 None), Post (NewProposal FromRemote)]\<rparr>\<lparr>se_greenlet := False\<rparr>"
      using handle_proposal [OF assms(1,2,6,7) r] t by auto
    also have "\<dots> = (s\<lparr>se_state := StConnected, se_greenlet := False\<rparr>)\<lparr>se_remote_focus := b, se_unhandled := [],
        se_state := StReceivedProposal, se_proposed := Some (streams_from w p (new_indexes p (se_active_remote s))),
        se_log := se_log s @ [Call (SendResponse 100 None), Post (NewProposal FromRemote)]\<rparr>" by simp
    finally show "\<exists>b. t = s\<lparr>se_remote_focus := b, se_unhandled := [], se_state := StReceivedProposal,
        se_proposed := Some (streams_from w p (new_indexes p (se_active_remote s))),
        se_log := se_log s @ [Call (SendResponse 100 None), Post (NewProposal FromRemote)]\<rparr>"
      unfolding idle [symmetric] by blast
  }
qed

text \<open>A session with one audio stream is offered video instead, and one more audio stream.\<close>

definition sample_media :: "string \<Rightarrow> media" where
  "sample_media kind = \<lparr>md_kind = kind, md_port = 4000, md_connection = None, md_ice = False\<rparr>"

definition sample_session :: "sdp \<Rightarrow> session" where
  "sample_session offered = session_new\<lparr>se_state := StConnected, se_streams := Some [\<lparr>sm_id = 1, sm_index = 0\<rparr>],
     se_active_remote := no_sdp\<lparr>sd_media := [sample_media ''audio'']\<rparr>, se_proposed_remote := Some offered\<rparr>"

definition sample_proposal :: inv_change where
  "sample_proposal = sample_change\<lparr>ic_state := InvConnected, ic_sub := SubReceivedProposal\<rparr>"

lemma sample_session_fields:
  "se_state (sample_session p) = StConnected" "\<not> se_greenlet (sample_session p)" "se_calls (sample_session p) = []"
  "se_streams (sample_session p) = Some [\<lparr>sm_id = 1, sm_index = 0\<rparr>]" "se_proposed_remote (sample_session p) = Some p"
  "se_active_remote (sample_session p) = no_sdp\<lparr>sd_media := [sample_media ''audio'']\<rparr>"
  "ic_state sample_proposal = InvConnected" "ic_sub sample_proposal = SubReceivedProposal"
  by (simp_all add: sample_session_def session_new_def sample_proposal_def)

lemma sample_media_fields: "md_port (sample_media k) = 4000" "md_kind (sample_media k) = k"
  by (simp_all add: sample_media_def)

definition sample_active :: sdp where
  "sample_active = no_sdp\<lparr>sd_media := [sample_media ''audio'']\<rparr>"

definition sample_video :: sdp where
  "sample_video = no_sdp\<lparr>sd_media := [sample_media ''video'']\<rparr>"

definition sample_more :: sdp where
  "sample_more = no_sdp\<lparr>sd_media := [sample_media ''audio'', sample_media ''audio'']\<rparr>"

lemma sample_offers_media:
  "sd_media sample_active = [sample_media ''audio'']" "sd_media sample_video = [sample_media ''video'']"
  "sd_media sample_more = [sample_media ''audio'', sample_media ''audio'']"
  by (simp_all add: sample_active_def sample_video_def sample_more_def)

lemma sample_indexes:
  "new_indexes sample_video sample_active = [0]" "removed_indexes sample_video sample_active = [0]"
  "new_indexes sample_more sample_active = [1]" "removed_indexes sample_more sample_active = []"
  by (simp_all add: new_indexes_def removed_indexes_def is_added_def is_removed_def is_reused_def media_indexes_def
      sample_offers_media sample_media_fields upt_rec)

definition sample_unknown :: sdp where
  "sample_unknown = no_sdp\<lparr>sd_media := [sample_media ''audio'', sample_media ''video'']\<rparr>"

lemma sample_unknown_indexes:
  "new_indexes sample_unknown sample_active = [1]" "removed_indexes sample_unknown sample_active = []"
  by (simp_all add: sample_unknown_def new_indexes_def removed_indexes_def is_added_def is_removed_def is_reused_def
      media_indexes_def sample_offers_media sample_media_fields upt_rec)

lemma sample_refusals:
  "refused_at_once sample_world sample_video sample_active ms"
  "\<not> refused_at_once sample_world sample_more sample_active [\<lparr>sm_id = 1, sm_index = 0\<rparr>]"
  "\<not> nothing_known sample_world sample_more sample_active"
  "\<not> refused_at_once sample_world sample_unknown sample_active [\<lparr>sm_id = 1, sm_index = 0\<rparr>]"
  "nothing_known sample_world sample_unknown sample_active"
proof -
  have new: "streams_from sample_world sample_more [1] = [\<lparr>sm_id = 101, sm_index = 1\<rparr>]"
    and none: "streams_from sample_world sample_unknown [1] = []"
    by (simp_all add: streams_from_def sample_world_def sample_unknown_def sample_offers_media sample_media_fields
        List.map_filter_def)
  show "refused_at_once sample_world sample_video sample_active ms"
    by (simp add: refused_at_once_def sample_indexes)
  have "wo_validate sample_world 1 d 0" for d by (simp add: sample_world_def)
  moreover have "length (sd_media sample_unknown) = 2" by (simp add: sample_unknown_def)
  ultimately show "\<not> refused_at_once sample_world sample_more sample_active [\<lparr>sm_id = 1, sm_index = 0\<rparr>]"
    "\<not> refused_at_once sample_world sample_unknown sample_active [\<lparr>sm_id = 1, sm_index = 0\<rparr>]"
    by (simp_all add: refused_at_once_def sample_indexes sample_unknown_indexes sample_offers_media)
  show "\<not> nothing_known sample_world sample_more sample_active" "nothing_known sample_world sample_unknown sample_active"
    by (simp_all add: nothing_known_def sample_indexes sample_unknown_indexes new none del: One_nat_def)
qed

lemma session_remote_proposal_decided_witness:
  "se_log (snd (handle_notice sample_world (Changed sample_proposal) (sample_session sample_video))) =
     se_log (sample_session sample_video) @
       [Call (SendResponse 488 None), Post (Transaction FromRemote ''INVITE'' (Some 488))] \<and>
   se_proposed (snd (handle_notice sample_world (Changed sample_proposal) (sample_session sample_unknown))) = Some [] \<and>
   se_state (snd (handle_notice sample_world (Changed sample_proposal) (sample_session sample_more))) = StReceivedProposal"
proof -
  note decided = session_remote_proposal_decided [OF sample_session_fields(1-5,7,8) refl,
      unfolded sample_session_fields(6) sample_active_def [symmetric]]
  show ?thesis
    using decided [of sample_world sample_video] decided [of sample_world sample_more] decided [of sample_world sample_unknown]
      sample_refusals sample_indexes by auto
qed

section \<open>Accepting without an offer\<close>

definition same_but_script :: "session \<Rightarrow> session \<Rightarrow> bool" where
  "same_but_script s t =
     (se_log t = se_log s \<and> se_state t = se_state s \<and> se_greenlet t = se_greenlet s \<and> se_tasks t = se_tasks s \<and>
      se_proposed t = se_proposed s \<and> se_proposed_remote t = se_proposed_remote s)"

lemma initialized_loop:
  assumes "se_script s = map (\<lambda>m. Item st u False (Got (Initialized (sm_id m)))) ms" "se_resent s = []"
  shows "\<exists>t. loopE (length ms) Stuck (\<lambda>k s. 0 < k)
      (\<lambda>k. bindE (wait False) (\<lambda>n. retE (case n of Initialized i \<Rightarrow> k - 1 | _ \<Rightarrow> k))) (length ms) s = (Inr 0, t) \<and>
    same_but_script s t"
  using assms
proof (induction ms arbitrary: s)
  case Nil
  then show ?case by (simp add: same_but_script_def)
next
  case (Cons m ms)
  define s' where "s' = arrives st u False (Got (Initialized (sm_id m))) (s\<lparr>se_script := map (\<lambda>m. Item st u False (Got (Initialized (sm_id m)))) ms\<rparr>)"
  have w: "wait False s = (Inr (Initialized (sm_id m)), s')"
    using Cons.prems by (simp add: wait_def s'_def Let_def)
  have "se_script s' = map (\<lambda>m. Item st u False (Got (Initialized (sm_id m)))) ms" "se_resent s' = []" "same_but_script s s'"
    using Cons.prems by (simp_all add: s'_def arrives_def Let_def same_but_script_def)
  with Cons.IH [of s'] show ?case by (auto simp: w bindE_def retE_def same_but_script_def)
qed

lemma for_silent:
  "\<exists>t. forE ms (\<lambda>m. bindE (observe_stream m) (\<lambda>u. on_stream (Initialize (sm_id m) b))) s = (Inr (), t) \<and>
     se_state t = se_state s \<and> se_greenlet t = se_greenlet s \<and> se_script t = se_script s \<and> se_resent t = se_resent s \<and>
     se_proposed_remote t = se_proposed_remote s \<and> finals t = finals s \<and>
     filter (\<lambda>e. \<exists>c. e = Call c) (se_log t) = filter (\<lambda>e. \<exists>c. e = Call c) (se_log s)"
proof (induction ms arbitrary: s)
  case (Cons m ms)
  define s' where "s' = s\<lparr>se_observed := sm_id m # se_observed s, se_log := se_log s @ [OnStream (Initialize (sm_id m) b)]\<rparr>"
  have act: "bindE (observe_stream m) (\<lambda>u. on_stream (Initialize (sm_id m) b)) s = (Inr (), s')"
    by (simp add: bindE_def on_stream_def observe_stream_def log_effect_def modifyE_def s'_def)
  have "forE (m # ms) (\<lambda>m. bindE (observe_stream m) (\<lambda>u. on_stream (Initialize (sm_id m) b))) s =
      forE ms (\<lambda>m. bindE (observe_stream m) (\<lambda>u. on_stream (Initialize (sm_id m) b))) s'"
    by (simp only: forE.simps bindE_def [of _ "\<lambda>u. forE ms f" for f] act prod.case sum.case)
  moreover have "se_state s' = se_state s" "se_greenlet s' = se_greenlet s" "se_script s' = se_script s"
    "se_resent s' = se_resent s" "se_proposed_remote s' = se_proposed_remote s" "finals s' = finals s"
    "filter (\<lambda>e. \<exists>c. e = Call c) (se_log s') = filter (\<lambda>e. \<exists>c. e = Call c) (se_log s)"
    by (simp_all add: s'_def finals_def)
  ultimately show ?case using Cons.IH [of s'] by simp
qed (simp add: retE_def)

text \<open>
  A call without an offer cannot be accepted: once the streams have initialized, \<open>accept\<close>
  reads an attribute of the missing description; the exception has no clause and ends the
  procedure with the session in state \<open>accepting\<close>, no response sent and no failure reported.
\<close>

theorem session_accept_without_offer_fails:
  assumes "se_proposed s = Some []" "se_proposed_remote s = None" "se_resent s = []"
    and "se_script s = map (\<lambda>m. Item st u False (Got (Initialized (sm_id m)))) ms"
  shows "\<exists>t. accept_body w ms focus False s = (Inl (Uncaught AttributeError), t) \<and>
     se_state t = se_state s \<and> se_greenlet t \<and> finals t = finals s \<and>
     filter (\<lambda>e. \<exists>c. e = Call c) (se_log t) = filter (\<lambda>e. \<exists>c. e = Call c) (se_log s)"
proof -
  define s0 where "s0 = s\<lparr>se_greenlet := True, se_local_focus := focus, se_connected := False\<rparr>"
  obtain s1 where s1: "forE (numbered ms) (\<lambda>m. bindE (observe_stream m) (\<lambda>u. on_stream (Initialize (sm_id m) False))) s0 = (Inr (), s1)"
    "se_state s1 = se_state s0" "se_greenlet s1 = se_greenlet s0" "se_script s1 = se_script s0" "se_resent s1 = se_resent s0"
    "se_proposed_remote s1 = se_proposed_remote s0" "finals s1 = finals s0"
    "filter (\<lambda>e. \<exists>c. e = Call c) (se_log s1) = filter (\<lambda>e. \<exists>c. e = Call c) (se_log s0)"
    using for_silent [of "numbered ms" False s0] by blast
  define s2 where "s2 = s1\<lparr>se_proposed := Some (numbered ms)\<rparr>"
  have init: "accept_init ms s0 = (Inr (), s2)"
    using s1(1) assms(1) by (simp add: accept_init_def session_actions s0_def the_list_def s2_def)
  have "se_script s2 = map (\<lambda>m. Item st u False (Got (Initialized (sm_id m)))) ms" "se_resent s2 = []"
    using s1(4,5) assms(3,4) by (simp_all add: s2_def s0_def)
  from initialized_loop [OF this] obtain s3 where s3: "wait_initialized (length ms) s2 = (Inr (), s3)" "same_but_script s2 s3"
    using \<open>se_script s2 = _\<close> \<open>se_resent s2 = []\<close>
    by (auto simp: wait_initialized_def wait_loop_def bindE_def readE_def retE_def)
  have n: "length (numbered ms) = length ms" by (simp add: numbered_def)
  have "accept_main w s2 = (Inl (Uncaught AttributeError), s3)"
    using s3 s1(6) assms(2)
    by (simp add: accept_main_def proposed_streams_def bindE_def readE_def retE_def raiseE_def same_but_script_def s2_def s0_def n)
  then have "accept_body w ms focus False s = (Inl (Uncaught AttributeError), s3)"
    by (simp add: accept_body_def bindE_def modifyE_def catchE_def init raiseE_def is_media_failure_def is_core_def
        flip: s0_def)
  then show ?thesis
    using s3(2) s1 by (simp add: same_but_script_def s2_def s0_def finals_def)
qed

lemma session_accept_without_offer_fails_witness:
  "\<exists>t. accept_body sample_world [\<lparr>sm_id = 7, sm_index = 0\<rparr>] False False
      (provide (sample_surroundings [Item InvIncoming SubNone False (Got (Initialized 7))]) sample_incoming)
      = (Inl (Uncaught AttributeError), t) \<and> se_greenlet t"
  using session_accept_without_offer_fails [of "provide (sample_surroundings [Item InvIncoming SubNone False (Got (Initialized 7))]) sample_incoming"
      InvIncoming SubNone "[\<lparr>sm_id = 7, sm_index = 0\<rparr>]" sample_world False]
  by (auto simp: sample_incoming_def init_incoming_def sample_surroundings_def provide_def session_actions)

end
