(* ===== verification/Audio_Bridge.thy ===== *)
theory Audio_Bridge
  imports Prelude
begin

text \<open>
  Audio devices, bridges and conferences, \<open>sipsimple/audio.py\<close>. An audio port reads from and
  writes to slots of a mixer; a bridge connects the slots of its ports with each other, and
  can itself be a port of another bridge, through two mixer ports. The mixer keeps the list
  of connected slots (\<open>connect_slots\<close> and \<open>disconnect_slots\<close> of \<open>core/_core.sound.pxi\<close>; the calls to the
  sound library succeed). Ports are named by their identity; the attributes read from a port are the
  current ones.
\<close>

section \<open>The mixer\<close>

type_synonym connections = "(nat \<times> nat) list"

definition connect_slots :: "nat \<Rightarrow> nat \<Rightarrow> connections \<Rightarrow> connections" where
  "connect_slots a b c = (if (a, b) \<in> set c then c else c @ [(a, b)])"

definition disconnect_slots :: "nat \<Rightarrow> nat \<Rightarrow> connections \<Rightarrow> connections" where
  "disconnect_slots a b c = removeAll (a, b) c"

text \<open>\<open>_remove_port\<close>: a port that stops takes its connections with it.\<close>

definition free_slot :: "nat option \<Rightarrow> connections \<Rightarrow> connections" where
  "free_slot s c = (case s of None \<Rightarrow> c | Some x \<Rightarrow> filter (\<lambda>(a, b). a \<noteq> x \<and> b \<noteq> x) c)"

text \<open>\<open>if a is not None and b is not None: connect_slots(a, b)\<close>\<close>

definition link :: "nat option \<Rightarrow> nat option \<Rightarrow> connections \<Rightarrow> connections" where
  "link a b c = (case (a, b) of (Some x, Some y) \<Rightarrow> connect_slots x y c | _ \<Rightarrow> c)"

definition unlink :: "nat option \<Rightarrow> nat option \<Rightarrow> connections \<Rightarrow> connections" where
  "unlink a b c = (case (a, b) of (Some x, Some y) \<Rightarrow> disconnect_slots x y c | _ \<Rightarrow> c)"

section \<open>Ports\<close>

record audio_port =
  po_mixer :: nat
  po_consumer :: "nat option"
  po_producer :: "nat option"

text \<open>\<open>AudioPortDidChangeSlots\<close>: what changed, with the old and the new slot.\<close>

record slots_changed =
  sc_consumer :: "(nat option \<times> nat option) option"
  sc_producer :: "(nat option \<times> nat option) option"

text \<open>An \<open>AudioDevice\<close> is the device of a mixer, whose slot is 0.\<close>

record audio_device =
  ad_input_muted :: bool
  ad_output_muted :: bool

definition device_consumer :: "audio_device \<Rightarrow> nat option" where
  "device_consumer d = (if ad_output_muted d then None else Some 0)"

definition device_producer :: "audio_device \<Rightarrow> nat option" where
  "device_producer d = (if ad_input_muted d then None else Some 0)"

definition set_input_muted :: "bool \<Rightarrow> audio_device \<Rightarrow> audio_device \<times> slots_changed option" where
  "set_input_muted v d =
     (if v = ad_input_muted d then (d, None)
      else let d' = d\<lparr>ad_input_muted := v\<rparr>
           in (d', Some \<lparr>sc_consumer = None, sc_producer = Some (device_producer d, device_producer d')\<rparr>))"

definition set_output_muted :: "bool \<Rightarrow> audio_device \<Rightarrow> audio_device \<times> slots_changed option" where
  "set_output_muted v d =
     (if v = ad_output_muted d then (d, None)
      else let d' = d\<lparr>ad_output_muted := v\<rparr>
           in (d', Some \<lparr>sc_consumer = Some (device_consumer d, device_consumer d'), sc_producer = None\<rparr>))"

section \<open>AudioBridge\<close>

text \<open>The slots of the two mixer ports are \<open>None\<close> once these are stopped.\<close>

record 'p bridge =
  br_mixer :: nat
  br_ports :: "'p list"
  br_multiplexer :: "nat option"
  br_demultiplexer :: "nat option"

definition bridge_init :: "nat \<Rightarrow> nat \<Rightarrow> nat \<Rightarrow> 'p bridge" where
  "bridge_init mixer mux demux =
     \<lparr>br_mixer = mixer, br_ports = [], br_multiplexer = Some mux, br_demultiplexer = Some demux\<rparr>"

definition bridge_consumer :: "'p bridge \<Rightarrow> nat option" where
  "bridge_consumer b = br_demultiplexer b"

definition bridge_producer :: "'p bridge \<Rightarrow> nat option" where
  "bridge_producer b = br_multiplexer b"

definition link_ports :: "audio_port \<Rightarrow> audio_port \<Rightarrow> connections \<Rightarrow> connections" where
  "link_ports port other c =
     link (po_producer port) (po_consumer other) (link (po_producer other) (po_consumer port) c)"

definition unlink_ports :: "audio_port \<Rightarrow> audio_port \<Rightarrow> connections \<Rightarrow> connections" where
  "unlink_ports port other c =
     unlink (po_producer port) (po_consumer other) (unlink (po_producer other) (po_consumer port) c)"

definition bridge_add ::
  "('p \<Rightarrow> audio_port) \<Rightarrow> 'p \<Rightarrow> 'p bridge \<times> connections \<Rightarrow> unit result \<times> 'p bridge \<times> connections" where
  "bridge_add ports p bc =
     (case bc of (b, c) \<Rightarrow>
        if po_mixer (ports p) \<noteq> br_mixer b then (Inl ValueError, b, c)
        else if p \<in> set (br_ports b) then (Inr (), b, c)
        else
          let c = link (br_demultiplexer b) (po_consumer (ports p)) c;
              c = link (po_producer (ports p)) (br_multiplexer b) c;
              c = fold (\<lambda>q. link_ports (ports p) (ports q)) (br_ports b) c
          in (Inr (), b\<lparr>br_ports := br_ports b @ [p]\<rparr>, c))"

definition bridge_remove ::
  "('p \<Rightarrow> audio_port) \<Rightarrow> 'p \<Rightarrow> 'p bridge \<times> connections \<Rightarrow> unit result \<times> 'p bridge \<times> connections" where
  "bridge_remove ports p bc =
     (case bc of (b, c) \<Rightarrow>
        if p \<notin> set (br_ports b) then (Inl ValueError, b, c)
        else
          let c = unlink (br_demultiplexer b) (po_consumer (ports p)) c;
              c = unlink (po_producer (ports p)) (br_multiplexer b) c;
              c = fold (\<lambda>q. unlink_ports (ports p) (ports q)) (br_ports b) c
          in (Inr (), b\<lparr>br_ports := removeAll p (br_ports b)\<rparr>, c))"

definition bridge_stop :: "('p \<Rightarrow> audio_port) \<Rightarrow> 'p bridge \<times> connections \<Rightarrow> 'p bridge \<times> connections" where
  "bridge_stop ports bc =
     (case bc of (b, c) \<Rightarrow>
        let c = fold (\<lambda>p. fold (\<lambda>q. unlink_ports (ports q) (ports p)) (removeAll p (br_ports b))) (br_ports b) c;
            c = free_slot (br_demultiplexer b) (free_slot (br_multiplexer b) c)
        in (b\<lparr>br_ports := [], br_multiplexer := None, br_demultiplexer := None\<rparr>, c))"

text \<open>The handler of \<open>AudioPortDidChangeSlots\<close>, for a changed consumer and a changed producer.\<close>

definition consumer_moves ::
  "('p \<Rightarrow> audio_port) \<Rightarrow> 'p \<Rightarrow> nat option \<times> nat option \<Rightarrow> 'p bridge \<Rightarrow> connections \<Rightarrow> connections" where
  "consumer_moves ports p slots b c =
     (case slots of (old, new) \<Rightarrow>
        let c = unlink (br_demultiplexer b) old c; c = link (br_demultiplexer b) new c
        in fold (\<lambda>q c. link (po_producer (ports q)) new (unlink (po_producer (ports q)) old c))
             (removeAll p (br_ports b)) c)"

definition producer_moves ::
  "('p \<Rightarrow> audio_port) \<Rightarrow> 'p \<Rightarrow> nat option \<times> nat option \<Rightarrow> 'p bridge \<Rightarrow> connections \<Rightarrow> connections" where
  "producer_moves ports p slots b c =
     (case slots of (old, new) \<Rightarrow>
        let c = unlink old (br_multiplexer b) c; c = link new (br_multiplexer b) c
        in fold (\<lambda>q c. link new (po_consumer (ports q)) (unlink old (po_consumer (ports q)) c))
             (removeAll p (br_ports b)) c)"

definition bridge_notified ::
  "('p \<Rightarrow> audio_port) \<Rightarrow> 'p \<Rightarrow> slots_changed \<Rightarrow> 'p bridge \<times> connections \<Rightarrow> 'p bridge \<times> connections" where
  "bridge_notified ports p n bc =
     (case bc of (b, c) \<Rightarrow>
        if p \<notin> set (br_ports b) then (b, c)
        else
          let c = (case sc_consumer n of None \<Rightarrow> c | Some slots \<Rightarrow> consumer_moves ports p slots b c);
              c = (case sc_producer n of None \<Rightarrow> c | Some slots \<Rightarrow> producer_moves ports p slots b c)
          in (b, c))"

text \<open>A port that is collected leaves the bridge, its connections stay.\<close>

definition bridge_port_collected :: "'p \<Rightarrow> 'p bridge \<Rightarrow> 'p bridge" where
  "bridge_port_collected p b = b\<lparr>br_ports := removeAll p (br_ports b)\<rparr>"

section \<open>RootAudioBridge\<close>

record 'p root_bridge =
  ro_mixer :: nat
  ro_ports :: "'p list"

definition root_init :: "nat \<Rightarrow> 'p root_bridge" where
  "root_init mixer = \<lparr>ro_mixer = mixer, ro_ports = []\<rparr>"

definition root_add ::
  "('p \<Rightarrow> audio_port) \<Rightarrow> 'p \<Rightarrow> 'p root_bridge \<times> connections \<Rightarrow> unit result \<times> 'p root_bridge \<times> connections" where
  "root_add ports p bc =
     (case bc of (b, c) \<Rightarrow>
        if po_mixer (ports p) \<noteq> ro_mixer b then (Inl ValueError, b, c)
        else if p \<in> set (ro_ports b) then (Inr (), b, c)
        else (Inr (), b\<lparr>ro_ports := ro_ports b @ [p]\<rparr>, fold (\<lambda>q. link_ports (ports p) (ports q)) (ro_ports b) c))"

definition root_remove ::
  "('p \<Rightarrow> audio_port) \<Rightarrow> 'p \<Rightarrow> 'p root_bridge \<times> connections \<Rightarrow> unit result \<times> 'p root_bridge \<times> connections" where
  "root_remove ports p bc =
     (case bc of (b, c) \<Rightarrow>
        if p \<notin> set (ro_ports b) then (Inl ValueError, b, c)
        else (Inr (), b\<lparr>ro_ports := removeAll p (ro_ports b)\<rparr>, fold (\<lambda>q. unlink_ports (ports p) (ports q)) (ro_ports b) c))"

definition root_notified ::
  "('p \<Rightarrow> audio_port) \<Rightarrow> 'p \<Rightarrow> slots_changed \<Rightarrow> 'p root_bridge \<times> connections \<Rightarrow> 'p root_bridge \<times> connections" where
  "root_notified ports p n bc =
     (case bc of (b, c) \<Rightarrow>
        if p \<notin> set (ro_ports b) then (b, c)
        else
          let others = removeAll p (ro_ports b);
              c = (case sc_consumer n of None \<Rightarrow> c
                   | Some (old, new) \<Rightarrow> fold (\<lambda>q c. link (po_producer (ports q)) new (unlink (po_producer (ports q)) old c)) others c);
              c = (case sc_producer n of None \<Rightarrow> c
                   | Some (old, new) \<Rightarrow> fold (\<lambda>q c. link new (po_consumer (ports q)) (unlink old (po_consumer (ports q)) c)) others c)
          in (b, c))"

section \<open>What is connected\<close>

definition pairs :: "nat option \<Rightarrow> nat option \<Rightarrow> (nat \<times> nat) set" where
  "pairs a b = {(x, y). a = Some x \<and> b = Some y}"

lemma pairs_simps [simp]: "pairs None b = {}" "pairs a None = {}" "pairs (Some x) (Some y) = {(x, y)}"
  by (auto simp: pairs_def)

lemma set_link [simp]: "set (link a b c) = set c \<union> pairs a b"
  by (auto simp: link_def connect_slots_def split: option.split)

lemma set_unlink [simp]: "set (unlink a b c) = set c - pairs a b"
  by (auto simp: unlink_def disconnect_slots_def split: option.split)

lemma set_free_slot: "set (free_slot s c) = {(a, b) \<in> set c. s \<noteq> Some a \<and> s \<noteq> Some b}"
  by (auto simp: free_slot_def split: option.split)

lemma set_fold_link:
  "(\<And>q d. set (f q d) = set d \<union> g q) \<Longrightarrow> set (fold f qs c) = set c \<union> (\<Union>q\<in>set qs. g q)"
  by (induction qs arbitrary: c) auto

lemma set_fold_unlink:
  "(\<And>q d. set (f q d) = set d - g q) \<Longrightarrow> set (fold f qs c) = set c - (\<Union>q\<in>set qs. g q)"
  by (induction qs arbitrary: c) auto

lemma set_fold_move:
  "(\<And>q d. set (f q d) = (set d - g q) \<union> h q) \<Longrightarrow> (\<And>q r. h q \<inter> g r \<subseteq> h r) \<Longrightarrow>
   set (fold f qs c) = (set c - (\<Union>q\<in>set qs. g q)) \<union> (\<Union>q\<in>set qs. h q)"
proof (induction qs arbitrary: c)
  case (Cons q qs)
  have "set (fold f qs (f q c)) = (set (f q c) - (\<Union>q\<in>set qs. g q)) \<union> (\<Union>q\<in>set qs. h q)"
    using Cons by simp
  moreover have "h q \<inter> (\<Union>r\<in>set qs. g r) \<subseteq> (\<Union>r\<in>set qs. h r)" using Cons.prems(2) by fastforce
  ultimately show ?case by (simp add: Cons.prems(1)) blast
qed simp

text \<open>Every producer with every consumer of another port, and both mixer ports with all of them.\<close>

definition mesh :: "('p \<Rightarrow> audio_port) \<Rightarrow> 'p set \<Rightarrow> nat option \<Rightarrow> nat option \<Rightarrow> (nat \<times> nat) set" where
  "mesh ports P mux demux =
     {(x, y). \<exists>p\<in>P. \<exists>q\<in>P. p \<noteq> q \<and> po_producer (ports p) = Some x \<and> po_consumer (ports q) = Some y} \<union>
     {(x, y). \<exists>p\<in>P. po_producer (ports p) = Some x \<and> mux = Some y} \<union>
     {(x, y). \<exists>q\<in>P. demux = Some x \<and> po_consumer (ports q) = Some y}"

text \<open>Slots belong to one port each, as the mixer hands them out.\<close>

definition slots_apart :: "('p \<Rightarrow> audio_port) \<Rightarrow> 'p set \<Rightarrow> nat option \<Rightarrow> nat option \<Rightarrow> bool" where
  "slots_apart ports P mux demux =
     ((\<forall>p\<in>P. \<forall>q\<in>P. p \<noteq> q \<longrightarrow>
         (po_producer (ports p) = None \<or> po_producer (ports p) \<noteq> po_producer (ports q)) \<and>
         (po_consumer (ports p) = None \<or> po_consumer (ports p) \<noteq> po_consumer (ports q))) \<and>
      (\<forall>p\<in>P. (mux = None \<or> po_consumer (ports p) \<noteq> mux) \<and> (demux = None \<or> po_producer (ports p) \<noteq> demux)) \<and>
      (mux = None \<or> mux \<noteq> demux))"

lemma mesh_insert:
  assumes "p \<notin> P"
  shows "mesh ports (insert p P) mux demux = mesh ports P mux demux \<union>
    pairs demux (po_consumer (ports p)) \<union> pairs (po_producer (ports p)) mux \<union>
    (\<Union>q\<in>P. pairs (po_producer (ports q)) (po_consumer (ports p)) \<union> pairs (po_producer (ports p)) (po_consumer (ports q)))"
  using assms by (auto simp: mesh_def pairs_def)

lemma mesh_remove:
  assumes "p \<in> P" "slots_apart ports P mux demux"
  shows "mesh ports (P - {p}) mux demux = mesh ports P mux demux -
    pairs demux (po_consumer (ports p)) - pairs (po_producer (ports p)) mux -
    (\<Union>q\<in>P. pairs (po_producer (ports q)) (po_consumer (ports p)) \<union> pairs (po_producer (ports p)) (po_consumer (ports q)))"
    (is "?l = ?r")
proof
  have producers: "q = r" if "q \<in> P" "r \<in> P" "po_producer (ports q) = Some x" "po_producer (ports r) = Some x" for q r x
    using assms(2) that unfolding slots_apart_def by (metis option.distinct(1))
  have consumers: "q = r" if "q \<in> P" "r \<in> P" "po_consumer (ports q) = Some x" "po_consumer (ports r) = Some x" for q r x
    using assms(2) that unfolding slots_apart_def by (metis option.distinct(1))
  have others: "q \<in> P \<Longrightarrow> mux = Some y \<Longrightarrow> po_consumer (ports q) \<noteq> Some y"
    "q \<in> P \<Longrightarrow> demux = Some y \<Longrightarrow> po_producer (ports q) \<noteq> Some y" "mux = Some y \<Longrightarrow> demux \<noteq> Some y" for q y
    using assms(2) unfolding slots_apart_def by (metis option.distinct(1))+
  show "?l \<subseteq> ?r"
  proof
    fix e assume "e \<in> ?l"
    then obtain x y where e: "e = (x, y)" "(x, y) \<in> ?l" by (cases e) auto
    then consider
        (ports) q r where "q \<in> P" "q \<noteq> p" "r \<in> P" "r \<noteq> p" "q \<noteq> r" "po_producer (ports q) = Some x" "po_consumer (ports r) = Some y"
      | (mux) q where "q \<in> P" "q \<noteq> p" "po_producer (ports q) = Some x" "mux = Some y"
      | (demux) q where "q \<in> P" "q \<noteq> p" "demux = Some x" "po_consumer (ports q) = Some y"
      unfolding mesh_def by auto
    then have "(x, y) \<in> ?r"
    proof cases
      case ports
      have "(x, y) \<in> mesh ports P mux demux" using ports unfolding mesh_def by blast
      moreover have "po_producer (ports p) \<noteq> Some x" "po_consumer (ports p) \<noteq> Some y" "demux \<noteq> Some x" "mux \<noteq> Some y"
        using ports producers consumers others assms(1) by blast+
      ultimately show ?thesis unfolding pairs_def by auto
    next
      case mux
      have "(x, y) \<in> mesh ports P mux demux" using mux unfolding mesh_def by blast
      moreover have "po_producer (ports p) \<noteq> Some x" "demux \<noteq> Some x" "\<And>r. r \<in> P \<Longrightarrow> po_consumer (ports r) \<noteq> Some y"
        using mux producers others assms(1) by blast+
      ultimately show ?thesis using assms(1) unfolding pairs_def by auto
    next
      case demux
      have "(x, y) \<in> mesh ports P mux demux" using demux unfolding mesh_def by blast
      moreover have "po_consumer (ports p) \<noteq> Some y" "mux \<noteq> Some y" "\<And>r. r \<in> P \<Longrightarrow> po_producer (ports r) \<noteq> Some x"
        using demux consumers others assms(1) by blast+
      ultimately show ?thesis using assms(1) unfolding pairs_def by auto
    qed
    then show "e \<in> ?r" using e by simp
  qed
  show "?r \<subseteq> ?l"
    using assms(1) unfolding mesh_def pairs_def by auto
qed

lemma mesh_empty [simp]: "mesh ports {} mux demux = {}"
  by (simp add: mesh_def)

lemma mesh_cong: "(\<And>q. q \<in> P \<Longrightarrow> ports q = ports' q) \<Longrightarrow> mesh ports P mux demux = mesh ports' P mux demux"
  by (simp add: mesh_def cong: bex_cong)

lemma mesh_targets:
  assumes "slots_apart ports (insert p P) mux demux" "p \<notin> P" "po_consumer (ports p) = Some y"
  shows "(x, y) \<notin> mesh ports P mux demux" "mux \<noteq> Some y" "q \<in> P \<Longrightarrow> po_consumer (ports q) \<noteq> Some y"
proof -
  have other: "po_consumer (ports q) \<noteq> Some y" if "q \<in> P" for q
    using assms that unfolding slots_apart_def by (metis insertI1 insertI2 option.distinct(1))
  have mux: "mux \<noteq> Some y" using assms unfolding slots_apart_def by (metis insertI1 option.distinct(1))
  show "(x, y) \<notin> mesh ports P mux demux" using other mux unfolding mesh_def by auto
  show "mux \<noteq> Some y" by (rule mux)
  show "q \<in> P \<Longrightarrow> po_consumer (ports q) \<noteq> Some y" by (rule other)
qed

lemma mesh_sources:
  assumes "slots_apart ports (insert p P) mux demux" "p \<notin> P" "po_producer (ports p) = Some x"
  shows "(x, y) \<notin> mesh ports P mux demux" "demux \<noteq> Some x" "q \<in> P \<Longrightarrow> po_producer (ports q) \<noteq> Some x"
proof -
  have other: "po_producer (ports q) \<noteq> Some x" if "q \<in> P" for q
    using assms that unfolding slots_apart_def by (metis insertI1 insertI2 option.distinct(1))
  have demux: "demux \<noteq> Some x" using assms unfolding slots_apart_def by (metis insertI1 option.distinct(1))
  show "(x, y) \<notin> mesh ports P mux demux" using other demux unfolding mesh_def by auto
  show "demux \<noteq> Some x" by (rule demux)
  show "q \<in> P \<Longrightarrow> po_producer (ports q) \<noteq> Some x" by (rule other)
qed

lemma move_sets: "m \<inter> d = {} \<Longrightarrow> a = m \<union> d \<Longrightarrow> b = m \<union> d' \<Longrightarrow> b = (a - d) \<union> d'"
  by blast

text \<open>A port that moves its consumer, or its producer, to another slot.\<close>

lemma mesh_consumer_moves:
  assumes "p \<notin> P" "slots_apart ports (insert p P) mux demux"
    and "po_consumer (ports p) = old" "ports' = ports(p := (ports p)\<lparr>po_consumer := new\<rparr>)"
  shows "mesh ports' (insert p P) mux demux =
    (mesh ports (insert p P) mux demux - (pairs demux old \<union> (\<Union>q\<in>P. pairs (po_producer (ports q)) old))) \<union>
    (pairs demux new \<union> (\<Union>q\<in>P. pairs (po_producer (ports q)) new))"
proof -
  have same: "mesh ports' P mux demux = mesh ports P mux demux"
    using assms(1,4) by (intro mesh_cong) auto
  have q: "po_producer (ports' q) = po_producer (ports q)" "po_consumer (ports' q) = po_consumer (ports q)" if "q \<in> P" for q
    using assms(1,4) that by auto
  let ?m = "mesh ports P mux demux \<union> pairs (po_producer (ports p)) mux \<union>
    (\<Union>q\<in>P. pairs (po_producer (ports p)) (po_consumer (ports q)))"
  let ?d = "\<lambda>s. pairs demux s \<union> (\<Union>q\<in>P. pairs (po_producer (ports q)) s)"
  have "?m \<inter> ?d old = {}"
  proof (cases old)
    case (Some y)
    note apart = mesh_targets [OF assms(2,1) assms(3) [unfolded Some]]
    have "snd e \<noteq> y" if "e \<in> ?m" for e
      using that apart by (cases e) (auto simp: pairs_def)
    moreover have "snd e = y" if "e \<in> ?d old" for e
      using that Some by (auto simp: pairs_def)
    ultimately show ?thesis by blast
  qed simp
  moreover have "mesh ports (insert p P) mux demux = ?m \<union> ?d old"
    unfolding mesh_insert [OF assms(1)] assms(3) [symmetric] by (simp add: UN_Un_distrib Un_ac)
  moreover have "mesh ports' (insert p P) mux demux = ?m \<union> ?d new"
  proof -
    have p: "po_producer (ports' p) = po_producer (ports p)" "po_consumer (ports' p) = new" using assms(4) by simp_all
    have "(\<Union>q\<in>P. pairs (po_producer (ports' q)) (po_consumer (ports' p)) \<union> pairs (po_producer (ports' p)) (po_consumer (ports' q))) =
        (\<Union>q\<in>P. pairs (po_producer (ports q)) (new) \<union> pairs (po_producer (ports p)) (po_consumer (ports q)))"
      by (intro SUP_cong) (simp_all add: q p)
    then show ?thesis unfolding mesh_insert [OF assms(1)] same p by (simp add: UN_Un_distrib Un_ac)
  qed
  ultimately show ?thesis by (rule move_sets)
qed

lemma mesh_producer_moves:
  assumes "p \<notin> P" "slots_apart ports (insert p P) mux demux"
    and "po_producer (ports p) = old" "ports' = ports(p := (ports p)\<lparr>po_producer := new\<rparr>)"
  shows "mesh ports' (insert p P) mux demux =
    (mesh ports (insert p P) mux demux - (pairs old mux \<union> (\<Union>q\<in>P. pairs old (po_consumer (ports q))))) \<union>
    (pairs new mux \<union> (\<Union>q\<in>P. pairs new (po_consumer (ports q))))"
proof -
  have same: "mesh ports' P mux demux = mesh ports P mux demux"
    using assms(1,4) by (intro mesh_cong) auto
  have q: "po_producer (ports' q) = po_producer (ports q)" "po_consumer (ports' q) = po_consumer (ports q)" if "q \<in> P" for q
    using assms(1,4) that by auto
  let ?m = "mesh ports P mux demux \<union> pairs demux (po_consumer (ports p)) \<union>
    (\<Union>q\<in>P. pairs (po_producer (ports q)) (po_consumer (ports p)))"
  let ?d = "\<lambda>s. pairs s mux \<union> (\<Union>q\<in>P. pairs s (po_consumer (ports q)))"
  have "?m \<inter> ?d old = {}"
  proof (cases old)
    case (Some x)
    note apart = mesh_sources [OF assms(2,1) assms(3) [unfolded Some]]
    have "fst e \<noteq> x" if "e \<in> ?m" for e
      using that apart by (cases e) (auto simp: pairs_def)
    moreover have "fst e = x" if "e \<in> ?d old" for e
      using that Some by (auto simp: pairs_def)
    ultimately show ?thesis by blast
  qed simp
  moreover have "mesh ports (insert p P) mux demux = ?m \<union> ?d old"
    unfolding mesh_insert [OF assms(1)] assms(3) [symmetric] by (simp add: UN_Un_distrib Un_ac)
  moreover have "mesh ports' (insert p P) mux demux = ?m \<union> ?d new"
  proof -
    have p: "po_producer (ports' p) = new" "po_consumer (ports' p) = po_consumer (ports p)" using assms(4) by simp_all
    have "(\<Union>q\<in>P. pairs (po_producer (ports' q)) (po_consumer (ports' p)) \<union> pairs (po_producer (ports' p)) (po_consumer (ports' q))) =
        (\<Union>q\<in>P. pairs (po_producer (ports q)) (po_consumer (ports p)) \<union> pairs (new) (po_consumer (ports q)))"
      by (intro SUP_cong) (simp_all add: q p)
    then show ?thesis unfolding mesh_insert [OF assms(1)] same p by (simp add: UN_Un_distrib Un_ac)
  qed
  ultimately show ?thesis by (rule move_sets)
qed

section \<open>The operations keep the mesh\<close>

definition bridge_mesh :: "('p \<Rightarrow> audio_port) \<Rightarrow> 'p bridge \<Rightarrow> (nat \<times> nat) set" where
  "bridge_mesh ports b = mesh ports (set (br_ports b)) (br_multiplexer b) (br_demultiplexer b)"

definition apart :: "('p \<Rightarrow> audio_port) \<Rightarrow> 'p bridge \<Rightarrow> bool" where
  "apart ports b = slots_apart ports UNIV (br_multiplexer b) (br_demultiplexer b)"

lemma slots_apart_subset: "slots_apart ports P mux demux \<Longrightarrow> Q \<subseteq> P \<Longrightarrow> slots_apart ports Q mux demux"
  unfolding slots_apart_def by (meson subsetD)

lemma apart_members: "apart ports b \<Longrightarrow> slots_apart ports P (br_multiplexer b) (br_demultiplexer b)"
  unfolding apart_def by (erule slots_apart_subset) simp

lemma link_ports_set: "set (link_ports a b c) = set c \<union> (pairs (po_producer b) (po_consumer a) \<union> pairs (po_producer a) (po_consumer b))"
  and unlink_ports_set: "set (unlink_ports a b c) = set c - (pairs (po_producer b) (po_consumer a) \<union> pairs (po_producer a) (po_consumer b))"
  by (auto simp: link_ports_def unlink_ports_def)

lemma bridge_add_mesh:
  assumes "set c = bridge_mesh ports b" "bridge_add ports p (b, c) = (r, b', c')"
  shows "set c' = bridge_mesh ports b' \<and> br_multiplexer b' = br_multiplexer b \<and> br_demultiplexer b' = br_demultiplexer b"
  using assms
  by (auto simp: bridge_add_def Let_def bridge_mesh_def mesh_insert set_fold_link [OF link_ports_set] split: if_splits)

lemma bridge_remove_mesh:
  assumes "set c = bridge_mesh ports b" "apart ports b" "bridge_remove ports p (b, c) = (r, b', c')"
  shows "set c' = bridge_mesh ports b' \<and> br_multiplexer b' = br_multiplexer b \<and> br_demultiplexer b' = br_demultiplexer b"
proof (cases "p \<in> set (br_ports b)")
  case True
  have "mesh ports (set (br_ports b) - {p}) (br_multiplexer b) (br_demultiplexer b) = bridge_mesh ports b -
      pairs (br_demultiplexer b) (po_consumer (ports p)) - pairs (po_producer (ports p)) (br_multiplexer b) -
      (\<Union>q\<in>set (br_ports b). pairs (po_producer (ports q)) (po_consumer (ports p)) \<union> pairs (po_producer (ports p)) (po_consumer (ports q)))"
    using mesh_remove [OF True apart_members [OF assms(2)]] by (simp add: bridge_mesh_def)
  then show ?thesis
    using assms(1,3) True by (auto simp: bridge_remove_def Let_def bridge_mesh_def set_fold_unlink [OF unlink_ports_set])
qed (use assms in \<open>auto simp: bridge_remove_def\<close>)

lemma pairs_move: "pairs a new \<inter> pairs b old \<subseteq> pairs b new" "pairs new a \<inter> pairs old b \<subseteq> pairs new b"
  by (auto simp: pairs_def)

lemma move_after:
  "k \<inter> g \<subseteq> h \<Longrightarrow> (((c - d) \<union> k) - g) \<union> h = (c - (d \<union> g)) \<union> (k \<union> h)"
  by blast

lemma consumer_moves_set:
  "set (consumer_moves ports p (old, new) b c) =
    (set c - (pairs (br_demultiplexer b) old \<union> (\<Union>q\<in>set (br_ports b) - {p}. pairs (po_producer (ports q)) old))) \<union>
    (pairs (br_demultiplexer b) new \<union> (\<Union>q\<in>set (br_ports b) - {p}. pairs (po_producer (ports q)) new))"
proof -
  have "pairs (br_demultiplexer b) new \<inter> (\<Union>q\<in>set (br_ports b) - {p}. pairs (po_producer (ports q)) old)
      \<subseteq> (\<Union>q\<in>set (br_ports b) - {p}. pairs (po_producer (ports q)) new)"
    using pairs_move(1) by fastforce
  from move_after [OF this] show ?thesis
    unfolding consumer_moves_def Let_def prod.case
    by (subst set_fold_move [where g = "\<lambda>q. pairs (po_producer (ports q)) old" and h = "\<lambda>q. pairs (po_producer (ports q)) new"])
      (simp_all add: pairs_move)
qed

lemma producer_moves_set:
  "set (producer_moves ports p (old, new) b c) =
    (set c - (pairs old (br_multiplexer b) \<union> (\<Union>q\<in>set (br_ports b) - {p}. pairs old (po_consumer (ports q))))) \<union>
    (pairs new (br_multiplexer b) \<union> (\<Union>q\<in>set (br_ports b) - {p}. pairs new (po_consumer (ports q))))"
proof -
  have "pairs new (br_multiplexer b) \<inter> (\<Union>q\<in>set (br_ports b) - {p}. pairs old (po_consumer (ports q)))
      \<subseteq> (\<Union>q\<in>set (br_ports b) - {p}. pairs new (po_consumer (ports q)))"
    using pairs_move(2) by fastforce
  from move_after [OF this] show ?thesis
    unfolding producer_moves_def Let_def prod.case
    by (subst set_fold_move [where g = "\<lambda>q. pairs old (po_consumer (ports q))" and h = "\<lambda>q. pairs new (po_consumer (ports q))"])
      (simp_all add: pairs_move)
qed

text \<open>A notification that tells how the port has changed.\<close>

definition slot_change :: "nat option \<Rightarrow> nat option \<Rightarrow> (nat option \<times> nat option) option \<Rightarrow> bool" where
  "slot_change old new n = (case n of None \<Rightarrow> old = new | Some slots \<Rightarrow> slots = (old, new))"

definition tells :: "audio_port \<Rightarrow> audio_port \<Rightarrow> slots_changed \<Rightarrow> bool" where
  "tells old new n = (po_mixer old = po_mixer new \<and>
     slot_change (po_consumer old) (po_consumer new) (sc_consumer n) \<and>
     slot_change (po_producer old) (po_producer new) (sc_producer n))"

lemma slots_apart_mixed:
  assumes "slots_apart ports P mux demux" "slots_apart ports' P mux demux"
  shows "slots_apart (\<lambda>p. (ports p)\<lparr>po_consumer := po_consumer (ports' p)\<rparr>) P mux demux"
  using assms unfolding slots_apart_def by simp

lemma changed_consumer_mesh:
  assumes "set c = bridge_mesh ports b" "apart ports b" "p \<in> set (br_ports b)"
    and "slot_change (po_consumer (ports p)) new n"
    and "\<And>q. q \<noteq> p \<Longrightarrow> others q = ports q"
  shows "set (case n of None \<Rightarrow> c | Some slots \<Rightarrow> consumer_moves others p slots b c) =
    bridge_mesh (ports(p := (ports p)\<lparr>po_consumer := new\<rparr>)) b"
proof (cases n)
  case None
  then have "ports(p := (ports p)\<lparr>po_consumer := new\<rparr>) = ports" using assms(4) by (auto simp: slot_change_def)
  then show ?thesis using None assms(1) by simp
next
  case (Some slots)
  then have slots: "slots = (po_consumer (ports p), new)" using assms(4) by (simp add: slot_change_def)
  have same: "(\<Union>q\<in>set (br_ports b) - {p}. pairs (po_producer (others q)) s) = (\<Union>q\<in>set (br_ports b) - {p}. pairs (po_producer (ports q)) s)" for s
    by (intro SUP_cong) (simp_all add: assms(5))
  have "p \<notin> set (br_ports b) - {p}" by simp
  from mesh_consumer_moves [OF this apart_members [OF assms(2)] refl refl, of new]
  show ?thesis
    unfolding Some option.case slots consumer_moves_set same assms(1) bridge_mesh_def insert_Diff [OF assms(3)] by (rule sym)
qed

lemma changed_producer_mesh:
  assumes "set c = bridge_mesh ports b" "apart ports b" "p \<in> set (br_ports b)"
    and "slot_change (po_producer (ports p)) new n"
    and "\<And>q. q \<noteq> p \<Longrightarrow> others q = ports q"
  shows "set (case n of None \<Rightarrow> c | Some slots \<Rightarrow> producer_moves others p slots b c) =
    bridge_mesh (ports(p := (ports p)\<lparr>po_producer := new\<rparr>)) b"
proof (cases n)
  case None
  then have "ports(p := (ports p)\<lparr>po_producer := new\<rparr>) = ports" using assms(4) by (auto simp: slot_change_def)
  then show ?thesis using None assms(1) by simp
next
  case (Some slots)
  then have slots: "slots = (po_producer (ports p), new)" using assms(4) by (simp add: slot_change_def)
  have same: "(\<Union>q\<in>set (br_ports b) - {p}. pairs s (po_consumer (others q))) = (\<Union>q\<in>set (br_ports b) - {p}. pairs s (po_consumer (ports q)))" for s
    by (intro SUP_cong) (simp_all add: assms(5))
  have "p \<notin> set (br_ports b) - {p}" by simp
  from mesh_producer_moves [OF this apart_members [OF assms(2)] refl refl, of new]
  show ?thesis
    unfolding Some option.case slots producer_moves_set same assms(1) bridge_mesh_def insert_Diff [OF assms(3)] by (rule sym)
qed

lemma apart_mixed:
  assumes "apart ports b" "apart (ports(p := new)) b"
  shows "apart (ports(p := (ports p)\<lparr>po_consumer := po_consumer new\<rparr>)) b"
proof -
  have "(\<lambda>q. (ports q)\<lparr>po_consumer := po_consumer ((ports(p := new)) q)\<rparr>) = ports(p := (ports p)\<lparr>po_consumer := po_consumer new\<rparr>)"
    by (rule ext) simp
  then show ?thesis using slots_apart_mixed [OF assms [unfolded apart_def]] by (simp add: apart_def)
qed

lemma bridge_mesh_members: "(\<And>q. q \<in> set (br_ports b) \<Longrightarrow> ports q = ports' q) \<Longrightarrow> bridge_mesh ports b = bridge_mesh ports' b"
  unfolding bridge_mesh_def by (rule mesh_cong)

lemma bridge_notified_mesh:
  assumes "set c = bridge_mesh ports b" "apart ports b" "apart (ports(p := new)) b" "tells (ports p) new n"
    and "bridge_notified (ports(p := new)) p n (b, c) = (b', c')"
  shows "b' = b \<and> set c' = bridge_mesh (ports(p := new)) b"
proof (cases "p \<in> set (br_ports b)")
  case False
  then have "b' = b" "c' = c" using assms(5) by (simp_all add: bridge_notified_def)
  moreover have "bridge_mesh ports b = bridge_mesh (ports(p := new)) b"
    using False by (intro bridge_mesh_members) auto
  ultimately show ?thesis using assms(1) by simp
next
  case True
  let ?mid = "ports(p := (ports p)\<lparr>po_consumer := po_consumer new\<rparr>)"
  let ?c = "case sc_consumer n of None \<Rightarrow> c | Some slots \<Rightarrow> consumer_moves (ports(p := new)) p slots b c"
  have step: "b' = b" "c' = (case sc_producer n of None \<Rightarrow> ?c | Some slots \<Rightarrow> producer_moves (ports(p := new)) p slots b ?c)"
    using assms(5) True by (simp_all add: bridge_notified_def Let_def)
  have "set ?c = bridge_mesh ?mid b"
    using assms(4) by (intro changed_consumer_mesh [OF assms(1,2) True]) (simp_all add: tells_def)
  then have "set c' = bridge_mesh (?mid(p := (?mid p)\<lparr>po_producer := po_producer new\<rparr>)) b"
    unfolding step using assms(4)
    by (intro changed_producer_mesh apart_mixed [OF assms(2,3)] True) (simp_all add: tells_def)
  moreover have "?mid(p := (?mid p)\<lparr>po_producer := po_producer new\<rparr>) = ports(p := new)"
    using assms(4) by (auto simp: tells_def)
  ultimately show ?thesis using step by simp
qed

text \<open>Stopping removes what connects the ports, and the mixer ports take the rest with them.\<close>

lemma stop_unlinks:
  "set (fold (\<lambda>p. fold (\<lambda>q. unlink_ports (ports q) (ports p)) (removeAll p qs)) ps c) =
    set c - (\<Union>p\<in>set ps. \<Union>q\<in>set qs - {p}. pairs (po_producer (ports p)) (po_consumer (ports q)) \<union> pairs (po_producer (ports q)) (po_consumer (ports p)))"
  by (subst set_fold_unlink [where g = "\<lambda>p. \<Union>q\<in>set qs - {p}. pairs (po_producer (ports p)) (po_consumer (ports q)) \<union> pairs (po_producer (ports q)) (po_consumer (ports p))"])
    (simp_all add: set_fold_unlink [OF unlink_ports_set])

lemma bridge_stop_mesh:
  assumes "set c = bridge_mesh ports b" "bridge_stop ports (b, c) = (b', c')"
  shows "c' = [] \<and> b' = b\<lparr>br_ports := [], br_multiplexer := None, br_demultiplexer := None\<rparr>"
proof -
  have c': "set c' \<subseteq> {(x, y) \<in> set c. br_multiplexer b \<noteq> Some y \<and> br_demultiplexer b \<noteq> Some x} -
      (\<Union>p\<in>set (br_ports b). \<Union>q\<in>set (br_ports b) - {p}. pairs (po_producer (ports p)) (po_consumer (ports q)))"
    using assms(2) unfolding bridge_stop_def Let_def prod.case prod.inject
    by (elim conjE) (drule sym [of _ c'], simp add: set_free_slot stop_unlinks, blast)
  have "set c' = {}"
  proof (rule ccontr)
    assume "set c' \<noteq> {}"
    then obtain x y where e: "(x, y) \<in> set c'" by (metis equals0I surj_pair)
    then have "(x, y) \<in> bridge_mesh ports b" "br_multiplexer b \<noteq> Some y" "br_demultiplexer b \<noteq> Some x"
      using c' assms(1) by auto
    then obtain p q where "p \<in> set (br_ports b)" "q \<in> set (br_ports b)" "p \<noteq> q"
      "po_producer (ports p) = Some x" "po_consumer (ports q) = Some y"
      unfolding bridge_mesh_def mesh_def by auto
    then have "(x, y) \<in> (\<Union>p\<in>set (br_ports b). \<Union>q\<in>set (br_ports b) - {p}. pairs (po_producer (ports p)) (po_consumer (ports q)))"
      by (auto simp: pairs_def)
    then show False using e c' by blast
  qed
  then show ?thesis using assms(2) by (simp add: bridge_stop_def Let_def)
qed

section \<open>A bridge and its ports over time\<close>

text \<open>Slots are handed out by the mixer, so they stay apart.\<close>

inductive bridge_step ::
  "('p \<Rightarrow> audio_port) \<times> 'p bridge \<times> connections \<Rightarrow> ('p \<Rightarrow> audio_port) \<times> 'p bridge \<times> connections \<Rightarrow> bool" where
  added: "bridge_add ports p (b, c) = (r, b', c') \<Longrightarrow> bridge_step (ports, b, c) (ports, b', c')"
| removed: "bridge_remove ports p (b, c) = (r, b', c') \<Longrightarrow> bridge_step (ports, b, c) (ports, b', c')"
| moved: "tells (ports p) new n \<Longrightarrow> apart (ports(p := new)) b \<Longrightarrow>
    bridge_notified (ports(p := new)) p n (b, c) = (b', c') \<Longrightarrow> bridge_step (ports, b, c) (ports(p := new), b', c')"
| stopped: "bridge_stop ports (b, c) = (b', c') \<Longrightarrow> bridge_step (ports, b, c) (ports, b', c')"

inductive_cases bridge_stepE: "bridge_step s s'"

definition meshed :: "('p \<Rightarrow> audio_port) \<times> 'p bridge \<times> connections \<Rightarrow> bool" where
  "meshed s = (case s of (ports, b, c) \<Rightarrow> apart ports b \<and> set c = bridge_mesh ports b)"

lemma bridge_step_meshed: "bridge_step s s' \<Longrightarrow> meshed s \<Longrightarrow> meshed s'"
proof (induction rule: bridge_step.induct)
  case (added ports p b c r b' c')
  then show ?case using bridge_add_mesh [of c ports b p r b' c'] by (auto simp: meshed_def apart_def)
next
  case (removed ports p b c r b' c')
  then show ?case using bridge_remove_mesh [of c ports b p r b' c'] by (auto simp: meshed_def apart_def)
next
  case (moved ports p new n b c b' c')
  then show ?case using bridge_notified_mesh [of c ports b p new n b' c'] by (auto simp: meshed_def)
next
  case (stopped ports b c b' c')
  then have "apart ports b" "c' = []" "b' = b\<lparr>br_ports := [], br_multiplexer := None, br_demultiplexer := None\<rparr>"
    using bridge_stop_mesh [of c ports b b' c'] by (simp_all add: meshed_def)
  then show ?case by (simp add: meshed_def apart_def slots_apart_def bridge_mesh_def)
qed

lemma bridge_steps_meshed: "bridge_step\<^sup>*\<^sup>* s s' \<Longrightarrow> meshed s \<Longrightarrow> meshed s'"
  by (induction rule: rtranclp_induct) (auto intro: bridge_step_meshed)

text \<open>C26. A bridge connects its ports in a full mesh: whatever ports are added and removed and however
  their slots change on the way, the connected slots are those of every producer with every
  consumer of another port, and those of all ports with the two mixer ports.\<close>

theorem audio_bridge_full_mesh:
  assumes "apart ports (bridge_init mixer mux demux)"
    and "bridge_step\<^sup>*\<^sup>* (ports, bridge_init mixer mux demux, []) (ports', b, c)"
  shows "set c = bridge_mesh ports' b"
  using bridge_steps_meshed [OF assms(2)] assms(1)
  by (simp add: meshed_def bridge_mesh_def bridge_init_def)

definition two_ports :: "nat \<Rightarrow> audio_port" where
  "two_ports p = \<lparr>po_mixer = 7, po_consumer = Some (2 * p), po_producer = Some (2 * p)\<rparr>"

theorem audio_bridge_full_mesh_witness:
  "set [(3, 4), (4, 1), (3, 6), (6, 1), (4, 6), (6, 4)] =
    bridge_mesh two_ports \<lparr>br_mixer = 7, br_ports = [2, 3], br_multiplexer = Some 1, br_demultiplexer = Some 3\<rparr>"
proof (rule audio_bridge_full_mesh)
  show "apart two_ports (bridge_init 7 1 3)"
    unfolding apart_def slots_apart_def bridge_init_def two_ports_def by (simp del: One_nat_def, intro allI conjI; presburger)
  have "bridge_step (two_ports, bridge_init 7 1 3, []) (two_ports, (bridge_init 7 1 3)\<lparr>br_ports := [2]\<rparr>, [(3, 4), (4, 1)])"
    by (rule bridge_step.added [where p = 2 and r = "Inr ()"])
      (simp add: bridge_add_def bridge_init_def two_ports_def link_def connect_slots_def)
  moreover have "bridge_step (two_ports, (bridge_init 7 1 3)\<lparr>br_ports := [2]\<rparr>, [(3, 4), (4, 1)])
    (two_ports, \<lparr>br_mixer = 7, br_ports = [2, 3], br_multiplexer = Some 1, br_demultiplexer = Some 3\<rparr>,
     [(3, 4), (4, 1), (3, 6), (6, 1), (4, 6), (6, 4)])"
    by (rule bridge_step.added [where p = 3 and r = "Inr ()"])
      (simp add: bridge_add_def bridge_init_def two_ports_def link_def link_ports_def connect_slots_def)
  ultimately show "bridge_step\<^sup>*\<^sup>* (two_ports, bridge_init 7 1 3, [])
    (two_ports, \<lparr>br_mixer = 7, br_ports = [2, 3], br_multiplexer = Some 1, br_demultiplexer = Some 3\<rparr>,
     [(3, 4), (4, 1), (3, 6), (6, 1), (4, 6), (6, 4)])"
    by (rule converse_rtranclp_into_rtranclp [OF _ r_into_rtranclp])
qed

end
