(* ===== verification/Audio_Tree.thy ===== *)
theory Audio_Tree
  imports Audio_Bridge
begin

text \<open>
  Bridges inside bridges: what the documentation of \<open>AudioBridge\<close> in \<open>sipsimple/audio.py\<close> promises, that the
  leafs of a tree of bridges are connected as if they were the children of a single bridge. A
  tree gives for every bridge the slots of its two mixer ports; the connections are the meshes the bridges keep.
  Audio goes along a connection, and on from a slot only where the slot is a mixer port.
\<close>

section \<open>Trees of bridges\<close>

datatype audio_tree = Leaf audio_port | Node nat nat "audio_tree list"

fun tree_port :: "audio_tree \<Rightarrow> audio_port" where
  "tree_port (Leaf p) = p"
| "tree_port (Node m d ts) =
    \<lparr>po_mixer = 0, po_consumer = bridge_consumer (bridge_init 0 m d :: nat bridge),
      po_producer = bridge_producer (bridge_init 0 m d :: nat bridge)\<rparr>"

fun tree_leaves :: "audio_tree \<Rightarrow> audio_port list" where
  "tree_leaves (Leaf p) = [p]"
| "tree_leaves (Node m d ts) = concat (map tree_leaves ts)"

fun tree_mixers :: "audio_tree \<Rightarrow> nat set" where
  "tree_mixers (Leaf p) = {}"
| "tree_mixers (Node m d ts) = {m, d} \<union> \<Union>(set (map tree_mixers ts))"

text \<open>The bridge of a node, after its ports have been added in turn; all are ports of mixer 0.\<close>

definition node_bridge :: "nat \<Rightarrow> nat \<Rightarrow> audio_port list \<Rightarrow> nat bridge \<times> connections" where
  "node_bridge m d ps =
     fold (\<lambda>i s. snd (bridge_add (\<lambda>i. (ps ! i)\<lparr>po_mixer := 0\<rparr>) i s)) [0..<length ps] (bridge_init 0 m d, [])"

definition node_mesh :: "nat \<Rightarrow> nat \<Rightarrow> audio_port list \<Rightarrow> (nat \<times> nat) set" where
  "node_mesh m d ps = set (snd (node_bridge m d ps))"

fun tree_mesh :: "audio_tree \<Rightarrow> (nat \<times> nat) set" where
  "tree_mesh (Leaf p) = {}"
| "tree_mesh (Node m d ts) = node_mesh m d (map tree_port ts) \<union> \<Union>(set (map tree_mesh ts))"

definition producers :: "audio_tree \<Rightarrow> nat set" where
  "producers t = {x. \<exists>p\<in>set (tree_leaves t). po_producer p = Some x}"

definition consumers :: "audio_tree \<Rightarrow> nat set" where
  "consumers t = {y. \<exists>p\<in>set (tree_leaves t). po_consumer p = Some y}"

definition own_slots :: "audio_tree \<Rightarrow> (nat \<times> nat) set" where
  "own_slots t = {(x, y). \<exists>p\<in>set (tree_leaves t). po_producer p = Some x \<and> po_consumer p = Some y}"

text \<open>The mixer gives every port slots of its own; one slot may be both the producer and the consumer of a port.\<close>

definition strangers :: "audio_tree \<Rightarrow> audio_tree \<Rightarrow> bool" where
  "strangers t u \<longleftrightarrow> tree_mixers t \<inter> (tree_mixers u \<union> producers u \<union> consumers u) = {} \<and>
     producers t \<inter> producers u = {} \<and> consumers t \<inter> consumers u = {}"

fun own_mixers :: "audio_tree \<Rightarrow> bool" where
  "own_mixers (Leaf p) = True"
| "own_mixers (Node m d ts) =
    (m \<noteq> d \<and> (\<forall>t\<in>set ts. own_mixers t \<and> m \<notin> tree_mixers t \<union> producers t \<union> consumers t \<and> d \<notin> tree_mixers t \<union> producers t \<union> consumers t) \<and>
     (\<forall>i<length ts. \<forall>j<length ts. i \<noteq> j \<longrightarrow> strangers (ts ! i) (ts ! j)))"

text \<open>What a slot reaches through mixer ports.\<close>

definition hops :: "(nat \<times> nat) set \<Rightarrow> nat set \<Rightarrow> (nat \<times> nat) set" where
  "hops c ms = {(a, b). (a, b) \<in> c \<and> b \<in> ms}"

definition heard :: "audio_tree \<Rightarrow> nat \<Rightarrow> nat \<Rightarrow> bool" where
  "heard t x y \<longleftrightarrow> (\<exists>a. (x, a) \<in> (hops (tree_mesh t) (tree_mixers t))\<^sup>* \<and> (a, y) \<in> tree_mesh t)"

lemma bridge_port_simps [simp]:
  "bridge_consumer (bridge_init x m d) = Some d" "bridge_producer (bridge_init x m d) = Some m"
  by (simp_all add: bridge_init_def bridge_consumer_def bridge_producer_def)

section \<open>Every leaf hears every other\<close>

lemma producers_simps [simp]:
  "producers (Leaf p) = {x. po_producer p = Some x}" "producers (Node m d ts) = (\<Union>t\<in>set ts. producers t)"
  by (auto simp: producers_def)

lemma consumers_simps [simp]:
  "consumers (Leaf p) = {x. po_consumer p = Some x}" "consumers (Node m d ts) = (\<Union>t\<in>set ts. consumers t)"
  by (auto simp: consumers_def)

lemma own_slots_simps [simp]:
  "own_slots (Leaf p) = {(x, y). po_producer p = Some x \<and> po_consumer p = Some y}" "own_slots (Node m d ts) = (\<Union>t\<in>set ts. own_slots t)"
  by (auto simp: own_slots_def)

lemma own_slots_sides: "(x, y) \<in> own_slots t \<Longrightarrow> x \<in> producers t \<and> y \<in> consumers t"
  by (auto simp: own_slots_def producers_def consumers_def)

lemma Bex_set_nth: "(\<exists>p\<in>set ps. P p) \<longleftrightarrow> (\<exists>i<length ps. P (ps ! i))"
  by (metis in_set_conv_nth)

lemma set_nthE: "u \<in> set ts \<Longrightarrow> (\<And>i. i < length ts \<Longrightarrow> u = ts ! i \<Longrightarrow> P) \<Longrightarrow> P"
  by (metis in_set_conv_nth)

lemma bridge_add_new:
  "po_mixer (ports p) = br_mixer b \<Longrightarrow> p \<notin> set (br_ports b) \<Longrightarrow>
   fst (snd (bridge_add ports p (b, c))) = b\<lparr>br_ports := br_ports b @ [p]\<rparr>"
  by (simp add: bridge_add_def Let_def)

lemma added_in_turn:
  fixes ports :: "nat \<Rightarrow> audio_port"
  assumes "\<And>i. po_mixer (ports i) = 0"
  shows "let s = fold (\<lambda>i s. snd (bridge_add ports i s)) [0..<n] (bridge_init 0 m d, []) in
    fst s = (bridge_init 0 m d)\<lparr>br_ports := [0..<n]\<rparr> \<and> set (snd s) = bridge_mesh ports (fst s)"
  unfolding Let_def
proof (induction n)
  case 0
  then show ?case by (simp add: bridge_init_def bridge_mesh_def)
next
  case (Suc n)
  let ?s = "fold (\<lambda>i s. snd (bridge_add ports i s)) [0..<n] (bridge_init 0 m d, [])"
  obtain b c where s: "?s = (b, c)" by force
  then have b: "b = (bridge_init 0 m d)\<lparr>br_ports := [0..<n]\<rparr>" "set c = bridge_mesh ports b" using Suc.IH by auto
  obtain r b' c' where r: "bridge_add ports n (b, c) = (r, b', c')" by (cases "bridge_add ports n (b, c)") auto
  have "fst (snd (bridge_add ports n (b, c))) = b\<lparr>br_ports := br_ports b @ [n]\<rparr>"
    using b(1) assms(1) by (intro bridge_add_new) (simp_all add: bridge_init_def)
  then have "b' = (bridge_init 0 m d)\<lparr>br_ports := [0..<Suc n]\<rparr>" using r b(1) by (simp add: bridge_init_def)
  moreover have "set c' = bridge_mesh ports b'" using bridge_add_mesh [OF b(2) r] by blast
  ultimately show ?case using r s by simp
qed

lemma node_mesh_eq: "node_mesh m d ps = mesh (\<lambda>i. ps ! i) {..<length ps} (Some m) (Some d)"
proof -
  have "set (snd (node_bridge m d ps)) = bridge_mesh (\<lambda>i. (ps ! i)\<lparr>po_mixer := 0\<rparr>) ((bridge_init 0 m d)\<lparr>br_ports := [0..<length ps]\<rparr>)"
    using added_in_turn [of "\<lambda>i. (ps ! i)\<lparr>po_mixer := 0\<rparr>" "length ps" m d] by (simp add: node_bridge_def Let_def)
  then show ?thesis by (simp add: node_mesh_def bridge_mesh_def mesh_def bridge_init_def atLeast0LessThan)
qed

lemma node_mesh_iff:
  "(a, b) \<in> node_mesh m d ps \<longleftrightarrow>
    (\<exists>i<length ps. \<exists>j<length ps. i \<noteq> j \<and> po_producer (ps ! i) = Some a \<and> po_consumer (ps ! j) = Some b) \<or>
    (\<exists>p\<in>set ps. po_producer p = Some a \<and> b = m) \<or> (\<exists>p\<in>set ps. a = d \<and> po_consumer p = Some b)"
  unfolding node_mesh_eq mesh_def Bex_set_nth by auto

text \<open>The edges of a node, by their kind.\<close>

lemma node_acrossI:
  "i < length ts \<Longrightarrow> j < length ts \<Longrightarrow> i \<noteq> j \<Longrightarrow> po_producer (tree_port (ts ! i)) = Some a \<Longrightarrow>
   po_consumer (tree_port (ts ! j)) = Some b \<Longrightarrow> (a, b) \<in> node_mesh m d (map tree_port ts)"
  unfolding node_mesh_iff by (rule disjI1, rule exI [of _ i], simp, rule exI [of _ j], simp)

lemma node_meshE:
  assumes "(a, b) \<in> node_mesh m d (map tree_port ts)"
  obtains (across) i j where "i < length ts" "j < length ts" "i \<noteq> j" "po_producer (tree_port (ts ! i)) = Some a" "po_consumer (tree_port (ts ! j)) = Some b"
  | (up) u where "u \<in> set ts" "po_producer (tree_port u) = Some a" "b = m"
  | (down) j where "j < length ts" "a = d" "po_consumer (tree_port (ts ! j)) = Some b"
  using assms unfolding node_mesh_iff by (auto elim: set_nthE)

lemma child_within:
  "t \<in> set ts \<Longrightarrow> tree_mesh t \<subseteq> tree_mesh (Node m d ts)" "t \<in> set ts \<Longrightarrow> tree_mixers t \<subseteq> tree_mixers (Node m d ts)"
  by auto

text \<open>Inside a larger tree: the connections and the mixer ports of the tree are among those of the larger one.\<close>

lemma reaches_top:
  "x \<in> producers t \<Longrightarrow> tree_mesh t \<subseteq> c \<Longrightarrow> tree_mixers t \<subseteq> ms \<Longrightarrow> po_producer (tree_port t) = Some y \<Longrightarrow> (x, y) \<in> (hops c ms)\<^sup>*"
proof (induction t arbitrary: y)
  case (Leaf p)
  then show ?case by simp
next
  case (Node m d ts)
  then obtain u where u: "u \<in> set ts" "x \<in> producers u" by auto
  have y: "y = m" using Node.prems by simp
  show ?case
  proof (cases "po_producer (tree_port u)")
    case (Some z)
    have "(x, z) \<in> (hops c ms)\<^sup>*" using u Node.prems Some by (intro Node.IH [of u]) auto
    moreover have "(z, m) \<in> node_mesh m d (map tree_port ts)" using u Some by (auto simp: node_mesh_iff)
    then have "(z, m) \<in> hops c ms" using Node.prems by (auto simp: hops_def)
    ultimately show ?thesis using y by (simp add: rtrancl.rtrancl_into_rtrancl)
  next
    case None
    then show ?thesis using u(2) by (cases u) auto
  qed
qed

lemma reached_from_top:
  "y \<in> consumers t \<Longrightarrow> tree_mesh t \<subseteq> c \<Longrightarrow> tree_mixers t \<subseteq> ms \<Longrightarrow> po_consumer (tree_port t) = Some x \<Longrightarrow>
   y = x \<and> t = Leaf (tree_port t) \<or> x \<in> tree_mixers t \<and> (\<exists>a. (x, a) \<in> (hops c ms)\<^sup>* \<and> (a, y) \<in> c)"
proof (induction t arbitrary: x)
  case (Leaf p)
  then show ?case by simp
next
  case (Node m d ts)
  then obtain u where u: "u \<in> set ts" "y \<in> consumers u" by auto
  have x: "x = d" using Node.prems by simp
  obtain z where z: "po_consumer (tree_port u) = Some z" using u(2) by (cases u) auto
  have "(d, z) \<in> node_mesh m d (map tree_port ts)" using u z by (auto simp: node_mesh_iff)
  then have dz: "(d, z) \<in> c" using Node.prems by auto
  have sub: "tree_mesh u \<subseteq> c" "tree_mixers u \<subseteq> ms" using Node.prems u by auto
  from Node.IH [OF u(1) u(2) sub z] show ?case
  proof
    assume "y = z \<and> u = Leaf (tree_port u)"
    then show ?thesis using dz x by auto
  next
    assume "z \<in> tree_mixers u \<and> (\<exists>a. (z, a) \<in> (hops c ms)\<^sup>* \<and> (a, y) \<in> c)"
    then obtain a where a: "z \<in> ms" "(z, a) \<in> (hops c ms)\<^sup>*" "(a, y) \<in> c" using sub by auto
    have "(d, z) \<in> hops c ms" using dz a(1) by (simp add: hops_def)
    then have "(d, a) \<in> (hops c ms)\<^sup>*" using a(2) by (rule converse_rtrancl_into_rtrancl)
    then show ?thesis using a(3) x by auto
  qed
qed

lemma others_heard:
  "x \<in> producers t \<Longrightarrow> y \<in> consumers t \<Longrightarrow> (x, y) \<notin> own_slots t \<Longrightarrow> tree_mesh t \<subseteq> c \<Longrightarrow> tree_mixers t \<subseteq> ms \<Longrightarrow>
   \<exists>a. (x, a) \<in> (hops c ms)\<^sup>* \<and> (a, y) \<in> c"
proof (induction t)
  case (Leaf p)
  then show ?case by simp
next
  case (Node m d ts)
  obtain i j where ij: "i < length ts" "x \<in> producers (ts ! i)" "j < length ts" "y \<in> consumers (ts ! j)"
    using Node.prems by (auto simp: in_set_conv_nth)
  have sub: "tree_mesh (ts ! k) \<subseteq> c" "tree_mixers (ts ! k) \<subseteq> ms" if "k < length ts" for k
    using Node.prems(4,5) child_within [OF nth_mem [OF that]] by (meson order_trans)+
  show ?case
  proof (cases "i = j")
    case True
    have "(x, y) \<notin> own_slots (ts ! i)" using Node.prems(3) nth_mem [OF ij(1)] by auto
    then show ?thesis using Node.IH [OF nth_mem [OF ij(1)]] ij True sub by blast
  next
    case False
    obtain a where a: "po_producer (tree_port (ts ! i)) = Some a" using ij(2) by (cases "ts ! i") auto
    obtain b where b: "po_consumer (tree_port (ts ! j)) = Some b" using ij(4) by (cases "ts ! j") auto
    have up: "(x, a) \<in> (hops c ms)\<^sup>*" using reaches_top [OF ij(2) sub [OF ij(1)] a] .
    have "(a, b) \<in> node_mesh m d (map tree_port ts)"
      using ij(1,3) False a b by (rule node_acrossI)
    then have ab: "(a, b) \<in> c" using Node.prems by auto
    from reached_from_top [OF ij(4) sub [OF ij(3)] b] show ?thesis
    proof
      assume "y = b \<and> ts ! j = Leaf (tree_port (ts ! j))"
      then show ?thesis using up ab by auto
    next
      assume "b \<in> tree_mixers (ts ! j) \<and> (\<exists>a. (b, a) \<in> (hops c ms)\<^sup>* \<and> (a, y) \<in> c)"
      then obtain e where e: "b \<in> ms" "(b, e) \<in> (hops c ms)\<^sup>*" "(e, y) \<in> c" using sub ij by blast
      have "(a, b) \<in> hops c ms" using ab e(1) by (simp add: hops_def)
      then have "(x, e) \<in> (hops c ms)\<^sup>*" using up e(2) by (meson rtrancl.rtrancl_into_rtrancl rtrancl_trans)
      then show ?thesis using e(3) by blast
    qed
  qed
qed

section \<open>No leaf hears itself\<close>

fun audible :: "nat \<Rightarrow> audio_tree \<Rightarrow> nat set" where
  "audible x (Leaf p) = {}"
| "audible x (Node m d ts) = {if x \<in> producers (Node m d ts) then m else d} \<union> \<Union>(set (map (audible x) ts))"

lemma audible_mixers: "audible x t \<subseteq> tree_mixers t"
  by (induction t) auto

lemma own_mixers_child:
  "own_mixers (Node m d ts) \<Longrightarrow> t \<in> set ts \<Longrightarrow> own_mixers t"
  "own_mixers (Node m d ts) \<Longrightarrow> t \<in> set ts \<Longrightarrow> {m, d} \<inter> (tree_mixers t \<union> producers t \<union> consumers t) = {}"
  by auto

lemma own_mixers_strangers:
  assumes "own_mixers (Node m d ts)" "t \<in> set ts" "u \<in> set ts" "t \<noteq> u"
  shows "strangers t u"
proof -
  obtain i j where "i < length ts" "t = ts ! i" "j < length ts" "u = ts ! j"
    using assms(2,3) by (metis in_set_conv_nth)
  then show ?thesis using assms(1,4) by auto
qed

lemma mixers_apart: "own_mixers t \<Longrightarrow> tree_mixers t \<inter> (producers t \<union> consumers t) = {}"
proof (induction t)
  case (Node m d ts)
  have "tree_mixers t \<inter> (producers u \<union> consumers u) = {}" if tu: "t \<in> set ts" "u \<in> set ts" for t u
  proof (cases "t = u")
    case True
    then show ?thesis using Node.IH [OF tu(1) own_mixers_child(1) [OF Node.prems tu(1)]] by simp
  next
    case False
    then show ?thesis using own_mixers_strangers [OF Node.prems tu] by (auto simp: strangers_def)
  qed
  moreover have "{m, d} \<inter> (producers u \<union> consumers u) = {}" if "u \<in> set ts" for u
    using own_mixers_child(2) [OF Node.prems that] by blast
  ultimately show ?case by (simp only: tree_mixers.simps producers_simps consumers_simps list.set_map) blast
qed simp

lemma top_slots:
  "po_producer (tree_port t) = Some a \<Longrightarrow> t = Leaf (tree_port t) \<and> producers t = {a} \<or> a \<in> tree_mixers t"
  "po_consumer (tree_port t) = Some b \<Longrightarrow> t = Leaf (tree_port t) \<and> consumers t = {b} \<or> b \<in> tree_mixers t"
  by (cases t; auto)+

lemma mesh_slots:
  "(a, b) \<in> tree_mesh t \<Longrightarrow> a \<in> tree_mixers t \<union> producers t \<and> b \<in> tree_mixers t \<union> consumers t"
proof (induction t)
  case (Node m d ts)
  show ?case
  proof (cases "(a, b) \<in> node_mesh m d (map tree_port ts)")
    case True
    have "z \<in> tree_mixers (Node m d ts) \<union> producers (Node m d ts)" if "u \<in> set ts" "po_producer (tree_port u) = Some z" for u z
      using top_slots(1) [OF that(2)] that(1) by auto
    moreover have "z \<in> tree_mixers (Node m d ts) \<union> consumers (Node m d ts)" if "u \<in> set ts" "po_consumer (tree_port u) = Some z" for u z
      using top_slots(2) [OF that(2)] that(1) by auto
    ultimately show ?thesis using True by (elim node_meshE) (metis nth_mem, simp, metis nth_mem insertI1 insertI2 UnI1 tree_mixers.simps(2) Un_insert_left Un_insert_right)
  next
    case False
    then obtain u where "u \<in> set ts" "(a, b) \<in> tree_mesh u" using Node.prems by auto
    then show ?thesis using Node.IH [of u] by auto
  qed
qed simp

lemma audible_top:
  assumes "own_mixers t" "x \<notin> tree_mixers t" "a \<in> audible x t \<or> a = x"
  shows "po_producer (tree_port t) = Some a \<Longrightarrow> x \<in> producers t"
proof (cases t)
  case (Node m d ts)
  assume "po_producer (tree_port t) = Some a"
  then have a: "a = m" "a \<noteq> x" using Node assms(2) by auto
  have "m \<notin> audible x u" if "u \<in> set ts" for u
    using assms(1) Node that audible_mixers [of x u] by auto
  then show ?thesis using a assms Node by (auto split: if_splits)
qed (use assms in auto)

lemma audible_down:
  assumes "x \<notin> producers t" "po_consumer (tree_port t) = Some b"
  shows "b \<in> audible x t \<or> b \<in> consumers t \<and> (x, b) \<notin> own_slots t"
  using assms by (cases t) auto

lemma mesh_audible:
  assumes "own_mixers t" "x \<notin> tree_mixers t" "(a, b) \<in> tree_mesh t" "a \<in> audible x t \<or> a = x"
  shows "b \<in> audible x t \<or> b \<in> consumers t \<and> (x, b) \<notin> own_slots t"
  using assms
proof (induction t)
  case (Node m d ts)
  have strange: "strangers (ts ! i) (ts ! j)" if "i < length ts" "j < length ts" "i \<noteq> j" for i j
    using Node.prems(1) that by simp
  have own: "own_mixers u" "m \<notin> tree_mixers u \<union> producers u \<union> consumers u" "d \<notin> tree_mixers u \<union> producers u \<union> consumers u" if "u \<in> set ts" for u
    using Node.prems(1) that by auto
  have elsewhere: "(x, b) \<notin> own_slots (Node m d ts)" if "j < length ts" "b \<in> consumers (ts ! j)" "(x, b) \<notin> own_slots (ts ! j)" for j b
  proof
    assume "(x, b) \<in> own_slots (Node m d ts)"
    then obtain k where k: "k < length ts" "(x, b) \<in> own_slots (ts ! k)" by (auto simp: in_set_conv_nth)
    then have "k \<noteq> j" using that(3) by auto
    then show False using strange [OF k(1) that(1)] own_slots_sides [OF k(2)] that(2) by (auto simp: strangers_def)
  qed
  have into: "b \<in> audible x (Node m d ts) \<or> b \<in> consumers (Node m d ts) \<and> (x, b) \<notin> own_slots (Node m d ts)"
    if "j < length ts" "b \<in> audible x (ts ! j) \<or> b \<in> consumers (ts ! j) \<and> (x, b) \<notin> own_slots (ts ! j)" for j b
    using that elsewhere [of j b] nth_mem [OF that(1)] by auto
  have inside: "a \<in> audible x u \<or> a = x"
    if u: "u \<in> set ts" and a: "a \<in> tree_mixers u \<union> producers u" "a \<in> audible x (Node m d ts) \<or> a = x" for u a
  proof (rule disjCI)
    assume "a \<noteq> x"
    then have "a \<in> audible x (Node m d ts)" using a(2) by blast
    moreover have "a \<noteq> m" "a \<noteq> d" using own(2,3) [OF u] a(1) by auto
    ultimately obtain v where v: "v \<in> set ts" "a \<in> audible x v" by (auto split: if_splits)
    have "a \<in> tree_mixers v" using v(2) audible_mixers by blast
    then have "v = u" using own_mixers_strangers [OF Node.prems(1) v(1) u] a(1) by (auto simp: strangers_def)
    then show "a \<in> audible x u" using v by simp
  qed
  show ?case
  proof (cases "(a, b) \<in> node_mesh m d (map tree_port ts)")
    case False
    then obtain j where j: "j < length ts" "(a, b) \<in> tree_mesh (ts ! j)" using Node.prems(3) by (auto simp: in_set_conv_nth)
    have "a \<in> audible x (ts ! j) \<or> a = x"
      using inside [OF nth_mem [OF j(1)] _ Node.prems(4)] mesh_slots [OF j(2)] by blast
    moreover have "x \<notin> tree_mixers (ts ! j)" using Node.prems(2) nth_mem [OF j(1)] by auto
    ultimately show ?thesis
      using Node.IH [OF nth_mem [OF j(1)] own(1) [OF nth_mem [OF j(1)]] _ j(2)] by (intro into [OF j(1)]) blast
  next
    case True
    have from_child: "x \<in> producers u" if "u \<in> set ts" "po_producer (tree_port u) = Some a" for u
    proof (rule audible_top [OF own(1) [OF that(1)] _ _ that(2)])
      show "x \<notin> tree_mixers u" using Node.prems(2) that(1) by auto
      show "a \<in> audible x u \<or> a = x"
        using inside [OF that(1) _ Node.prems(4)] top_slots(1) [OF that(2)] by blast
    qed
    show ?thesis using True
    proof (cases rule: node_meshE)
      case (across i j)
      then have "x \<in> producers (ts ! i)" using from_child [OF nth_mem] by simp
      then have "x \<notin> producers (ts ! j)" using strange [OF across(1-3)] by (auto simp: strangers_def)
      from into [OF across(2) audible_down [OF this across(5)]] show ?thesis .
    next
      case (up u)
      then show ?thesis using from_child [of u] by auto
    next
      case (down j)
      have "d \<notin> audible x u" if "u \<in> set ts" for u using own(3) [OF that] audible_mixers [of x u] by auto
      then have "x \<notin> producers (Node m d ts)" using Node.prems(1,2,4) down(2) by (auto split: if_splits)
      then have "x \<notin> producers (ts ! j)" using nth_mem [OF down(1)] by auto
      from into [OF down(1) audible_down [OF this down(3)]] show ?thesis .
    qed
  qed
qed simp

lemma heard_iff:
  assumes "own_mixers t" "x \<in> producers t" "y \<in> consumers t"
  shows "heard t x y \<longleftrightarrow> (x, y) \<notin> own_slots t"
proof
  assume "(x, y) \<notin> own_slots t"
  then show "heard t x y" unfolding heard_def by (rule others_heard [OF assms(2,3) _ order_refl order_refl])
next
  assume "heard t x y"
  then obtain a where a: "(x, a) \<in> (hops (tree_mesh t) (tree_mixers t))\<^sup>*" "(a, y) \<in> tree_mesh t"
    unfolding heard_def by blast
  have x: "x \<notin> tree_mixers t" using mixers_apart [OF assms(1)] assms(2) by blast
  have "a \<in> audible x t \<or> a = x" using a(1)
  proof (induction rule: rtrancl_induct)
    case (step b c)
    then have "(b, c) \<in> tree_mesh t" "c \<in> tree_mixers t" by (auto simp: hops_def)
    then show ?case using mesh_audible [OF assms(1) x _ step.IH, of c] mixers_apart [OF assms(1)] by blast
  qed simp
  then have "y \<in> audible x t \<or> y \<in> consumers t \<and> (x, y) \<notin> own_slots t" using mesh_audible [OF assms(1) x a(2)] by blast
  then show "(x, y) \<notin> own_slots t" using audible_mixers [of x t] mixers_apart [OF assms(1)] assms(3) by blast
qed

lemma flat_leaves [simp]: "tree_leaves (Node m d (map Leaf ps)) = ps"
  by (induction ps) simp_all

text \<open>C27. A tree of bridges works like one bridge: what is produced by one leaf of the tree is heard by
  a leaf exactly when it would be if all leafs were the ports of a single bridge, whatever bridges
  lie on the way; and in both it is heard exactly by the other leafs: every leaf hears every other, and
  no leaf hears itself.\<close>

theorem bridge_tree_as_one_bridge:
  assumes "own_mixers t" "own_mixers (Node m d (map Leaf (tree_leaves t)))"
    and "x \<in> producers t" "y \<in> consumers t"
  shows "(heard t x y \<longleftrightarrow> heard (Node m d (map Leaf (tree_leaves t))) x y) \<and>
    (heard t x y \<longleftrightarrow> \<not> list_ex (\<lambda>p. po_producer p = Some x \<and> po_consumer p = Some y) (tree_leaves t))"
proof -
  let ?flat = "Node m d (map Leaf (tree_leaves t))"
  have "producers ?flat = producers t" "consumers ?flat = consumers t" "own_slots ?flat = own_slots t"
    by (simp_all add: producers_def consumers_def own_slots_def del: producers_simps consumers_simps own_slots_simps tree_leaves.simps)
  then have "heard t x y \<longleftrightarrow> heard ?flat x y"
    using heard_iff [OF assms(1,3,4)] heard_iff [OF assms(2), of x y] assms(3,4) by simp
  moreover have "(x, y) \<in> own_slots t \<longleftrightarrow> list_ex (\<lambda>p. po_producer p = Some x \<and> po_consumer p = Some y) (tree_leaves t)"
    by (auto simp: own_slots_def list_ex_iff)
  ultimately show ?thesis using heard_iff [OF assms(1,3,4)] by simp
qed

text \<open>A device and a stream in a conference of two streams, each behind a bridge of its own.\<close>

definition conference_tree :: audio_tree where
  "conference_tree = Node 1 2 [Leaf \<lparr>po_mixer = 0, po_consumer = Some 0, po_producer = Some 0\<rparr>,
     Node 3 4 [Leaf \<lparr>po_mixer = 0, po_consumer = Some 5, po_producer = Some 5\<rparr>],
     Node 6 7 [Leaf \<lparr>po_mixer = 0, po_consumer = Some 8, po_producer = Some 8\<rparr>]]"

lemma index_below [simp]: "(\<forall>i<Suc n. P i) \<longleftrightarrow> P n \<and> (\<forall>i<n. P i)"
  by (auto simp: less_Suc_eq)

theorem bridge_tree_as_one_bridge_witness:
  "heard conference_tree 5 8 \<and> heard (Node 10 11 (map Leaf (tree_leaves conference_tree))) 5 8 \<and>
   \<not> heard conference_tree 5 5"
proof -
  have t: "own_mixers conference_tree" "own_mixers (Node 10 11 (map Leaf (tree_leaves conference_tree)))"
    "5 \<in> producers conference_tree" "8 \<in> consumers conference_tree" "5 \<in> consumers conference_tree"
    by (simp_all add: conference_tree_def strangers_def)
  have "\<not> list_ex (\<lambda>p. po_producer p = Some 5 \<and> po_consumer p = Some 8) (tree_leaves conference_tree)"
    "list_ex (\<lambda>p. po_producer p = Some 5 \<and> po_consumer p = Some 5) (tree_leaves conference_tree)"
    by (simp_all add: conference_tree_def)
  then show ?thesis
    using bridge_tree_as_one_bridge [OF t(1-4)] bridge_tree_as_one_bridge [OF t(1-3,5)]
    by blast
qed

end
