(* ===== verification/Audio_Conference.thy ===== *)
theory Audio_Conference
  imports Audio_Bridge
begin

text \<open>
  \<open>RootAudioBridge\<close> and \<open>AudioConference\<close> of \<open>sipsimple/audio.py\<close>: a root bridge behaves as a bridge whose
  mixer ports are not there, which carries the mesh over to it, and a conference moves the
  bridges of its streams and its own device in and out of one.
\<close>

section \<open>A root bridge is a bridge without mixer ports\<close>

definition as_bridge :: "'p root_bridge \<Rightarrow> 'p bridge" where
  "as_bridge b = \<lparr>br_mixer = ro_mixer b, br_ports = ro_ports b, br_multiplexer = None, br_demultiplexer = None\<rparr>"

lemma as_bridge_simps [simp]:
  "br_mixer (as_bridge b) = ro_mixer b" "br_ports (as_bridge b) = ro_ports b"
  "br_multiplexer (as_bridge b) = None" "br_demultiplexer (as_bridge b) = None"
  by (simp_all add: as_bridge_def)

lemma link_none [simp]: "link None b c = c" "link a None c = c" "unlink None b c = c" "unlink a None c = c"
  by (simp_all add: link_def unlink_def split: option.split)

lemma root_add_refines:
  "root_add ports p (b, c) = (r, b', c') \<Longrightarrow> bridge_add ports p (as_bridge b, c) = (r, as_bridge b', c')"
  by (auto simp: root_add_def bridge_add_def Let_def as_bridge_def split: if_splits)

lemma root_remove_refines:
  "root_remove ports p (b, c) = (r, b', c') \<Longrightarrow> bridge_remove ports p (as_bridge b, c) = (r, as_bridge b', c')"
  by (auto simp: root_remove_def bridge_remove_def Let_def as_bridge_def split: if_splits)

lemma root_notified_refines:
  "root_notified ports p n (b, c) = (b', c') \<Longrightarrow> bridge_notified ports p n (as_bridge b, c) = (as_bridge b', c')"
  by (auto simp: root_notified_def bridge_notified_def consumer_moves_def producer_moves_def Let_def split: option.splits if_splits)

text \<open>So a root bridge keeps the mesh of its ports.\<close>

definition root_mesh :: "('p \<Rightarrow> audio_port) \<Rightarrow> 'p root_bridge \<Rightarrow> (nat \<times> nat) set" where
  "root_mesh ports b = mesh ports (set (ro_ports b)) None None"

inductive root_step ::
  "('p \<Rightarrow> audio_port) \<times> 'p root_bridge \<times> connections \<Rightarrow> ('p \<Rightarrow> audio_port) \<times> 'p root_bridge \<times> connections \<Rightarrow> bool" where
  root_added: "root_add ports p (b, c) = (r, b', c') \<Longrightarrow> root_step (ports, b, c) (ports, b', c')"
| root_removed: "root_remove ports p (b, c) = (r, b', c') \<Longrightarrow> root_step (ports, b, c) (ports, b', c')"
| root_moved: "tells (ports p) new n \<Longrightarrow> slots_apart (ports(p := new)) UNIV None None \<Longrightarrow>
    root_notified (ports(p := new)) p n (b, c) = (b', c') \<Longrightarrow> root_step (ports, b, c) (ports(p := new), b', c')"

definition as_bridge_state where
  "as_bridge_state s = (case s of (ports, b, c) \<Rightarrow> (ports, as_bridge b, c))"

lemma root_step_simulated: "root_step s s' \<Longrightarrow> bridge_step (as_bridge_state s) (as_bridge_state s')"
  by (induction rule: root_step.induct)
    (auto simp: as_bridge_state_def apart_def intro: bridge_step.intros root_add_refines root_remove_refines root_notified_refines)

lemma root_steps_simulated: "root_step\<^sup>*\<^sup>* s s' \<Longrightarrow> bridge_step\<^sup>*\<^sup>* (as_bridge_state s) (as_bridge_state s')"
  by (induction rule: rtranclp_induct) (auto intro: rtranclp.rtrancl_into_rtrancl root_step_simulated)

lemma root_bridge_full_mesh:
  assumes "slots_apart ports UNIV None None" "root_step\<^sup>*\<^sup>* (ports, root_init mixer, []) (ports', b, c)"
  shows "set c = root_mesh ports' b"
  using bridge_steps_meshed [OF root_steps_simulated [OF assms(2)]] assms(1)
  by (simp add: as_bridge_state_def meshed_def bridge_mesh_def root_mesh_def apart_def root_init_def)

section \<open>AudioConference\<close>

text \<open>The streams of a conference have a bridge and a device each. \<open>on_bridge\<close> names the port that a
  stream's bridge is for the bridge of the conference.\<close>

record ('s, 'p) conference =
  cf_bridge :: "'p root_bridge"
  cf_device :: 'p
  cf_on_hold :: bool
  cf_streams :: "'s list"
  cf_stream_bridges :: "'s \<Rightarrow> 'p bridge"

definition conference_init ::
  "('p \<Rightarrow> audio_port) \<Rightarrow> nat \<Rightarrow> 'p \<Rightarrow> ('s \<Rightarrow> 'p bridge) \<Rightarrow> connections \<Rightarrow> unit result \<times> ('s, 'p) conference \<times> connections" where
  "conference_init ports mixer device bridges c =
     (case root_add ports device (root_init mixer, c) of (r, b, c) \<Rightarrow>
        (r, \<lparr>cf_bridge = b, cf_device = device, cf_on_hold = False, cf_streams = [], cf_stream_bridges = bridges\<rparr>, c))"

definition conference_add ::
  "('p \<Rightarrow> audio_port) \<Rightarrow> ('s \<Rightarrow> 'p) \<Rightarrow> ('s \<Rightarrow> 'p) \<Rightarrow> 's \<Rightarrow> ('s, 'p) conference \<times> connections \<Rightarrow>
   unit result \<times> ('s, 'p) conference \<times> connections" where
  "conference_add ports device on_bridge s fc =
     (case fc of (f, c) \<Rightarrow>
        if s \<in> set (cf_streams f) then (Inr (), f, c)
        else case bridge_remove ports (device s) (cf_stream_bridges f s, c) of
          (Inl e, b, c) \<Rightarrow> (Inl e, f\<lparr>cf_stream_bridges := (cf_stream_bridges f)(s := b)\<rparr>, c)
        | (Inr _, b, c) \<Rightarrow>
            let f = f\<lparr>cf_stream_bridges := (cf_stream_bridges f)(s := b)\<rparr>
            in case root_add ports (on_bridge s) (cf_bridge f, c) of
              (Inl e, b, c) \<Rightarrow> (Inl e, f\<lparr>cf_bridge := b\<rparr>, c)
            | (Inr _, b, c) \<Rightarrow> (Inr (), f\<lparr>cf_bridge := b, cf_streams := cf_streams f @ [s]\<rparr>, c))"

definition conference_remove ::
  "('p \<Rightarrow> audio_port) \<Rightarrow> ('s \<Rightarrow> 'p) \<Rightarrow> ('s \<Rightarrow> 'p) \<Rightarrow> 's \<Rightarrow> ('s, 'p) conference \<times> connections \<Rightarrow>
   unit result \<times> ('s, 'p) conference \<times> connections" where
  "conference_remove ports device on_bridge s fc =
     (case fc of (f, c) \<Rightarrow>
        if s \<notin> set (cf_streams f) then (Inl ValueError, f, c)
        else
          let f = f\<lparr>cf_streams := remove1 s (cf_streams f)\<rparr>
          in case root_remove ports (on_bridge s) (cf_bridge f, c) of
            (Inl e, b, c) \<Rightarrow> (Inl e, f\<lparr>cf_bridge := b\<rparr>, c)
          | (Inr _, b, c) \<Rightarrow>
              let f = f\<lparr>cf_bridge := b\<rparr>
              in case bridge_add ports (device s) (cf_stream_bridges f s, c) of
                (r, b, c) \<Rightarrow> (r, f\<lparr>cf_stream_bridges := (cf_stream_bridges f)(s := b)\<rparr>, c))"

definition conference_hold ::
  "('p \<Rightarrow> audio_port) \<Rightarrow> ('s, 'p) conference \<times> connections \<Rightarrow> unit result \<times> ('s, 'p) conference \<times> connections" where
  "conference_hold ports fc =
     (case fc of (f, c) \<Rightarrow>
        if cf_on_hold f then (Inr (), f, c)
        else case root_remove ports (cf_device f) (cf_bridge f, c) of
          (Inl e, b, c) \<Rightarrow> (Inl e, f\<lparr>cf_bridge := b\<rparr>, c)
        | (Inr _, b, c) \<Rightarrow> (Inr (), f\<lparr>cf_bridge := b, cf_on_hold := True\<rparr>, c))"

definition conference_unhold ::
  "('p \<Rightarrow> audio_port) \<Rightarrow> ('s, 'p) conference \<times> connections \<Rightarrow> unit result \<times> ('s, 'p) conference \<times> connections" where
  "conference_unhold ports fc =
     (case fc of (f, c) \<Rightarrow>
        if \<not> cf_on_hold f then (Inr (), f, c)
        else case root_add ports (cf_device f) (cf_bridge f, c) of
          (Inl e, b, c) \<Rightarrow> (Inl e, f\<lparr>cf_bridge := b\<rparr>, c)
        | (Inr _, b, c) \<Rightarrow> (Inr (), f\<lparr>cf_bridge := b, cf_on_hold := False\<rparr>, c))"

section \<open>A conference over time\<close>

datatype 's conference_action = Conf_Add 's | Conf_Remove 's | Conf_Hold | Conf_Unhold

fun conference_do ::
  "('p \<Rightarrow> audio_port) \<Rightarrow> ('s \<Rightarrow> 'p) \<Rightarrow> ('s \<Rightarrow> 'p) \<Rightarrow> 's conference_action \<Rightarrow> ('s, 'p) conference \<times> connections \<Rightarrow>
   unit result \<times> ('s, 'p) conference \<times> connections" where
  "conference_do ports device on_bridge (Conf_Add s) fc = conference_add ports device on_bridge s fc"
| "conference_do ports device on_bridge (Conf_Remove s) fc = conference_remove ports device on_bridge s fc"
| "conference_do ports device on_bridge Conf_Hold fc = conference_hold ports fc"
| "conference_do ports device on_bridge Conf_Unhold fc = conference_unhold ports fc"

text \<open>A run: the outcome of every operation, and what the conference and the mixer are after the last.\<close>

fun conference_run ::
  "('p \<Rightarrow> audio_port) \<Rightarrow> ('s \<Rightarrow> 'p) \<Rightarrow> ('s \<Rightarrow> 'p) \<Rightarrow> 's conference_action list \<Rightarrow>
   ('s, 'p) conference \<times> connections \<Rightarrow> unit result list \<times> ('s, 'p) conference \<times> connections" where
  "conference_run ports device on_bridge [] fc = ([], fc)"
| "conference_run ports device on_bridge (a # acts) fc =
     (case conference_do ports device on_bridge a fc of (r, fc) \<Rightarrow>
        (case conference_run ports device on_bridge acts fc of (rs, fc) \<Rightarrow> (r # rs, fc)))"

text \<open>What a conference promises, without bridges: its streams in order, whether it is on hold.\<close>

fun promised ::  "'s conference_action \<Rightarrow> 's list \<times> bool \<Rightarrow> unit result \<times> 's list \<times> bool" where
  "promised (Conf_Add s) (ss, hold) = (Inr (), if s \<in> set ss then ss else ss @ [s], hold)"
| "promised (Conf_Remove s) (ss, hold) = (if s \<in> set ss then (Inr (), remove1 s ss, hold) else (Inl ValueError, ss, hold))"
| "promised Conf_Hold (ss, hold) = (Inr (), ss, True)"
| "promised Conf_Unhold (ss, hold) = (Inr (), ss, False)"

fun promised_run :: "'s conference_action list \<Rightarrow> 's list \<times> bool \<Rightarrow> unit result list \<times> 's list \<times> bool" where
  "promised_run [] v = ([], v)"
| "promised_run (a # acts) v =
     (case promised a v of (r, v) \<Rightarrow> (case promised_run acts v of (rs, v) \<Rightarrow> (r # rs, v)))"

definition conference_view :: "('s, 'p) conference \<Rightarrow> 's list \<times> bool" where
  "conference_view f = (cf_streams f, cf_on_hold f)"

text \<open>The conference's bridge holds its streams, and its device unless it is on hold; the device
  of a stream is in the stream's own bridge exactly when the stream is not in the conference.\<close>

definition conference_ok :: "('p \<Rightarrow> audio_port) \<Rightarrow> ('s \<Rightarrow> 'p) \<Rightarrow> ('s \<Rightarrow> 'p) \<Rightarrow> ('s, 'p) conference \<Rightarrow> bool" where
  "conference_ok ports device on_bridge f \<longleftrightarrow>
     set (ro_ports (cf_bridge f)) = on_bridge ` set (cf_streams f) \<union> (if cf_on_hold f then {} else {cf_device f}) \<and>
     distinct (cf_streams f) \<and>
     (\<forall>s. (device s \<in> set (br_ports (cf_stream_bridges f s))) = (s \<notin> set (cf_streams f))) \<and>
     po_mixer (ports (cf_device f)) = ro_mixer (cf_bridge f) \<and>
     (\<forall>s. po_mixer (ports (on_bridge s)) = ro_mixer (cf_bridge f) \<and> po_mixer (ports (device s)) = br_mixer (cf_stream_bridges f s))"

lemma root_add_ok:
  "po_mixer (ports p) = ro_mixer b \<Longrightarrow>
   \<exists>c'. root_add ports p (b, c) = (Inr (), b\<lparr>ro_ports := if p \<in> set (ro_ports b) then ro_ports b else ro_ports b @ [p]\<rparr>, c')"
  by (simp add: root_add_def)

lemma root_remove_ok:
  "p \<in> set (ro_ports b) \<Longrightarrow> \<exists>c'. root_remove ports p (b, c) = (Inr (), b\<lparr>ro_ports := removeAll p (ro_ports b)\<rparr>, c')"
  by (simp add: root_remove_def)

lemma bridge_add_ok:
  "po_mixer (ports p) = br_mixer b \<Longrightarrow>
   \<exists>c'. bridge_add ports p (b, c) = (Inr (), b\<lparr>br_ports := if p \<in> set (br_ports b) then br_ports b else br_ports b @ [p]\<rparr>, c')"
  by (simp add: bridge_add_def Let_def)

lemma bridge_remove_ok:
  "p \<in> set (br_ports b) \<Longrightarrow> \<exists>c'. bridge_remove ports p (b, c) = (Inr (), b\<lparr>br_ports := removeAll p (br_ports b)\<rparr>, c')"
  by (simp add: bridge_remove_def Let_def)

lemma conference_add_ok:
  assumes "conference_ok ports device on_bridge f" "conference_add ports device on_bridge s (f, c) = (r, f', c')"
  shows "conference_ok ports device on_bridge f' \<and> promised (Conf_Add s) (conference_view f) = (r, conference_view f')"
proof (cases "s \<in> set (cf_streams f)")
  case True
  then show ?thesis using assms by (auto simp: conference_add_def conference_view_def)
next
  case False
  then have mem: "device s \<in> set (br_ports (cf_stream_bridges f s))" and mix: "po_mixer (ports (on_bridge s)) = ro_mixer (cf_bridge f)"
    using assms(1) by (simp_all add: conference_ok_def)
  obtain c1 where 1: "bridge_remove ports (device s) (cf_stream_bridges f s, c) =
      (Inr (), (cf_stream_bridges f s)\<lparr>br_ports := removeAll (device s) (br_ports (cf_stream_bridges f s))\<rparr>, c1)"
    using bridge_remove_ok [of "device s" "cf_stream_bridges f s" ports c] mem by blast
  obtain c2 where 2: "root_add ports (on_bridge s) (cf_bridge f, c1) =
      (Inr (), (cf_bridge f)\<lparr>ro_ports := if on_bridge s \<in> set (ro_ports (cf_bridge f)) then ro_ports (cf_bridge f)
        else ro_ports (cf_bridge f) @ [on_bridge s]\<rparr>, c2)"
    using root_add_ok [of ports "on_bridge s" "cf_bridge f" c1] mix by blast
  show ?thesis using assms False 1 2 by (auto simp: conference_add_def Let_def conference_ok_def conference_view_def split: if_splits)
qed

lemma conference_remove_ok:
  assumes "conference_ok ports device on_bridge f" "inj on_bridge" "cf_device f \<notin> range on_bridge"
    and "s \<in> set (cf_streams f)" "conference_remove ports device on_bridge s (f, c) = (r, f', c')"
  shows "conference_ok ports device on_bridge f' \<and> promised (Conf_Remove s) (conference_view f) = (r, conference_view f')"
proof -
  have mem: "on_bridge s \<in> set (ro_ports (cf_bridge f))" and mix: "po_mixer (ports (device s)) = br_mixer (cf_stream_bridges f s)"
    using assms(1,4) by (auto simp: conference_ok_def)
  obtain c1 where 1: "root_remove ports (on_bridge s) (cf_bridge f, c) =
      (Inr (), (cf_bridge f)\<lparr>ro_ports := removeAll (on_bridge s) (ro_ports (cf_bridge f))\<rparr>, c1)"
    using root_remove_ok [of "on_bridge s" "cf_bridge f" ports c] mem by blast
  obtain c2 where 2: "bridge_add ports (device s) (cf_stream_bridges f s, c1) =
      (Inr (), (cf_stream_bridges f s)\<lparr>br_ports := if device s \<in> set (br_ports (cf_stream_bridges f s)) then br_ports (cf_stream_bridges f s)
        else br_ports (cf_stream_bridges f s) @ [device s]\<rparr>, c2)"
    using bridge_add_ok [of ports "device s" "cf_stream_bridges f s" c1] mix by blast
  have f': "r = Inr ()" "f' = f\<lparr>cf_streams := remove1 s (cf_streams f),
      cf_bridge := (cf_bridge f)\<lparr>ro_ports := removeAll (on_bridge s) (ro_ports (cf_bridge f))\<rparr>,
      cf_stream_bridges := (cf_stream_bridges f)(s := (cf_stream_bridges f s)\<lparr>br_ports :=
        if device s \<in> set (br_ports (cf_stream_bridges f s)) then br_ports (cf_stream_bridges f s) else br_ports (cf_stream_bridges f s) @ [device s]\<rparr>)\<rparr>"
    using assms(4,5) 1 2 by (auto simp: conference_remove_def Let_def)
  have "on_bridge ` set (cf_streams f) - {on_bridge s} = on_bridge ` (set (cf_streams f) - {s})"
    using assms(2) by (auto dest: injD)
  moreover have "cf_device f \<noteq> on_bridge s" using assms(3) by auto
  ultimately show ?thesis using assms(1,4) f' by (auto simp: conference_ok_def conference_view_def)
qed

lemma conference_hold_ok:
  assumes "conference_ok ports device on_bridge f" "cf_device f \<notin> range on_bridge" "conference_hold ports (f, c) = (r, f', c')"
  shows "conference_ok ports device on_bridge f' \<and> promised Conf_Hold (conference_view f) = (r, conference_view f')"
proof (cases "cf_on_hold f")
  case False
  then obtain c1 where "root_remove ports (cf_device f) (cf_bridge f, c) =
      (Inr (), (cf_bridge f)\<lparr>ro_ports := removeAll (cf_device f) (ro_ports (cf_bridge f))\<rparr>, c1)"
    using root_remove_ok [of "cf_device f" "cf_bridge f" ports c] assms(1) by (auto simp: conference_ok_def)
  then show ?thesis using assms False by (auto simp: conference_hold_def conference_ok_def conference_view_def) (metis rangeI)
qed (use assms in \<open>auto simp: conference_hold_def conference_view_def\<close>)

lemma conference_unhold_ok:
  assumes "conference_ok ports device on_bridge f" "conference_unhold ports (f, c) = (r, f', c')"
  shows "conference_ok ports device on_bridge f' \<and> promised Conf_Unhold (conference_view f) = (r, conference_view f')"
proof (cases "cf_on_hold f")
  case True
  then obtain c1 where "root_add ports (cf_device f) (cf_bridge f, c) =
      (Inr (), (cf_bridge f)\<lparr>ro_ports := if cf_device f \<in> set (ro_ports (cf_bridge f)) then ro_ports (cf_bridge f)
        else ro_ports (cf_bridge f) @ [cf_device f]\<rparr>, c1)"
    using root_add_ok [of ports "cf_device f" "cf_bridge f" c] assms(1) by (auto simp: conference_ok_def)
  then show ?thesis using assms True by (auto simp: conference_unhold_def conference_ok_def conference_view_def split: if_splits)
qed (use assms in \<open>auto simp: conference_unhold_def conference_view_def\<close>)

section \<open>The promise is kept\<close>

lemma conference_device:
  "conference_do ports device on_bridge a (f, c) = (r, f', c') \<Longrightarrow> cf_device f' = cf_device f"
  by (cases a)
    (auto simp: conference_add_def conference_remove_def conference_hold_def conference_unhold_def Let_def
      split: if_splits prod.splits sum.splits)

lemma conference_do_ok:
  assumes "conference_ok ports device on_bridge f" "inj on_bridge" "cf_device f \<notin> range on_bridge"
    and "conference_do ports device on_bridge a (f, c) = (r, f', c')"
  shows "conference_ok ports device on_bridge f' \<and> cf_device f' = cf_device f \<and>
    promised a (conference_view f) = (r, conference_view f')"
proof (cases a)
  case (Conf_Remove s)
  show ?thesis
  proof (cases "s \<in> set (cf_streams f)")
    case True
    then show ?thesis
      using conference_remove_ok [OF assms(1-3) True] assms(4) conference_device [OF assms(4)] Conf_Remove by simp
  qed (use assms Conf_Remove in \<open>auto simp: conference_remove_def conference_view_def\<close>)
next
  case (Conf_Add s)
  then show ?thesis using conference_add_ok [OF assms(1)] assms(4) conference_device [OF assms(4)] by simp
next
  case Conf_Hold
  then show ?thesis using conference_hold_ok [OF assms(1,3)] assms(4) conference_device [OF assms(4)] by simp
next
  case Conf_Unhold
  then show ?thesis using conference_unhold_ok [OF assms(1)] assms(4) conference_device [OF assms(4)] by simp
qed

lemma conference_run_ok:
  "conference_ok ports device on_bridge f \<Longrightarrow> inj on_bridge \<Longrightarrow> cf_device f \<notin> range on_bridge \<Longrightarrow>
   conference_run ports device on_bridge acts (f, c) = (rs, f', c') \<Longrightarrow>
   conference_ok ports device on_bridge f' \<and> cf_device f' = cf_device f \<and>
   promised_run acts (conference_view f) = (rs, conference_view f')"
proof (induction acts arbitrary: f c rs)
  case (Cons a acts)
  obtain r f1 c1 where 1: "conference_do ports device on_bridge a (f, c) = (r, f1, c1)"
    by (cases "conference_do ports device on_bridge a (f, c)") auto
  obtain rs1 f2 c2 where 2: "conference_run ports device on_bridge acts (f1, c1) = (rs1, f2, c2)"
    by (cases "conference_run ports device on_bridge acts (f1, c1)") auto
  have e: "rs = r # rs1" "f2 = f'" "c2 = c'" using Cons.prems(4) 1 2 by simp_all
  note ok = conference_do_ok [OF Cons.prems(1-3) 1]
  have "conference_ok ports device on_bridge f' \<and> cf_device f' = cf_device f1 \<and>
      promised_run acts (conference_view f1) = (rs1, conference_view f')"
    by (rule Cons.IH) (use ok Cons.prems(2,3) 2 e in simp_all)
  with ok e(1) show ?case by simp
qed simp

lemma conference_init_ok:
  assumes "conference_init ports mixer dev bridges c = (r, f, c')"
    and "po_mixer (ports dev) = mixer" "\<And>s. po_mixer (ports (on_bridge s)) = mixer"
    and "\<And>s. po_mixer (ports (device s)) = br_mixer (bridges s) \<and> device s \<in> set (br_ports (bridges s))"
  shows "r = Inr () \<and> conference_ok ports device on_bridge f \<and> cf_device f = dev \<and> conference_view f = ([], False)"
  using assms by (auto simp: conference_init_def root_add_def root_init_def conference_ok_def conference_view_def)

text \<open>C28. A conference keeps its promise. It is set up without an error, and then every operation of
  any run has the outcome, and leaves the streams and the hold state, that the description without
  bridges gives: only removing a stream that is not there raises, everything else succeeds. After the
  run the ports of the conference's bridge are the bridges of its streams, and its own device exactly
  while it is not on hold, and the device of a stream is on the stream's own bridge exactly while the
  stream is not in the conference. (All ports belong to the conference's mixer, every stream has a
  bridge of its own, and its device is on it before the conference takes it.)\<close>

theorem conference_members:
  assumes "po_mixer (ports dev) = mixer" "\<And>s. po_mixer (ports (on_bridge s)) = mixer"
    and "\<And>s. po_mixer (ports (device s)) = br_mixer (bridges s) \<and> device s \<in> set (br_ports (bridges s))"
    and "inj on_bridge" "dev \<notin> range on_bridge"
    and "conference_init ports mixer dev bridges c = (r, f, c')"
    and "conference_run ports device on_bridge acts (f, c') = (rs, f', c'')"
  shows "r = Inr () \<and> promised_run acts ([], False) = (rs, cf_streams f', cf_on_hold f') \<and>
    set (ro_ports (cf_bridge f')) = on_bridge ` set (cf_streams f') \<union> (if cf_on_hold f' then {} else {dev}) \<and>
    {s. device s \<in> set (br_ports (cf_stream_bridges f' s))} = - set (cf_streams f')"
proof -
  have i: "r = Inr ()" "conference_ok ports device on_bridge f" "cf_device f = dev" "conference_view f = ([], False)"
    using conference_init_ok [where on_bridge = on_bridge and device = device, OF assms(6,1-3)] by simp_all
  have "conference_ok ports device on_bridge f' \<and> cf_device f' = cf_device f \<and>
      promised_run acts (conference_view f) = (rs, conference_view f')"
    by (rule conference_run_ok [OF i(2) assms(4) _ assms(7)]) (use i(3) assms(5) in simp)
  then show ?thesis using i(1,3,4) unfolding conference_ok_def conference_view_def by auto
qed

definition one_mixer :: "nat \<Rightarrow> audio_port" where
  "one_mixer p = \<lparr>po_mixer = 0, po_consumer = Some p, po_producer = Some p\<rparr>"

definition device_bridges :: "nat \<Rightarrow> nat bridge" where
  "device_bridges s = \<lparr>br_mixer = 0, br_ports = [0], br_multiplexer = None, br_demultiplexer = None\<rparr>"

theorem conference_members_witness:
  "let (r, f, c) = conference_init one_mixer 0 0 device_bridges [];
       (rs, f, c) = conference_run one_mixer (\<lambda>_. 0) Suc [Conf_Add 4, Conf_Hold, Conf_Remove 7] (f, c) in
   rs = [Inr (), Inr (), Inl ValueError] \<and> set (ro_ports (cf_bridge f)) = {5} \<and>
   {s. 0 \<in> set (br_ports (cf_stream_bridges f s))} = - {4}"
proof -
  obtain r f c where i: "conference_init one_mixer 0 0 device_bridges [] = (r, f, c)"
    by (cases "conference_init one_mixer 0 0 device_bridges []") auto
  let ?acts = "[Conf_Add 4, Conf_Hold, Conf_Remove (7 :: nat)]"
  obtain rs g d where g: "conference_run one_mixer (\<lambda>_. 0) Suc ?acts (f, c) = (rs, g, d)"
    by (cases "conference_run one_mixer (\<lambda>_. 0) Suc ?acts (f, c)") auto
  have "r = Inr () \<and> promised_run ?acts ([], False) = (rs, cf_streams g, cf_on_hold g) \<and>
      set (ro_ports (cf_bridge g)) = Suc ` set (cf_streams g) \<union> (if cf_on_hold g then {} else {0}) \<and>
      {s. 0 \<in> set (br_ports (cf_stream_bridges g s))} = - set (cf_streams g)"
    by (rule conference_members [OF _ _ _ inj_Suc _ i g]) (simp_all add: one_mixer_def device_bridges_def)
  then have "rs = [Inr (), Inr (), Inl ValueError] \<and> set (ro_ports (cf_bridge g)) = {5} \<and>
      {s. 0 \<in> set (br_ports (cf_stream_bridges g s))} = - {4}"
    by (auto dest!: sym [of "[4]"])
  then show ?thesis unfolding i Let_def prod.case g prod.case.
qed

end
