(* ===== verification/Account.thy ===== *)
theory Account
  imports Prelude
begin

text \<open>
  \<open>Account\<close> and \<open>BonjourAccount\<close> of \<open>sipsimple/account/__init__.py\<close>: when an account is active its agents
  (registrar, subscribers, publishers, XCAP) run; it follows the setting \<open>enabled\<close> between \<open>start\<close> and \<open>stop\<close>.
  What the agents do is modelled in their own theories; here they are started, stopped and asked
  to register or subscribe again. The documents the subscribers receive are parsed outside (the XML
  payloads); a document that is missing, of another type or does not parse is \<open>None\<close>.
\<close>

section \<open>State\<close>

datatype agent =
    Ag_Registrar | Ag_MWI | Ag_Presence_Winfo | Ag_Dialog_Winfo | Ag_Presence | Ag_Self_Presence | Ag_Dialog
  | Ag_Presence_Publisher | Ag_Dialog_Publisher | Ag_XCAP

datatype life_note =
    Will_Activate | Did_Activate | Will_Deactivate | Did_Deactivate
  | Agent_Start agent | Agent_Stop agent | Agent_Resubscribe agent | Agent_Reregister
  | XCAP_Init | Account_Save | Account_Delete | Did_Discover_XCAP
  | Got_Message_Summary "string option"
  | Got_Presence_Winfo int | Got_Dialog_Winfo int | Got_Presence_State int | Got_Dialog_State int | Got_Self_Presence

record account =
  ac_id :: string
  ac_enabled :: bool
  ac_started :: bool
  ac_deleted :: bool
  ac_active :: bool
  ac_xcap_enabled :: bool
  ac_xcap_discovered :: bool
  ac_voicemail :: "string option"
  ac_pwi_version :: "int option"
  ac_dwi_version :: "int option"
  ac_presence_version :: "int option"
  ac_dialog_version :: "int option"
  ac_log :: "life_note list"

definition account_init :: "string \<Rightarrow> bool \<Rightarrow> bool \<Rightarrow> bool \<Rightarrow> account" where
  "account_init i enabled xcap discovered =
     \<lparr>ac_id = i, ac_enabled = enabled, ac_started = False, ac_deleted = False, ac_active = False, ac_xcap_enabled = xcap,
      ac_xcap_discovered = discovered, ac_voicemail = None, ac_pwi_version = None, ac_dwi_version = None,
      ac_presence_version = None, ac_dialog_version = None, ac_log = []\<rparr>"

definition ac_post :: "life_note list \<Rightarrow> account \<Rightarrow> account" where
  "ac_post ns a = a\<lparr>ac_log := ac_log a @ ns\<rparr>"

section \<open>Starting and stopping\<close>

definition started_agents :: "agent list" where
  "started_agents = [Ag_Registrar, Ag_MWI, Ag_Presence_Winfo, Ag_Dialog_Winfo, Ag_Presence, Ag_Self_Presence, Ag_Dialog,
     Ag_Presence_Publisher, Ag_Dialog_Publisher]"

definition account_activate :: "account \<Rightarrow> account" where
  "account_activate a =
     (if ac_active a then a
      else ac_post ([Will_Activate] @ map Agent_Start started_agents @ (if ac_xcap_enabled a then [Agent_Start Ag_XCAP] else []) @ [Did_Activate])
        (a\<lparr>ac_active := True\<rparr>))"

definition account_deactivate :: "account \<Rightarrow> account" where
  "account_deactivate a =
     (if \<not> ac_active a then a
      else ac_post ([Will_Deactivate] @ map Agent_Stop (started_agents @ [Ag_XCAP]) @ [Did_Deactivate]) (a\<lparr>ac_active := False\<rparr>))"

definition account_start :: "account \<Rightarrow> account" where
  "account_start a =
     (if ac_started a \<or> ac_deleted a then a
      else let a = ac_post [XCAP_Init] (a\<lparr>ac_started := True\<rparr>)
           in if ac_enabled a then account_activate a else a)"

definition account_stop :: "account \<Rightarrow> account" where
  "account_stop a = (if \<not> ac_started a then a else account_deactivate (a\<lparr>ac_started := False\<rparr>))"

definition account_delete :: "account \<Rightarrow> account" where
  "account_delete a =
     (if ac_deleted a then a else ac_post [Account_Delete] (account_stop (a\<lparr>ac_deleted := True\<rparr>)))"

definition account_reregister :: "account \<Rightarrow> account" where
  "account_reregister a = (if ac_started a then ac_post [Agent_Reregister] a else a)"

definition account_resubscribe :: "account \<Rightarrow> account" where
  "account_resubscribe a =
     (if ac_started a
      then ac_post (map Agent_Resubscribe [Ag_MWI, Ag_Presence_Winfo, Ag_Dialog_Winfo, Ag_Presence, Ag_Self_Presence, Ag_Dialog]) a
      else a)"

text \<open>The notification of changed settings, of the account itself or of the general settings.\<close>

definition settings_did_change :: "bool \<Rightarrow> account \<Rightarrow> account" where
  "settings_did_change enabled_modified a =
     (if ac_started a \<and> enabled_modified then (if ac_enabled a then account_activate a else account_deactivate a) else a)"

definition did_discover_capabilities :: "account \<Rightarrow> account" where
  "did_discover_capabilities a =
     (if ac_started a \<and> \<not> ac_xcap_discovered a
      then ac_post [Account_Save, Did_Discover_XCAP] (a\<lparr>ac_xcap_discovered := True\<rparr>) else a)"

section \<open>What the subscribers receive\<close>

text \<open>A versioned document: ignored (\<open>None\<close>), or used, with a new subscription when something was missed.\<close>

definition version_turn :: "int option \<Rightarrow> bool \<Rightarrow> int \<Rightarrow> bool option" where
  "version_turn current partial version =
     (case current of
        None \<Rightarrow> Some partial
      | Some c \<Rightarrow> if version \<le> c then None else Some (partial \<and> version > c + 1))"

record winfo =
  wi_package :: string
  wi_version :: int
  wi_partial :: bool

definition presence_winfo_notify :: "winfo option \<Rightarrow> account \<Rightarrow> account" where
  "presence_winfo_notify doc a =
     (case doc of
        None \<Rightarrow> a
      | Some w \<Rightarrow>
          if wi_package w \<noteq> ''presence'' then a
          else case version_turn (ac_pwi_version a) (wi_partial w) (wi_version w) of
            None \<Rightarrow> a
          | Some again \<Rightarrow>
              ac_post ((if again then [Agent_Resubscribe Ag_Presence_Winfo] else []) @ [Got_Presence_Winfo (wi_version w)])
                (a\<lparr>ac_pwi_version := Some (wi_version w)\<rparr>))"

definition presence_winfo_end :: "account \<Rightarrow> account" where
  "presence_winfo_end a = a\<lparr>ac_pwi_version := None\<rparr>"

definition dialog_winfo_notify :: "winfo option \<Rightarrow> account \<Rightarrow> account" where
  "dialog_winfo_notify doc a =
     (case doc of
        None \<Rightarrow> a
      | Some w \<Rightarrow>
          if wi_package w \<noteq> ''dialog'' then a
          else case version_turn (ac_dwi_version a) (wi_partial w) (wi_version w) of
            None \<Rightarrow> a
          | Some again \<Rightarrow>
              ac_post ((if again then [Agent_Resubscribe Ag_Dialog_Winfo] else []) @ [Got_Dialog_Winfo (wi_version w)])
                (a\<lparr>ac_dwi_version := Some (wi_version w)\<rparr>))"

definition dialog_winfo_end :: "account \<Rightarrow> account" where
  "dialog_winfo_end a = a\<lparr>ac_dwi_version := None\<rparr>"

record rls_notify =
  rl_uri :: string
  rl_version :: int
  rl_full_state :: bool

definition presence_notify :: "string \<Rightarrow> rls_notify option \<Rightarrow> account \<Rightarrow> account" where
  "presence_notify rls_presence_uri doc a =
     (case doc of
        None \<Rightarrow> a
      | Some d \<Rightarrow>
          if rl_uri d \<noteq> rls_presence_uri then a
          else case version_turn (ac_presence_version a) (\<not> rl_full_state d) (rl_version d) of
            None \<Rightarrow> a
          | Some again \<Rightarrow>
              ac_post ((if again then [Agent_Resubscribe Ag_Presence] else []) @ [Got_Presence_State (rl_version d)])
                (a\<lparr>ac_presence_version := Some (rl_version d)\<rparr>))"

definition presence_end :: "account \<Rightarrow> account" where
  "presence_end a = a\<lparr>ac_presence_version := None\<rparr>"

definition dialog_notify :: "string \<Rightarrow> rls_notify option \<Rightarrow> account \<Rightarrow> account" where
  "dialog_notify rls_dialog_uri doc a =
     (case doc of
        None \<Rightarrow> a
      | Some d \<Rightarrow>
          if rl_uri d \<noteq> rls_dialog_uri then a
          else case version_turn (ac_dialog_version a) (\<not> rl_full_state d) (rl_version d) of
            None \<Rightarrow> a
          | Some again \<Rightarrow>
              ac_post ((if again then [Agent_Resubscribe Ag_Dialog] else []) @ [Got_Dialog_State (rl_version d)])
                (a\<lparr>ac_dialog_version := Some (rl_version d)\<rparr>))"

definition dialog_end :: "account \<Rightarrow> account" where
  "dialog_end a = a\<lparr>ac_dialog_version := None\<rparr>"

text \<open>\<open>str.partition('sip:')[2]\<close>\<close>

fun after_scheme :: "string \<Rightarrow> string" where
  "after_scheme [] = []"
| "after_scheme (c # s) = (if take 4 (c # s) = ''sip:'' then drop 4 (c # s) else after_scheme s)"

definition self_presence_notify :: "string option \<Rightarrow> account \<Rightarrow> account" where
  "self_presence_notify entity a =
     (case entity of
        None \<Rightarrow> a
      | Some e \<Rightarrow> if after_scheme e \<noteq> ac_id a then a else ac_post [Got_Self_Presence] a)"

text \<open>The message account of a summary, when it has one, is made a SIP address without its scheme.\<close>

fun without_scheme :: "string \<Rightarrow> string" where
  "without_scheme [] = []"
| "without_scheme (c # s) = (if take 4 (c # s) = ''sip:'' then drop 4 (c # s) else c # without_scheme s)"

definition message_summary_notify ::
  "(string \<Rightarrow> string result) \<Rightarrow> string option option \<Rightarrow> account \<Rightarrow> unit result \<times> account" where
  "message_summary_notify sip_address doc a =
     (case doc of
        None \<Rightarrow> (Inr (), a)
      | Some message_account \<Rightarrow>
          (case (case message_account of
                   None \<Rightarrow> Inr None
                 | Some s \<Rightarrow> if s = [] then Inr None
                             else bindR (sip_address (without_scheme s)) (\<lambda>v. Inr (if v = [] then None else Some v))) of
             Inl e \<Rightarrow> (Inl e, a)
           | Inr v \<Rightarrow> (Inr (), ac_post [Got_Message_Summary v] (a\<lparr>ac_voicemail := v\<rparr>))))"

definition mwi_did_deactivate :: "account \<Rightarrow> account" where
  "mwi_did_deactivate a = a\<lparr>ac_voicemail := None\<rparr>"

text \<open>\<open>voicemail_uri\<close> and \<open>credentials\<close>\<close>

definition voicemail_uri :: "string option \<Rightarrow> account \<Rightarrow> string option" where
  "voicemail_uri configured a = (case ac_voicemail a of Some v \<Rightarrow> if v = [] then configured else Some v | None \<Rightarrow> configured)"

definition credentials :: "string option \<Rightarrow> string \<Rightarrow> string \<Rightarrow> string \<times> string" where
  "credentials auth_username id_username password =
     (case auth_username of Some u \<Rightarrow> if u = [] then id_username else u | None \<Rightarrow> id_username, password)"

section \<open>BonjourAccount\<close>

datatype bonjour_note =
    Services_Start | Services_Stop | Services_Activate | Services_Deactivate | Update_Registrations | Restart_Discovery
  | Bonjour_Note life_note

record bonjour_account =
  bo_enabled :: bool
  bo_started :: bool
  bo_active :: bool
  bo_log :: "bonjour_note list"

definition bo_post :: "bonjour_note list \<Rightarrow> bonjour_account \<Rightarrow> bonjour_account" where
  "bo_post ns b = b\<lparr>bo_log := bo_log b @ ns\<rparr>"

text \<open>\<open>BonjourAccountEnabledSetting\<close>: never enabled without mDNS, where it cannot be assigned either.\<close>

definition bonjour_enabled :: "bool \<Rightarrow> bonjour_account \<Rightarrow> bool" where
  "bonjour_enabled mdns b = (mdns \<and> bo_enabled b)"

definition bonjour_set_enabled :: "bool \<Rightarrow> bool \<Rightarrow> bonjour_account \<Rightarrow> unit result \<times> bonjour_account" where
  "bonjour_set_enabled mdns v b = (if \<not> mdns then (Inl RuntimeError, b) else (Inr (), b\<lparr>bo_enabled := v\<rparr>))"

definition bonjour_activate :: "bonjour_account \<Rightarrow> bonjour_account" where
  "bonjour_activate b =
     (if bo_active b then b
      else bo_post [Bonjour_Note Will_Activate, Services_Activate, Bonjour_Note Did_Activate] (b\<lparr>bo_active := True\<rparr>))"

definition bonjour_deactivate :: "bonjour_account \<Rightarrow> bonjour_account" where
  "bonjour_deactivate b =
     (if \<not> bo_active b then b
      else bo_post [Bonjour_Note Will_Deactivate, Services_Deactivate, Bonjour_Note Did_Deactivate] (b\<lparr>bo_active := False\<rparr>))"

definition bonjour_start :: "bool \<Rightarrow> bonjour_account \<Rightarrow> bonjour_account" where
  "bonjour_start mdns b =
     (if bo_started b then b
      else let b = bo_post [Services_Start] (b\<lparr>bo_started := True\<rparr>)
           in if bonjour_enabled mdns b then bonjour_activate b else b)"

definition bonjour_stop :: "bonjour_account \<Rightarrow> bonjour_account" where
  "bonjour_stop b =
     (if \<not> bo_started b then b else bo_post [Services_Stop] (bonjour_deactivate (b\<lparr>bo_started := False\<rparr>)))"

definition bonjour_did_change :: "bool \<Rightarrow> string set \<Rightarrow> bonjour_account \<Rightarrow> bonjour_account" where
  "bonjour_did_change mdns modified b =
     (if \<not> bo_started b then b
      else if ''enabled'' \<in> modified then (if bonjour_enabled mdns b then bonjour_activate b else bonjour_deactivate b)
      else if bonjour_enabled mdns b then
        bo_post ((if ''display_name'' \<in> modified then [Update_Registrations] else []) @
          (if ''sip.transport_list'' \<in> modified \<or> ''tls.certificate'' \<in> modified then [Update_Registrations, Restart_Discovery] else [])) b
      else b)"

section \<open>Accounts follow their setting\<close>

text \<open>Assigning the setting and saving the account is one step. The other steps are the notifications
  of the subscribers, which carry the document or \<open>None\<close>.\<close>

datatype account_event =
    Do_Start | Do_Stop | Do_Delete | Do_Reregister | Do_Resubscribe
  | Do_Enable bool
  | Other_Setting
  | XCAP_Discovered
  | PWI_Notify "winfo option" | PWI_End
  | DWI_Notify "winfo option" | DWI_End
  | Presence_Notify string "rls_notify option" | Presence_End
  | Dialog_Notify string "rls_notify option" | Dialog_End
  | Self_Presence_Notify "string option"
  | MWI_Notify "string \<Rightarrow> string result" "string option option"
  | MWI_Deactivate

fun account_turn :: "account_event \<Rightarrow> account \<Rightarrow> account" where
  "account_turn Do_Start a = account_start a"
| "account_turn Do_Stop a = account_stop a"
| "account_turn Do_Delete a = account_delete a"
| "account_turn Do_Reregister a = account_reregister a"
| "account_turn Do_Resubscribe a = account_resubscribe a"
| "account_turn (Do_Enable b) a = settings_did_change (b \<noteq> ac_enabled a) (a\<lparr>ac_enabled := b\<rparr>)"
| "account_turn Other_Setting a = settings_did_change False a"
| "account_turn XCAP_Discovered a = did_discover_capabilities a"
| "account_turn (PWI_Notify doc) a = presence_winfo_notify doc a"
| "account_turn PWI_End a = presence_winfo_end a"
| "account_turn (DWI_Notify doc) a = dialog_winfo_notify doc a"
| "account_turn DWI_End a = dialog_winfo_end a"
| "account_turn (Presence_Notify u doc) a = presence_notify u doc a"
| "account_turn Presence_End a = presence_end a"
| "account_turn (Dialog_Notify u doc) a = dialog_notify u doc a"
| "account_turn Dialog_End a = dialog_end a"
| "account_turn (Self_Presence_Notify e) a = self_presence_notify e a"
| "account_turn (MWI_Notify f doc) a = snd (message_summary_notify f doc a)"
| "account_turn MWI_Deactivate a = mwi_did_deactivate a"

definition account_life :: "account_event list \<Rightarrow> account \<Rightarrow> account" where
  "account_life ss a = fold account_turn ss a"

text \<open>The agents that run, from what was asked of them.\<close>

fun run_agent :: "life_note \<Rightarrow> agent set \<Rightarrow> agent set" where
  "run_agent (Agent_Start g) r = insert g r"
| "run_agent (Agent_Stop g) r = r - {g}"
| "run_agent n r = r"

definition running_agents :: "account \<Rightarrow> agent set" where
  "running_agents a = fold run_agent (ac_log a) {}"

fun activation_note :: "life_note \<Rightarrow> bool" where
  "activation_note Will_Activate = True"
| "activation_note Did_Activate = True"
| "activation_note Will_Deactivate = True"
| "activation_note Did_Deactivate = True"
| "activation_note n = False"

text \<open>Whole turns of the four notifications, after which the account is inactive, or after two more active.\<close>

fun turns :: "nat \<Rightarrow> life_note list" where
  "turns 0 = []"
| "turns (Suc n) = turns n @ [Will_Activate, Did_Activate, Will_Deactivate, Did_Deactivate]"

definition turned :: "account \<Rightarrow> bool" where
  "turned a = (\<exists>n. filter activation_note (ac_log a) = turns n @ (if ac_active a then [Will_Activate, Did_Activate] else []))"

definition agents_follow :: "account \<Rightarrow> bool" where
  "agents_follow a = (if ac_active a then set started_agents \<subseteq> running_agents a else running_agents a = {})"

definition lively :: "account \<Rightarrow> bool" where
  "lively a \<longleftrightarrow> ac_active a = (ac_started a \<and> ac_enabled a) \<and> turned a \<and> agents_follow a \<and> (ac_deleted a \<longrightarrow> \<not> ac_started a)"

lemma post_simps [simp]:
  "ac_active (ac_post ns a) = ac_active a" "ac_started (ac_post ns a) = ac_started a" "ac_enabled (ac_post ns a) = ac_enabled a"
  "ac_deleted (ac_post ns a) = ac_deleted a" "ac_log (ac_post ns a) = ac_log a @ ns"
  by (simp_all add: ac_post_def)

definition inert :: "life_note list \<Rightarrow> bool" where
  "inert ns \<longleftrightarrow> filter activation_note ns = [] \<and> (\<forall>r. fold run_agent ns r = r)"

lemma turned_agents_inert:
  "inert ns \<Longrightarrow> ac_log a' = ac_log a @ ns \<Longrightarrow> ac_active a' = ac_active a \<Longrightarrow> turned a' = turned a \<and> agents_follow a' = agents_follow a"
  by (simp add: turned_def agents_follow_def running_agents_def inert_def)

lemma lively_inert:
  "lively a \<Longrightarrow> inert ns \<Longrightarrow> ac_log a' = ac_log a @ ns \<Longrightarrow> ac_active a' = ac_active a \<Longrightarrow> ac_started a' = ac_started a \<Longrightarrow>
   ac_enabled a' = ac_enabled a \<Longrightarrow> ac_deleted a' = ac_deleted a \<Longrightarrow> lively a'"
  by (simp add: lively_def turned_agents_inert)

lemma activate_keeps:
  assumes "turned a" "agents_follow a"
  shows "turned (account_activate a) \<and> agents_follow (account_activate a) \<and> ac_active (account_activate a)"
proof (cases "ac_active a")
  case False
  then have "turned (account_activate a)"
    using assms(1) by (auto simp: turned_def account_activate_def started_agents_def)
  moreover have "agents_follow (account_activate a)"
    using False by (auto simp: agents_follow_def account_activate_def running_agents_def started_agents_def)
  ultimately show ?thesis by (simp add: account_activate_def)
qed (use assms in \<open>simp add: account_activate_def\<close>)

lemma deactivate_keeps:
  assumes "turned a" "agents_follow a"
  shows "turned (account_deactivate a) \<and> agents_follow (account_deactivate a) \<and> \<not> ac_active (account_deactivate a)"
proof (cases "ac_active a")
  case True
  then obtain n where "filter activation_note (ac_log a) = turns n @ [Will_Activate, Did_Activate]"
    using assms(1) by (auto simp: turned_def)
  then have "filter activation_note (ac_log (account_deactivate a)) = turns (Suc n)"
    using True by (simp add: account_deactivate_def started_agents_def)
  then have "turned (account_deactivate a)"
    using True unfolding turned_def by (intro exI [of _ "Suc n"]) (simp add: account_deactivate_def)
  moreover have "x \<in> set (started_agents @ [Ag_XCAP])" for x by (cases x) (simp_all add: started_agents_def)
  then have "running_agents (account_deactivate a) = {}"
    using True unfolding running_agents_def account_deactivate_def started_agents_def by auto
  then have "agents_follow (account_deactivate a)" by (simp add: agents_follow_def account_deactivate_def)
  ultimately show ?thesis by (simp add: account_deactivate_def)
qed (use assms in \<open>simp add: account_deactivate_def\<close>)

lemma activate_rest [simp]:
  "ac_started (account_activate a) = ac_started a" "ac_enabled (account_activate a) = ac_enabled a" "ac_deleted (account_activate a) = ac_deleted a"
  "ac_started (account_deactivate a) = ac_started a" "ac_enabled (account_deactivate a) = ac_enabled a" "ac_deleted (account_deactivate a) = ac_deleted a"
  by (simp_all add: account_activate_def account_deactivate_def)

lemma turned_cong: "ac_log a' = ac_log a \<Longrightarrow> ac_active a' = ac_active a \<Longrightarrow> turned a' = turned a \<and> agents_follow a' = agents_follow a"
  by (simp add: turned_def agents_follow_def running_agents_def)

lemma stop_lively:
  assumes "lively a"
  shows "lively (account_stop a) \<and> \<not> ac_started (account_stop a) \<and> ac_deleted (account_stop a) = ac_deleted a"
proof (cases "ac_started a")
  case True
  let ?a = "a\<lparr>ac_started := False\<rparr>"
  have "turned ?a" "agents_follow ?a" using turned_cong [of ?a a] assms by (simp_all add: lively_def)
  from deactivate_keeps [OF this] show ?thesis using True assms by (simp add: account_stop_def lively_def)
qed (use assms in \<open>simp add: account_stop_def\<close>)

lemma start_lively: "lively a \<Longrightarrow> lively (account_start a)"
proof (cases "ac_started a \<or> ac_deleted a")
  case False
  assume "lively a"
  let ?a = "ac_post [XCAP_Init] (a\<lparr>ac_started := True\<rparr>)"
  have same: "turned ?a" "agents_follow ?a"
    using turned_agents_inert [of "[XCAP_Init]" ?a a] \<open>lively a\<close> by (simp_all add: inert_def lively_def)
  show ?thesis
  proof (cases "ac_enabled a")
    case True
    then show ?thesis using False \<open>lively a\<close> activate_keeps [OF same] by (simp add: account_start_def Let_def lively_def)
  next
    case no: False
    then show ?thesis using False \<open>lively a\<close> same by (simp add: account_start_def Let_def lively_def)
  qed
qed (simp add: account_start_def)

lemma delete_lively: "lively a \<Longrightarrow> lively (account_delete a)"
proof (cases "ac_deleted a")
  case False
  assume l: "lively a"
  let ?a = "account_stop (a\<lparr>ac_deleted := True\<rparr>)"
  have "turned (a\<lparr>ac_deleted := True\<rparr>)" "agents_follow (a\<lparr>ac_deleted := True\<rparr>)"
    using l turned_cong [of "a\<lparr>ac_deleted := True\<rparr>" a] by (simp_all add: lively_def)
  moreover have "turned (a\<lparr>ac_deleted := True, ac_started := False\<rparr>)" "agents_follow (a\<lparr>ac_deleted := True, ac_started := False\<rparr>)"
    using l turned_cong [of "a\<lparr>ac_deleted := True, ac_started := False\<rparr>" a] by (simp_all add: lively_def)
  ultimately have "turned ?a \<and> agents_follow ?a \<and> \<not> ac_active ?a \<and> \<not> ac_started ?a \<and> ac_deleted ?a"
    using deactivate_keeps [of "a\<lparr>ac_deleted := True, ac_started := False\<rparr>"] l
    by (cases "ac_started a") (simp_all add: account_stop_def lively_def)
  then have "lively ?a" by (simp add: lively_def)
  then have "lively (ac_post [Account_Delete] ?a)" by (rule lively_inert [of _ "[Account_Delete]"]) (simp_all add: inert_def)
  then show ?thesis using False by (simp add: account_delete_def)
qed (simp add: account_delete_def)

lemma enable_lively: "lively a \<Longrightarrow> lively (settings_did_change (b \<noteq> ac_enabled a) (a\<lparr>ac_enabled := b\<rparr>))"
proof -
  assume l: "lively a"
  let ?a = "a\<lparr>ac_enabled := b\<rparr>"
  have same: "turned ?a" "agents_follow ?a" using l turned_cong [of ?a a] by (simp_all add: lively_def)
  show ?thesis
  proof (cases "ac_started a \<and> b \<noteq> ac_enabled a")
    case True
    then show ?thesis
      using l activate_keeps [OF same] deactivate_keeps [OF same] by (cases b) (simp_all add: settings_did_change_def lively_def)
  next
    case False
    then show ?thesis using l same by (auto simp: settings_did_change_def lively_def)
  qed
qed

lemma inert_simps [simp]:
  "inert []" "inert [Agent_Reregister]" "inert [Account_Save, Did_Discover_XCAP]" "inert [Got_Self_Presence]"
  "inert [Got_Message_Summary v]" "inert (map Agent_Resubscribe gs)"
  "inert [Got_Presence_Winfo n]" "inert [Got_Dialog_Winfo n]" "inert [Got_Presence_State n]" "inert [Got_Dialog_State n]"
  "inert (Agent_Resubscribe g # ns) = inert ns"
  by (simp_all add: inert_def) (induction gs, simp_all)

lemma inert_resubscribe_if [simp]: "inert ((if b then [Agent_Resubscribe g] else []) @ ns) = inert ns"
  by simp

lemma lively_quiet:
  "lively a \<Longrightarrow> ac_log a' = ac_log a \<Longrightarrow> ac_active a' = ac_active a \<Longrightarrow> ac_started a' = ac_started a \<Longrightarrow>
   ac_enabled a' = ac_enabled a \<Longrightarrow> ac_deleted a' = ac_deleted a \<Longrightarrow> lively a'"
  using lively_inert [of a "[]" a'] by simp

lemma lively_post: "lively a \<Longrightarrow> inert ns \<Longrightarrow> lively (ac_post ns a)"
  by (rule lively_inert) simp_all

lemma lively_fields:
  assumes "lively a"
  shows "lively (a\<lparr>ac_pwi_version := v\<rparr>)" "lively (a\<lparr>ac_dwi_version := v\<rparr>)" "lively (a\<lparr>ac_presence_version := v\<rparr>)"
    "lively (a\<lparr>ac_dialog_version := v\<rparr>)" "lively (a\<lparr>ac_voicemail := w\<rparr>)" "lively (a\<lparr>ac_xcap_discovered := b\<rparr>)"
  by (rule lively_quiet [OF assms]; simp)+

lemma account_turn_lively: "lively a \<Longrightarrow> lively (account_turn s a)"
proof (cases s)
  case Do_Stop
  then show "lively a \<Longrightarrow> ?thesis" using stop_lively by simp
next
  case (Do_Enable b)
  then show "lively a \<Longrightarrow> ?thesis" using enable_lively by simp
qed (simp_all add: start_lively delete_lively account_reregister_def account_resubscribe_def settings_did_change_def
    did_discover_capabilities_def presence_winfo_notify_def presence_winfo_end_def dialog_winfo_notify_def dialog_winfo_end_def
    presence_notify_def presence_end_def dialog_notify_def dialog_end_def self_presence_notify_def message_summary_notify_def
    mwi_did_deactivate_def lively_post lively_fields del: list.map split: option.split sum.split)

lemma account_life_lively: "lively a \<Longrightarrow> lively (account_life ss a)"
  by (induction ss arbitrary: a) (simp_all add: account_life_def account_turn_lively)

text \<open>C30. An account follows its setting: whatever happens to it, it is active exactly while it is started
  and enabled; while it is active its agents run, and none runs otherwise; the notifications about
  activation come in turn, each announced before it is done; and a deleted account is never active.\<close>

theorem account_follows_setting:
  "let a = account_life ss (account_init i enabled xcap discovered)
   in ac_active a = (ac_started a \<and> ac_enabled a) \<and>
      (if ac_active a then set started_agents \<subseteq> running_agents a else running_agents a = {}) \<and>
      (\<exists>n. filter activation_note (ac_log a) = turns n @ (if ac_active a then [Will_Activate, Did_Activate] else [])) \<and>
      \<not> (ac_deleted a \<and> ac_active a)"
proof -
  have "lively (account_init i enabled xcap discovered)"
    unfolding lively_def turned_def agents_follow_def running_agents_def
    by (simp add: account_init_def) (rule exI [of _ 0], simp)
  from account_life_lively [OF this, of ss] show ?thesis by (auto simp: lively_def turned_def agents_follow_def Let_def)
qed

section \<open>Documents in order\<close>

text \<open>The versions that are used: those greater than all before.\<close>

fun records_of :: "int option \<Rightarrow> int list \<Rightarrow> int list" where
  "records_of c [] = []"
| "records_of c (v # vs) = (if (case c of None \<Rightarrow> True | Some d \<Rightarrow> d < v) then v # records_of (Some v) vs else records_of c vs)"

definition winfo_versions :: "winfo option list \<Rightarrow> int list" where
  "winfo_versions docs = concat (map (\<lambda>d. case d of Some w \<Rightarrow> if wi_package w = ''presence'' then [wi_version w] else [] | None \<Rightarrow> []) docs)"

fun delivered_winfo :: "life_note list \<Rightarrow> int list" where
  "delivered_winfo [] = []"
| "delivered_winfo (Got_Presence_Winfo v # ns) = v # delivered_winfo ns"
| "delivered_winfo (n # ns) = delivered_winfo ns"

lemma delivered_append: "delivered_winfo (xs @ ys) = delivered_winfo xs @ delivered_winfo ys"
  by (induction xs rule: delivered_winfo.induct) simp_all

lemma winfo_run:
  "let a' = fold presence_winfo_notify docs a
   in delivered_winfo (ac_log a') = delivered_winfo (ac_log a) @ records_of (ac_pwi_version a) (winfo_versions docs)"
proof (induction docs arbitrary: a)
  case Nil
  then show ?case by (simp add: winfo_versions_def Let_def)
next
  case (Cons d docs)
  show ?case
  proof (cases "d = None \<or> wi_package (the d) \<noteq> ''presence''")
    case True
    then have "presence_winfo_notify d a = a" "winfo_versions (d # docs) = winfo_versions docs"
      by (cases d; simp add: presence_winfo_notify_def winfo_versions_def)+
    then show ?thesis using Cons.IH [of a] by (simp add: Let_def)
  next
    case False
    then obtain w where w: "d = Some w" "wi_package w = ''presence''" by auto
    then have v: "winfo_versions (d # docs) = wi_version w # winfo_versions docs" by (simp add: winfo_versions_def)
    show ?thesis
    proof (cases "case ac_pwi_version a of None \<Rightarrow> True | Some c \<Rightarrow> c < wi_version w")
      case True
      then have "delivered_winfo (ac_log (presence_winfo_notify d a)) = delivered_winfo (ac_log a) @ [wi_version w]"
        "ac_pwi_version (presence_winfo_notify d a) = Some (wi_version w)"
        using w by (auto simp: presence_winfo_notify_def version_turn_def ac_post_def delivered_append split: option.splits)
      then show ?thesis using Cons.IH [of "presence_winfo_notify d a"] True v by (simp add: Let_def)
    next
      case False
      then have "presence_winfo_notify d a = a"
        using w by (auto simp: presence_winfo_notify_def version_turn_def split: option.splits)
      then show ?thesis using Cons.IH [of a] False v by (simp add: Let_def)
    qed
  qed
qed

lemma records_above: "x \<in> set (records_of (Some c) vs) \<Longrightarrow> c < x"
  by (induction vs arbitrary: c) (auto split: if_splits dest: less_trans)

lemma records_sorted: "sorted_wrt (<) (records_of c vs)"
  by (induction vs arbitrary: c) (auto dest: records_above)

text \<open>The versions an account reports grow, whatever order the documents arrive in.\<close>

lemma watcher_info_in_order:
  "delivered_winfo (ac_log a) = [] \<Longrightarrow> sorted_wrt (<) (delivered_winfo (ac_log (fold presence_winfo_notify docs a)))"
  using winfo_run [of docs a] by (simp add: Let_def records_sorted)

text \<open>A missed version leads to a new subscription, in the same turn.\<close>

lemma missed_version_resubscribes:
  assumes "ac_pwi_version a = Some c" "wi_package w = ''presence''" "wi_partial w" "wi_version w > c + 1"
  shows "ac_log (presence_winfo_notify (Some w) a) = ac_log a @ [Agent_Resubscribe Ag_Presence_Winfo, Got_Presence_Winfo (wi_version w)]"
  using assms by (simp add: presence_winfo_notify_def version_turn_def)

section \<open>The Bonjour account follows its setting too\<close>

datatype bonjour_event = Bo_Start | Bo_Stop | Bo_Enable bool | Bo_Change "string set"

fun bonjour_turn :: "bool \<Rightarrow> bonjour_event \<Rightarrow> bonjour_account \<Rightarrow> bonjour_account" where
  "bonjour_turn mdns Bo_Start b = bonjour_start mdns b"
| "bonjour_turn mdns Bo_Stop b = bonjour_stop b"
| "bonjour_turn mdns (Bo_Enable v) b =
     (case bonjour_set_enabled mdns v b of (r, b') \<Rightarrow> bonjour_did_change mdns (if bo_enabled b' \<noteq> bo_enabled b then {''enabled''} else {}) b')"
| "bonjour_turn mdns (Bo_Change names) b = bonjour_did_change mdns (names - {''enabled''}) b"

lemma bonjour_rest [simp]:
  "bo_started (bonjour_activate b) = bo_started b" "bo_enabled (bonjour_activate b) = bo_enabled b" "bo_active (bonjour_activate b)"
  "bo_started (bonjour_deactivate b) = bo_started b" "bo_enabled (bonjour_deactivate b) = bo_enabled b" "\<not> bo_active (bonjour_deactivate b)"
  "bo_started (bo_post ns b) = bo_started b" "bo_enabled (bo_post ns b) = bo_enabled b" "bo_active (bo_post ns b) = bo_active b"
  by (simp_all add: bonjour_activate_def bonjour_deactivate_def bo_post_def)

lemma bonjour_turn_follows:
  "bo_active b = (bo_started b \<and> bonjour_enabled mdns b) \<Longrightarrow>
   bo_active (bonjour_turn mdns e b) = (bo_started (bonjour_turn mdns e b) \<and> bonjour_enabled mdns (bonjour_turn mdns e b))"
  by (cases e) (auto simp: bonjour_start_def bonjour_stop_def bonjour_set_enabled_def bonjour_did_change_def bonjour_enabled_def Let_def)

lemma bonjour_follows_setting:
  "let b = fold (bonjour_turn mdns) es \<lparr>bo_enabled = enabled, bo_started = False, bo_active = False, bo_log = []\<rparr>
   in bo_active b = (bo_started b \<and> bonjour_enabled mdns b)"
proof -
  have "bo_active b = (bo_started b \<and> bonjour_enabled mdns b) \<Longrightarrow>
      bo_active (fold (bonjour_turn mdns) es b) =
        (bo_started (fold (bonjour_turn mdns) es b) \<and> bonjour_enabled mdns (fold (bonjour_turn mdns) es b))" for b
    by (induction es arbitrary: b) (simp_all only: fold_simps id_apply bonjour_turn_follows comp_apply)
  then show ?thesis by (simp add: Let_def)
qed

end
