(* ===== verification/Account_Manager.thy ===== *)
theory Account_Manager
  imports Config_Types
begin

text \<open>
  \<open>AccountManager\<close> of \<open>sipsimple/account/__init__.py\<close>: the dictionary of accounts, the default account, which is kept as
  an id in the settings, and the search for the account an incoming request is for. Accounts
  are numbered; \<open>order\<close> is the order in which the dictionary is iterated. Changing an account's attributes and
  saving it is one step, as is creating and saving a new account.
\<close>

section \<open>State\<close>

record sip_account =
  sa_id :: string
  sa_enabled :: bool
  sa_contact :: string
  sa_bonjour :: bool

datatype manager_note =
    DidAddAccount nat
  | DidRemoveAccount nat
  | DidChangeDefault "nat option" "nat option"
  | AccountStart nat

record account_manager =
  am_accounts :: "(string, nat) dict"
  am_objects :: "nat \<Rightarrow> sip_account"
  am_default :: "string option"
  am_log :: "manager_note list"

definition account_manager_init :: "(nat \<Rightarrow> sip_account) \<Rightarrow> string option \<Rightarrow> account_manager" where
  "account_manager_init objects default_id = \<lparr>am_accounts = [], am_objects = objects, am_default = default_id, am_log = []\<rparr>"

definition am_post :: "manager_note list \<Rightarrow> account_manager \<Rightarrow> account_manager" where
  "am_post ns m = m\<lparr>am_log := am_log m @ ns\<rparr>"

definition is_enabled :: "account_manager \<Rightarrow> nat \<Rightarrow> bool" where
  "is_enabled m n = sa_enabled (am_objects m n)"

text \<open>\<open>self.accounts.itervalues()\<close>\<close>

definition iter_accounts :: "(nat list \<Rightarrow> nat list) \<Rightarrow> account_manager \<Rightarrow> nat list" where
  "iter_accounts order m = order (map snd (am_accounts m))"

fun first_of :: "('a \<Rightarrow> bool) \<Rightarrow> 'a list \<Rightarrow> 'a option" where
  "first_of P [] = None"
| "first_of P (x # xs) = (if P x then Some x else first_of P xs)"

section \<open>The default account\<close>

definition default_account :: "account_manager \<Rightarrow> nat option" where
  "default_account m = (case am_default m of None \<Rightarrow> None | Some d \<Rightarrow> map_of (am_accounts m) d)"

definition set_default_account :: "nat option \<Rightarrow> account_manager \<Rightarrow> unit result \<times> account_manager" where
  "set_default_account a m =
     (if (case a of None \<Rightarrow> False | Some n \<Rightarrow> \<not> is_enabled m n) then (Inl ValueError, m)
      else
        let old = default_account m
        in if a = old then (Inr (), m)
           else (Inr (), am_post [DidChangeDefault old a] (m\<lparr>am_default := map_option (\<lambda>n. sa_id (am_objects m n)) a\<rparr>)))"

text \<open>\<open>self.default_account = (account for account in self.accounts.itervalues() if account.enabled).next()\<close>,
  or \<open>None\<close> when there is none.\<close>

definition choose_default :: "(nat list \<Rightarrow> nat list) \<Rightarrow> account_manager \<Rightarrow> unit result \<times> account_manager" where
  "choose_default order m = set_default_account (first_of (is_enabled m) (iter_accounts order m)) m"

section \<open>Notifications\<close>

definition was_activated :: "bool \<Rightarrow> bool \<Rightarrow> nat \<Rightarrow> account_manager \<Rightarrow> account_manager" where
  "was_activated mdns running n m =
     (if sa_bonjour (am_objects m n) \<and> \<not> mdns then m
      else am_post (DidAddAccount n # (if running then [AccountStart n] else []))
        (m\<lparr>am_accounts := dset (sa_id (am_objects m n)) n (am_accounts m)\<rparr>))"

definition was_created :: "nat \<Rightarrow> account_manager \<Rightarrow> unit result \<times> account_manager" where
  "was_created n m =
     (if sa_bonjour (am_objects m n) then (Inr (), m)
      else if is_enabled m n \<and> default_account m = None then set_default_account (Some n) m
      else (Inr (), m))"

definition was_deleted :: "nat \<Rightarrow> account_manager \<Rightarrow> unit result \<times> account_manager" where
  "was_deleted n m =
     (if map_of (am_accounts m) (sa_id (am_objects m n)) = None then (Inl KeyError, m)
      else (Inr (), am_post [DidRemoveAccount n] (m\<lparr>am_accounts := ddel (sa_id (am_objects m n)) (am_accounts m)\<rparr>)))"

definition account_did_change ::
  "(nat list \<Rightarrow> nat list) \<Rightarrow> nat \<Rightarrow> (string \<times> string) option \<Rightarrow> bool \<Rightarrow> account_manager \<Rightarrow> unit result \<times> account_manager" where
  "account_did_change order n modified_id enabled_modified m =
     (case (case modified_id of
              None \<Rightarrow> Inr m
            | Some (old, new) \<Rightarrow>
                (case map_of (am_accounts m) old of
                   None \<Rightarrow> Inl KeyError
                 | Some a \<Rightarrow> Inr (m\<lparr>am_accounts := dset new a (ddel old (am_accounts m))\<rparr>))) of
        Inl e \<Rightarrow> (Inl e, m)
      | Inr m \<Rightarrow>
          if \<not> enabled_modified then (Inr (), m)
          else if is_enabled m n \<and> default_account m = None then set_default_account (Some n) m
          else if \<not> is_enabled m n \<and> default_account m = Some n then choose_default order m
          else (Inr (), m))"

section \<open>Loading and searching\<close>

text \<open>The accounts are created in the order of the names in the configuration, the Bonjour account
  first; \<open>loaded\<close> are their numbers.\<close>

definition manager_load ::
  "(nat list \<Rightarrow> nat list) \<Rightarrow> bool \<Rightarrow> bool \<Rightarrow> nat list \<Rightarrow> account_manager \<Rightarrow> unit result \<times> account_manager" where
  "manager_load order mdns running loaded m =
     (let m = fold (was_activated mdns running) loaded m
      in case default_account m of
        None \<Rightarrow> choose_default order m
      | Some n \<Rightarrow> if is_enabled m n then (Inr (), m) else choose_default order m)"

definition has_account :: "string \<Rightarrow> account_manager \<Rightarrow> bool" where
  "has_account i m = (map_of (am_accounts m) i \<noteq> None)"

definition get_account :: "string \<Rightarrow> account_manager \<Rightarrow> nat result" where
  "get_account i m = (case map_of (am_accounts m) i of None \<Rightarrow> Inl KeyError | Some n \<Rightarrow> Inr n)"

definition find_account :: "(nat list \<Rightarrow> nat list) \<Rightarrow> string \<Rightarrow> account_manager \<Rightarrow> nat option" where
  "find_account order user m =
     (let accounts = iter_accounts order m;
          exact = filter (\<lambda>n. is_enabled m n \<and> sa_contact (am_objects m n) = user) accounts;
          loose = filter (\<lambda>n. is_enabled m n \<and> sip_address_username (sa_id (am_objects m n)) = Inr user) accounts
      in hd (map Some exact @ map Some loose @ [None]))"

section \<open>What the operations keep\<close>

definition accounts_ok :: "account_manager \<Rightarrow> bool" where
  "accounts_ok m \<longleftrightarrow> dwf (am_accounts m) \<and> (\<forall>k n. map_of (am_accounts m) k = Some n \<longrightarrow> sa_id (am_objects m n) = k)"

definition members :: "account_manager \<Rightarrow> nat set" where
  "members m = {n. map_of (am_accounts m) (sa_id (am_objects m n)) = Some n}"

text \<open>The default account is enabled, and there is one when any account is enabled.\<close>

definition default_sound :: "account_manager \<Rightarrow> bool" where
  "default_sound m \<longleftrightarrow> (case default_account m of None \<Rightarrow> \<forall>n\<in>members m. \<not> is_enabled m n | Some n \<Rightarrow> n \<in> members m \<and> is_enabled m n)"

lemma am_post_simps [simp]:
  "am_accounts (am_post ns m) = am_accounts m" "am_objects (am_post ns m) = am_objects m" "am_default (am_post ns m) = am_default m"
  by (simp_all add: am_post_def)

lemma first_of_Some: "first_of P xs = Some x \<Longrightarrow> x \<in> set xs \<and> P x"
  by (induction xs) (auto split: if_splits)

lemma first_of_None: "first_of P xs = None \<longleftrightarrow> (\<forall>x\<in>set xs. \<not> P x)"
  by (induction xs) auto

lemma set_values: "accounts_ok m \<Longrightarrow> set (map snd (am_accounts m)) = members m"
  by (force simp: accounts_ok_def members_def map_of_eq_Some)

lemma default_account_member: "accounts_ok m \<Longrightarrow> default_account m = Some n \<Longrightarrow> n \<in> members m"
  by (auto simp: default_account_def members_def accounts_ok_def split: option.splits)

lemma set_default_sound:
  assumes "accounts_ok m" "set_default_account a m = (r, m')"
    and "case a of None \<Rightarrow> \<forall>n\<in>members m. \<not> is_enabled m n | Some n \<Rightarrow> n \<in> members m \<and> is_enabled m n"
  shows "r = Inr ()" "accounts_ok m'" "default_sound m'" "am_accounts m' = am_accounts m" "am_objects m' = am_objects m" "default_account m' = a"
proof -
  have m': "r = Inr ()" "am_accounts m' = am_accounts m" "am_objects m' = am_objects m"
    "am_default m' = (if a = default_account m then am_default m else map_option (\<lambda>n. sa_id (am_objects m n)) a)"
    using assms(2,3) by (auto simp: set_default_account_def Let_def split: if_splits option.splits)
  then have d: "default_account m' = a"
    using assms(1,3) by (auto simp: default_account_def members_def split: option.splits)
  then show "r = Inr ()" "accounts_ok m'" "am_accounts m' = am_accounts m" "am_objects m' = am_objects m" "default_account m' = a"
    using m' assms(1) by (simp_all add: accounts_ok_def)
  have "members m' = members m" "is_enabled m' = is_enabled m" using m' by (auto simp: members_def is_enabled_def)
  then show "default_sound m'" using assms(3) d by (simp add: default_sound_def split: option.splits)
qed

lemma choose_default_sound:
  assumes "accounts_ok m" "\<And>xs. set (order xs) = set xs" "choose_default order m = (r, m')"
  shows "r = Inr ()" "accounts_ok m'" "default_sound m'" "am_accounts m' = am_accounts m" "am_objects m' = am_objects m"
proof -
  have iter: "set (iter_accounts order m) = members m"
    using assms(2) set_values [OF assms(1)] by (simp add: iter_accounts_def)
  have "case first_of (is_enabled m) (iter_accounts order m) of
      None \<Rightarrow> \<forall>n\<in>members m. \<not> is_enabled m n | Some n \<Rightarrow> n \<in> members m \<and> is_enabled m n"
    using first_of_None [of "is_enabled m" "iter_accounts order m"] first_of_Some [of "is_enabled m" "iter_accounts order m"] iter
    by (simp split: option.split)
  from set_default_sound [OF assms(1) assms(3) [unfolded choose_default_def] this]
  show "r = Inr ()" "accounts_ok m'" "default_sound m'" "am_accounts m' = am_accounts m" "am_objects m' = am_objects m" by simp_all
qed

section \<open>Accounts over time\<close>

datatype account_step =
    Account_Created nat sip_account
  | Account_Changed nat string bool
  | Account_Removed nat
  | Default_Chosen nat

definition put_account :: "nat \<Rightarrow> sip_account \<Rightarrow> account_manager \<Rightarrow> account_manager" where
  "put_account n a m = m\<lparr>am_objects := (am_objects m)(n := a)\<rparr>"

fun account_do :: "(nat list \<Rightarrow> nat list) \<Rightarrow> account_step \<Rightarrow> account_manager \<Rightarrow> unit result \<times> account_manager" where
  "account_do order (Account_Created n a) m = was_created n (was_activated True True n (put_account n a m))"
| "account_do order (Account_Changed n i b) m =
     (let a = am_objects m n
      in account_did_change order n (if i = sa_id a then None else Some (sa_id a, i)) (b \<noteq> sa_enabled a)
           (put_account n (a\<lparr>sa_id := i, sa_enabled := b\<rparr>) m))"
| "account_do order (Account_Removed n) m = was_deleted n m"
| "account_do order (Default_Chosen n) m = set_default_account (Some n) m"

text \<open>Ids are unique (\<open>SettingsObjectID\<close>), and only accounts of the manager are changed, deleted and chosen.
  What the properties exclude: deleting or renaming the default account, renaming an account to the id the
  settings name as the default, and creating a disabled account with that id.\<close>

fun orderly :: "account_step \<Rightarrow> account_manager \<Rightarrow> bool" where
  "orderly (Account_Created n a) m \<longleftrightarrow> n \<notin> set (map snd (am_accounts m)) \<and> map_of (am_accounts m) (sa_id a) = None \<and>
     \<not> sa_bonjour a \<and> (sa_enabled a \<or> am_default m \<noteq> Some (sa_id a))"
| "orderly (Account_Changed n i b) m \<longleftrightarrow> n \<in> members m \<and>
     (i = sa_id (am_objects m n) \<or> map_of (am_accounts m) i = None \<and> default_account m \<noteq> Some n \<and> am_default m \<noteq> Some i)"
| "orderly (Account_Removed n) m \<longleftrightarrow> n \<in> members m \<and> default_account m \<noteq> Some n"
| "orderly (Default_Chosen n) m \<longleftrightarrow> n \<in> members m"

lemma put_account_simps [simp]:
  "am_accounts (put_account n a m) = am_accounts m" "am_default (put_account n a m) = am_default m"
  "am_objects (put_account n a m) = (am_objects m)(n := a)" "default_account (put_account n a m) = default_account m"
  by (simp_all add: put_account_def default_account_def split: option.split)

definition am_good :: "account_manager \<Rightarrow> bool" where
  "am_good m \<longleftrightarrow> accounts_ok m \<and> default_sound m"

lemma default_sound_cong:
  "default_sound m \<Longrightarrow> default_account m' = default_account m \<Longrightarrow> members m' = members m \<Longrightarrow>
   (\<And>n. n \<in> members m \<Longrightarrow> is_enabled m' n = is_enabled m n) \<Longrightarrow> default_sound m'"
  by (simp add: default_sound_def split: option.splits)

lemma created_good:
  assumes "am_good m" "orderly (Account_Created n a) m" "account_do order (Account_Created n a) m = (r, m')"
  shows "am_good m'"
proof -
  define m1 where "m1 = was_activated True True n (put_account n a m)"
  have m1: "am_accounts m1 = dset (sa_id a) n (am_accounts m)" "am_objects m1 = (am_objects m)(n := a)" "am_default m1 = am_default m"
    by (simp_all add: m1_def was_activated_def)
  have ok: "accounts_ok m" and sound: "default_sound m" using assms(1) by (simp_all add: am_good_def)
  have new: "map_of (am_accounts m) k \<noteq> Some n" for k
    using assms(2) by (metis imageI map_of_SomeD orderly.simps(1) set_map snd_conv)
  have none: "map_of (am_accounts m) (sa_id a) = None" and bj: "\<not> sa_bonjour a" using assms(2) by simp_all
  have ok1: "accounts_ok m1"
    using ok new none unfolding accounts_ok_def m1 by (simp add: dwf_dset map_of_dset)
  have old: "n \<notin> members m" using new by (simp add: members_def)
  have members: "members m1 = insert n (members m)"
  proof (intro set_eqI)
    show "k \<in> members m1 \<longleftrightarrow> k \<in> insert n (members m)" for k
      using none by (cases "k = n"; cases "sa_id (am_objects m k) = sa_id a") (simp_all add: members_def m1 map_of_dset)
  qed
  have enabled: "is_enabled m1 k = (if k = n then sa_enabled a else is_enabled m k)" for k by (simp add: is_enabled_def m1)
  have default: "default_account m1 = (if am_default m = Some (sa_id a) then Some n else default_account m)"
    by (simp add: default_account_def m1 map_of_dset split: option.splits)
  have m': "was_created n m1 = (r, m')" using assms(3) by (simp add: m1_def)
  show ?thesis
  proof (cases "sa_enabled a \<and> default_account m1 = None")
    case True
    then have "set_default_account (Some n) m1 = (r, m')" using m' bj enabled by (simp add: was_created_def m1)
    from set_default_sound [OF ok1 this] True enabled members show ?thesis by (simp add: am_good_def)
  next
    case False
    then have "m' = m1" using m' bj enabled by (auto simp: was_created_def m1)
    moreover have "default_sound m1"
    proof (cases "default_account m1")
      case None
      then have "\<forall>k\<in>members m. \<not> is_enabled m k" "\<not> sa_enabled a"
        using False default sound by (simp_all add: default_sound_def split: if_splits)
      then show ?thesis using None members enabled by (simp add: default_sound_def)
    next
      case (Some k)
      show ?thesis
      proof (cases "am_default m = Some (sa_id a)")
        case True
        then show ?thesis using Some default assms(2) members enabled by (simp add: default_sound_def)
      next
        case False
        then have "k \<in> members m" "is_enabled m k" using Some default sound by (simp_all add: default_sound_def)
        then show ?thesis using Some members enabled old by (auto simp: default_sound_def)
      qed
    qed
    ultimately show ?thesis using ok1 by (simp add: am_good_def)
  qed
qed

lemma changed_good:
  assumes "am_good m" "orderly (Account_Changed n i b) m" "\<And>xs. set (order xs) = set xs"
    and "account_do order (Account_Changed n i b) m = (r, m')"
  shows "am_good m'"
proof -
  let ?a = "am_objects m n"
  have ok: "accounts_ok m" and sound: "default_sound m" using assms(1) by (simp_all add: am_good_def)
  have n: "map_of (am_accounts m) (sa_id ?a) = Some n" using assms(2) by (simp add: members_def)
  define m1 where "m1 = (put_account n (?a\<lparr>sa_id := i, sa_enabled := b\<rparr>) m)
    \<lparr>am_accounts := if i = sa_id ?a then am_accounts m else dset i n (ddel (sa_id ?a) (am_accounts m))\<rparr>"
  have m1: "am_accounts m1 = (if i = sa_id ?a then am_accounts m else dset i n (ddel (sa_id ?a) (am_accounts m)))"
    "am_objects m1 = (am_objects m)(n := ?a\<lparr>sa_id := i, sa_enabled := b\<rparr>)" "am_default m1 = am_default m"
    by (simp_all add: m1_def)
  have free: "i = sa_id ?a \<or> map_of (am_accounts m) i = None" using assms(2) by auto
  have others: "k = sa_id ?a" if "map_of (am_accounts m) k = Some n" for k using ok that by (simp add: accounts_ok_def)
  have ok1: "accounts_ok m1"
  proof (cases "i = sa_id ?a")
    case True
    then show ?thesis using ok unfolding accounts_ok_def m1 by simp
  next
    case False
    then show ?thesis using ok others unfolding accounts_ok_def m1 by (simp add: dwf_dset dwf_ddel map_of_dset map_of_ddel) metis
  qed
  have members: "members m1 = members m"
  proof (intro set_eqI)
    show "k \<in> members m1 \<longleftrightarrow> k \<in> members m" for k
      using n free by (cases "k = n"; cases "sa_id (am_objects m k) = i"; cases "i = sa_id ?a")
        (auto simp: members_def m1 map_of_dset map_of_ddel)
  qed
  have enabled: "is_enabled m1 k = (if k = n then b else is_enabled m k)" for k by (simp add: is_enabled_def m1)
  have default: "default_account m1 = default_account m"
  proof (cases "i = sa_id ?a")
    case True
    then show ?thesis by (simp add: default_account_def m1 split: option.splits)
  next
    case False
    then have "default_account m \<noteq> Some n" "am_default m \<noteq> Some i" using assms(2) by auto
    then show ?thesis using False n by (auto simp: default_account_def m1 map_of_dset map_of_ddel split: option.splits)
  qed
  let ?m0 = "put_account n (?a\<lparr>sa_id := i, sa_enabled := b\<rparr>) m"
  have inner: "(case (if i = sa_id ?a then None else Some (sa_id ?a, i)) of
      None \<Rightarrow> Inr ?m0
    | Some (old, new) \<Rightarrow>
        (case map_of (am_accounts ?m0) old of
           None \<Rightarrow> Inl KeyError
         | Some a \<Rightarrow> Inr (?m0\<lparr>am_accounts := dset new a (ddel old (am_accounts ?m0))\<rparr>))) = Inr m1"
    using n by (cases "i = sa_id ?a") (simp_all add: m1_def put_account_def)
  have m': "(if b = sa_enabled ?a then (Inr (), m1)
      else if is_enabled m1 n \<and> default_account m1 = None then set_default_account (Some n) m1
      else if \<not> is_enabled m1 n \<and> default_account m1 = Some n then choose_default order m1 else (Inr (), m1)) = (r, m')"
    using assms(4) unfolding account_do.simps Let_def account_did_change_def inner sum.case by (simp only: not_not)
  have nm: "n \<in> members m1" using assms(2) members by simp
  consider "b = sa_enabled ?a" | "b \<noteq> sa_enabled ?a" "b" "default_account m1 = None"
    | "b \<noteq> sa_enabled ?a" "\<not> b" "default_account m1 = Some n"
    | "b \<noteq> sa_enabled ?a" "b \<longrightarrow> default_account m1 \<noteq> None" "\<not> b \<longrightarrow> default_account m1 \<noteq> Some n"
    by blast
  then show ?thesis
  proof cases
    case 1
    then have "m' = m1" using m' by simp
    moreover have "default_sound m1"
      using 1 by (intro default_sound_cong [OF sound default members]) (simp add: is_enabled_def m1)
    ultimately show ?thesis using ok1 by (simp add: am_good_def)
  next
    case 2
    then have "set_default_account (Some n) m1 = (r, m')" using m' enabled by simp
    from set_default_sound [OF ok1 this] 2 enabled nm show ?thesis by (simp add: am_good_def)
  next
    case 3
    then have "choose_default order m1 = (r, m')" using m' enabled by simp
    from choose_default_sound [OF ok1 assms(3) this] show ?thesis by (simp add: am_good_def)
  next
    case 4
    then have "m' = m1" using m' enabled by (auto split: if_splits)
    moreover have "default_sound m1"
    proof (cases "default_account m1")
      case None
      then show ?thesis using 4 sound default members enabled by (simp add: default_sound_def)
    next
      case (Some k)
      then show ?thesis using 4 sound default members enabled by (auto simp: default_sound_def)
    qed
    ultimately show ?thesis using ok1 by (simp add: am_good_def)
  qed
qed

lemma removed_good:
  assumes "am_good m" "orderly (Account_Removed n) m" "account_do order (Account_Removed n) m = (r, m')"
  shows "am_good m'"
proof -
  have ok: "accounts_ok m" and sound: "default_sound m" using assms(1) by (simp_all add: am_good_def)
  have n: "map_of (am_accounts m) (sa_id (am_objects m n)) = Some n" "default_account m \<noteq> Some n"
    using assms(2) by (simp_all add: members_def)
  have m': "am_accounts m' = ddel (sa_id (am_objects m n)) (am_accounts m)" "am_objects m' = am_objects m" "am_default m' = am_default m"
    using assms(3) n by (auto simp: was_deleted_def)
  have "accounts_ok m'" using ok unfolding accounts_ok_def m' by (simp add: dwf_ddel map_of_ddel)
  moreover have "default_account m' = default_account m"
    using n by (auto simp: default_account_def m' map_of_ddel split: option.splits)
  moreover have members: "members m' = members m - {n}"
  proof (intro set_eqI)
    show "k \<in> members m' \<longleftrightarrow> k \<in> members m - {n}" for k
      using n(1) by (cases "k = n"; cases "sa_id (am_objects m k) = sa_id (am_objects m n)") (auto simp: members_def m' map_of_ddel)
  qed
  moreover have "is_enabled m' = is_enabled m" by (rule ext) (simp add: is_enabled_def m')
  ultimately show ?thesis
    using sound n(2) by (cases "default_account m") (auto simp: am_good_def default_sound_def)
qed

lemma account_do_good:
  assumes "am_good m" "orderly s m" "\<And>xs. set (order xs) = set xs"
  shows "am_good (snd (account_do order s m))"
proof (cases "account_do order s m")
  case (Pair r m')
  show ?thesis
  proof (cases s)
    case (Default_Chosen n)
    show ?thesis
    proof (cases "is_enabled m n")
      case True
      then show ?thesis
        using set_default_sound [of m "Some n" r m'] assms Pair Default_Chosen by (simp add: am_good_def)
    qed (use assms Pair Default_Chosen in \<open>simp add: set_default_account_def\<close>)
  qed (use created_good [OF assms(1)] changed_good [OF assms(1) _ assms(3)] removed_good [OF assms(1)] assms(2) Pair in auto)
qed

fun account_run :: "(nat list \<Rightarrow> nat list) \<Rightarrow> account_step list \<Rightarrow> account_manager \<Rightarrow> account_manager" where
  "account_run order [] m = m"
| "account_run order (s # ss) m = account_run order ss (snd (account_do order s m))"

fun all_orderly :: "(nat list \<Rightarrow> nat list) \<Rightarrow> account_step list \<Rightarrow> account_manager \<Rightarrow> bool" where
  "all_orderly order [] m = True"
| "all_orderly order (s # ss) m = (orderly s m \<and> all_orderly order ss (snd (account_do order s m)))"

lemma account_run_good:
  "am_good m \<Longrightarrow> all_orderly order ss m \<Longrightarrow> (\<And>xs. set (order xs) = set xs) \<Longrightarrow> am_good (account_run order ss m)"
  by (induction ss arbitrary: m) (simp_all add: account_do_good)

lemma loaded_ok:
  assumes "distinct loaded" "inj_on (\<lambda>n. sa_id (objects n)) (set loaded)"
  shows "let m = fold (was_activated mdns running) loaded (account_manager_init objects d)
    in accounts_ok m \<and> am_objects m = objects \<and> am_default m = d"
proof -
  have "accounts_ok (fold (was_activated mdns running) ns m) \<and> am_objects (fold (was_activated mdns running) ns m) = am_objects m \<and>
      am_default (fold (was_activated mdns running) ns m) = am_default m"
    if "accounts_ok m" for ns m
    using that
  proof (induction ns arbitrary: m)
    case (Cons n ns)
    have "accounts_ok (was_activated mdns running n m)"
      using Cons.prems by (auto simp: was_activated_def accounts_ok_def dwf_dset map_of_dset)
    moreover have "am_objects (was_activated mdns running n m) = am_objects m" "am_default (was_activated mdns running n m) = am_default m"
      by (simp_all add: was_activated_def)
    ultimately show ?case using Cons.IH [of "was_activated mdns running n m"] by simp
  qed simp
  moreover have "accounts_ok (account_manager_init objects d)" by (simp add: accounts_ok_def account_manager_init_def)
  ultimately show ?thesis by (auto simp: account_manager_init_def Let_def)
qed

lemma manager_load_good:
  assumes "accounts_ok (fold (was_activated mdns running) loaded m)" "\<And>xs. set (order xs) = set xs"
    and "manager_load order mdns running loaded m = (r, m')"
  shows "r = Inr () \<and> am_good m'"
proof -
  let ?m = "fold (was_activated mdns running) loaded m"
  show ?thesis
  proof (cases "\<exists>n. default_account ?m = Some n \<and> is_enabled ?m n")
    case True
    then have "m' = ?m" "r = Inr ()" "default_sound ?m"
      using assms default_account_member [OF assms(1)] by (auto simp: manager_load_def Let_def default_sound_def)
    then show ?thesis using assms(1) by (simp add: am_good_def)
  next
    case False
    then have "choose_default order ?m = (r, m')"
      using assms(3) by (cases "default_account ?m") (auto simp: manager_load_def Let_def)
    from choose_default_sound [OF assms(1,2) this] show ?thesis by (simp add: am_good_def)
  qed
qed

section \<open>Properties\<close>

text \<open>C31. The default account of the manager: after accounts are loaded under their own ids, and then after
  any creations of SIP accounts under unused ids and any changes, deletions and choices of accounts of the
  manager, the default account is an account of the manager and is enabled, and there is one whenever any
  account is enabled; and loading never fails. Excluded are the deletion and the renaming of the default
  account itself, the renaming of another account to the id the settings name as the default, and the
  creation of a disabled account with that id: the settings may name an id that no account has.\<close>

theorem default_account_enabled:
  assumes "\<And>xs. set (order xs) = set xs"
    and "accounts_ok (fold (was_activated mdns running) loaded m)"
    and "manager_load order mdns running loaded m = (r, m0)" "all_orderly order ss m0"
  shows "r = Inr () \<and> (case default_account (account_run order ss m0) of
      Some n \<Rightarrow> n \<in> members (account_run order ss m0) \<and> is_enabled (account_run order ss m0) n
    | None \<Rightarrow> {n \<in> members (account_run order ss m0). is_enabled (account_run order ss m0) n} = {})"
proof -
  have "r = Inr ()" "am_good m0" using manager_load_good [OF assms(2,1,3)] by simp_all
  then have "default_sound (account_run order ss m0)" using account_run_good [OF _ assms(4,1)] by (simp add: am_good_def)
  then show ?thesis using \<open>r = Inr ()\<close> by (auto simp: default_sound_def split: option.splits)
qed

definition two_accounts :: "nat \<Rightarrow> sip_account" where
  "two_accounts n = (if n = 0 then \<lparr>sa_id = ''a@x'', sa_enabled = True, sa_contact = ''c'', sa_bonjour = False\<rparr>
     else \<lparr>sa_id = ''b@x'', sa_enabled = True, sa_contact = ''d'', sa_bonjour = False\<rparr>)"

theorem default_account_enabled_witness:
  "case default_account (account_run rev [Account_Changed 1 ''b@x'' False]
     (snd (manager_load rev False False [0, 1] (account_manager_init two_accounts None)))) of
   Some n \<Rightarrow> n = 0 | None \<Rightarrow> False"
proof -
  let ?m = "account_manager_init two_accounts None"
  let ?l = "snd (manager_load rev False False [0, 1] ?m)"
  have ok: "accounts_ok (fold (was_activated False False) [0, 1] ?m)"
    using loaded_ok [of "[0, 1]" two_accounts False False None] by (simp add: Let_def two_accounts_def)
  have "manager_load rev False False [0, 1] ?m = (fst (manager_load rev False False [0, 1] ?m), ?l)" by simp
  moreover have "all_orderly rev [Account_Changed 1 ''b@x'' False] ?l"
    by (simp add: manager_load_def account_manager_init_def was_activated_def two_accounts_def am_post_def default_account_def
        choose_default_def iter_accounts_def is_enabled_def set_default_account_def members_def Let_def)
  ultimately have "case default_account (account_run rev [Account_Changed 1 ''b@x'' False] ?l) of
      Some n \<Rightarrow> n \<in> members (account_run rev [Account_Changed 1 ''b@x'' False] ?l) \<and> is_enabled (account_run rev [Account_Changed 1 ''b@x'' False] ?l) n
    | None \<Rightarrow> {n \<in> members (account_run rev [Account_Changed 1 ''b@x'' False] ?l). is_enabled (account_run rev [Account_Changed 1 ''b@x'' False] ?l) n} = {}"
    using default_account_enabled [OF set_rev ok] by blast
  then show ?thesis
    by (simp add: manager_load_def account_manager_init_def was_activated_def two_accounts_def am_post_def default_account_def
        choose_default_def iter_accounts_def is_enabled_def set_default_account_def members_def Let_def account_did_change_def
        put_account_def)
qed

text \<open>The default account is lost when it is deleted or renamed: the settings keep its old id, so the
  manager has no default account although others are enabled, and a disabled account that later
  takes the id becomes the default.\<close>

theorem default_account_lost:
  assumes "accounts_ok m" "default_account m = Some n" "k \<in> members m" "k \<noteq> n" "is_enabled m k"
    and "map_of (am_accounts m) i = None" "j \<notin> set (map snd (am_accounts m))" "j \<noteq> n"
  shows "let removed = account_run order [Account_Removed n] m;
      renamed = account_run order [Account_Changed n i (is_enabled m n)] m;
      taken = account_run order [Account_Removed n,
        Account_Created j \<lparr>sa_id = sa_id (am_objects m n), sa_enabled = False, sa_contact = c, sa_bonjour = False\<rparr>] m
    in (default_account removed = None \<and> k \<in> members removed \<and> is_enabled removed k) \<and>
       (default_account renamed = None \<and> k \<in> members renamed \<and> is_enabled renamed k) \<and>
       (default_account taken = Some j \<and> \<not> is_enabled taken j)"
proof -
  have n: "map_of (am_accounts m) (sa_id (am_objects m n)) = Some n" "am_default m = Some (sa_id (am_objects m n))"
    using assms(1,2) by (auto simp: default_account_def accounts_ok_def split: option.splits)
  have k: "map_of (am_accounts m) (sa_id (am_objects m k)) = Some k" "sa_id (am_objects m k) \<noteq> sa_id (am_objects m n)"
    "sa_id (am_objects m k) \<noteq> i" "i \<noteq> sa_id (am_objects m n)"
    using assms(3,4,6) n by (auto simp: members_def)
  show ?thesis
    using n k assms(4,5,8)
    by (simp add: was_deleted_def was_activated_def was_created_def account_did_change_def default_account_def members_def
        is_enabled_def map_of_ddel map_of_dset Let_def)
qed

theorem default_account_lost_witness:
  "\<not> is_enabled (account_run rev [Account_Removed 0,
      Account_Created 2 \<lparr>sa_id = ''a@x'', sa_enabled = False, sa_contact = [], sa_bonjour = False\<rparr>]
      \<lparr>am_accounts = [(''a@x'', 0), (''b@x'', 1)], am_objects = two_accounts, am_default = Some ''a@x'', am_log = []\<rparr>) 2"
proof -
  let ?m = "\<lparr>am_accounts = [(''a@x'', 0), (''b@x'', 1)], am_objects = two_accounts, am_default = Some ''a@x'', am_log = []\<rparr>"
  have "accounts_ok ?m" by (simp add: accounts_ok_def two_accounts_def dwf_def)
  then show ?thesis
    using default_account_lost [of ?m 0 1 "''c@x''" 2 rev "[]"]
    by (simp add: default_account_def members_def is_enabled_def two_accounts_def Let_def del: account_run.simps)
qed

text \<open>The settings may name an account that is not there. Loading leaves the name when no account is
  enabled, and a disabled account that is created under it is the default account at once.\<close>

theorem stale_default_taken:
  assumes "m = snd (manager_load order mdns running [] (account_manager_init objects (Some i)))" "order [] = []"
    and "a = \<lparr>sa_id = i, sa_enabled = False, sa_contact = c, sa_bonjour = False\<rparr>"
  shows "default_account m = None \<and> default_account (account_run order [Account_Created n a] m) = Some n \<and>
    \<not> is_enabled (account_run order [Account_Created n a] m) n"
  using assms(2)
  by (simp add: assms(1,3) manager_load_def account_manager_init_def default_account_def choose_default_def iter_accounts_def
      set_default_account_def was_activated_def was_created_def is_enabled_def am_post_def put_account_def map_of_dset Let_def)

theorem stale_default_taken_witness:
  "default_account (account_run rev [Account_Created 0 \<lparr>sa_id = ''z@x'', sa_enabled = False, sa_contact = [], sa_bonjour = False\<rparr>]
     (snd (manager_load rev False False [] (account_manager_init two_accounts (Some ''z@x''))))) = Some 0"
  using stale_default_taken [OF refl, of rev] by (simp del: account_run.simps)

text \<open>The account an incoming request is for.\<close>

lemma find_account_matches:
  assumes "\<And>xs. set (order xs) = set xs" "accounts_ok m"
  shows "case find_account order user m of
      Some n \<Rightarrow> n \<in> members m \<and> is_enabled m n \<and>
        (sa_contact (am_objects m n) = user \<or> sip_address_username (sa_id (am_objects m n)) = Inr user \<and>
          (\<forall>k\<in>members m. is_enabled m k \<longrightarrow> sa_contact (am_objects m k) \<noteq> user))
    | None \<Rightarrow> (\<forall>k\<in>members m. is_enabled m k \<longrightarrow> sa_contact (am_objects m k) \<noteq> user \<and>
        sip_address_username (sa_id (am_objects m k)) \<noteq> Inr user)"
proof -
  let ?exact = "filter (\<lambda>n. is_enabled m n \<and> sa_contact (am_objects m n) = user) (iter_accounts order m)"
  let ?loose = "filter (\<lambda>n. is_enabled m n \<and> sip_address_username (sa_id (am_objects m n)) = Inr user) (iter_accounts order m)"
  have iter: "set (iter_accounts order m) = members m" using assms set_values [OF assms(2)] by (simp add: iter_accounts_def)
  have find: "find_account order user m = hd (map Some ?exact @ map Some ?loose @ [None])"
    by (simp add: find_account_def Let_def)
  have E: "set ?exact = {n \<in> members m. is_enabled m n \<and> sa_contact (am_objects m n) = user}"
    and L: "set ?loose = {n \<in> members m. is_enabled m n \<and> sip_address_username (sa_id (am_objects m n)) = Inr user}"
    using iter by auto
  show ?thesis
  proof (cases ?exact)
    case (Cons n ns)
    then have "find_account order user m = Some n" using find by simp
    moreover have "n \<in> set ?exact" unfolding Cons by simp
    ultimately show ?thesis using E iter by simp
  next
    case Nil
    then have no: "{n \<in> members m. is_enabled m n \<and> sa_contact (am_objects m n) = user} = {}" using E by simp
    show ?thesis
    proof (cases ?loose)
      case (Cons n ns)
      then have "find_account order user m = Some n" using find Nil by simp
      moreover have "n \<in> set ?loose" unfolding Cons by simp
      ultimately show ?thesis using L no iter by auto
    next
      case none: Nil
      then have "find_account order user m = None" using find Nil by simp
      moreover have "{n \<in> members m. is_enabled m n \<and> sip_address_username (sa_id (am_objects m n)) = Inr user} = {}"
        using L none by simp
      ultimately show ?thesis using no by auto
    qed
  qed
qed

end
