(* ===== verification/Xcap_Book.thy ===== *)
theory Xcap_Book
  imports Prelude
begin

text \<open>
  The address book kept in the resource-lists document of an XCAP server
  (\<open>account/xcap/__init__.py\<close>, with the elements of \<open>payloads/addressbook.py\<close> and the list
  element of \<open>payloads/__init__.py\<close> they are stored in): the objects of the application, the
  XML elements with their dirty flags, the handlers of the journal's operations on contacts,
  groups and policies, and the lists of granted and blocked addresses that
  \<open>ResourceListsDocument.update\<close> computes before the document is sent.
\<close>

section \<open>Objects of the application and elements of the document\<close>

datatype policy_value = PolAllow | PolBlock | PolDefault

type_synonym attributes = "(string, string option) dict"

record event_handling =
  eh_policy :: policy_value
  eh_subscribe :: bool

record book_uri =
  bu_uri :: string
  bu_type :: "string option"

text \<open>
  A contact holds its addresses by id, in order. The same record is the \<open>Contact\<close> of the
  application and the one of the document: the type parameter says what an address is, an
  object with its attributes or an element of the document.
\<close>

record 'u book_contact =
  bc_name :: string
  bc_uris :: "(string \<times> 'u) list"
  bc_default :: "string option"
  bc_presence :: event_handling
  bc_dialog :: event_handling

record book_group =
  bg_name :: string
  bg_contacts :: "string list"

record book_policy =
  bp_uri :: string
  bp_name :: string
  bp_presence :: event_handling
  bp_dialog :: event_handling

text \<open>An object of the application has a dictionary of attributes; an element of the
  document may have none, and has a dirty flag.\<close>

record 'a entity =
  en_value :: 'a
  en_attributes :: attributes

record 'a element =
  el_value :: 'a
  el_attributes :: "attributes option"
  el_dirty :: bool

type_synonym contact_entity = "book_uri entity book_contact entity"
type_synonym contact_element = "book_uri element book_contact element"

record resource_lists =
  rl_contacts :: "(string \<times> contact_element) list"
  rl_groups :: "(string \<times> book_group element) list"
  rl_policies :: "(string \<times> book_policy element) list"
  rl_granted :: "string set"
  rl_blocked :: "string set"
  rl_dialog_granted :: "string set"
  rl_dialog_blocked :: "string set"
  rl_presence_rls :: "string set"
  rl_dialog_rls :: "string set"
  rl_dirty :: bool

text \<open>The dirty property of a contact asks the contact and everything under it.\<close>

definition contact_dirty :: "contact_element \<Rightarrow> bool" where
  "contact_dirty c \<longleftrightarrow> el_dirty c \<or> (\<exists>p \<in> set (bc_uris (el_value c)). el_dirty (snd p))"

section \<open>Lists of elements with an id\<close>

text \<open>
  \<open>XMLListMixin.add\<close>: an element with the id of an old one takes its place at the end of the
  list; when the two are equal the new one inherits the dirty flag (given by the caller's
  \<open>inherit\<close>) and the list is not marked.
\<close>

definition list_add ::
  "('a \<Rightarrow> 'a \<Rightarrow> bool) \<Rightarrow> ('a \<Rightarrow> 'a \<Rightarrow> 'a) \<Rightarrow> string \<Rightarrow> 'a \<Rightarrow> (string \<times> 'a) list \<Rightarrow> (string \<times> 'a) list \<times> bool" where
  "list_add eqv inherit k x xs =
     (case map_of xs k of
        None \<Rightarrow> (xs @ [(k, x)], True)
      | Some old \<Rightarrow>
          if eqv x old then (ddel k xs @ [(k, inherit x old)], False)
          else (ddel k xs @ [(k, x)], True))"

text \<open>\<open>XMLListMixin.__delitem__\<close>, with \<open>KeyError\<close> when the id is missing.\<close>

definition list_del :: "string \<Rightarrow> (string \<times> 'a) list \<Rightarrow> (string \<times> 'a) list result" where
  "list_del k xs = (case map_of xs k of None \<Rightarrow> Inl KeyError | Some _ \<Rightarrow> Inr (ddel k xs))"

text \<open>An element that is looked up by its id and modified where it is.\<close>

definition list_modify :: "string \<Rightarrow> ('a \<Rightarrow> 'a) \<Rightarrow> (string \<times> 'a) list \<Rightarrow> (string \<times> 'a) list" where
  "list_modify k f xs = map (\<lambda>(a, x). (a, if a = k then f x else x)) xs"

text \<open>Equality of elements. The attributes extension has neither XML attributes nor children
  of its own, so any two of them compare equal.\<close>

definition same_attributes :: "attributes option \<Rightarrow> attributes option \<Rightarrow> bool" where
  "same_attributes a b \<longleftrightarrow> (a = None \<longleftrightarrow> b = None)"

definition same_uri :: "book_uri element \<Rightarrow> book_uri element \<Rightarrow> bool" where
  "same_uri u v \<longleftrightarrow> el_value u = el_value v \<and> same_attributes (el_attributes u) (el_attributes v)"

definition same_contact :: "contact_element \<Rightarrow> contact_element \<Rightarrow> bool" where
  "same_contact c d \<longleftrightarrow>
     bc_name (el_value c) = bc_name (el_value d) \<and>
     list_all2 (\<lambda>p q. fst p = fst q \<and> same_uri (snd p) (snd q)) (bc_uris (el_value c)) (bc_uris (el_value d)) \<and>
     bc_default (el_value c) = bc_default (el_value d) \<and>
     bc_presence (el_value c) = bc_presence (el_value d) \<and>
     bc_dialog (el_value c) = bc_dialog (el_value d) \<and>
     same_attributes (el_attributes c) (el_attributes d)"

definition same_element :: "'a element \<Rightarrow> 'a element \<Rightarrow> bool" where
  "same_element x y \<longleftrightarrow> el_value x = el_value y \<and> same_attributes (el_attributes x) (el_attributes y)"

text \<open>\<open>item.__dirty__ = old_item.__dirty__\<close>: a flag that is false clears everything below.\<close>

definition inherit_dirty :: "'a element \<Rightarrow> 'a element \<Rightarrow> 'a element" where
  "inherit_dirty x old = x\<lparr>el_dirty := el_dirty old\<rparr>"

definition clear_uris :: "contact_element \<Rightarrow> contact_element" where
  "clear_uris c = c\<lparr>el_value := (el_value c)\<lparr>bc_uris := map (\<lambda>(k, u). (k, u\<lparr>el_dirty := False\<rparr>)) (bc_uris (el_value c))\<rparr>,
                   el_dirty := False\<rparr>"

definition inherit_contact :: "contact_element \<Rightarrow> contact_element \<Rightarrow> contact_element" where
  "inherit_contact c old = (if contact_dirty old then c\<lparr>el_dirty := True\<rparr> else clear_uris c)"

section \<open>Setting parts of an element\<close>

text \<open>The descriptors mark the element only when the value changes.\<close>

definition change :: "('a \<Rightarrow> 'a) \<Rightarrow> 'a element \<Rightarrow> 'a element" where
  "change f x = (if f (el_value x) = el_value x then x
     else x\<lparr>el_value := f (el_value x), el_dirty := True\<rparr>)"

definition set_some :: "('b \<Rightarrow> 'a \<Rightarrow> 'a) \<Rightarrow> 'b option \<Rightarrow> 'a element \<Rightarrow> 'a element" where
  "set_some f v x = (case v of None \<Rightarrow> x | Some w \<Rightarrow> change (f w) x)"

text \<open>An element without attributes gets an empty dictionary first, which marks it; updating
  the dictionary marks it unless there is nothing to update.\<close>

definition update_attributes :: "attributes \<Rightarrow> 'a element \<Rightarrow> 'a element" where
  "update_attributes new x =
     x\<lparr>el_attributes := Some (fold (\<lambda>(k, v). dset k v) new (case el_attributes x of None \<Rightarrow> [] | Some a \<Rightarrow> a)),
       el_dirty := el_dirty x \<or> el_attributes x = None \<or> new \<noteq> []\<rparr>"

definition new_element :: "'a \<Rightarrow> attributes \<Rightarrow> 'a element" where
  "new_element v a = \<lparr>el_value = v, el_attributes = Some a, el_dirty = True\<rparr>"

section \<open>The operations of the journal\<close>

text \<open>
  The \<open>attributes\<close> of an update operation: the entries the handlers take out of the dictionary
  by name, and the rest. \<open>id\<close>, \<open>uris\<close> and \<open>contacts\<close> are dropped by the handlers and have no
  place here.
\<close>

record contact_update =
  cup_name :: "string option"
  cup_default :: "string option option"
  cup_presence_policy :: "policy_value option"
  cup_presence_subscribe :: "bool option"
  cup_dialog_policy :: "policy_value option"
  cup_dialog_subscribe :: "bool option"
  cup_rest :: attributes

record uri_update =
  uup_uri :: "string option"
  uup_type :: "string option option"
  uup_rest :: attributes

record group_update =
  gup_name :: "string option"
  gup_rest :: attributes

record policy_update =
  pup_uri :: "string option"
  pup_name :: "string option"
  pup_presence_policy :: "policy_value option"
  pup_presence_subscribe :: "bool option"
  pup_dialog_policy :: "policy_value option"
  pup_dialog_subscribe :: "bool option"
  pup_rest :: attributes

datatype book_operation =
    AddContactOperation string contact_entity
  | UpdateContactOperation string contact_update
  | RemoveContactOperation string
  | AddContactURIOperation string string "book_uri entity"
  | UpdateContactURIOperation string string uri_update
  | RemoveContactURIOperation string string
  | AddGroupOperation string "book_group entity"
  | UpdateGroupOperation string group_update
  | RemoveGroupOperation string
  | AddGroupMemberOperation string string
  | RemoveGroupMemberOperation string string
  | AddPolicyOperation string "book_policy entity"
  | UpdatePolicyOperation string policy_update
  | RemovePolicyOperation string

text \<open>\<open>add\<close> and \<open>del\<close> on the lists of the document: the list is marked when it changes.\<close>

definition contacts_add :: "string \<Rightarrow> contact_element \<Rightarrow> resource_lists \<Rightarrow> resource_lists" where
  "contacts_add k c b = (case list_add same_contact inherit_contact k c (rl_contacts b) of
     (xs, d) \<Rightarrow> b\<lparr>rl_contacts := xs, rl_dirty := rl_dirty b \<or> d\<rparr>)"

definition groups_add :: "string \<Rightarrow> book_group element \<Rightarrow> resource_lists \<Rightarrow> resource_lists" where
  "groups_add k g b = (case list_add same_element inherit_dirty k g (rl_groups b) of
     (xs, d) \<Rightarrow> b\<lparr>rl_groups := xs, rl_dirty := rl_dirty b \<or> d\<rparr>)"

definition policies_add :: "string \<Rightarrow> book_policy element \<Rightarrow> resource_lists \<Rightarrow> resource_lists" where
  "policies_add k p b = (case list_add same_element inherit_dirty k p (rl_policies b) of
     (xs, d) \<Rightarrow> b\<lparr>rl_policies := xs, rl_dirty := rl_dirty b \<or> d\<rparr>)"

definition uris_add :: "string \<Rightarrow> book_uri element \<Rightarrow> contact_element \<Rightarrow> contact_element" where
  "uris_add k u c = (case list_add same_element inherit_dirty k u (bc_uris (el_value c)) of
     (xs, d) \<Rightarrow> c\<lparr>el_value := (el_value c)\<lparr>bc_uris := xs\<rparr>, el_dirty := el_dirty c \<or> d\<rparr>)"

text \<open>\<open>ContactList.remove\<close> takes out the first entry with the id; the callers have made sure
  there is one, or ignore the \<open>KeyError\<close>.\<close>

definition member_remove :: "string \<Rightarrow> book_group element \<Rightarrow> book_group element" where
  "member_remove c = change (bg_contacts_update (remove1 c))"

definition member_add :: "string \<Rightarrow> book_group element \<Rightarrow> book_group element" where
  "member_add c = change (\<lambda>g. if c \<in> set (bg_contacts g) then g else g\<lparr>bg_contacts := bg_contacts g @ [c]\<rparr>)"

definition OH_AddContact :: "string \<Rightarrow> contact_entity \<Rightarrow> resource_lists \<Rightarrow> resource_lists" where
  "OH_AddContact k c b =
     (let v = en_value c;
          uris = fold (\<lambda>(i, u). \<lambda>x. uris_add i (new_element (en_value u) (en_attributes u)) x) (bc_uris v)
                   (new_element \<lparr>bc_name = bc_name v, bc_uris = [], bc_default = bc_default v,
                                 bc_presence = bc_presence v, bc_dialog = bc_dialog v\<rparr> (en_attributes c))
      in contacts_add k uris b)"

definition update_contact :: "contact_update \<Rightarrow> contact_element \<Rightarrow> contact_element" where
  "update_contact u c = update_attributes (cup_rest u)
     (set_some (\<lambda>v. bc_dialog_update (eh_subscribe_update (\<lambda>_. v))) (cup_dialog_subscribe u)
     (set_some (\<lambda>v. bc_dialog_update (eh_policy_update (\<lambda>_. v))) (cup_dialog_policy u)
     (set_some (\<lambda>v. bc_presence_update (eh_subscribe_update (\<lambda>_. v))) (cup_presence_subscribe u)
     (set_some (\<lambda>v. bc_presence_update (eh_policy_update (\<lambda>_. v))) (cup_presence_policy u)
     (set_some (\<lambda>v. bc_default_update (\<lambda>_. v)) (cup_default u)
     (set_some (\<lambda>v. bc_name_update (\<lambda>_. v)) (cup_name u) c))))))"

definition OH_UpdateContact :: "string \<Rightarrow> contact_update \<Rightarrow> resource_lists \<Rightarrow> resource_lists" where
  "OH_UpdateContact k u b = b\<lparr>rl_contacts := list_modify k (update_contact u) (rl_contacts b)\<rparr>"

definition OH_RemoveContact :: "string \<Rightarrow> resource_lists \<Rightarrow> resource_lists" where
  "OH_RemoveContact k b =
     (let b' = b\<lparr>rl_groups := map (\<lambda>(i, g). (i, if k \<in> set (bg_contacts (el_value g)) then member_remove k g else g))
                                (rl_groups b)\<rparr>
      in case list_del k (rl_contacts b') of
           Inl _ \<Rightarrow> b'
         | Inr xs \<Rightarrow> b'\<lparr>rl_contacts := xs, rl_dirty := True\<rparr>)"

definition OH_AddContactURI :: "string \<Rightarrow> string \<Rightarrow> book_uri entity \<Rightarrow> resource_lists \<Rightarrow> resource_lists" where
  "OH_AddContactURI k i u b =
     b\<lparr>rl_contacts := list_modify k (uris_add i (new_element (en_value u) (en_attributes u))) (rl_contacts b)\<rparr>"

definition update_uri :: "uri_update \<Rightarrow> book_uri element \<Rightarrow> book_uri element" where
  "update_uri u x = update_attributes (uup_rest u)
     (set_some (\<lambda>v. bu_type_update (\<lambda>_. v)) (uup_type u)
     (set_some (\<lambda>v. bu_uri_update (\<lambda>_. v)) (uup_uri u) x))"

definition OH_UpdateContactURI :: "string \<Rightarrow> string \<Rightarrow> uri_update \<Rightarrow> resource_lists \<Rightarrow> resource_lists" where
  "OH_UpdateContactURI k i u b =
     b\<lparr>rl_contacts := list_modify k (\<lambda>c. c\<lparr>el_value := (el_value c)\<lparr>bc_uris :=
         list_modify i (update_uri u) (bc_uris (el_value c))\<rparr>\<rparr>) (rl_contacts b)\<rparr>"

definition uris_remove :: "string \<Rightarrow> contact_element \<Rightarrow> contact_element" where
  "uris_remove i c = (case list_del i (bc_uris (el_value c)) of
     Inl _ \<Rightarrow> c
   | Inr xs \<Rightarrow> c\<lparr>el_value := (el_value c)\<lparr>bc_uris := xs\<rparr>, el_dirty := True\<rparr>)"

definition OH_RemoveContactURI :: "string \<Rightarrow> string \<Rightarrow> resource_lists \<Rightarrow> resource_lists" where
  "OH_RemoveContactURI k i b = b\<lparr>rl_contacts := list_modify k (uris_remove i) (rl_contacts b)\<rparr>"

definition OH_AddGroup :: "string \<Rightarrow> book_group entity \<Rightarrow> resource_lists \<Rightarrow> resource_lists" where
  "OH_AddGroup k g b = groups_add k (new_element (en_value g) (en_attributes g)) b"

definition OH_UpdateGroup :: "string \<Rightarrow> group_update \<Rightarrow> resource_lists \<Rightarrow> resource_lists" where
  "OH_UpdateGroup k u b = b\<lparr>rl_groups := list_modify k (\<lambda>g. update_attributes (gup_rest u)
     (set_some (\<lambda>v. bg_name_update (\<lambda>_. v)) (gup_name u) g)) (rl_groups b)\<rparr>"

definition OH_RemoveGroup :: "string \<Rightarrow> resource_lists \<Rightarrow> resource_lists" where
  "OH_RemoveGroup k b = (case list_del k (rl_groups b) of
     Inl _ \<Rightarrow> b
   | Inr xs \<Rightarrow> b\<lparr>rl_groups := xs, rl_dirty := True\<rparr>)"

definition OH_AddGroupMember :: "string \<Rightarrow> string \<Rightarrow> resource_lists \<Rightarrow> resource_lists" where
  "OH_AddGroupMember k c b = b\<lparr>rl_groups := list_modify k (member_add c) (rl_groups b)\<rparr>"

definition OH_RemoveGroupMember :: "string \<Rightarrow> string \<Rightarrow> resource_lists \<Rightarrow> resource_lists" where
  "OH_RemoveGroupMember k c b = b\<lparr>rl_groups := list_modify k (member_remove c) (rl_groups b)\<rparr>"

definition OH_AddPolicy :: "string \<Rightarrow> book_policy entity \<Rightarrow> resource_lists \<Rightarrow> resource_lists" where
  "OH_AddPolicy k p b = policies_add k (new_element (en_value p) (en_attributes p)) b"

definition update_policy :: "policy_update \<Rightarrow> book_policy element \<Rightarrow> book_policy element" where
  "update_policy u p = update_attributes (pup_rest u)
     (set_some (\<lambda>v. bp_dialog_update (eh_subscribe_update (\<lambda>_. v))) (pup_dialog_subscribe u)
     (set_some (\<lambda>v. bp_dialog_update (eh_policy_update (\<lambda>_. v))) (pup_dialog_policy u)
     (set_some (\<lambda>v. bp_presence_update (eh_subscribe_update (\<lambda>_. v))) (pup_presence_subscribe u)
     (set_some (\<lambda>v. bp_presence_update (eh_policy_update (\<lambda>_. v))) (pup_presence_policy u)
     (set_some (\<lambda>v. bp_name_update (\<lambda>_. v)) (pup_name u)
     (set_some (\<lambda>v. bp_uri_update (\<lambda>_. v)) (pup_uri u) p))))))"

definition OH_UpdatePolicy :: "string \<Rightarrow> policy_update \<Rightarrow> resource_lists \<Rightarrow> resource_lists" where
  "OH_UpdatePolicy k u b = b\<lparr>rl_policies := list_modify k (update_policy u) (rl_policies b)\<rparr>"

definition OH_RemovePolicy :: "string \<Rightarrow> resource_lists \<Rightarrow> resource_lists" where
  "OH_RemovePolicy k b = (case list_del k (rl_policies b) of
     Inl _ \<Rightarrow> b
   | Inr xs \<Rightarrow> b\<lparr>rl_policies := xs, rl_dirty := True\<rparr>)"

fun apply_book :: "book_operation \<Rightarrow> resource_lists \<Rightarrow> resource_lists" where
  "apply_book (AddContactOperation k c) b = OH_AddContact k c b"
| "apply_book (UpdateContactOperation k u) b = OH_UpdateContact k u b"
| "apply_book (RemoveContactOperation k) b = OH_RemoveContact k b"
| "apply_book (AddContactURIOperation k i u) b = OH_AddContactURI k i u b"
| "apply_book (UpdateContactURIOperation k i u) b = OH_UpdateContactURI k i u b"
| "apply_book (RemoveContactURIOperation k i) b = OH_RemoveContactURI k i b"
| "apply_book (AddGroupOperation k g) b = OH_AddGroup k g b"
| "apply_book (UpdateGroupOperation k u) b = OH_UpdateGroup k u b"
| "apply_book (RemoveGroupOperation k) b = OH_RemoveGroup k b"
| "apply_book (AddGroupMemberOperation k c) b = OH_AddGroupMember k c b"
| "apply_book (RemoveGroupMemberOperation k c) b = OH_RemoveGroupMember k c b"
| "apply_book (AddPolicyOperation k p) b = OH_AddPolicy k p b"
| "apply_book (UpdatePolicyOperation k u) b = OH_UpdatePolicy k u b"
| "apply_book (RemovePolicyOperation k) b = OH_RemovePolicy k b"

definition apply_journal :: "book_operation list \<Rightarrow> resource_lists \<Rightarrow> resource_lists" where
  "apply_journal ops b = fold apply_book ops b"

end
