(* ===== verification/Xcap_Replay.thy ===== *)
theory Xcap_Replay
  imports Xcap_Book
begin

text \<open>
  What the operations of the journal mean, and why a journal can be replayed: an abstract
  address book of maps, each operation as a function on it, the refinement of the handlers to
  those functions, and the algebra (assignments, on cells, under maps and options, are closed
  under composition and idempotent) that makes the run of a whole journal idempotent.
\<close>

section \<open>Bands of state transformers\<close>

text \<open>A set of functions that is closed under composition and whose members are idempotent.\<close>

definition band :: "('a \<Rightarrow> 'a) set \<Rightarrow> bool" where
  "band M \<longleftrightarrow> id \<in> M \<and> (\<forall>f \<in> M. f \<circ> f = f) \<and> (\<forall>f \<in> M. \<forall>g \<in> M. f \<circ> g \<in> M)"

lemma bandI: "id \<in> M \<Longrightarrow> (\<And>f. f \<in> M \<Longrightarrow> f \<circ> f = f) \<Longrightarrow> (\<And>f g. f \<in> M \<Longrightarrow> g \<in> M \<Longrightarrow> f \<circ> g \<in> M) \<Longrightarrow> band M"
  by (simp add: band_def)

lemma band_id: "band M \<Longrightarrow> id \<in> M"
  and band_idem: "band M \<Longrightarrow> f \<in> M \<Longrightarrow> f \<circ> f = f"
  and band_comp: "band M \<Longrightarrow> f \<in> M \<Longrightarrow> g \<in> M \<Longrightarrow> f \<circ> g \<in> M"
  by (simp_all add: band_def)

lemma band_fold:
  assumes "band M" and "\<And>x. x \<in> set xs \<Longrightarrow> f x \<in> M"
  shows "fold f xs \<in> M"
  using assms(2)
proof (induction xs)
  case Nil
  show ?case using band_id[OF assms(1)] by (simp add: id_def)
next
  case (Cons x xs)
  have "fold f xs \<circ> f x \<in> M"
    using Cons by (intro band_comp[OF assms(1)]) simp_all
  then show ?case by (simp add: comp_def)
qed

text \<open>Assigning a value or leaving it alone.\<close>

definition assign :: "'a option \<Rightarrow> 'a \<Rightarrow> 'a" where
  "assign v x = (case v of None \<Rightarrow> x | Some w \<Rightarrow> w)"

definition at :: "'k \<Rightarrow> ('v \<Rightarrow> 'v) \<Rightarrow> ('k \<Rightarrow> 'v) \<Rightarrow> 'k \<Rightarrow> 'v" where
  "at k f m = m(k := f (m k))"

definition assigns :: "('a \<Rightarrow> 'a) set" where
  "assigns = range assign"

definition products :: "('a \<Rightarrow> 'a) set \<Rightarrow> ('b \<Rightarrow> 'b) set \<Rightarrow> ('a \<times> 'b \<Rightarrow> 'a \<times> 'b) set" where
  "products M N = {map_prod f g |f g. f \<in> M \<and> g \<in> N}"

definition options :: "('a \<Rightarrow> 'a) set \<Rightarrow> ('a option \<Rightarrow> 'a option) set" where
  "options M = range (\<lambda>v _. v) \<union> map_option ` M"

definition cells :: "('v \<Rightarrow> 'v) set \<Rightarrow> (('k \<Rightarrow> 'v) \<Rightarrow> 'k \<Rightarrow> 'v) set" where
  "cells M = {\<lambda>m k. F k (m k) |F. \<forall>k. F k \<in> M}"

lemma assign_simps [simp]: "assign None = id" "assign (Some v) = (\<lambda>_. v)"
  by (simp_all add: assign_def fun_eq_iff)

lemma assigns_cases: "f \<in> assigns \<longleftrightarrow> f = id \<or> (\<exists>v. f = (\<lambda>_. v))"
  unfolding assigns_def
proof (safe, goal_cases)
  case (1 v)
  then show ?case by (cases v) auto
next
  case 2
  show ?case by (rule range_eqI [where x = None]) simp
next
  case (3 v)
  show ?case by (rule range_eqI [where x = "Some v"]) simp
qed

lemma band_assigns: "band assigns"
  by (rule bandI) (auto simp: assigns_cases comp_def)

lemma band_products:
  assumes "band M" and "band N"
  shows "band (products M N)"
proof (rule bandI)
  have "map_prod id id \<in> products M N"
    unfolding products_def using band_id[OF assms(1)] band_id[OF assms(2)] by blast
  then show "id \<in> products M N" by (simp add: map_prod.id)
next
  fix f
  assume "f \<in> products M N"
  then obtain g h where f: "f = map_prod g h" and gh: "g \<in> M" "h \<in> N" unfolding products_def by blast
  show "f \<circ> f = f"
    unfolding f map_prod_compose[symmetric] band_idem[OF assms(1) gh(1)] band_idem[OF assms(2) gh(2)] by (rule refl)
next
  fix f f'
  assume "f \<in> products M N" and "f' \<in> products M N"
  then obtain g h g' h' where f: "f = map_prod g h" "f' = map_prod g' h'"
    and gh: "g \<in> M" "h \<in> N" "g' \<in> M" "h' \<in> N"
    unfolding products_def by blast
  have "f \<circ> f' = map_prod (g \<circ> g') (h \<circ> h')" unfolding f by (rule map_prod_compose[symmetric])
  moreover have "g \<circ> g' \<in> M" by (rule band_comp[OF assms(1) gh(1) gh(3)])
  moreover have "h \<circ> h' \<in> N" by (rule band_comp[OF assms(2) gh(2) gh(4)])
  ultimately show "f \<circ> f' \<in> products M N" unfolding products_def by blast
qed

lemma band_options:
  assumes "band M"
  shows "band (options M)"
proof (rule bandI)
  have "id = map_option id" by (simp add: option.map_id0)
  then show "id \<in> options M" using band_id[OF assms] unfolding options_def by blast
next
  fix f
  assume "f \<in> options M"
  then consider (const) v where "f = (\<lambda>_. v)" | (lift) g where "f = map_option g" "g \<in> M"
    unfolding options_def by blast
  then show "f \<circ> f = f"
  proof cases
    case lift
    have "f \<circ> f = map_option (g \<circ> g)" by (auto simp: lift(1) fun_eq_iff option.map_comp)
    then show ?thesis using band_idem[OF assms lift(2)] lift(1) by simp
  qed auto
next
  fix f g
  assume f: "f \<in> options M" and g: "g \<in> options M"
  from f consider (const) v where "f = (\<lambda>_. v)" | (lift) f' where "f = map_option f'" "f' \<in> M"
    unfolding options_def by blast
  then show "f \<circ> g \<in> options M"
  proof cases
    case const
    then have "f \<circ> g = (\<lambda>_. v)" by auto
    then show ?thesis unfolding options_def by blast
  next
    case lift
    from g consider (c) v where "g = (\<lambda>_. v)" | (l) g' where "g = map_option g'" "g' \<in> M"
      unfolding options_def by blast
    then show ?thesis
    proof cases
      case c
      then have "f \<circ> g = (\<lambda>_. f v)" by auto
      then show ?thesis unfolding options_def by blast
    next
      case l
      have "f \<circ> g = map_option (f' \<circ> g')" by (auto simp: lift(1) l(1) fun_eq_iff option.map_comp)
      moreover have "f' \<circ> g' \<in> M" using band_comp[OF assms] lift l by blast
      ultimately show ?thesis unfolding options_def by blast
    qed
  qed
qed

lemma band_cells:
  assumes "band (M :: ('v \<Rightarrow> 'v) set)"
  shows "band (cells M :: (('k \<Rightarrow> 'v) \<Rightarrow> 'k \<Rightarrow> 'v) set)"
proof (rule bandI)
  show "id \<in> (cells M :: (('k \<Rightarrow> 'v) \<Rightarrow> 'k \<Rightarrow> 'v) set)"
    unfolding cells_def using band_id[OF assms]
    by (intro CollectI exI [where x = "\<lambda>_. id"]) (simp add: fun_eq_iff)
next
  fix f :: "('k \<Rightarrow> 'v) \<Rightarrow> 'k \<Rightarrow> 'v"
  assume "f \<in> cells M"
  then obtain F where f: "f = (\<lambda>m k. F k (m k))" and F: "\<forall>k. F k \<in> M" unfolding cells_def by blast
  have "F k (F k x) = F k x" for k x using band_idem[OF assms, of "F k"] F by (auto simp: fun_eq_iff)
  then show "f \<circ> f = f" unfolding f by (simp add: fun_eq_iff)
next
  fix f g :: "('k \<Rightarrow> 'v) \<Rightarrow> 'k \<Rightarrow> 'v"
  assume "f \<in> cells M" and "g \<in> cells M"
  then obtain F G where f: "f = (\<lambda>m k. F k (m k))" "g = (\<lambda>m k. G k (m k))"
    and F: "\<forall>k. F k \<in> M" "\<forall>k. G k \<in> M" unfolding cells_def by blast
  have "f \<circ> g = (\<lambda>m k. (F k \<circ> G k) (m k))" unfolding f by (simp add: fun_eq_iff)
  moreover have "\<forall>k. F k \<circ> G k \<in> M" using band_comp[OF assms] F by blast
  ultimately show "f \<circ> g \<in> cells M"
    unfolding cells_def by (intro CollectI exI [where x = "\<lambda>k. F k \<circ> G k"]) simp
qed

named_theorems band_intros

lemma assign_in [band_intros]: "assign v \<in> assigns"
  by (simp add: assigns_def)

lemma const_in_assigns [band_intros]: "(\<lambda>_. v) \<in> assigns"
  by (auto simp: assigns_cases)

lemma map_prod_in [band_intros]: "f \<in> M \<Longrightarrow> g \<in> N \<Longrightarrow> map_prod f g \<in> products M N"
  unfolding products_def by blast

lemma const_in [band_intros]: "(\<lambda>_. v) \<in> options M"
  by (simp add: options_def)

lemma map_option_in [band_intros]: "f \<in> M \<Longrightarrow> map_option f \<in> options M"
  by (simp add: options_def)

lemma all_cells_in: "(\<And>k. F k \<in> M) \<Longrightarrow> (\<lambda>m k. F k (m k)) \<in> cells M"
  unfolding cells_def by blast

lemma at_in:
  assumes "band M" and "f \<in> M"
  shows "at k f \<in> cells M"
proof -
  have "at k f = (\<lambda>m j. (if j = k then f else id) (m j))"
    by (auto simp: at_def fun_eq_iff)
  moreover have "(if j = k then f else id) \<in> M" for j using assms(2) band_id[OF assms(1)] by simp
  ultimately show ?thesis using all_cells_in [where F = "\<lambda>j. if j = k then f else id" and M = M] by simp
qed

section \<open>The abstract address book\<close>

type_synonym sem_attributes = "string \<Rightarrow> string option option"
type_synonym sem_handling = "policy_value \<times> bool"
type_synonym sem_uri = "string \<times> string option \<times> sem_attributes"
type_synonym sem_contact =
  "string \<times> string option \<times> sem_handling \<times> sem_handling \<times> sem_attributes \<times> (string \<Rightarrow> sem_uri option)"
type_synonym sem_group = "string \<times> (string \<Rightarrow> bool) \<times> sem_attributes"
type_synonym sem_policy = "string \<times> string \<times> sem_handling \<times> sem_handling \<times> sem_attributes"
type_synonym sem_book =
  "(string \<Rightarrow> sem_contact option) \<times> (string \<Rightarrow> sem_group option) \<times> (string \<Rightarrow> sem_policy option)"

text \<open>What the document says, whatever the order of its elements and their flags.\<close>

definition view_attributes :: "attributes option \<Rightarrow> sem_attributes" where
  "view_attributes a = map_of (case a of None \<Rightarrow> [] | Some d \<Rightarrow> d)"

definition view_handling :: "event_handling \<Rightarrow> sem_handling" where
  "view_handling h = (eh_policy h, eh_subscribe h)"

definition view_uri :: "book_uri element \<Rightarrow> sem_uri" where
  "view_uri u = (bu_uri (el_value u), bu_type (el_value u), view_attributes (el_attributes u))"

definition view_contact :: "contact_element \<Rightarrow> sem_contact" where
  "view_contact c =
     (bc_name (el_value c), bc_default (el_value c), view_handling (bc_presence (el_value c)),
      view_handling (bc_dialog (el_value c)), view_attributes (el_attributes c),
      \<lambda>i. map_option view_uri (map_of (bc_uris (el_value c)) i))"

definition view_group :: "book_group element \<Rightarrow> sem_group" where
  "view_group g = (bg_name (el_value g), \<lambda>c. c \<in> set (bg_contacts (el_value g)), view_attributes (el_attributes g))"

definition view_policy :: "book_policy element \<Rightarrow> sem_policy" where
  "view_policy p = (bp_uri (el_value p), bp_name (el_value p), view_handling (bp_presence (el_value p)),
      view_handling (bp_dialog (el_value p)), view_attributes (el_attributes p))"

definition view_book :: "resource_lists \<Rightarrow> sem_book" where
  "view_book b =
     (\<lambda>k. map_option view_contact (map_of (rl_contacts b) k),
      \<lambda>k. map_option view_group (map_of (rl_groups b) k),
      \<lambda>k. map_option view_policy (map_of (rl_policies b) k))"

text \<open>The operations as assignments to cells of the abstract book.\<close>

definition overlay :: "attributes \<Rightarrow> sem_attributes \<Rightarrow> sem_attributes" where
  "overlay new m = (\<lambda>k. assign (map_option Some (map_of new k)) (m k))"

definition sem_handling_update :: "policy_value option \<Rightarrow> bool option \<Rightarrow> sem_handling \<Rightarrow> sem_handling" where
  "sem_handling_update p s = map_prod (assign p) (assign s)"

definition sem_contact_update :: "contact_update \<Rightarrow> sem_contact \<Rightarrow> sem_contact" where
  "sem_contact_update u =
     map_prod (assign (cup_name u)) (map_prod (assign (cup_default u))
       (map_prod (sem_handling_update (cup_presence_policy u) (cup_presence_subscribe u))
         (map_prod (sem_handling_update (cup_dialog_policy u) (cup_dialog_subscribe u))
           (map_prod (overlay (cup_rest u)) id))))"

definition sem_uris_update ::
  "((string \<Rightarrow> sem_uri option) \<Rightarrow> string \<Rightarrow> sem_uri option) \<Rightarrow> sem_contact \<Rightarrow> sem_contact" where
  "sem_uris_update f = map_prod id (map_prod id (map_prod id (map_prod id (map_prod id f))))"

definition sem_uri_update :: "uri_update \<Rightarrow> sem_uri \<Rightarrow> sem_uri" where
  "sem_uri_update u = map_prod (assign (uup_uri u)) (map_prod (assign (uup_type u)) (overlay (uup_rest u)))"

definition sem_members_update :: "string \<Rightarrow> bool \<Rightarrow> sem_group \<Rightarrow> sem_group" where
  "sem_members_update c v = map_prod id (map_prod (at c (\<lambda>_. v)) id)"

definition sem_group_update :: "group_update \<Rightarrow> sem_group \<Rightarrow> sem_group" where
  "sem_group_update u = map_prod (assign (gup_name u)) (map_prod id (overlay (gup_rest u)))"

definition sem_policy_update :: "policy_update \<Rightarrow> sem_policy \<Rightarrow> sem_policy" where
  "sem_policy_update u =
     map_prod (assign (pup_uri u)) (map_prod (assign (pup_name u))
       (map_prod (sem_handling_update (pup_presence_policy u) (pup_presence_subscribe u))
         (map_prod (sem_handling_update (pup_dialog_policy u) (pup_dialog_subscribe u)) (overlay (pup_rest u)))))"

definition sem_uri_entity :: "book_uri entity \<Rightarrow> sem_uri" where
  "sem_uri_entity u = (bu_uri (en_value u), bu_type (en_value u), map_of (en_attributes u))"

definition sem_contact_entity :: "contact_entity \<Rightarrow> sem_contact" where
  "sem_contact_entity c =
     (bc_name (en_value c), bc_default (en_value c), view_handling (bc_presence (en_value c)),
      view_handling (bc_dialog (en_value c)), map_of (en_attributes c),
      \<lambda>i. map_option sem_uri_entity (map_of (bc_uris (en_value c)) i))"

definition sem_group_entity :: "book_group entity \<Rightarrow> sem_group" where
  "sem_group_entity g = (bg_name (en_value g), \<lambda>c. c \<in> set (bg_contacts (en_value g)), map_of (en_attributes g))"

definition sem_policy_entity :: "book_policy entity \<Rightarrow> sem_policy" where
  "sem_policy_entity p = (bp_uri (en_value p), bp_name (en_value p), view_handling (bp_presence (en_value p)),
      view_handling (bp_dialog (en_value p)), map_of (en_attributes p))"

definition on_contacts :: "((string \<Rightarrow> sem_contact option) \<Rightarrow> string \<Rightarrow> sem_contact option) \<Rightarrow> sem_book \<Rightarrow> sem_book" where
  "on_contacts f = map_prod f id"

definition on_groups :: "((string \<Rightarrow> sem_group option) \<Rightarrow> string \<Rightarrow> sem_group option) \<Rightarrow> sem_book \<Rightarrow> sem_book" where
  "on_groups f = map_prod id (map_prod f id)"

definition on_policies :: "((string \<Rightarrow> sem_policy option) \<Rightarrow> string \<Rightarrow> sem_policy option) \<Rightarrow> sem_book \<Rightarrow> sem_book" where
  "on_policies f = map_prod id (map_prod id f)"

fun sem_operation :: "book_operation \<Rightarrow> sem_book \<Rightarrow> sem_book" where
  "sem_operation (AddContactOperation k c) = on_contacts (at k (\<lambda>_. Some (sem_contact_entity c)))"
| "sem_operation (UpdateContactOperation k u) = on_contacts (at k (map_option (sem_contact_update u)))"
| "sem_operation (RemoveContactOperation k) =
     map_prod (at k (\<lambda>_. None)) (map_prod (\<lambda>m g. map_option (sem_members_update k False) (m g)) id)"
| "sem_operation (AddContactURIOperation k i u) =
     on_contacts (at k (map_option (sem_uris_update (at i (\<lambda>_. Some (sem_uri_entity u))))))"
| "sem_operation (UpdateContactURIOperation k i u) =
     on_contacts (at k (map_option (sem_uris_update (at i (map_option (sem_uri_update u))))))"
| "sem_operation (RemoveContactURIOperation k i) =
     on_contacts (at k (map_option (sem_uris_update (at i (\<lambda>_. None)))))"
| "sem_operation (AddGroupOperation k g) = on_groups (at k (\<lambda>_. Some (sem_group_entity g)))"
| "sem_operation (UpdateGroupOperation k u) = on_groups (at k (map_option (sem_group_update u)))"
| "sem_operation (RemoveGroupOperation k) = on_groups (at k (\<lambda>_. None))"
| "sem_operation (AddGroupMemberOperation k c) = on_groups (at k (map_option (sem_members_update c True)))"
| "sem_operation (RemoveGroupMemberOperation k c) = on_groups (at k (map_option (sem_members_update c False)))"
| "sem_operation (AddPolicyOperation k p) = on_policies (at k (\<lambda>_. Some (sem_policy_entity p)))"
| "sem_operation (UpdatePolicyOperation k u) = on_policies (at k (map_option (sem_policy_update u)))"
| "sem_operation (RemovePolicyOperation k) = on_policies (at k (\<lambda>_. None))"

definition attributes_band :: "(sem_attributes \<Rightarrow> sem_attributes) set" where
  "attributes_band = cells assigns"

definition handling_band :: "(sem_handling \<Rightarrow> sem_handling) set" where
  "handling_band = products assigns assigns"

definition uri_band :: "(sem_uri \<Rightarrow> sem_uri) set" where
  "uri_band = products assigns (products assigns attributes_band)"

definition contact_band :: "(sem_contact \<Rightarrow> sem_contact) set" where
  "contact_band = products assigns (products assigns (products handling_band (products handling_band
     (products attributes_band (cells (options uri_band))))))"

definition group_band :: "(sem_group \<Rightarrow> sem_group) set" where
  "group_band = products assigns (products (cells assigns) attributes_band)"

definition policy_band :: "(sem_policy \<Rightarrow> sem_policy) set" where
  "policy_band = products assigns (products assigns (products handling_band (products handling_band attributes_band)))"

definition book_band :: "(sem_book \<Rightarrow> sem_book) set" where
  "book_band = products (cells (options contact_band)) (products (cells (options group_band)) (cells (options policy_band)))"

lemmas band_defs = attributes_band_def handling_band_def uri_band_def contact_band_def group_band_def
  policy_band_def book_band_def

lemma bands:
  "band attributes_band" "band handling_band" "band uri_band" "band contact_band" "band group_band"
  "band policy_band" "band book_band"
  unfolding band_defs by (intro band_assigns band_products band_options band_cells)+

lemma id_in_bands [band_intros]:
  "id \<in> assigns" "id \<in> attributes_band" "id \<in> handling_band" "id \<in> uri_band" "id \<in> cells (options uri_band)"
  "id \<in> cells (options contact_band)" "id \<in> cells (options group_band)" "id \<in> cells (options policy_band)"
  "id \<in> cells assigns"
  by (intro band_id band_assigns band_cells band_options bands)+

lemma overlay_in [band_intros]: "overlay new \<in> attributes_band"
  unfolding overlay_def attributes_band_def by (rule all_cells_in, rule assign_in)

lemma sem_handling_update_in [band_intros]: "sem_handling_update p s \<in> handling_band"
  unfolding sem_handling_update_def handling_band_def by (intro band_intros)

lemma sem_uri_update_in [band_intros]: "sem_uri_update u \<in> uri_band"
  unfolding sem_uri_update_def uri_band_def by (intro band_intros)

lemma sem_contact_update_in [band_intros]: "sem_contact_update u \<in> contact_band"
  unfolding sem_contact_update_def contact_band_def by (intro band_intros)

lemma sem_uris_update_in [band_intros]: "f \<in> cells (options uri_band) \<Longrightarrow> sem_uris_update f \<in> contact_band"
  unfolding sem_uris_update_def contact_band_def by (intro band_intros)

lemma sem_group_update_in [band_intros]: "sem_group_update u \<in> group_band"
  unfolding sem_group_update_def group_band_def by (intro band_intros)

lemma sem_members_update_in [band_intros]: "sem_members_update c v \<in> group_band"
  unfolding sem_members_update_def group_band_def by (intro band_intros at_in band_assigns)

lemma sem_policy_update_in [band_intros]: "sem_policy_update u \<in> policy_band"
  unfolding sem_policy_update_def policy_band_def by (intro band_intros)

lemma on_parts_in [band_intros]:
  "f \<in> cells (options contact_band) \<Longrightarrow> on_contacts f \<in> book_band"
  "g \<in> cells (options group_band) \<Longrightarrow> on_groups g \<in> book_band"
  "h \<in> cells (options policy_band) \<Longrightarrow> on_policies h \<in> book_band"
  unfolding on_contacts_def on_groups_def on_policies_def book_band_def
  by (intro band_intros band_id band_products band_cells band_options bands; assumption)+

lemma sem_operation_in: "sem_operation op \<in> book_band"
proof (cases op)
  case (RemoveContactOperation k)
  then show ?thesis
    unfolding sem_operation.simps book_band_def
    by (simp only: sem_operation.simps) (intro band_intros at_in all_cells_in band_options bands)
qed (simp only: sem_operation.simps, intro band_intros at_in band_options bands)+

lemma sem_journal_idem:
  "fold sem_operation ops (fold sem_operation ops s) = fold sem_operation ops s"
proof -
  have "fold sem_operation ops \<in> book_band"
    by (rule band_fold[OF bands(7)]) (rule sem_operation_in)
  from fun_cong[OF band_idem[OF bands(7) this], of s] show ?thesis by simp
qed

section \<open>The handlers refine the abstract operations\<close>

lemma change_el [simp]: "el_value (change f x) = f (el_value x)" "el_attributes (change f x) = el_attributes x"
  by (simp_all add: change_def)

lemma set_some_el [simp]:
  "el_value (set_some f v x) = (case v of None \<Rightarrow> el_value x | Some w \<Rightarrow> f w (el_value x))"
  "el_attributes (set_some f v x) = el_attributes x"
  by (simp_all add: set_some_def split: option.split)

lemma new_element_el [simp]: "el_value (new_element v a) = v" "el_attributes (new_element v a) = Some a"
  by (simp_all add: new_element_def)

lemma view_update_attributes:
  assumes "distinct (map fst new)"
  shows "view_attributes (el_attributes (update_attributes new x)) = overlay new (view_attributes (el_attributes x))"
proof -
  have "map_of (fold (\<lambda>(k, v). dset k v) new d) = overlay new (map_of d)" for d
    unfolding map_of_fold_dset[OF assms] overlay_def by (auto simp: map_add_def assign_def fun_eq_iff split: option.split)
  then show ?thesis by (simp add: update_attributes_def view_attributes_def)
qed

lemma update_attributes_value [simp]: "el_value (update_attributes new x) = el_value x"
  by (simp add: update_attributes_def)

lemma map_of_list_modify: "map_of (list_modify k f xs) = at k (map_option f) (map_of xs)"
  by (induction xs) (auto simp: list_modify_def at_def fun_eq_iff)

lemma map_of_map_values: "map_of (map (\<lambda>(k, x). (k, f x)) xs) k = map_option f (map_of xs k)"
  by (induction xs) auto

lemma map_of_put_back: "map_of (ddel k xs @ [(k, x)]) = (map_of xs)(k \<mapsto> x)"
  by (auto simp: map_of_ddel map_add_def fun_eq_iff split: option.split)

text \<open>Whatever the list decides about flags and order, the view of the new element is put
  under its id.\<close>

lemma view_list_add:
  assumes "\<And>x y. v (inh x y) = v x"
  shows "(\<lambda>i. map_option v (map_of (fst (list_add eqv inh k x xs)) i)) =
         at k (\<lambda>_. Some (v x)) (\<lambda>i. map_option v (map_of xs i))"
proof (cases "map_of xs k")
  case None
  then have "map_of (xs @ [(k, x)]) = (map_of xs)(k \<mapsto> x)"
    by (auto simp: map_add_def fun_eq_iff split: option.split)
  then show ?thesis using None by (simp add: list_add_def at_def fun_eq_iff)
next
  case (Some old)
  then show ?thesis
    by (auto simp: list_add_def at_def fun_eq_iff map_of_put_back assms simp del: map_of_append)
qed

text \<open>The dictionaries of an operation have distinct keys, as Python dictionaries do, and the
  members of a group that is added are distinct (they come from a collection keyed by id).\<close>

fun operation_wf :: "book_operation \<Rightarrow> bool" where
  "operation_wf (AddContactOperation k c) \<longleftrightarrow> distinct (map fst (bc_uris (en_value c)))"
| "operation_wf (UpdateContactOperation k u) \<longleftrightarrow> distinct (map fst (cup_rest u))"
| "operation_wf (UpdateContactURIOperation k i u) \<longleftrightarrow> distinct (map fst (uup_rest u))"
| "operation_wf (AddGroupOperation k g) \<longleftrightarrow> distinct (bg_contacts (en_value g))"
| "operation_wf (UpdateGroupOperation k u) \<longleftrightarrow> distinct (map fst (gup_rest u))"
| "operation_wf (UpdatePolicyOperation k u) \<longleftrightarrow> distinct (map fst (pup_rest u))"
| "operation_wf _ \<longleftrightarrow> True"

definition members_distinct :: "resource_lists \<Rightarrow> bool" where
  "members_distinct b \<longleftrightarrow> (\<forall>p \<in> set (rl_groups b). distinct (bg_contacts (el_value (snd p))))"

lemma members_distinct_of:
  "members_distinct b \<Longrightarrow> map_of (rl_groups b) k = Some g \<Longrightarrow> distinct (bg_contacts (el_value g))"
  unfolding members_distinct_def using map_of_SomeD by fastforce

lemma view_contact_clear: "view_contact (clear_uris c) = view_contact c"
proof -
  have "view_uri (u\<lparr>el_dirty := False\<rparr>) = view_uri u" for u by (simp add: view_uri_def)
  then show ?thesis
    by (auto simp: view_contact_def clear_uris_def map_of_map_values fun_eq_iff option.map_comp comp_def)
qed

lemma view_inherit:
  "view_contact (inherit_contact c old) = view_contact c"
  "view_group (inherit_dirty g g') = view_group g"
  "view_policy (inherit_dirty p p') = view_policy p"
  "view_uri (inherit_dirty u u') = view_uri u"
  by (simp_all add: inherit_contact_def view_contact_clear)
    (simp_all add: inherit_dirty_def view_contact_def view_group_def view_policy_def view_uri_def)

lemmas view_adds = view_list_add[where v = view_contact and inh = inherit_contact, OF view_inherit(1)]
  view_list_add[where v = view_group and inh = inherit_dirty, OF view_inherit(2)]
  view_list_add[where v = view_policy and inh = inherit_dirty, OF view_inherit(3)]
  view_list_add[where v = view_uri and inh = inherit_dirty, OF view_inherit(4)]

lemma view_contacts_add:
  "view_book (contacts_add k c b) = on_contacts (at k (\<lambda>_. Some (view_contact c))) (view_book b)"
  using view_adds(1)[of same_contact k c "rl_contacts b"]
  by (simp add: view_book_def contacts_add_def on_contacts_def case_prod_beta)

lemma view_groups_add:
  "view_book (groups_add k g b) = on_groups (at k (\<lambda>_. Some (view_group g))) (view_book b)"
  using view_adds(2)[of same_element k g "rl_groups b"]
  by (simp add: view_book_def groups_add_def on_groups_def case_prod_beta)

lemma view_policies_add:
  "view_book (policies_add k p b) = on_policies (at k (\<lambda>_. Some (view_policy p))) (view_book b)"
  using view_adds(3)[of same_element k p "rl_policies b"]
  by (simp add: view_book_def policies_add_def on_policies_def case_prod_beta)

lemma view_uris_add:
  "view_contact (uris_add i u c) = sem_uris_update (at i (\<lambda>_. Some (view_uri u))) (view_contact c)"
  using view_adds(4)[of same_element i u "bc_uris (el_value c)"]
  by (simp add: view_contact_def uris_add_def sem_uris_update_def case_prod_beta)

lemma modify_cell:
  assumes "map_of xs k = None \<or> (\<exists>x. map_of xs k = Some x \<and> v (f x) = g (v x))"
  shows "(\<lambda>i. map_option v (map_of (list_modify k f xs) i)) = at k (map_option g) (\<lambda>i. map_option v (map_of xs i))"
  using assms by (auto simp: map_of_list_modify at_def fun_eq_iff)

lemma view_contacts_modify:
  assumes "\<And>c. view_contact (f c) = g (view_contact c)"
  shows "view_book (b\<lparr>rl_contacts := list_modify k f (rl_contacts b)\<rparr>) =
         on_contacts (at k (map_option g)) (view_book b)"
  using modify_cell[of "rl_contacts b" k view_contact f g] assms
  by (cases "map_of (rl_contacts b) k") (simp_all add: view_book_def on_contacts_def)

lemma view_groups_modify:
  assumes "\<And>c. distinct (bg_contacts (el_value c)) \<Longrightarrow> view_group (f c) = g (view_group c)" and "members_distinct b"
  shows "view_book (b\<lparr>rl_groups := list_modify k f (rl_groups b)\<rparr>) =
         on_groups (at k (map_option g)) (view_book b)"
  using modify_cell[of "rl_groups b" k view_group f g] assms(1) members_distinct_of[OF assms(2), of k]
  by (cases "map_of (rl_groups b) k") (simp_all add: view_book_def on_groups_def)

lemma view_policies_modify:
  assumes "\<And>c. view_policy (f c) = g (view_policy c)"
  shows "view_book (b\<lparr>rl_policies := list_modify k f (rl_policies b)\<rparr>) =
         on_policies (at k (map_option g)) (view_book b)"
  using modify_cell[of "rl_policies b" k view_policy f g] assms
  by (cases "map_of (rl_policies b) k") (simp_all add: view_book_def on_policies_def)

lemma delete_cell: "(\<lambda>i. map_option v (map_of (ddel k xs) i)) = at k (\<lambda>_. None) (\<lambda>i. map_option v (map_of xs i))"
  by (auto simp: map_of_ddel at_def fun_eq_iff)

lemma delete_absent: "map_of xs k = None \<Longrightarrow> at k (\<lambda>_. None) (\<lambda>i. map_option v (map_of xs i)) = (\<lambda>i. map_option v (map_of xs i))"
  by (auto simp: at_def fun_eq_iff)

lemmas delete_cells = delete_cell delete_absent

lemma list_del_cases:
  "(case list_del k xs of Inl _ \<Rightarrow> P | Inr ys \<Rightarrow> Q ys) = (if map_of xs k = None then P else Q (ddel k xs))"
  by (simp add: list_del_def split: option.split)

lemma view_new_uri: "view_uri (new_element (en_value u) (en_attributes u)) = sem_uri_entity u"
  by (simp add: view_uri_def sem_uri_entity_def view_attributes_def)

lemma view_uris_fold:
  "view_contact (fold (\<lambda>(i, u). \<lambda>x. uris_add i (new_element (en_value u) (en_attributes u)) x) us c) =
   sem_uris_update (fold (\<lambda>(i, u). at i (\<lambda>_. Some (sem_uri_entity u))) us) (view_contact c)"
proof (induction us arbitrary: c)
  case Nil
  show ?case by (simp add: sem_uris_update_def view_contact_def)
next
  case (Cons p us)
  then show ?case
    by (simp add: view_uris_add view_new_uri case_prod_beta) (simp add: sem_uris_update_def view_contact_def)
qed

lemma fold_at_map_of:
  "distinct (map fst us) \<Longrightarrow>
   fold (\<lambda>(i, u). at i (\<lambda>_. Some (f u))) us m = (\<lambda>i. case map_of us i of None \<Rightarrow> m i | Some u \<Rightarrow> Some (f u))"
proof (induction us arbitrary: m)
  case (Cons p us)
  then have "fst p \<notin> dom (map_of us)" by (simp add: dom_map_of_conv_image_fst)
  then show ?case
    using Cons by (auto simp: case_prod_beta at_def fun_eq_iff split: option.split)
qed simp

lemma view_add_contact:
  assumes "distinct (map fst (bc_uris (en_value c)))"
  shows "view_book (OH_AddContact k c b) = on_contacts (at k (\<lambda>_. Some (sem_contact_entity c))) (view_book b)"
proof -
  let ?new = "new_element \<lparr>bc_name = bc_name (en_value c), bc_uris = [], bc_default = bc_default (en_value c),
                bc_presence = bc_presence (en_value c), bc_dialog = bc_dialog (en_value c)\<rparr> (en_attributes c)"
  have "sem_uris_update (fold (\<lambda>(i, u). at i (\<lambda>_. Some (sem_uri_entity u))) (bc_uris (en_value c))) (view_contact ?new) =
        sem_contact_entity c"
    by (simp add: sem_uris_update_def view_contact_def sem_contact_entity_def view_attributes_def fold_at_map_of[OF assms])
      (auto simp: fun_eq_iff split: option.split)
  then show ?thesis
    by (simp add: OH_AddContact_def Let_def view_contacts_add view_uris_fold)
qed

lemma view_update_contact:
  "distinct (map fst (cup_rest u)) \<Longrightarrow> view_contact (update_contact u c) = sem_contact_update u (view_contact c)"
  by (simp add: view_contact_def update_contact_def sem_contact_update_def sem_handling_update_def view_handling_def
      view_update_attributes assign_def split: option.split)

lemma view_update_uri:
  "distinct (map fst (uup_rest u)) \<Longrightarrow> view_uri (update_uri u x) = sem_uri_update u (view_uri x)"
  by (simp add: view_uri_def update_uri_def sem_uri_update_def view_update_attributes assign_def split: option.split)

lemma view_update_policy:
  "distinct (map fst (pup_rest u)) \<Longrightarrow> view_policy (update_policy u p) = sem_policy_update u (view_policy p)"
  by (simp add: view_policy_def update_policy_def sem_policy_update_def sem_handling_update_def view_handling_def
      view_update_attributes assign_def split: option.split)

lemma view_member_remove:
  "distinct (bg_contacts (el_value g)) \<Longrightarrow> view_group (member_remove c g) = sem_members_update c False (view_group g)"
  by (auto simp: view_group_def member_remove_def sem_members_update_def at_def fun_eq_iff)

lemma view_member_add: "view_group (member_add c g) = sem_members_update c True (view_group g)"
  by (auto simp: view_group_def member_add_def sem_members_update_def at_def fun_eq_iff)

lemma view_uris_remove: "view_contact (uris_remove i c) = sem_uris_update (at i (\<lambda>_. None)) (view_contact c)"
  by (simp add: uris_remove_def list_del_cases view_contact_def sem_uris_update_def delete_cells)

lemma view_uris_modify:
  assumes "\<And>x. view_uri (f x) = g (view_uri x)"
  shows "view_contact (c\<lparr>el_value := (el_value c)\<lparr>bc_uris := list_modify i f (bc_uris (el_value c))\<rparr>\<rparr>) =
         sem_uris_update (at i (map_option g)) (view_contact c)"
  using modify_cell[of "bc_uris (el_value c)" i view_uri f g] assms
  by (cases "map_of (bc_uris (el_value c)) i") (simp_all add: view_contact_def sem_uris_update_def)

lemma view_update_group:
  "distinct (map fst (gup_rest u)) \<Longrightarrow>
   view_group (update_attributes (gup_rest u) (set_some (\<lambda>v. bg_name_update (\<lambda>_. v)) (gup_name u) g)) =
   sem_group_update u (view_group g)"
  by (simp add: view_group_def sem_group_update_def view_update_attributes assign_def split: option.split)

lemma view_remove_members:
  assumes "members_distinct b"
  shows "(\<lambda>i. map_option view_group (map_of (map (\<lambda>(i, g). (i, if k \<in> set (bg_contacts (el_value g)) then member_remove k g else g))
             (rl_groups b)) i)) =
         (\<lambda>i. map_option (sem_members_update k False) (map_option view_group (map_of (rl_groups b) i)))"
proof
  fix i
  show "map_option view_group (map_of (map (\<lambda>(i, g). (i, if k \<in> set (bg_contacts (el_value g)) then member_remove k g else g))
             (rl_groups b)) i) = map_option (sem_members_update k False) (map_option view_group (map_of (rl_groups b) i))"
  proof (cases "map_of (rl_groups b) i")
    case (Some g)
    have "view_group (if k \<in> set (bg_contacts (el_value g)) then member_remove k g else g) =
          sem_members_update k False (view_group g)"
    proof (cases "k \<in> set (bg_contacts (el_value g))")
      case True
      then show ?thesis using view_member_remove members_distinct_of[OF assms Some] by simp
    next
      case False
      then show ?thesis by (auto simp: view_group_def sem_members_update_def at_def fun_eq_iff)
    qed
    then show ?thesis using Some by (simp add: map_of_map_values)
  qed (simp add: map_of_map_values)
qed

lemma view_remove_contact:
  assumes "members_distinct b"
  shows "view_book (OH_RemoveContact k b) = sem_operation (RemoveContactOperation k) (view_book b)"
  using view_remove_members[OF assms, of k]
  by (simp add: OH_RemoveContact_def Let_def list_del_cases view_book_def delete_cells)

text \<open>Each handler does to the view what the abstract operation does.\<close>

lemma apply_book_refines:
  assumes "operation_wf op" and "members_distinct b"
  shows "view_book (apply_book op b) = sem_operation op (view_book b)"
  using assms
proof (cases op)
  case (RemoveContactOperation k)
  then show ?thesis using view_remove_contact[OF assms(2)] by simp
next
  case (AddGroupOperation k g)
  then show ?thesis
    by (simp add: OH_AddGroup_def view_groups_add view_group_def sem_group_entity_def view_attributes_def)
next
  case (AddPolicyOperation k p)
  then show ?thesis
    by (simp add: OH_AddPolicy_def view_policies_add view_policy_def sem_policy_entity_def view_attributes_def)
next
  case (RemoveGroupOperation k)
  then show ?thesis by (simp add: OH_RemoveGroup_def list_del_cases view_book_def on_groups_def delete_cells)
next
  case (RemovePolicyOperation k)
  then show ?thesis by (simp add: OH_RemovePolicy_def list_del_cases view_book_def on_policies_def delete_cells)
next
  case (AddContactOperation k c)
  then show ?thesis using assms(1) by (simp add: view_add_contact)
next
  case (UpdateContactOperation k u)
  then show ?thesis
    using assms(1) by (simp add: OH_UpdateContact_def view_contacts_modify view_update_contact)
next
  case (AddContactURIOperation k i u)
  show ?thesis
    unfolding AddContactURIOperation apply_book.simps sem_operation.simps OH_AddContactURI_def
    by (rule view_contacts_modify) (simp add: view_uris_add view_new_uri)
next
  case (UpdateContactURIOperation k i u)
  show ?thesis
    unfolding UpdateContactURIOperation apply_book.simps sem_operation.simps OH_UpdateContactURI_def
    using assms(1) UpdateContactURIOperation
    by (intro view_contacts_modify view_uris_modify view_update_uri) simp
next
  case (RemoveContactURIOperation k i)
  show ?thesis
    unfolding RemoveContactURIOperation apply_book.simps sem_operation.simps OH_RemoveContactURI_def
    by (rule view_contacts_modify) (rule view_uris_remove)
next
  case (UpdateGroupOperation k u)
  show ?thesis
    unfolding UpdateGroupOperation apply_book.simps sem_operation.simps OH_UpdateGroup_def
    using assms UpdateGroupOperation by (intro view_groups_modify view_update_group) simp_all
next
  case (AddGroupMemberOperation k c)
  show ?thesis
    unfolding AddGroupMemberOperation apply_book.simps sem_operation.simps OH_AddGroupMember_def
    using assms by (intro view_groups_modify view_member_add)
next
  case (RemoveGroupMemberOperation k c)
  show ?thesis
    unfolding RemoveGroupMemberOperation apply_book.simps sem_operation.simps OH_RemoveGroupMember_def
    using assms by (intro view_groups_modify view_member_remove)
next
  case (UpdatePolicyOperation k u)
  show ?thesis
    unfolding UpdatePolicyOperation apply_book.simps sem_operation.simps OH_UpdatePolicy_def
    using assms UpdatePolicyOperation by (intro view_policies_modify view_update_policy) simp
qed

section \<open>Members stay distinct\<close>

lemma members_distinct_same_groups: "rl_groups b' = rl_groups b \<Longrightarrow> members_distinct b' = members_distinct b"
  by (simp add: members_distinct_def)

lemma members_distinct_modify:
  assumes "\<And>g. distinct (bg_contacts (el_value g)) \<Longrightarrow> distinct (bg_contacts (el_value (f g)))" and "members_distinct b"
  shows "members_distinct (b\<lparr>rl_groups := list_modify k f (rl_groups b)\<rparr>)"
  using assms by (fastforce simp: members_distinct_def list_modify_def)

lemma distinct_members_el:
  "distinct (bg_contacts (el_value g)) \<Longrightarrow> distinct (bg_contacts (el_value (member_add c g)))"
  "distinct (bg_contacts (el_value g)) \<Longrightarrow> distinct (bg_contacts (el_value (member_remove c g)))"
  "distinct (bg_contacts (el_value g)) \<Longrightarrow>
     distinct (bg_contacts (el_value (update_attributes r (set_some (\<lambda>v. bg_name_update (\<lambda>_. v)) n g))))"
  by (simp_all add: member_add_def member_remove_def split: option.split)

lemma groups_add_groups: "\<exists>g'. el_value g' = el_value g \<and>
  set (rl_groups (groups_add k g b)) \<subseteq> insert (k, g') (set (rl_groups b))"
proof (cases "map_of (rl_groups b) k")
  case None
  then show ?thesis by (intro exI [where x = g]) (simp add: groups_add_def list_add_def)
next
  case (Some old)
  then show ?thesis
    by (intro exI [where x = "if same_element g old then inherit_dirty g old else g"])
      (auto simp: groups_add_def list_add_def ddel_def inherit_dirty_def)
qed

lemma members_distinct_apply:
  assumes "operation_wf op" and "members_distinct b"
  shows "members_distinct (apply_book op b)"
proof (cases op)
  case (RemoveContactOperation k)
  have "members_distinct (b\<lparr>rl_groups := map (\<lambda>(i, g). (i, if k \<in> set (bg_contacts (el_value g)) then member_remove k g else g))
                                (rl_groups b)\<rparr>)"
    using assms(2) distinct_members_el(2) by (fastforce simp: members_distinct_def)
  then show ?thesis
    by (simp add: RemoveContactOperation OH_RemoveContact_def Let_def list_del_cases members_distinct_def)
next
  case (AddGroupOperation k g)
  obtain g' where "el_value g' = en_value g"
    and "set (rl_groups (OH_AddGroup k g b)) \<subseteq> insert (k, g') (set (rl_groups b))"
    using groups_add_groups[of "new_element (en_value g) (en_attributes g)" k b] by (auto simp: OH_AddGroup_def)
  then show ?thesis using assms AddGroupOperation by (auto simp: members_distinct_def)
next
  case (RemoveGroupOperation k)
  then show ?thesis using assms(2) by (auto simp: OH_RemoveGroup_def list_del_cases members_distinct_def ddel_def)
next
  case (UpdateGroupOperation k u)
  show ?thesis
    unfolding UpdateGroupOperation apply_book.simps OH_UpdateGroup_def
    using assms(2) by (intro members_distinct_modify distinct_members_el(3))
next
  case (AddGroupMemberOperation k c)
  then show ?thesis using assms(2) by (simp add: OH_AddGroupMember_def members_distinct_modify distinct_members_el)
next
  case (RemoveGroupMemberOperation k c)
  then show ?thesis using assms(2) by (simp add: OH_RemoveGroupMember_def members_distinct_modify distinct_members_el)
qed (use assms(2) in \<open>simp_all add: members_distinct_def OH_AddContact_def Let_def contacts_add_def case_prod_beta
  OH_UpdateContact_def OH_AddContactURI_def OH_UpdateContactURI_def OH_RemoveContactURI_def OH_AddPolicy_def
  policies_add_def OH_UpdatePolicy_def OH_RemovePolicy_def list_del_cases\<close>)

section \<open>Replaying a journal\<close>

lemma apply_journal_refines:
  assumes "list_all operation_wf ops" and "members_distinct b"
  shows "view_book (apply_journal ops b) = fold sem_operation ops (view_book b) \<and> members_distinct (apply_journal ops b)"
  using assms
proof (induction ops arbitrary: b)
  case (Cons op ops)
  then show ?case
    using apply_book_refines[of op b] members_distinct_apply[of op b] by (simp add: apply_journal_def)
qed (simp add: apply_journal_def)

definition sample_contact :: "string \<Rightarrow> policy_value \<Rightarrow> contact_entity" where
  "sample_contact uri p = \<lparr>en_value = \<lparr>bc_name = ''n'', bc_uris = [(''u'', \<lparr>en_value = \<lparr>bu_uri = uri, bu_type = None\<rparr>, en_attributes = []\<rparr>)],
     bc_default = None, bc_presence = \<lparr>eh_policy = p, eh_subscribe = True\<rparr>, bc_dialog = \<lparr>eh_policy = PolDefault, eh_subscribe = False\<rparr>\<rparr>,
     en_attributes = []\<rparr>"

definition empty_lists :: resource_lists where
  "empty_lists = \<lparr>rl_contacts = [], rl_groups = [], rl_policies = [], rl_granted = {}, rl_blocked = {},
     rl_dialog_granted = {}, rl_dialog_blocked = {}, rl_presence_rls = {}, rl_dialog_rls = {}, rl_dirty = False\<rparr>"

text \<open>
  C34. The handlers of the journal's operations implement the abstract address book: whatever
  the order of the elements and their dirty flags, the contacts, groups and policies the
  document holds afterwards are those the abstract operation (an assignment to cells of three
  maps) gives, and the members of every group stay distinct.
\<close>

theorem xcap_handlers_refine:
  assumes "operation_wf op" and "members_distinct b"
  shows "view_book (apply_book op b) = sem_operation op (view_book b) \<and> members_distinct (apply_book op b)"
  using apply_book_refines[OF assms] members_distinct_apply[OF assms] by simp

theorem xcap_handlers_refine_witness:
  "view_book (apply_book (AddContactOperation ''a'' (sample_contact ''alice'' PolAllow)) empty_lists) =
     sem_operation (AddContactOperation ''a'' (sample_contact ''alice'' PolAllow)) (view_book empty_lists) \<and>
   members_distinct (apply_book (AddContactOperation ''a'' (sample_contact ''alice'' PolAllow)) empty_lists)"
  by (rule xcap_handlers_refine) (simp_all add: sample_contact_def empty_lists_def members_distinct_def)

text \<open>
  C33. A journal can be replayed. When the server refuses a document because it was changed
  elsewhere, or the process ends before the journal is saved, the same operations are applied
  again to documents that may already hold them: applying a whole journal to an address book
  it was already applied to changes no contact, group or policy.
\<close>

theorem xcap_journal_replayed:
  assumes "list_all operation_wf ops" and "members_distinct b"
  shows "view_book (apply_journal ops (apply_journal ops b)) = view_book (apply_journal ops b)"
  using apply_journal_refines[OF assms] apply_journal_refines[OF assms(1), of "apply_journal ops b"]
  by (simp add: sem_journal_idem)

theorem xcap_journal_replayed_witness:
  "view_book (apply_journal
     [AddContactOperation ''a'' (sample_contact ''alice'' PolAllow), RemoveContactURIOperation ''a'' ''u'', RemoveContactOperation ''a'']
     (apply_journal [AddContactOperation ''a'' (sample_contact ''alice'' PolAllow), RemoveContactURIOperation ''a'' ''u'', RemoveContactOperation ''a''] empty_lists)) =
   view_book (apply_journal
     [AddContactOperation ''a'' (sample_contact ''alice'' PolAllow), RemoveContactURIOperation ''a'' ''u'', RemoveContactOperation ''a''] empty_lists)"
  by (rule xcap_journal_replayed) (simp_all add: sample_contact_def empty_lists_def members_distinct_def)

end
