(* ===== verification/Xcap_Access.thy ===== *)
theory Xcap_Access
  imports Xcap_Replay
begin

text \<open>
  What is derived from the address book: the lists of addresses that may or may not see the
  presence and the dialogs of the account (\<open>ResourceListsDocument.update\<close>, and the same
  computation of \<open>_OH_NormalizeOperation\<close>), proved equal to a decision made address by address,
  and the address book the application is told of (\<open>Addressbook.from_payload\<close>).
\<close>

section \<open>The access lists\<close>

text \<open>The sets of addresses the code builds, for a test on the handling of an event.\<close>

definition contact_uris :: "(event_handling \<Rightarrow> bool) \<Rightarrow> (contact_element \<Rightarrow> event_handling) \<Rightarrow> resource_lists \<Rightarrow> string set" where
  "contact_uris P h b = (\<Union>(k, c) \<in> set (rl_contacts b). if P (h c) then (\<lambda>(i, u). bu_uri (el_value u)) ` set (bc_uris (el_value c)) else {})"

definition policy_uris :: "(event_handling \<Rightarrow> bool) \<Rightarrow> (book_policy element \<Rightarrow> event_handling) \<Rightarrow> resource_lists \<Rightarrow> string set" where
  "policy_uris P h b = (\<Union>(k, p) \<in> set (rl_policies b). if P (h p) then {bp_uri (el_value p)} else {})"

definition all_contact_uris :: "resource_lists \<Rightarrow> string set" where
  "all_contact_uris b = (\<Union>(k, c) \<in> set (rl_contacts b). (\<lambda>(i, u). bu_uri (el_value u)) ` set (bc_uris (el_value c)))"

definition has_policy :: "policy_value \<Rightarrow> event_handling \<Rightarrow> bool" where
  "has_policy v h \<longleftrightarrow> eh_policy h = v"

definition allowed_uris ::
  "(contact_element \<Rightarrow> event_handling) \<Rightarrow> (book_policy element \<Rightarrow> event_handling) \<Rightarrow> resource_lists \<Rightarrow> string set" where
  "allowed_uris hc hp b =
     (contact_uris (has_policy PolAllow) hc b - contact_uris (has_policy PolBlock) hc b) \<union>
     (policy_uris (has_policy PolAllow) hp b - policy_uris (has_policy PolBlock) hp b - all_contact_uris b)"

definition blocked_uris ::
  "(contact_element \<Rightarrow> event_handling) \<Rightarrow> (book_policy element \<Rightarrow> event_handling) \<Rightarrow> resource_lists \<Rightarrow> string set" where
  "blocked_uris hc hp b =
     contact_uris (has_policy PolBlock) hc b \<union> (policy_uris (has_policy PolBlock) hp b - all_contact_uris b)"

definition subscribe_uris ::
  "(contact_element \<Rightarrow> event_handling) \<Rightarrow> (book_policy element \<Rightarrow> event_handling) \<Rightarrow> resource_lists \<Rightarrow> string set" where
  "subscribe_uris hc hp b = contact_uris eh_subscribe hc b \<union> (policy_uris eh_subscribe hp b - all_contact_uris b)"

abbreviation contact_presence :: "contact_element \<Rightarrow> event_handling" where
  "contact_presence c \<equiv> bc_presence (el_value c)"

abbreviation contact_dialog :: "contact_element \<Rightarrow> event_handling" where
  "contact_dialog c \<equiv> bc_dialog (el_value c)"

abbreviation policy_presence :: "book_policy element \<Rightarrow> event_handling" where
  "policy_presence p \<equiv> bp_presence (el_value p)"

abbreviation policy_dialog :: "book_policy element \<Rightarrow> event_handling" where
  "policy_dialog p \<equiv> bp_dialog (el_value p)"

text \<open>Each list is cleared and filled only when it differs, which marks it.\<close>

definition fill_lists :: "resource_lists \<Rightarrow> resource_lists" where
  "fill_lists b =
     (let g = allowed_uris contact_presence policy_presence b;
          k = blocked_uris contact_presence policy_presence b;
          dg = allowed_uris contact_dialog policy_dialog b;
          dk = blocked_uris contact_dialog policy_dialog b;
          p = subscribe_uris contact_presence policy_presence b;
          d = subscribe_uris contact_dialog policy_dialog b
      in b\<lparr>rl_granted := g, rl_blocked := k, rl_dialog_granted := dg, rl_dialog_blocked := dk,
           rl_presence_rls := p, rl_dialog_rls := d,
           rl_dirty := rl_dirty b \<or> rl_granted b \<noteq> g \<or> rl_blocked b \<noteq> k \<or> rl_dialog_granted b \<noteq> dg \<or>
             rl_dialog_blocked b \<noteq> dk \<or> rl_presence_rls b \<noteq> p \<or> rl_dialog_rls b \<noteq> d\<rparr>)"

text \<open>Members that are no contacts are removed from the groups, one occurrence at a time.\<close>

definition drop_missing :: "resource_lists \<Rightarrow> resource_lists" where
  "drop_missing b = b\<lparr>rl_groups := map (\<lambda>(i, g). (i,
      fold member_remove (filter (\<lambda>c. c \<notin> fst ` set (rl_contacts b)) (bg_contacts (el_value g))) g)) (rl_groups b)\<rparr>"

text \<open>What \<open>update\<close> does before the document is sent, and the part of the normalization that
  concerns the address book.\<close>

definition something_dirty :: "resource_lists \<Rightarrow> bool" where
  "something_dirty b \<longleftrightarrow> (\<exists>p \<in> set (rl_contacts b). contact_dirty (snd p)) \<or> (\<exists>p \<in> set (rl_policies b). el_dirty (snd p))"

definition resource_lists_update :: "resource_lists \<Rightarrow> resource_lists" where
  "resource_lists_update b =
     (let b' = drop_missing b in if something_dirty b' then fill_lists b' else b')"

definition OH_Normalize_lists :: "resource_lists \<Rightarrow> resource_lists" where
  "OH_Normalize_lists b = fill_lists (drop_missing b)"

text \<open>
  The reference: one decision for each address. A contact that blocks wins, then a contact that
  allows; the policies count for the addresses of no contact only.
\<close>

definition decide ::
  "(contact_element \<Rightarrow> event_handling) \<Rightarrow> (book_policy element \<Rightarrow> event_handling) \<Rightarrow> resource_lists \<Rightarrow> string \<Rightarrow> policy_value" where
  "decide hc hp b uri =
     (let cs = filter (\<lambda>c. \<exists>p \<in> set (bc_uris (el_value c)). bu_uri (el_value (snd p)) = uri) (map snd (rl_contacts b));
          ps = filter (\<lambda>p. bp_uri (el_value p) = uri) (map snd (rl_policies b));
          verdict = \<lambda>vs. if PolBlock \<in> set vs then PolBlock else if PolAllow \<in> set vs then PolAllow else PolDefault
      in if cs \<noteq> [] then verdict (map (eh_policy \<circ> hc) cs) else verdict (map (eh_policy \<circ> hp) ps))"

lemma in_contact_uris:
  "u \<in> contact_uris P h b \<longleftrightarrow>
   (\<exists>c \<in> snd ` set (rl_contacts b). P (h c) \<and> (\<exists>p \<in> set (bc_uris (el_value c)). bu_uri (el_value (snd p)) = u))"
  by (force simp: contact_uris_def split: if_splits)

lemma in_all_contact_uris:
  "u \<in> all_contact_uris b \<longleftrightarrow>
   (\<exists>c \<in> snd ` set (rl_contacts b). \<exists>p \<in> set (bc_uris (el_value c)). bu_uri (el_value (snd p)) = u)"
  unfolding all_contact_uris_def case_prod_beta by auto

lemma in_policy_uris:
  "u \<in> policy_uris P h b \<longleftrightarrow> (\<exists>p \<in> snd ` set (rl_policies b). P (h p) \<and> bp_uri (el_value p) = u)"
  unfolding policy_uris_def case_prod_beta by (auto split: if_splits)

lemmas in_uris = in_contact_uris in_all_contact_uris in_policy_uris

definition verdict :: "policy_value set \<Rightarrow> policy_value" where
  "verdict vs = (if PolBlock \<in> vs then PolBlock else if PolAllow \<in> vs then PolAllow else PolDefault)"

lemma decide_verdict:
  "decide hc hp b u =
   (if u \<in> all_contact_uris b
    then verdict {v. u \<in> contact_uris (has_policy v) hc b} else verdict {v. u \<in> policy_uris (has_policy v) hp b})"
proof -
  have c: "set (map (eh_policy \<circ> hc) (filter (\<lambda>c. \<exists>p \<in> set (bc_uris (el_value c)). bu_uri (el_value (snd p)) = u) (map snd (rl_contacts b)))) =
        {v. u \<in> contact_uris (has_policy v) hc b}"
    unfolding in_contact_uris has_policy_def by force
  have p: "set (map (eh_policy \<circ> hp) (filter (\<lambda>p. bp_uri (el_value p) = u) (map snd (rl_policies b)))) =
        {v. u \<in> policy_uris (has_policy v) hp b}"
    unfolding in_policy_uris has_policy_def by force
  have n: "filter (\<lambda>c. \<exists>p \<in> set (bc_uris (el_value c)). bu_uri (el_value (snd p)) = u) (map snd (rl_contacts b)) \<noteq> [] \<longleftrightarrow>
        u \<in> all_contact_uris b"
    unfolding in_all_contact_uris by (auto simp: filter_empty_conv)
  show ?thesis
    unfolding decide_def Let_def n c p verdict_def ..
qed

lemma contact_uris_all: "contact_uris P h b \<subseteq> all_contact_uris b"
  by (simp add: subset_iff in_uris) blast

lemma allowed_decide: "u \<in> allowed_uris hc hp b \<longleftrightarrow> decide hc hp b u = PolAllow"
  using contact_uris_all[of _ hc b] by (auto simp: decide_verdict verdict_def allowed_uris_def)

lemma blocked_decide: "u \<in> blocked_uris hc hp b \<longleftrightarrow> decide hc hp b u = PolBlock"
  using contact_uris_all[of _ hc b] by (auto simp: decide_verdict verdict_def blocked_uris_def)

text \<open>The lists in step with the address book.\<close>

definition lists_in_step :: "resource_lists \<Rightarrow> bool" where
  "lists_in_step b \<longleftrightarrow>
     rl_granted b = {u. decide contact_presence policy_presence b u = PolAllow} \<and>
     rl_blocked b = {u. decide contact_presence policy_presence b u = PolBlock} \<and>
     rl_dialog_granted b = {u. decide contact_dialog policy_dialog b u = PolAllow} \<and>
     rl_dialog_blocked b = {u. decide contact_dialog policy_dialog b u = PolBlock} \<and>
     rl_presence_rls b = subscribe_uris contact_presence policy_presence b \<and>
     rl_dialog_rls b = subscribe_uris contact_dialog policy_dialog b"

lemma decide_cong:
  "rl_contacts b' = rl_contacts b \<Longrightarrow> rl_policies b' = rl_policies b \<Longrightarrow> decide hc hp b' = decide hc hp b"
  "rl_contacts b' = rl_contacts b \<Longrightarrow> rl_policies b' = rl_policies b \<Longrightarrow> subscribe_uris hc hp b' = subscribe_uris hc hp b"
  by (auto simp: decide_def subscribe_uris_def contact_uris_def policy_uris_def all_contact_uris_def)

lemma fill_lists_same: "rl_contacts (fill_lists b) = rl_contacts b" "rl_policies (fill_lists b) = rl_policies b"
  "rl_groups (fill_lists b) = rl_groups b"
  by (simp_all add: fill_lists_def Let_def)

lemma drop_missing_same: "rl_contacts (drop_missing b) = rl_contacts b" "rl_policies (drop_missing b) = rl_policies b"
  by (simp_all add: drop_missing_def)

lemma fill_lists_in_step: "lists_in_step (fill_lists b)"
proof -
  have eq: "decide hc hp (fill_lists b) = decide hc hp b" "subscribe_uris hc hp (fill_lists b) = subscribe_uris hc hp b" for hc hp
    by (rule decide_cong; simp add: fill_lists_same)+
  have "allowed_uris hc hp b = {u. decide hc hp b u = PolAllow}" "blocked_uris hc hp b = {u. decide hc hp b u = PolBlock}" for hc hp
    by (auto simp: allowed_decide blocked_decide)
  then show ?thesis
    unfolding lists_in_step_def eq by (simp add: fill_lists_def Let_def)
qed

lemma something_dirty_drop: "something_dirty (drop_missing b) = something_dirty b"
  by (simp add: something_dirty_def drop_missing_same)

section \<open>Removing a contact\<close>

definition addresses_of :: "contact_element \<Rightarrow> string set" where
  "addresses_of c = (\<lambda>p. bu_uri (el_value (snd p))) ` set (bc_uris (el_value c))"

lemma all_contact_uris_alt: "all_contact_uris b = (\<Union>p \<in> set (rl_contacts b). addresses_of (snd p))"
  by (simp add: all_contact_uris_def addresses_of_def case_prod_beta)

lemma remove_contact_parts:
  "rl_contacts (OH_RemoveContact k b) = ddel k (rl_contacts b)"
  "rl_policies (OH_RemoveContact k b) = rl_policies b"
  "rl_granted (OH_RemoveContact k b) = rl_granted b"
proof -
  have "map_of xs k = None \<Longrightarrow> ddel k xs = xs" for xs :: "(string \<times> contact_element) list"
    by (auto simp: ddel_def map_of_eq_None_iff intro!: filter_True)
  then show "rl_contacts (OH_RemoveContact k b) = ddel k (rl_contacts b)"
    by (simp add: OH_RemoveContact_def Let_def list_del_cases)
qed (simp_all add: OH_RemoveContact_def Let_def list_del_cases)

lemma remove_contact_not_dirty:
  "\<not> something_dirty b \<Longrightarrow> \<not> something_dirty (OH_RemoveContact k b)"
  by (auto simp: something_dirty_def remove_contact_parts ddel_def)

lemma update_clean_granted: "\<not> something_dirty b \<Longrightarrow> rl_granted (resource_lists_update b) = rl_granted b"
  by (simp add: resource_lists_update_def Let_def something_dirty_drop) (simp add: drop_missing_def)

section \<open>The address book of the application\<close>

text \<open>
  \<open>Addressbook.from_payload\<close>: objects with the attributes as keyword arguments, so that an
  attribute named like a parameter of the constructor raises \<open>TypeError\<close>; a member of a group
  that is no contact raises \<open>KeyError\<close>.
\<close>

definition from_element :: "string list \<Rightarrow> 'a element \<Rightarrow> 'b \<Rightarrow> 'b entity result" where
  "from_element reserved x v =
     (let a = (case el_attributes x of None \<Rightarrow> [] | Some d \<Rightarrow> d)
      in if \<exists>n \<in> fst ` set a. n \<in> set reserved then Inl TypeError else Inr \<lparr>en_value = v, en_attributes = a\<rparr>)"

definition mapR_values :: "('a \<Rightarrow> 'b result) \<Rightarrow> (string \<times> 'a) list \<Rightarrow> (string \<times> 'b) list result" where
  "mapR_values f = mapR (\<lambda>(k, x). bindR (f x) (\<lambda>y. Inr (k, y)))"

definition payload_to_uri :: "book_uri element \<Rightarrow> book_uri entity result" where
  "payload_to_uri u = from_element [''self'', ''id'', ''uri'', ''type''] u (el_value u)"

definition payload_to_contact :: "contact_element \<Rightarrow> contact_entity result" where
  "payload_to_contact c =
     bindR (mapR_values payload_to_uri (bc_uris (el_value c))) (\<lambda>uris.
       from_element [''self'', ''id'', ''name'', ''uris'', ''presence_handling'', ''dialog_handling''] c
         \<lparr>bc_name = bc_name (el_value c), bc_uris = uris, bc_default = bc_default (el_value c),
          bc_presence = bc_presence (el_value c), bc_dialog = bc_dialog (el_value c)\<rparr>)"

definition payload_to_group :: "(string \<times> contact_entity) list \<Rightarrow> book_group element \<Rightarrow> book_group entity result" where
  "payload_to_group contacts g =
     bindR (mapR (\<lambda>c. if c \<in> fst ` set contacts then Inr c else Inl KeyError) (bg_contacts (el_value g))) (\<lambda>members.
       from_element [''self'', ''id'', ''name'', ''contacts''] g
         \<lparr>bg_name = bg_name (el_value g), bg_contacts = rev (remdups (rev members))\<rparr>)"

definition payload_to_policy :: "book_policy element \<Rightarrow> book_policy entity result" where
  "payload_to_policy p =
     from_element [''self'', ''id'', ''uri'', ''name'', ''presence_handling'', ''dialog_handling''] p (el_value p)"

record address_book =
  ab_contacts :: "(string \<times> contact_entity) list"
  ab_groups :: "(string \<times> book_group entity) list"
  ab_policies :: "(string \<times> book_policy entity) list"

definition from_payload :: "resource_lists \<Rightarrow> address_book result" where
  "from_payload b =
     bindR (mapR_values payload_to_contact (rl_contacts b)) (\<lambda>contacts.
     bindR (mapR_values (payload_to_group contacts) (rl_groups b)) (\<lambda>groups.
     bindR (mapR_values payload_to_policy (rl_policies b)) (\<lambda>policies.
       Inr \<lparr>ab_contacts = contacts, ab_groups = groups, ab_policies = policies\<rparr>)))"

lemma mapR_error: "mapR f xs = Inl e \<Longrightarrow> \<exists>x \<in> set xs. f x = Inl e"
proof (induction xs)
  case (Cons x xs)
  then show ?case by (cases "f x"; cases "mapR f xs") auto
qed simp

lemma mapR_values_error: "mapR_values f xs = Inl e \<Longrightarrow> \<exists>p \<in> set xs. f (snd p) = Inl e"
proof -
  assume "mapR_values f xs = Inl e"
  from mapR_error[OF this[unfolded mapR_values_def]]
  obtain p where p: "p \<in> set xs" "(\<lambda>(k, x). bindR (f x) (\<lambda>y. Inr (k, y))) p = Inl e" by blast
  have "f (snd p) = Inl e"
    using p(2) by (cases "f (snd p)") (simp_all add: case_prod_beta)
  with p(1) show ?thesis by blast
qed

lemma mapR_values_keys: "mapR_values f xs = Inr ys \<Longrightarrow> fst ` set ys = fst ` set xs"
proof -
  assume "mapR_values f xs = Inr ys"
  then have "list_all2 (\<lambda>p q. fst q = fst p) xs ys"
    unfolding mapR_values_def mapR_eq_Inr
    by (rule list_all2_mono) (auto simp: bindR_eq_Inr)
  then have "map fst ys = map fst xs" by (induction rule: list_all2_induct) simp_all
  then have "set (map fst ys) = set (map fst xs)" by simp
  then show ?thesis by simp
qed

lemma from_element_error: "from_element r x v = Inl e \<Longrightarrow> e = TypeError"
  by (auto simp: from_element_def Let_def split: if_splits)

lemma bindR_error: "bindR r f = Inl e \<Longrightarrow> r = Inl e \<or> (\<exists>a. r = Inr a \<and> f a = Inl e)"
  by (cases r) auto

lemma payload_to_contact_error: "payload_to_contact c = Inl e \<Longrightarrow> e = TypeError"
  unfolding payload_to_contact_def
  by (auto dest!: bindR_error mapR_values_error from_element_error simp: payload_to_uri_def)

lemma payload_to_group_error:
  "payload_to_group cs g = Inl e \<Longrightarrow> set (bg_contacts (el_value g)) \<subseteq> fst ` set cs \<Longrightarrow> e = TypeError"
  unfolding payload_to_group_def
  by (auto dest!: bindR_error mapR_error from_element_error split: if_splits)

lemma payload_to_policy_error: "payload_to_policy p = Inl e \<Longrightarrow> e = TypeError"
  unfolding payload_to_policy_def by (rule from_element_error)

definition members_known :: "resource_lists \<Rightarrow> bool" where
  "members_known b \<longleftrightarrow> (\<forall>p \<in> set (rl_groups b). set (bg_contacts (el_value (snd p))) \<subseteq> fst ` set (rl_contacts b))"

lemma from_payload_error:
  assumes "from_payload b = Inl e" and "members_known b"
  shows "e = TypeError"
proof -
  from bindR_error[OF assms(1)[unfolded from_payload_def]] show ?thesis
  proof (elim disjE exE conjE)
    assume "mapR_values payload_to_contact (rl_contacts b) = Inl e"
    from mapR_values_error[OF this] show ?thesis using payload_to_contact_error by blast
  next
    fix cs
    assume cs: "mapR_values payload_to_contact (rl_contacts b) = Inr cs"
      and rest: "bindR (mapR_values (payload_to_group cs) (rl_groups b)) (\<lambda>groups.
         bindR (mapR_values payload_to_policy (rl_policies b)) (\<lambda>policies.
           Inr \<lparr>ab_contacts = cs, ab_groups = groups, ab_policies = policies\<rparr>)) = Inl e"
    from bindR_error[OF rest] show ?thesis
    proof (elim disjE exE conjE)
      assume "mapR_values (payload_to_group cs) (rl_groups b) = Inl e"
      from mapR_values_error[OF this] obtain p where p: "p \<in> set (rl_groups b)" "payload_to_group cs (snd p) = Inl e"
        by blast
      have "set (bg_contacts (el_value (snd p))) \<subseteq> fst ` set cs"
        using assms(2) p(1) unfolding members_known_def mapR_values_keys[OF cs] by blast
      with payload_to_group_error[OF p(2)] show ?thesis by blast
    next
      fix gs
      assume "bindR (mapR_values payload_to_policy (rl_policies b)) (\<lambda>policies.
           Inr \<lparr>ab_contacts = cs, ab_groups = gs, ab_policies = policies\<rparr>) = Inl e"
      from bindR_error[OF this] have "mapR_values payload_to_policy (rl_policies b) = Inl e" by simp
      from mapR_values_error[OF this] show ?thesis using payload_to_policy_error by blast
    qed
  qed
qed

lemma member_remove_members: "bg_contacts (el_value (fold member_remove cs g)) = fold remove1 cs (bg_contacts (el_value g))"
  by (induction cs arbitrary: g) (simp_all add: member_remove_def)

lemma fold_remove1_filter: "fold remove1 (filter P xs) (ys @ xs) = ys @ filter (\<lambda>x. \<not> P x) xs"
  if "filter P ys = []" for ys
  using that
proof (induction xs arbitrary: ys)
  case (Cons x xs)
  show ?case
  proof (cases "P x")
    case True
    then have "x \<notin> set ys" using Cons.prems by (auto simp: filter_empty_conv)
    then have "remove1 x (ys @ x # xs) = ys @ xs" by (simp add: remove1_append)
    then show ?thesis using Cons True by simp
  next
    case False
    then show ?thesis using Cons.IH[of "ys @ [x]"] Cons.prems by simp
  qed
qed simp

text \<open>Taking out one occurrence for each member that is missing leaves the members that are
  known, in their order.\<close>

lemma drop_missing_members:
  "bg_contacts (el_value (fold member_remove (filter P (bg_contacts (el_value g))) g)) =
   filter (\<lambda>c. \<not> P c) (bg_contacts (el_value g))"
  using fold_remove1_filter[of P "[]" "bg_contacts (el_value g)"] by (simp add: member_remove_members)

lemma drop_missing_known: "members_known (drop_missing b)"
  by (auto simp: members_known_def drop_missing_def drop_missing_members)

lemma update_members_known: "members_known (resource_lists_update b)"
  using drop_missing_known[of b] by (simp add: resource_lists_update_def Let_def members_known_def fill_lists_same)

text \<open>A contact that is added is the contact that is reported.\<close>

lemma mapR_values_map: "(\<And>p. p \<in> set xs \<Longrightarrow> f (g (snd p)) = Inr (snd p)) \<Longrightarrow> mapR_values f (map (\<lambda>(k, x). (k, g x)) xs) = Inr xs"
  unfolding mapR_values_def
  by (induction xs) (auto simp: case_prod_beta)

lemma mapR_values_cong: "(\<And>x. f (g x) = f x) \<Longrightarrow> mapR_values f (map (\<lambda>(k, x). (k, g x)) xs) = mapR_values f xs"
  unfolding mapR_values_def by (induction xs) (auto simp: case_prod_beta)

lemma mapR_values_at:
  "mapR_values f xs = Inr ys \<Longrightarrow> map_of xs k = Some x \<Longrightarrow> \<exists>y. f x = Inr y \<and> map_of ys k = Some y"
proof (induction xs arbitrary: ys)
  case (Cons p xs)
  obtain i z where p: "p = (i, z)" by (cases p)
  from Cons.prems(1) obtain y ys' where *: "f z = Inr y" "mapR_values f xs = Inr ys'" "ys = (i, y) # ys'"
    unfolding mapR_values_def p by (auto simp: bindR_eq_Inr)
  show ?case
    using Cons.IH[OF *(2)] Cons.prems(2) * p by (auto split: if_splits)
qed simp

lemma uris_add_new:
  "i \<notin> fst ` set (bc_uris (el_value c)) \<Longrightarrow>
   uris_add i u c = c\<lparr>el_value := (el_value c)\<lparr>bc_uris := bc_uris (el_value c) @ [(i, u)]\<rparr>, el_dirty := True\<rparr>"
proof -
  assume "i \<notin> fst ` set (bc_uris (el_value c))"
  then have "map_of (bc_uris (el_value c)) i = None" by (simp add: map_of_eq_None_iff)
  then show ?thesis by (simp add: uris_add_def list_add_def)
qed

lemma uris_fold_new:
  assumes "distinct (map fst us)" and "fst ` set us \<inter> fst ` set (bc_uris (el_value c)) = {}" and "el_dirty c"
  shows "fold (\<lambda>(i, u). \<lambda>x. uris_add i (new_element (en_value u) (en_attributes u)) x) us c =
         c\<lparr>el_value := (el_value c)\<lparr>bc_uris := bc_uris (el_value c) @
             map (\<lambda>(i, u). (i, new_element (en_value u) (en_attributes u))) us\<rparr>\<rparr>"
  using assms
proof (induction us arbitrary: c)
  case (Cons p us)
  obtain i u where p: "p = (i, u)" by (cases p)
  let ?c = "c\<lparr>el_value := (el_value c)\<lparr>bc_uris := bc_uris (el_value c) @ [(i, new_element (en_value u) (en_attributes u))]\<rparr>,
              el_dirty := True\<rparr>"
  have add: "uris_add i (new_element (en_value u) (en_attributes u)) c = ?c"
    using Cons.prems p by (intro uris_add_new) auto
  have "fst ` set us \<inter> fst ` set (bc_uris (el_value ?c)) = {}" using Cons.prems p by auto
  then show ?case
    using Cons.IH[of ?c] Cons.prems p add by simp
qed simp

lemma payload_clear: "payload_to_contact (clear_uris c) = payload_to_contact c"
proof -
  have "payload_to_uri (u\<lparr>el_dirty := False\<rparr>) = payload_to_uri u" for u
    by (simp add: payload_to_uri_def from_element_def)
  then show ?thesis
    by (simp add: payload_to_contact_def clear_uris_def mapR_values_cong) (simp add: from_element_def)
qed

lemma payload_inherit: "payload_to_contact (inherit_contact c old) = payload_to_contact c"
  by (simp add: inherit_contact_def payload_clear) (simp add: payload_to_contact_def from_element_def)

lemma contacts_add_at: "\<exists>c'. map_of (rl_contacts (contacts_add k c b)) k = Some c' \<and> payload_to_contact c' = payload_to_contact c"
proof (cases "map_of (rl_contacts b) k")
  case None
  then have "k \<notin> fst ` set (rl_contacts b)" by (simp add: map_of_eq_None_iff)
  with None show ?thesis by (simp add: contacts_add_def list_add_def map_add_def)
next
  case (Some old)
  then show ?thesis
    by (auto simp: contacts_add_def list_add_def map_of_put_back payload_inherit simp del: map_of_append)
qed

lemma from_element_Inr: "from_element r x v = Inr y \<Longrightarrow>
    y = \<lparr>en_value = v, en_attributes = (case el_attributes x of None \<Rightarrow> [] | Some d \<Rightarrow> d)\<rparr>"
  by (auto simp: from_element_def Let_def split: if_splits)

lemma payload_new_uris:
  "mapR_values payload_to_uri (map (\<lambda>(i, u). (i, new_element (en_value u) (en_attributes u))) us) = Inr us' \<Longrightarrow> us' = us"
proof (induction us arbitrary: us')
  case (Cons p us)
  obtain i u where p: "p = (i, u)" by (cases p)
  from Cons.prems obtain y ys where y: "payload_to_uri (new_element (en_value u) (en_attributes u)) = Inr y"
    and ys: "mapR_values payload_to_uri (map (\<lambda>(i, u). (i, new_element (en_value u) (en_attributes u))) us) = Inr ys"
    and us': "us' = (i, y) # ys"
    unfolding mapR_values_def p by (auto simp: bindR_eq_Inr)
  have "y = u" using from_element_Inr[OF y[unfolded payload_to_uri_def]] by simp
  then show ?case using Cons.IH[OF ys] us' p by simp
qed (simp add: mapR_values_def)

lemma payload_added:
  assumes "distinct (map fst (bc_uris (en_value c)))"
    and "payload_to_contact (fold (\<lambda>(i, u). \<lambda>x. uris_add i (new_element (en_value u) (en_attributes u)) x) (bc_uris (en_value c))
           (new_element \<lparr>bc_name = bc_name (en_value c), bc_uris = [], bc_default = bc_default (en_value c),
              bc_presence = bc_presence (en_value c), bc_dialog = bc_dialog (en_value c)\<rparr> (en_attributes c))) = Inr e"
  shows "e = c"
proof -
  let ?new = "new_element \<lparr>bc_name = bc_name (en_value c), bc_uris = [] :: (string \<times> book_uri element) list, bc_default = bc_default (en_value c),
              bc_presence = bc_presence (en_value c), bc_dialog = bc_dialog (en_value c)\<rparr> (en_attributes c)"
  have "fold (\<lambda>(i, u). \<lambda>x. uris_add i (new_element (en_value u) (en_attributes u)) x) (bc_uris (en_value c)) ?new =
        ?new\<lparr>el_value := (el_value ?new)\<lparr>bc_uris := bc_uris (el_value ?new) @
             map (\<lambda>(i, u). (i, new_element (en_value u) (en_attributes u))) (bc_uris (en_value c))\<rparr>\<rparr>"
    by (rule uris_fold_new[OF assms(1)]) (simp_all add: new_element_def)
  with assms(2) obtain us where us: "mapR_values payload_to_uri
        (map (\<lambda>(i, u). (i, new_element (en_value u) (en_attributes u))) (bc_uris (en_value c))) = Inr us"
    and e: "e = \<lparr>en_value = \<lparr>bc_name = bc_name (en_value c), bc_uris = us, bc_default = bc_default (en_value c),
              bc_presence = bc_presence (en_value c), bc_dialog = bc_dialog (en_value c)\<rparr>, en_attributes = en_attributes c\<rparr>"
    by (auto simp: payload_to_contact_def bindR_eq_Inr dest!: from_element_Inr)
  show ?thesis using e payload_new_uris[OF us] by simp
qed

section \<open>Properties\<close>

text \<open>
  C32. The lists of granted and blocked addresses follow one decision for each address. After
  the normalization, and after an update in which some contact or policy is dirty, an address
  is granted the presence (the dialogs) of the account exactly when the decision allows it and
  blocked exactly when the decision blocks it: a contact that blocks wins over one that allows,
  and policies count only for addresses of no contact. No address is both granted and blocked.
\<close>

theorem access_lists_follow_decision:
  "lists_in_step (OH_Normalize_lists b) \<and>
   (something_dirty b \<longrightarrow> lists_in_step (resource_lists_update b))"
  by (simp add: OH_Normalize_lists_def resource_lists_update_def Let_def something_dirty_drop fill_lists_in_step)

theorem access_lists_follow_decision_witness:
  "lists_in_step (resource_lists_update (apply_book (AddContactOperation ''a'' (sample_contact ''alice'' PolAllow)) empty_lists))"
  by (rule access_lists_follow_decision[THEN conjunct2, THEN mp])
    (simp add: something_dirty_def sample_contact_def empty_lists_def OH_AddContact_def Let_def contacts_add_def list_add_def
      contact_dirty_def new_element_def uris_add_def)

text \<open>
  C36. Removing a contact does not take the access back. The lists are computed again only when
  one of the remaining contacts or policies is dirty, and removing a contact marks the list and
  the groups only: when nothing else is dirty, an address only the removed contact allowed is
  sent to the server as granted although the decision no longer allows it.
\<close>

theorem removed_contact_keeps_access:
  assumes "map_of (rl_contacts b) k = Some c" and "distinct (map fst (rl_contacts b))"
    and "u \<in> addresses_of c" and "decide contact_presence policy_presence b u = PolAllow"
    and "lists_in_step b" and "\<not> something_dirty b"
    and "\<And>i d. (i, d) \<in> set (rl_contacts b) \<Longrightarrow> i \<noteq> k \<Longrightarrow> u \<notin> addresses_of d"
    and "\<And>i p. (i, p) \<in> set (rl_policies b) \<Longrightarrow> bp_uri (el_value p) \<noteq> u"
  shows "decide contact_presence policy_presence (resource_lists_update (OH_RemoveContact k b)) u = PolDefault \<and>
         u \<in> rl_granted (resource_lists_update (OH_RemoveContact k b))"
proof -
  let ?r = "OH_RemoveContact k b" and ?b = "resource_lists_update (OH_RemoveContact k b)"
  have clean: "\<not> something_dirty ?r" by (rule remove_contact_not_dirty[OF assms(6)])
  have parts: "rl_contacts ?b = ddel k (rl_contacts b)" "rl_policies ?b = rl_policies b"
    using clean by (simp_all add: resource_lists_update_def Let_def something_dirty_drop drop_missing_same remove_contact_parts)
  have "u \<notin> all_contact_uris ?b"
    using assms(7) by (auto simp: all_contact_uris_alt parts ddel_def)
  moreover have "u \<notin> policy_uris P h ?b" for P h
    using assms(8) unfolding in_policy_uris parts by fastforce
  ultimately have "decide contact_presence policy_presence ?b u = PolDefault"
    by (simp add: decide_verdict verdict_def)
  moreover have "u \<in> rl_granted ?b"
    using assms(4,5) by (simp add: update_clean_granted[OF clean] remove_contact_parts lists_in_step_def)
  ultimately show ?thesis ..
qed

definition granted_book :: resource_lists where
  "granted_book = empty_lists\<lparr>rl_contacts := [(''a'',
       \<lparr>el_value = \<lparr>bc_name = ''n'',
          bc_uris = [(''u'', \<lparr>el_value = \<lparr>bu_uri = ''alice'', bu_type = None\<rparr>, el_attributes = None, el_dirty = False\<rparr>)],
          bc_default = None, bc_presence = \<lparr>eh_policy = PolAllow, eh_subscribe = True\<rparr>,
          bc_dialog = \<lparr>eh_policy = PolDefault, eh_subscribe = False\<rparr>\<rparr>, el_attributes = None, el_dirty = False\<rparr>)],
     rl_granted := {''alice''}, rl_presence_rls := {''alice''}\<rparr>"

lemma granted_book_decide:
  "decide contact_presence policy_presence granted_book u = (if u = ''alice'' then PolAllow else PolDefault)"
  "decide contact_dialog policy_dialog granted_book u = PolDefault"
  by (simp_all add: decide_def granted_book_def empty_lists_def)

lemma granted_book_in_step: "lists_in_step granted_book"
  unfolding lists_in_step_def granted_book_decide
  by (simp add: granted_book_def empty_lists_def subscribe_uris_def contact_uris_def policy_uris_def)

theorem removed_contact_keeps_access_witness:
  "decide contact_presence policy_presence (resource_lists_update (OH_RemoveContact ''a'' granted_book)) ''alice'' = PolDefault \<and>
   ''alice'' \<in> rl_granted (resource_lists_update (OH_RemoveContact ''a'' granted_book))"
proof (rule removed_contact_keeps_access)
  show "lists_in_step granted_book" by (rule granted_book_in_step)
  show "map_of (rl_contacts granted_book) ''a'' = Some (snd (hd (rl_contacts granted_book)))"
    by (simp add: granted_book_def)
qed (simp_all add: granted_book_decide, auto simp: granted_book_def empty_lists_def addresses_of_def something_dirty_def contact_dirty_def)

text \<open>The names the constructors of the application's objects take themselves.\<close>

definition attribute_names :: "'a element \<Rightarrow> string set" where
  "attribute_names x = fst ` set (case el_attributes x of None \<Rightarrow> [] | Some d \<Rightarrow> d)"

definition reserved_names :: "string list" where
  "reserved_names = [''self'', ''id'', ''uri'', ''type'', ''name'', ''uris'', ''contacts'', ''presence_handling'', ''dialog_handling'']"

definition attributes_free :: "resource_lists \<Rightarrow> bool" where
  "attributes_free b \<longleftrightarrow>
     (\<forall>p \<in> set (rl_contacts b). attribute_names (snd p) \<inter> set reserved_names = {} \<and>
        (\<forall>q \<in> set (bc_uris (el_value (snd p))). attribute_names (snd q) \<inter> set reserved_names = {})) \<and>
     (\<forall>p \<in> set (rl_groups b). attribute_names (snd p) \<inter> set reserved_names = {}) \<and>
     (\<forall>p \<in> set (rl_policies b). attribute_names (snd p) \<inter> set reserved_names = {})"

lemma from_element_free:
  assumes "attribute_names x \<inter> set reserved_names = {}" and "set r \<subseteq> set reserved_names"
  shows "from_element r x v \<noteq> Inl e"
proof -
  have "\<not> (\<exists>n \<in> fst ` set (case el_attributes x of None \<Rightarrow> [] | Some d \<Rightarrow> d). n \<in> set r)"
    using assms unfolding attribute_names_def by blast
  then show ?thesis by (simp add: from_element_def Let_def del: bex_simps)
qed

lemma reserved_parts:
  "set [''self'', ''id'', ''uri'', ''type''] \<subseteq> set reserved_names"
  "set [''self'', ''id'', ''name'', ''uris'', ''presence_handling'', ''dialog_handling''] \<subseteq> set reserved_names"
  "set [''self'', ''id'', ''name'', ''contacts''] \<subseteq> set reserved_names"
  "set [''self'', ''id'', ''uri'', ''name'', ''presence_handling'', ''dialog_handling''] \<subseteq> set reserved_names"
  by (simp_all add: reserved_names_def)

lemma payload_to_contact_free:
  assumes "attribute_names c \<inter> set reserved_names = {}"
    and "\<forall>q \<in> set (bc_uris (el_value c)). attribute_names (snd q) \<inter> set reserved_names = {}"
  shows "payload_to_contact c \<noteq> Inl e"
proof
  assume "payload_to_contact c = Inl e"
  from bindR_error[OF this[unfolded payload_to_contact_def]] show False
  proof (elim disjE exE conjE)
    assume "mapR_values payload_to_uri (bc_uris (el_value c)) = Inl e"
    from mapR_values_error[OF this] obtain q where q: "q \<in> set (bc_uris (el_value c))" "payload_to_uri (snd q) = Inl e"
      by blast
    then have "attribute_names (snd q) \<inter> set reserved_names = {}" using assms(2) by blast
    from notE[OF from_element_free[OF this reserved_parts(1)] q(2)[unfolded payload_to_uri_def]] show False .
  next
    fix us
    assume err: "from_element [''self'', ''id'', ''name'', ''uris'', ''presence_handling'', ''dialog_handling''] c
         \<lparr>bc_name = bc_name (el_value c), bc_uris = us, bc_default = bc_default (el_value c),
          bc_presence = bc_presence (el_value c), bc_dialog = bc_dialog (el_value c)\<rparr> = Inl e"
    from notE[OF from_element_free[OF assms(1) reserved_parts(2)] err] show False .
  qed
qed

lemma payload_to_group_free:
  assumes "attribute_names g \<inter> set reserved_names = {}" and "set (bg_contacts (el_value g)) \<subseteq> fst ` set cs"
  shows "payload_to_group cs g \<noteq> Inl e"
proof
  assume "payload_to_group cs g = Inl e"
  from bindR_error[OF this[unfolded payload_to_group_def]] show False
  proof (elim disjE exE conjE)
    assume "mapR (\<lambda>c. if c \<in> fst ` set cs then Inr c else Inl KeyError) (bg_contacts (el_value g)) = Inl e"
    from mapR_error[OF this] assms(2) show False by (auto split: if_splits)
  next
    fix ms
    assume err: "from_element [''self'', ''id'', ''name'', ''contacts''] g
         \<lparr>bg_name = bg_name (el_value g), bg_contacts = rev (remdups (rev ms))\<rparr> = Inl e"
    from notE[OF from_element_free[OF assms(1) reserved_parts(3)] err] show False .
  qed
qed

lemma payload_to_policy_free: "attribute_names p \<inter> set reserved_names = {} \<Longrightarrow> payload_to_policy p \<noteq> Inl e"
  unfolding payload_to_policy_def by (rule from_element_free[OF _ reserved_parts(4)])

lemma from_payload_free:
  assumes "members_known b" and "attributes_free b"
  shows "from_payload b \<noteq> Inl e"
proof
  assume "from_payload b = Inl e"
  from bindR_error[OF this[unfolded from_payload_def]] show False
  proof (elim disjE exE conjE)
    assume "mapR_values payload_to_contact (rl_contacts b) = Inl e"
    from mapR_values_error[OF this] obtain p where p: "p \<in> set (rl_contacts b)" "payload_to_contact (snd p) = Inl e"
      by blast
    have "attribute_names (snd p) \<inter> set reserved_names = {}"
      and "\<forall>q \<in> set (bc_uris (el_value (snd p))). attribute_names (snd q) \<inter> set reserved_names = {}"
      using assms(2) p(1) unfolding attributes_free_def by blast+
    from notE[OF payload_to_contact_free[OF this] p(2)] show False .
  next
    fix cs
    assume cs: "mapR_values payload_to_contact (rl_contacts b) = Inr cs"
      and rest: "bindR (mapR_values (payload_to_group cs) (rl_groups b)) (\<lambda>groups.
         bindR (mapR_values payload_to_policy (rl_policies b)) (\<lambda>policies.
           Inr \<lparr>ab_contacts = cs, ab_groups = groups, ab_policies = policies\<rparr>)) = Inl e"
    from bindR_error[OF rest] show False
    proof (elim disjE exE conjE)
      assume "mapR_values (payload_to_group cs) (rl_groups b) = Inl e"
      from mapR_values_error[OF this] obtain p where p: "p \<in> set (rl_groups b)" "payload_to_group cs (snd p) = Inl e"
        by blast
      have "set (bg_contacts (el_value (snd p))) \<subseteq> fst ` set cs"
        using assms(1) p(1) unfolding members_known_def mapR_values_keys[OF cs] by blast
      moreover have "attribute_names (snd p) \<inter> set reserved_names = {}"
        using assms(2) p(1) unfolding attributes_free_def by blast
      ultimately show False using notE[OF payload_to_group_free p(2)] by simp
    next
      fix gs
      assume "bindR (mapR_values payload_to_policy (rl_policies b)) (\<lambda>policies.
           Inr \<lparr>ab_contacts = cs, ab_groups = gs, ab_policies = policies\<rparr>) = Inl e"
      from bindR_error[OF this] have "mapR_values payload_to_policy (rl_policies b) = Inl e" by simp
      from mapR_values_error[OF this] obtain p where p: "p \<in> set (rl_policies b)" "payload_to_policy (snd p) = Inl e"
        by blast
      have "attribute_names (snd p) \<inter> set reserved_names = {}"
        using assms(2) p(1) unfolding attributes_free_def by blast
      from notE[OF payload_to_policy_free[OF this] p(2)] show False .
    qed
  qed
qed

lemma fold_member_remove_attributes: "el_attributes (fold member_remove cs g) = el_attributes g"
  by (induction cs arbitrary: g) (simp_all add: member_remove_def)

lemma update_attributes_free: "attributes_free b \<Longrightarrow> attributes_free (resource_lists_update b)"
proof -
  assume "attributes_free b"
  moreover have "attribute_names (fold member_remove cs g) = attribute_names g" for cs g
    by (simp add: attribute_names_def fold_member_remove_attributes)
  ultimately have "attributes_free (drop_missing b)"
    by (simp add: attributes_free_def drop_missing_def case_prod_beta)
  then show ?thesis
    by (simp add: resource_lists_update_def Let_def attributes_free_def fill_lists_same)
qed

text \<open>
  The address book sent to the server is one the application can load. The update of the
  document removes every member of a group that is no contact, so that no lookup of a member
  fails, and unless an attribute is named like a parameter of a constructor the address book is
  built.
\<close>

theorem updated_book_loads:
  assumes "attributes_free b"
  shows "\<exists>ab. from_payload (resource_lists_update b) = Inr ab"
  using from_payload_free[OF update_members_known update_attributes_free[OF assms]]
  by (cases "from_payload (resource_lists_update b)") auto

theorem updated_book_loads_witness:
  "\<exists>ab. from_payload (resource_lists_update (apply_book (AddGroupMemberOperation ''g'' ''nobody'')
     (apply_book (AddGroupOperation ''g'' \<lparr>en_value = \<lparr>bg_name = ''G'', bg_contacts = []\<rparr>, en_attributes = []\<rparr>) granted_book))) = Inr ab"
  by (rule updated_book_loads)
    (simp add: attributes_free_def attribute_names_def granted_book_def empty_lists_def OH_AddGroup_def OH_AddGroupMember_def
      groups_add_def list_add_def list_modify_def new_element_def member_add_def change_def)

text \<open>
  C35. A contact that is added is the contact that is reported: when the address book is
  loaded after the operation, it has under the contact's id the contact of the operation, its
  addresses in order, its handling of presence and dialogs and its attributes, whether the id
  was new or replaced another contact.
\<close>

theorem added_contact_reported:
  assumes "distinct (map fst (bc_uris (en_value c)))"
    and "from_payload (apply_book (AddContactOperation k c) b) = Inr ab"
  shows "map_of (ab_contacts ab) k = Some c"
proof -
  let ?b = "apply_book (AddContactOperation k c) b"
  from assms(2) have cs: "mapR_values payload_to_contact (rl_contacts ?b) = Inr (ab_contacts ab)"
    by (auto simp: from_payload_def bindR_eq_Inr)
  obtain x where x: "map_of (rl_contacts ?b) k = Some x"
    and same: "payload_to_contact x = payload_to_contact (fold (\<lambda>(i, u). \<lambda>x. uris_add i (new_element (en_value u) (en_attributes u)) x)
           (bc_uris (en_value c))
           (new_element \<lparr>bc_name = bc_name (en_value c), bc_uris = [], bc_default = bc_default (en_value c),
              bc_presence = bc_presence (en_value c), bc_dialog = bc_dialog (en_value c)\<rparr> (en_attributes c)))"
    using contacts_add_at[of k _ b] unfolding apply_book.simps OH_AddContact_def Let_def by blast
  from mapR_values_at[OF cs x] obtain y where "payload_to_contact x = Inr y" and y: "map_of (ab_contacts ab) k = Some y"
    by blast
  then have "y = c" using payload_added[OF assms(1)] same by simp
  with y show ?thesis by simp
qed

theorem added_contact_reported_witness:
  "\<exists>ab. from_payload (apply_book (AddContactOperation ''a'' (sample_contact ''alice'' PolAllow)) empty_lists) = Inr ab \<and>
        map_of (ab_contacts ab) ''a'' = Some (sample_contact ''alice'' PolAllow)"
proof -
  let ?b = "apply_book (AddContactOperation ''a'' (sample_contact ''alice'' PolAllow)) empty_lists"
  have "members_known ?b"
    by (simp add: members_known_def OH_AddContact_def Let_def contacts_add_def list_add_def empty_lists_def)
  moreover have "attributes_free ?b"
    by (simp add: attributes_free_def attribute_names_def sample_contact_def empty_lists_def OH_AddContact_def Let_def
        contacts_add_def list_add_def new_element_def uris_add_def)
  ultimately obtain ab where ab: "from_payload ?b = Inr ab"
    using from_payload_free by (cases "from_payload ?b") blast+
  have "map_of (ab_contacts ab) ''a'' = Some (sample_contact ''alice'' PolAllow)"
    by (rule added_contact_reported[OF _ ab]) (simp add: sample_contact_def)
  with ab show ?thesis by blast
qed

end
