(* ===== verification/Xcap_Storage.thy ===== *)
theory Xcap_Storage
  imports Python_Text
begin

text \<open>
  The storage backends of the XCAP manager (\<open>account/xcap/storage/\<close>): the interface
  \<open>IXCAPStorage\<close> as a locale, the memory backend and the file backend that implement it, and
  what a client may rely on.
\<close>

section \<open>The interface\<close>

text \<open>
  \<open>XCAPStorageError\<close> is what a backend promises to raise; \<open>StorageKeyError\<close> is the
  \<open>KeyError\<close> the file backend lets out when it deletes a file it has no record of.
\<close>

datatype storage_error = XCAPStorageError | StorageKeyError

text \<open>
  A backend's operations return their outcome and the new state. The laws: what was saved is
  loaded, other names are not touched, loading changes no data, and what the backend has loaded
  or saved is gone once it was deleted or purged with success.
\<close>

locale xcap_storage =
  fixes load :: "string \<Rightarrow> 's \<Rightarrow> (storage_error + string) \<times> 's"
    and save :: "string \<Rightarrow> string \<Rightarrow> 's \<Rightarrow> (storage_error + unit) \<times> 's"
    and delete :: "string \<Rightarrow> 's \<Rightarrow> (storage_error + unit) \<times> 's"
    and purge :: "'s \<Rightarrow> (storage_error + unit) \<times> 's"
    and known :: "string \<Rightarrow> 's \<Rightarrow> bool"
  assumes load_saved: "save k d s = (Inr (), s') \<Longrightarrow> fst (load k s') = Inr d"
    and load_other: "save k d s = (Inr (), s') \<Longrightarrow> j \<noteq> k \<Longrightarrow> fst (load j s') = fst (load j s)"
    and load_after_load: "fst (load j (snd (load k s))) = fst (load j s)"
    and load_deleted: "delete k s = (Inr (), s') \<Longrightarrow> fst (load k s') = Inl XCAPStorageError"
    and load_not_deleted: "delete k s = (Inr (), s') \<Longrightarrow> j \<noteq> k \<Longrightarrow> fst (load j s') = fst (load j s)"
    and load_purged: "purge s = (Inr (), s') \<Longrightarrow> known k s \<Longrightarrow> fst (load k s') = Inl XCAPStorageError"
    and saved_known: "save k d s = (Inr (), s') \<Longrightarrow> known k s'"
    and loaded_known: "load k s = (Inr d, s') \<Longrightarrow> known k s'"
begin

lemma saved_twice:
  assumes "save k d s = (Inr (), s')" and "save j e s' = (Inr (), s'')"
  shows "fst (load k s'') = Inr (if j = k then e else d)"
  using load_saved[OF assms(1)] load_saved[OF assms(2)] load_other[OF assms(2), of k] by auto

lemma purge_forgets_loaded:
  assumes "load k s = (Inr d, s')" and "purge s' = (Inr (), s'')"
  shows "fst (load k s'') = Inl XCAPStorageError"
  using load_purged[OF assms(2) loaded_known[OF assms(1)]] .

end

section \<open>The memory backend\<close>

type_synonym memory_storage = "(string, string) dict"

definition xmem_load :: "string \<Rightarrow> memory_storage \<Rightarrow> (storage_error + string) \<times> memory_storage" where
  "xmem_load k s = (case map_of s k of None \<Rightarrow> (Inl XCAPStorageError, s) | Some d \<Rightarrow> (Inr d, s))"

definition xmem_save :: "string \<Rightarrow> string \<Rightarrow> memory_storage \<Rightarrow> (storage_error + unit) \<times> memory_storage" where
  "xmem_save k d s = (Inr (), dset k d s)"

definition xmem_delete :: "string \<Rightarrow> memory_storage \<Rightarrow> (storage_error + unit) \<times> memory_storage" where
  "xmem_delete k s = (Inr (), ddel k s)"

definition xmem_purge :: "memory_storage \<Rightarrow> (storage_error + unit) \<times> memory_storage" where
  "xmem_purge s = (Inr (), [])"

interpretation memory_storage: xcap_storage xmem_load xmem_save xmem_delete xmem_purge "\<lambda>k s. True"
  by unfold_locales
    (auto simp: xmem_load_def xmem_save_def xmem_delete_def xmem_purge_def map_of_dset map_of_ddel split: option.splits)

section \<open>The file backend\<close>

text \<open>
  The directory of the account as a map from file names to contents, and the names the backend
  has loaded or saved. What the file system does with a call is in the environment: which
  files can be read and unlinked, whether the temporary file is written and renamed, and
  whether the platform needs the target unlinked first.
\<close>

record file_storage =
  fs_disk :: "string \<Rightarrow> string option"
  fs_names :: "string set"

record file_env =
  fe_readable :: "string \<Rightarrow> bool"
  fe_unlinkable :: "string \<Rightarrow> bool"
  fe_written :: bool
  fe_renamed :: bool
  fe_windows :: bool

definition storage_load :: "file_env \<Rightarrow> string \<Rightarrow> file_storage \<Rightarrow> (storage_error + string) \<times> file_storage" where
  "storage_load env k s =
     (case fs_disk s k of
        Some d \<Rightarrow> if fe_readable env k then (Inr d, s\<lparr>fs_names := insert k (fs_names s)\<rparr>) else (Inl XCAPStorageError, s)
      | None \<Rightarrow> (Inl XCAPStorageError, s))"

definition storage_save :: "file_env \<Rightarrow> string \<Rightarrow> string \<Rightarrow> file_storage \<Rightarrow> (storage_error + unit) \<times> file_storage" where
  "storage_save env k d s =
     (if \<not> fe_written env then (Inl XCAPStorageError, s)
      else let s' = (if fe_windows env then s\<lparr>fs_disk := (fs_disk s)(k := None)\<rparr> else s)
           in if \<not> fe_renamed env then (Inl XCAPStorageError, s')
              else (Inr (), s'\<lparr>fs_disk := (fs_disk s')(k \<mapsto> d), fs_names := insert k (fs_names s')\<rparr>))"

definition storage_delete :: "file_env \<Rightarrow> string \<Rightarrow> file_storage \<Rightarrow> (storage_error + unit) \<times> file_storage" where
  "storage_delete env k s =
     (case fs_disk s k of
        None \<Rightarrow> (Inr (), s\<lparr>fs_names := fs_names s - {k}\<rparr>)
      | Some d \<Rightarrow>
          if \<not> fe_unlinkable env k then (Inl XCAPStorageError, s)
          else if k \<in> fs_names s then (Inr (), s\<lparr>fs_disk := (fs_disk s)(k := None), fs_names := fs_names s - {k}\<rparr>)
          else (Inl StorageKeyError, s\<lparr>fs_disk := (fs_disk s)(k := None)\<rparr>))"

definition storage_purge :: "file_env \<Rightarrow> file_storage \<Rightarrow> (storage_error + unit) \<times> file_storage" where
  "storage_purge env s =
     (let gone = {k \<in> fs_names s. fe_unlinkable env k};
          failed = {k \<in> fs_names s. fs_disk s k \<noteq> None \<and> \<not> fe_unlinkable env k}
      in (if failed = {} then Inr () else Inl XCAPStorageError,
          \<lparr>fs_disk = (\<lambda>k. if k \<in> gone then None else fs_disk s k), fs_names = {}\<rparr>))"

text \<open>The laws hold wherever the files of the directory can be read.\<close>

definition readable :: "file_env \<Rightarrow> file_env" where
  "readable env = env\<lparr>fe_readable := \<lambda>_. True\<rparr>"

interpretation file_storage: xcap_storage "storage_load (readable env)" "storage_save env" "storage_delete env"
    "storage_purge env" "\<lambda>k s. k \<in> fs_names s" for env
  by unfold_locales
    (auto simp: readable_def storage_load_def storage_save_def storage_delete_def storage_purge_def Let_def
      split: option.splits if_splits)

text \<open>
  Deleting through the file backend a file it has not loaded or saved removes the file and
  raises a \<open>KeyError\<close>, which is no \<open>XCAPStorageError\<close> and passes every handler of the manager.
\<close>

lemma delete_unknown_file:
  assumes "fs_disk s k = Some d" and "k \<notin> fs_names s" and "fe_unlinkable env k"
  shows "storage_delete env k s = (Inl StorageKeyError, s\<lparr>fs_disk := (fs_disk s)(k := None)\<rparr>)"
  using assms by (simp add: storage_delete_def)

end
