(* ===== verification/Xcap_Document.thy ===== *)
theory Xcap_Document
  imports Xcap_Storage
begin

text \<open>
  A document kept on an XCAP server (class \<open>Document\<close> of \<open>account/xcap/__init__.py\<close>): its
  content with the dirty flag, the version tag, the copy in the local cache, and the requests
  that fetch it and send it back. The XCAP client is a parameter: each operation takes the
  answer of the server.
\<close>

section \<open>Data\<close>

text \<open>The payload class of a document: how its content is parsed and written.\<close>

record 'c payload_type =
  pt_parse :: "string \<Rightarrow> 'c option"
  pt_toxml :: "'c \<Rightarrow> string"

record 'c xcap_content =
  ct_body :: 'c
  ct_dirty :: bool

record 'c xcap_document =
  xd_name :: string
  xd_application :: string
  xd_cached :: bool
  xd_content :: "'c xcap_content option"
  xd_etag :: "string option"
  xd_fetch_time :: nat
  xd_update_time :: nat
  xd_flag :: bool
  xd_supported :: bool

text \<open>The operations of the storage backend an account's documents are cached in.\<close>

record 's storage_ops =
  so_load :: "string \<Rightarrow> 's \<Rightarrow> (storage_error + string) \<times> 's"
  so_save :: "string \<Rightarrow> string \<Rightarrow> 's \<Rightarrow> (storage_error + unit) \<times> 's"
  so_delete :: "string \<Rightarrow> 's \<Rightarrow> (storage_error + unit) \<times> 's"
  so_purge :: "'s \<Rightarrow> (storage_error + unit) \<times> 's"

text \<open>
  The outcomes of a request: a document or the answer to one that was stored, with its tag; a
  status that is an error; a connection that failed in a way \<open>fetch\<close> and \<open>update\<close> both
  handle; a \<open>socket.error\<close>, which only \<open>fetch\<close> handles.
\<close>

datatype http_answer =
    HttpOk "string option" string
  | HttpStatus nat
  | NetworkDown
  | SocketError

datatype xcap_condition = IfMatch string | IfNoneMatchAny

datatype xcap_request = PutRequest xcap_condition string | DeleteRequest xcap_condition

datatype xcap_error = XCAPError | FetchRequiredError | UncaughtError

section \<open>The dirty property\<close>

definition xd_dirty :: "'c xcap_document \<Rightarrow> bool" where
  "xd_dirty d \<longleftrightarrow> xd_flag d \<or> (case xd_content d of None \<Rightarrow> False | Some c \<Rightarrow> ct_dirty c)"

definition set_dirty :: "bool \<Rightarrow> 'c xcap_document \<Rightarrow> 'c xcap_document" where
  "set_dirty v d =
     (if xd_content d \<noteq> None \<and> \<not> v then d\<lparr>xd_content := map_option (ct_dirty_update (\<lambda>_. False)) (xd_content d)\<rparr> else d)
     \<lparr>xd_flag := v\<rparr>"

section \<open>Operations\<close>

definition LF :: char where "LF = CHR 0x0A"

definition storage_outcome :: "(storage_error + unit) \<Rightarrow> xcap_error + unit" where
  "storage_outcome r = (case r of Inl StorageKeyError \<Rightarrow> Inl UncaughtError | _ \<Rightarrow> Inr ())"

definition read_line :: "string \<Rightarrow> string \<times> string" where
  "read_line s = (takeWhile (\<lambda>c. c \<noteq> LF) s, drop 1 (dropWhile (\<lambda>c. c \<noteq> LF) s))"

definition load_from_cache ::
  "'c payload_type \<Rightarrow> 's storage_ops \<Rightarrow> nat \<Rightarrow> 'c xcap_document \<Rightarrow> 's \<Rightarrow> 'c xcap_document \<times> 's" where
  "load_from_cache pt ops now d s =
     (if \<not> xd_cached d then (d, s)
      else case so_load ops (xd_name d) s of
        (r, s') \<Rightarrow>
          ((case r of
             Inl _ \<Rightarrow> set_dirty False (d\<lparr>xd_etag := None, xd_content := None\<rparr>)
           | Inr data \<Rightarrow>
               (case pt_parse pt (snd (read_line data)) of
                  None \<Rightarrow> set_dirty False (d\<lparr>xd_etag := None, xd_content := None\<rparr>)
                | Some c \<Rightarrow>
                    (let tag = strip ascii_blank (fst (read_line data))
                     in d\<lparr>xd_etag := (if tag = [] then None else Some tag),
                          xd_content := Some \<lparr>ct_body = c, ct_dirty = False\<rparr>, xd_flag := False\<rparr>)))
          \<lparr>xd_fetch_time := now\<rparr>, s'))"

definition document_reset ::
  "'s storage_ops \<Rightarrow> 'c xcap_document \<Rightarrow> 's \<Rightarrow> (xcap_error + unit) \<times> 'c xcap_document \<times> 's" where
  "document_reset ops d s =
     (let (r, s') = (if xd_cached d \<and> xd_content d \<noteq> None
                     then (case so_delete ops (xd_name d) s of (r, s') \<Rightarrow> (storage_outcome r, s')) else (Inr (), s))
      in case r of
           Inl e \<Rightarrow> (Inl e, d, s')
         | Inr _ \<Rightarrow> (Inr (), set_dirty False (d\<lparr>xd_content := None, xd_etag := None\<rparr>), s'))"

definition document_initialize ::
  "'s storage_ops \<Rightarrow> string list \<Rightarrow> 'c xcap_document \<Rightarrow> 's \<Rightarrow> (xcap_error + unit) \<times> 'c xcap_document \<times> 's" where
  "document_initialize ops auids d s =
     (let d' = d\<lparr>xd_supported := xd_application d \<in> set auids\<rparr>
      in if xd_supported d' then (Inr (), d', s) else document_reset ops d' s)"

text \<open>Saving a copy needs a tag to write in front of the text.\<close>

definition save_copy :: "'s storage_ops \<Rightarrow> string \<Rightarrow> string option \<Rightarrow> string \<Rightarrow> 's \<Rightarrow> (xcap_error + unit) \<times> 's" where
  "save_copy ops name etag text s =
     (case etag of
        None \<Rightarrow> (Inl UncaughtError, s)
      | Some e \<Rightarrow> (case so_save ops name (e @ LF # text) s of (r, s') \<Rightarrow> (storage_outcome r, s')))"

definition document_fetch ::
  "'c payload_type \<Rightarrow> 's storage_ops \<Rightarrow> http_answer \<Rightarrow> nat \<Rightarrow> 'c xcap_document \<Rightarrow> 's \<Rightarrow>
   (xcap_error + unit) \<times> 'c xcap_document \<times> 's" where
  "document_fetch pt ops answer now d s =
     (case answer of
        HttpOk etag text \<Rightarrow>
          (case pt_parse pt text of
             None \<Rightarrow> (Inl XCAPError, d, s)
           | Some c \<Rightarrow>
               (let d' = d\<lparr>xd_content := Some \<lparr>ct_body = c, ct_dirty = False\<rparr>, xd_etag := etag, xd_flag := False,
                           xd_fetch_time := now\<rparr>
                in if xd_cached d then (case save_copy ops (xd_name d) etag text s of (r, s') \<Rightarrow> (r, d', s'))
                   else (Inr (), d', s)))
      | HttpStatus n \<Rightarrow>
          if n = 404 then
            if xd_content d \<noteq> None
            then (case document_reset ops d s of
                    (Inl e, d', s') \<Rightarrow> (Inl e, d', s')
                  | (Inr _, d', s') \<Rightarrow> (Inr (), d'\<lparr>xd_fetch_time := now\<rparr>, s'))
            else (Inr (), d, s)
          else if n = 304 then (Inr (), d, s)
          else (Inl XCAPError, d, s)
      | NetworkDown \<Rightarrow> (Inl XCAPError, d, s)
      | SocketError \<Rightarrow> (Inl XCAPError, d, s))"

definition update_request :: "'c payload_type \<Rightarrow> 'c xcap_document \<Rightarrow> xcap_request" where
  "update_request pt d =
     (let cond = (case xd_etag d of Some e \<Rightarrow> IfMatch e | None \<Rightarrow> IfNoneMatchAny)
      in case xd_content d of
           Some c \<Rightarrow> PutRequest cond (pt_toxml pt (ct_body c))
         | None \<Rightarrow> DeleteRequest cond)"

text \<open>What follows a request that went through, with the tag of the answer.\<close>

definition document_updated ::
  "'c payload_type \<Rightarrow> 's storage_ops \<Rightarrow> string option \<Rightarrow> nat \<Rightarrow> 'c xcap_document \<Rightarrow> 's \<Rightarrow>
   (xcap_error + unit) \<times> 'c xcap_document \<times> 's" where
  "document_updated pt ops etag now d s =
     (let d' = (set_dirty False (d\<lparr>xd_etag := (if xd_content d = None then None else etag)\<rparr>))\<lparr>xd_update_time := now\<rparr>
      in if \<not> xd_cached d then (Inr (), d', s)
         else case xd_content d of
           Some c \<Rightarrow> (case save_copy ops (xd_name d) etag (pt_toxml pt (ct_body c)) s of (r, s') \<Rightarrow> (r, d', s'))
         | None \<Rightarrow> (case so_delete ops (xd_name d) s of (r, s') \<Rightarrow> (storage_outcome r, d', s')))"

definition document_update ::
  "'c payload_type \<Rightarrow> 's storage_ops \<Rightarrow> http_answer \<Rightarrow> nat \<Rightarrow> 'c xcap_document \<Rightarrow> 's \<Rightarrow>
   (xcap_error + unit) \<times> 'c xcap_document \<times> 's" where
  "document_update pt ops answer now d s =
     (if \<not> xd_dirty d then (Inr (), d, s)
      else case answer of
        HttpOk etag text \<Rightarrow> document_updated pt ops etag now d s
      | HttpStatus n \<Rightarrow>
          if n = 412 then (Inl FetchRequiredError, d, s)
          else if n = 404 \<and> xd_content d = None then document_updated pt ops None now d s
          else (Inl XCAPError, d, s)
      | NetworkDown \<Rightarrow> (Inl XCAPError, d, s)
      | SocketError \<Rightarrow> (Inl UncaughtError, d, s))"

section \<open>The cache\<close>

text \<open>Tags as HTTP has them: one line, not blank, without blanks around.\<close>

definition tag_ok :: "string \<Rightarrow> bool" where
  "tag_ok e \<longleftrightarrow> e \<noteq> [] \<and> LF \<notin> set e \<and> \<not> ascii_blank (hd e) \<and> \<not> ascii_blank (last e)"

lemma read_line_tag: "tag_ok e \<Longrightarrow> read_line (e @ LF # text) = (e, text) \<and> strip ascii_blank e = e"
proof
  assume e: "tag_ok e"
  then have ne: "\<And>c. c \<in> set e \<Longrightarrow> c \<noteq> LF" unfolding tag_ok_def by blast
  have "takeWhile (\<lambda>c. c \<noteq> LF) (e @ LF # text) = e"
    using takeWhile_append2[of e "\<lambda>c. c \<noteq> LF" "LF # text"] ne by simp
  moreover have "dropWhile (\<lambda>c. c \<noteq> LF) (e @ LF # text) = LF # text"
    using dropWhile_append2[of e "\<lambda>c. c \<noteq> LF" "LF # text"] ne by simp
  ultimately show "read_line (e @ LF # text) = (e, text)" by (simp add: read_line_def)
  show "strip ascii_blank e = e" using e by (intro strip_id) (auto simp: tag_ok_def)
qed

text \<open>What is saved is what a new document of the same name loads.\<close>

definition ops_of ::
  "(string \<Rightarrow> 's \<Rightarrow> (storage_error + string) \<times> 's) \<Rightarrow> (string \<Rightarrow> string \<Rightarrow> 's \<Rightarrow> (storage_error + unit) \<times> 's) \<Rightarrow>
   (string \<Rightarrow> 's \<Rightarrow> (storage_error + unit) \<times> 's) \<Rightarrow> ('s \<Rightarrow> (storage_error + unit) \<times> 's) \<Rightarrow> 's storage_ops" where
  "ops_of load save delete purge = \<lparr>so_load = load, so_save = save, so_delete = delete, so_purge = purge\<rparr>"

context xcap_storage
begin

abbreviation own_ops :: "'s storage_ops" where
  "own_ops \<equiv> ops_of load save delete purge"

lemma save_copy_loaded:
  assumes "save k (e @ LF # text) s = (Inr (), s')" and "tag_ok e" and "pt_parse pt text = Some c"
    and "xd_name d = k" and "xd_cached d"
  shows "fst (load_from_cache pt own_ops now d s') =
         d\<lparr>xd_etag := Some e, xd_content := Some \<lparr>ct_body = c, ct_dirty = False\<rparr>, xd_flag := False, xd_fetch_time := now\<rparr>"
proof -
  obtain s'' where l: "load k s' = (Inr (e @ LF # text), s'')"
    using load_saved[OF assms(1)] by (cases "load k s'") auto
  have "e \<noteq> []" using assms(2) by (simp add: tag_ok_def)
  then show ?thesis
    using l assms read_line_tag[OF assms(2), of "text"] by (simp add: load_from_cache_def ops_of_def Let_def)
qed

lemma fetch_then_load:
  assumes "document_fetch pt own_ops (HttpOk (Some e) text) now d s = (Inr (), d', s')"
    and "save (xd_name d) (e @ LF # text) s = (Inr (), t)" and "tag_ok e" and "xd_cached d"
    and "xd_name n = xd_name d" and "xd_cached n"
  shows "xd_content (fst (load_from_cache pt own_ops later n s')) = xd_content d' \<and>
         xd_etag (fst (load_from_cache pt own_ops later n s')) = xd_etag d' \<and>
         \<not> xd_dirty (fst (load_from_cache pt own_ops later n s'))"
proof -
  from assms(1,2,4) obtain c where c: "pt_parse pt text = Some c" and s': "s' = t"
    and d': "xd_content d' = Some \<lparr>ct_body = c, ct_dirty = False\<rparr>" "xd_etag d' = Some e"
    by (auto simp: document_fetch_def save_copy_def ops_of_def storage_outcome_def split: option.splits)
  show ?thesis
    using save_copy_loaded[OF assms(2,3) c assms(5,6)] s' d' by (simp add: xd_dirty_def)
qed

lemma update_then_load:
  assumes "xd_content d = Some c" and "pt_parse pt (pt_toxml pt (ct_body c)) = Some (ct_body c)"
    and "document_update pt own_ops (HttpOk (Some e) text) now d s = (Inr (), d', s')" and "xd_dirty d"
    and "save (xd_name d) (e @ LF # pt_toxml pt (ct_body c)) s = (Inr (), t)" and "tag_ok e" and "xd_cached d"
    and "xd_name n = xd_name d" and "xd_cached n"
  shows "xd_content (fst (load_from_cache pt own_ops later n s')) = xd_content d' \<and>
         xd_etag (fst (load_from_cache pt own_ops later n s')) = xd_etag d' \<and>
         \<not> xd_dirty (fst (load_from_cache pt own_ops later n s'))"
proof -
  from assms(1,3,4,5,7) have s': "s' = t"
    and d': "xd_content d' = Some \<lparr>ct_body = ct_body c, ct_dirty = False\<rparr>" "xd_etag d' = Some e"
    by (auto simp: document_update_def document_updated_def Let_def save_copy_def ops_of_def storage_outcome_def set_dirty_def)
  show ?thesis
    using save_copy_loaded[OF assms(5,6,2,8,9)] s' d' by (simp add: xd_dirty_def)
qed

end

section \<open>Documents stay clean without operations\<close>

lemma set_dirty_clean [simp]: "\<not> xd_dirty (set_dirty False d)"
  by (auto simp: xd_dirty_def set_dirty_def split: option.splits)

lemma xd_dirty_more [simp]:
  "xd_dirty (d\<lparr>xd_fetch_time := t\<rparr>) = xd_dirty d" "xd_dirty (d\<lparr>xd_update_time := t\<rparr>) = xd_dirty d"
  "xd_dirty (d\<lparr>xd_supported := b\<rparr>) = xd_dirty d"
  by (simp_all add: xd_dirty_def)

lemma set_dirty_supported [simp]: "xd_supported (set_dirty v d) = xd_supported d"
  by (simp add: set_dirty_def)

lemma document_reset_keeps:
  "document_reset ops d s = (r, d', s') \<Longrightarrow>
   xd_supported d' = xd_supported d \<and> (xd_dirty d' \<longrightarrow> xd_dirty d) \<and> (r = Inr () \<longrightarrow> \<not> xd_dirty d')"
  by (auto simp: document_reset_def Let_def split: sum.splits prod.splits if_splits)

lemma fetched_clean [simp]:
  "\<not> xd_dirty (d\<lparr>xd_content := Some \<lparr>ct_body = c, ct_dirty = False\<rparr>, xd_etag := e, xd_flag := False\<rparr>)"
  by (simp add: xd_dirty_def)

lemma document_fetch_keeps:
  "document_fetch pt ops a now d s = (r, d', s') \<Longrightarrow> xd_supported d' = xd_supported d \<and> (xd_dirty d' \<longrightarrow> xd_dirty d)"
  by (auto simp: document_fetch_def Let_def
      split: http_answer.splits option.splits prod.splits sum.splits if_splits dest!: document_reset_keeps)

lemma document_updated_keeps:
  "document_updated pt ops e now d s = (r, d', s') \<Longrightarrow> xd_supported d' = xd_supported d \<and> \<not> xd_dirty d'"
  by (auto simp: document_updated_def Let_def split: option.splits prod.splits if_splits)

lemma document_update_keeps:
  "document_update pt ops a now d s = (r, d', s') \<Longrightarrow>
   xd_supported d' = xd_supported d \<and> (xd_dirty d' \<longrightarrow> xd_dirty d) \<and> (r = Inr () \<longrightarrow> \<not> xd_dirty d')"
  by (auto simp: document_update_def split: if_splits http_answer.splits dest!: document_updated_keeps)

lemma document_initialize_keeps:
  "document_initialize ops auids d s = (Inr (), d', s') \<Longrightarrow> (xd_dirty d' \<longrightarrow> xd_dirty d \<and> xd_supported d')"
  by (auto simp: document_initialize_def Let_def split: if_splits dest!: document_reset_keeps)

definition file_ops :: "file_env \<Rightarrow> file_storage storage_ops" where
  "file_ops env = ops_of (storage_load (readable env)) (storage_save env) (storage_delete env) (storage_purge env)"

text \<open>
  C40. The document that was stored on the server is the document the next process starts
  with. After an update that went through, with the copy written by the file backend, a new
  document of the same name loads from the cache the content that was sent, the version tag the
  server gave it, and no unsaved changes.
\<close>

theorem stored_document_cached:
  assumes "document_update pt (file_ops env) (HttpOk (Some e) answer) now d s = (Inr (), d', s')"
    and "xd_dirty d" and "xd_content d = Some c" and "xd_cached d"
    and "pt_parse pt (pt_toxml pt (ct_body c)) = Some (ct_body c)"
    and "tag_ok e" and "fe_written env" and "fe_renamed env"
    and "xd_name n = xd_name d" and "xd_cached n"
  shows "xd_content (fst (load_from_cache pt (file_ops env) later n s')) = Some \<lparr>ct_body = ct_body c, ct_dirty = False\<rparr> \<and>
         xd_etag (fst (load_from_cache pt (file_ops env) later n s')) = Some e \<and>
         \<not> xd_dirty (fst (load_from_cache pt (file_ops env) later n s'))"
proof -
  obtain t where t: "storage_save env (xd_name d) (e @ LF # pt_toxml pt (ct_body c)) s = (Inr (), t)"
    using assms(7,8) by (auto simp: storage_save_def Let_def)
  have "xd_content d' = Some \<lparr>ct_body = ct_body c, ct_dirty = False\<rparr>" and "xd_etag d' = Some e"
    using assms(1-4) by (auto simp: document_update_def document_updated_def Let_def save_copy_def set_dirty_def split: prod.splits)
  with file_storage.update_then_load[OF assms(3,5) assms(1)[unfolded file_ops_def] assms(2) t assms(6,4,9,10), of later]
  show ?thesis by (simp add: file_ops_def)
qed

definition sample_document :: "string xcap_document" where
  "sample_document = \<lparr>xd_name = ''pidf-manipulation'', xd_application = ''pidf-manipulation'', xd_cached = True,
     xd_content = Some \<lparr>ct_body = ''away'', ct_dirty = True\<rparr>, xd_etag = None, xd_fetch_time = 0, xd_update_time = 0,
     xd_flag = False, xd_supported = True\<rparr>"

definition sample_files :: file_env where
  "sample_files = \<lparr>fe_readable = \<lambda>_. True, fe_unlinkable = \<lambda>_. True, fe_written = True, fe_renamed = True, fe_windows = False\<rparr>"

theorem stored_document_cached_witness:
  "xd_etag (fst (load_from_cache \<lparr>pt_parse = Some, pt_toxml = (\<lambda>x. x)\<rparr> (file_ops sample_files) 2 sample_document
     (snd (snd (document_update \<lparr>pt_parse = Some, pt_toxml = (\<lambda>x. x)\<rparr> (file_ops sample_files) (HttpOk (Some ''v1'') []) 1
        sample_document \<lparr>fs_disk = (\<lambda>_. None), fs_names = {}\<rparr>))))) = Some ''v1''"
proof -
  let ?pt = "\<lparr>pt_parse = Some, pt_toxml = (\<lambda>x. x)\<rparr> :: string payload_type"
  let ?u = "document_update ?pt (file_ops sample_files) (HttpOk (Some ''v1'') []) 1 sample_document \<lparr>fs_disk = (\<lambda>_. None), fs_names = {}\<rparr>"
  have "fst ?u = Inr ()"
    by (simp add: document_update_def document_updated_def Let_def sample_document_def xd_dirty_def save_copy_def file_ops_def
        ops_of_def storage_save_def sample_files_def storage_outcome_def)
  then have "?u = (Inr (), fst (snd ?u), snd (snd ?u))" by (simp add: prod_eq_iff)
  from stored_document_cached[OF this, where n = sample_document and later = 2 and c = "\<lparr>ct_body = ''away'', ct_dirty = True\<rparr>"]
  show ?thesis by (simp add: sample_document_def sample_files_def xd_dirty_def tag_ok_def LF_def ascii_blank_def)
qed

end
