(* ===== verification/Xcap_Manager.thy ===== *)
theory Xcap_Manager
  imports Xcap_Document
begin

text \<open>
  The XCAP manager (class \<open>XCAPManager\<close> of \<open>account/xcap/__init__.py\<close>): the process that
  takes commands from a channel, the journal of operations that were asked for and not yet
  stored on the server, the timer that sends a command again, and the six documents. The
  operation handlers and the loading of the data are parameters here (the handlers of the
  address book are modelled in Xcap_Book); what the network, the storage and the other thread
  do while a command runs is in its environment.
\<close>

section \<open>State\<close>

datatype xcap_state = XStopped | XInitializing | XFetching | XUpdating | XInsync | XTerminated

text \<open>A fetch carries the names of the documents and the time the command was made.\<close>

datatype xcap_command =
    XStart | XStop | XCleanup | XInitialize
  | XReload "string list"
  | XFetch "string list" nat
  | XUpdate

datatype 'op journal_operation = Normalize | Requested 'op

record 'op journal_entry =
  je_operation :: "'op journal_operation"
  je_applied :: bool

datatype xcap_note =
    ManagerDidChangeState xcap_state xcap_state
  | ManagerWillStart | ManagerDidStart | ManagerWillEnd | ManagerDidEnd
  | ManagerDidDiscoverServerCapabilities "string list"
  | ManagerDidReloadData

record ('c, 's, 'op) xcap_manager =
  xm_state :: xcap_state
  xm_alive :: bool
  xm_queue :: "xcap_command list"
  xm_timer :: "xcap_command option"
  xm_docs :: "'c xcap_document list"
  xm_journal :: "'op journal_entry list"
  xm_storage :: 's
  xm_client :: bool
  xm_subscriber :: bool
  xm_transaction :: nat
  xm_deferred :: "(string list \<times> nat) option"
  xm_last_fetch :: nat
  xm_last_update :: nat
  xm_notes :: "xcap_note list"

text \<open>What the manager is made of: the payload classes of the documents by name, the storage,
  the operation handlers, whether the data of the documents can be loaded, what a document's class
  does to its content before it is sent (\<open>ResourceListsDocument.update\<close>), and the pickled form
  of the journal.\<close>

record ('c, 's, 'op) xcap_parts =
  xp_payload :: "string \<Rightarrow> 'c payload_type"
  xp_ops :: "'s storage_ops"
  xp_apply :: "'op journal_operation \<Rightarrow> 'c xcap_document list \<Rightarrow> 'c xcap_document list"
  xp_loads :: "'c xcap_document list \<Rightarrow> bool"
  xp_prepare :: "string \<Rightarrow> 'c xcap_content \<Rightarrow> 'c xcap_content"
  xp_pickle :: "'op journal_entry list \<Rightarrow> string"

text \<open>What happens outside the process.\<close>

datatype 'op xcap_event =
    ScheduleOperation 'op
  | StartTransaction
  | CommitTransaction
  | TimerFires
  | CommandSent xcap_command

datatype caps_answer = CapsFailed | CapsMissing | CapsGot "string list"

record 'op xcap_env =
  xe_now :: nat
  xe_root :: bool
  xe_caps :: caps_answer
  xe_answer :: "string \<Rightarrow> http_answer"
  xe_meanwhile :: "'op xcap_event list"

text \<open>\<open>_set_state\<close> posts a notification when the state changes.\<close>

definition xcap_set_state :: "xcap_state \<Rightarrow> ('c, 's, 'op) xcap_manager \<Rightarrow> ('c, 's, 'op) xcap_manager" where
  "xcap_set_state v m = m\<lparr>xm_state := v,
     xm_notes := xm_notes m @ (if xm_state m \<noteq> v then [ManagerDidChangeState (xm_state m) v] else [])\<rparr>"

definition xcap_post :: "xcap_note \<Rightarrow> ('c, 's, 'op) xcap_manager \<Rightarrow> ('c, 's, 'op) xcap_manager" where
  "xcap_post n m = m\<lparr>xm_notes := xm_notes m @ [n]\<rparr>"

definition xcap_send :: "xcap_command \<Rightarrow> ('c, 's, 'op) xcap_manager \<Rightarrow> ('c, 's, 'op) xcap_manager" where
  "xcap_send c m = m\<lparr>xm_queue := xm_queue m @ [c]\<rparr>"

text \<open>An exception that leaves a handler ends the process, as \<open>ProcExit\<close> does.\<close>

definition xcap_die :: "('c, 's, 'op) xcap_manager \<Rightarrow> ('c, 's, 'op) xcap_manager" where
  "xcap_die m = m\<lparr>xm_alive := False\<rparr>"

definition document_names :: "('c, 's, 'op) xcap_manager \<Rightarrow> string list" where
  "document_names m = map xd_name (xm_docs m)"

definition save_journal :: "('c, 's, 'op) xcap_parts \<Rightarrow> ('c, 's, 'op) xcap_manager \<Rightarrow> ('c, 's, 'op) xcap_manager" where
  "save_journal p m = m\<lparr>xm_storage := snd (so_save (xp_ops p) ''journal'' (xp_pickle p (xm_journal m)) (xm_storage m))\<rparr>"

section \<open>The other thread\<close>

definition schedule_operation :: "('c, 's, 'op) xcap_parts \<Rightarrow> 'op \<Rightarrow> ('c, 's, 'op) xcap_manager \<Rightarrow> ('c, 's, 'op) xcap_manager" where
  "schedule_operation p op m =
     (let m' = m\<lparr>xm_journal := xm_journal m @ [\<lparr>je_operation = Requested op, je_applied = False\<rparr>]\<rparr>
      in if xm_transaction m' = 0 then xcap_send XUpdate (save_journal p m') else m')"

definition start_transaction :: "('c, 's, 'op) xcap_manager \<Rightarrow> ('c, 's, 'op) xcap_manager" where
  "start_transaction m = m\<lparr>xm_transaction := xm_transaction m + 1\<rparr>"

definition commit_transaction :: "('c, 's, 'op) xcap_parts \<Rightarrow> ('c, 's, 'op) xcap_manager \<Rightarrow> ('c, 's, 'op) xcap_manager" where
  "commit_transaction p m =
     (if xm_transaction m = 0 then m
      else let m' = m\<lparr>xm_transaction := xm_transaction m - 1\<rparr>
           in if xm_transaction m' = 0 \<and> xm_journal m' \<noteq> [] then xcap_send XUpdate (save_journal p m') else m')"

definition timer_fires :: "('c, 's, 'op) xcap_manager \<Rightarrow> ('c, 's, 'op) xcap_manager" where
  "timer_fires m = (case xm_timer m of None \<Rightarrow> m | Some c \<Rightarrow> xcap_send c (m\<lparr>xm_timer := None\<rparr>))"

fun handle_event :: "('c, 's, 'op) xcap_parts \<Rightarrow> 'op xcap_event \<Rightarrow> ('c, 's, 'op) xcap_manager \<Rightarrow> ('c, 's, 'op) xcap_manager" where
  "handle_event p (ScheduleOperation op) m = schedule_operation p op m"
| "handle_event p StartTransaction m = start_transaction m"
| "handle_event p CommitTransaction m = commit_transaction p m"
| "handle_event p TimerFires m = timer_fires m"
| "handle_event p (CommandSent c) m = xcap_send c m"

definition meanwhile :: "('c, 's, 'op) xcap_parts \<Rightarrow> 'op xcap_env \<Rightarrow> ('c, 's, 'op) xcap_manager \<Rightarrow> ('c, 's, 'op) xcap_manager" where
  "meanwhile p env m = fold (handle_event p) (xe_meanwhile env) m"

section \<open>Operations on the documents\<close>

text \<open>A step on each document in turn, with the storage threaded through; the first error ends it.\<close>

fun each_document ::
  "('c xcap_document \<Rightarrow> 's \<Rightarrow> (xcap_error + unit) \<times> 'c xcap_document \<times> 's) \<Rightarrow> 'c xcap_document list \<Rightarrow> 's \<Rightarrow>
   (xcap_error + unit) \<times> 'c xcap_document list \<times> 's" where
  "each_document f [] s = (Inr (), [], s)"
| "each_document f (d # ds) s =
     (case f d s of
        (Inl e, d', s') \<Rightarrow> (Inl e, d' # ds, s')
      | (Inr _, d', s') \<Rightarrow> (case each_document f ds s' of (r, ds', s'') \<Rightarrow> (r, d' # ds', s'')))"

text \<open>\<open>_fetch_documents\<close> waits for every worker and raises the error of the last document that
  failed (the workers are taken from the end of the list).\<close>

fun fetch_documents ::
  "('c, 's, 'op) xcap_parts \<Rightarrow> 'op xcap_env \<Rightarrow> string list \<Rightarrow> 'c xcap_document list \<Rightarrow> 's \<Rightarrow>
   (xcap_error + unit) \<times> 'c xcap_document list \<times> 's" where
  "fetch_documents p env names [] s = (Inr (), [], s)"
| "fetch_documents p env names (d # ds) s =
     (let (r, d', s') = (if xd_name d \<in> set names \<and> xd_supported d
                         then document_fetch (xp_payload p (xd_name d)) (xp_ops p) (xe_answer env (xd_name d)) (xe_now env) d s
                         else (Inr (), d, s))
      in case fetch_documents p env names ds s' of
           (r', ds', s'') \<Rightarrow> ((case r' of Inl e \<Rightarrow> Inl e | Inr _ \<Rightarrow> r), d' # ds', s''))"

definition needs_update :: "'c xcap_document \<Rightarrow> bool" where
  "needs_update d \<longleftrightarrow> xd_dirty d \<and> xd_supported d"

definition update_documents ::
  "('c, 's, 'op) xcap_parts \<Rightarrow> 'op xcap_env \<Rightarrow> 'c xcap_document list \<Rightarrow> 's \<Rightarrow> (xcap_error + unit) \<times> 'c xcap_document list \<times> 's" where
  "update_documents p env = each_document (\<lambda>d s. if needs_update d
     then document_update (xp_payload p (xd_name d)) (xp_ops p) (xe_answer env (xd_name d)) (xe_now env)
            (d\<lparr>xd_content := map_option (xp_prepare p (xd_name d)) (xd_content d)\<rparr>) s
     else (Inr (), d, s))"

definition reset_documents ::
  "('c, 's, 'op) xcap_parts \<Rightarrow> ('c xcap_document \<Rightarrow> bool) \<Rightarrow> 'c xcap_document list \<Rightarrow> 's \<Rightarrow>
   (xcap_error + unit) \<times> 'c xcap_document list \<times> 's" where
  "reset_documents p P = each_document (\<lambda>d s. if P d then document_reset (xp_ops p) d s else (Inr (), d, s))"

definition initialize_documents ::
  "('c, 's, 'op) xcap_parts \<Rightarrow> string list \<Rightarrow> 'c xcap_document list \<Rightarrow> 's \<Rightarrow> (xcap_error + unit) \<times> 'c xcap_document list \<times> 's" where
  "initialize_documents p auids = each_document (document_initialize (xp_ops p) auids)"

definition with_documents ::
  "('c, 's, 'op) xcap_manager \<Rightarrow> (xcap_error + unit) \<times> 'c xcap_document list \<times> 's \<Rightarrow> ('c, 's, 'op) xcap_manager" where
  "with_documents m r = m\<lparr>xm_docs := fst (snd r), xm_storage := snd (snd r)\<rparr>"

section \<open>Command handlers\<close>

definition CH_start :: "('c, 's, 'op) xcap_manager \<Rightarrow> ('c, 's, 'op) xcap_manager" where
  "CH_start m =
     (if xm_state m \<noteq> XStopped then m
      else xcap_post ManagerDidStart (xcap_send XInitialize
             (xcap_post ManagerWillStart ((xcap_set_state XInitializing m)\<lparr>xm_subscriber := True\<rparr>))))"

text \<open>Without a subscriber (a process that went on after it was stopped) its \<open>stop\<close> fails.\<close>

definition CH_stop :: "('c, 's, 'op) xcap_parts \<Rightarrow> 'op xcap_env \<Rightarrow> ('c, 's, 'op) xcap_manager \<Rightarrow> ('c, 's, 'op) xcap_manager" where
  "CH_stop p env m =
     (if xm_state m \<in> {XStopped, XTerminated} then m
      else let m' = (xcap_post ManagerWillEnd m)\<lparr>xm_timer := None\<rparr>
           in if \<not> xm_subscriber m' then xcap_die m'
              else xcap_post ManagerDidEnd (save_journal p
                     (xcap_set_state XStopped ((meanwhile p env m')\<lparr>xm_subscriber := False, xm_client := False\<rparr>))))"

definition CH_cleanup :: "('c, 's, 'op) xcap_parts \<Rightarrow> ('c, 's, 'op) xcap_manager \<Rightarrow> ('c, 's, 'op) xcap_manager" where
  "CH_cleanup p m =
     (if xm_state m \<noteq> XStopped then m
      else xcap_die (xcap_set_state XTerminated (m\<lparr>xm_storage := snd (so_purge (xp_ops p) (xm_storage m)), xm_journal := []\<rparr>)))"

definition enough_caps :: "string list \<Rightarrow> bool" where
  "enough_caps auids \<longleftrightarrow> {''resource-lists'', ''rls-services'', ''org.openmobilealliance.pres-rules''} \<subseteq> set auids"

definition retry :: "xcap_command \<Rightarrow> ('c, 's, 'op) xcap_manager \<Rightarrow> ('c, 's, 'op) xcap_manager" where
  "retry c m = m\<lparr>xm_timer := Some c\<rparr>"

definition CH_initialize ::
  "('c, 's, 'op) xcap_parts \<Rightarrow> 'op xcap_env \<Rightarrow> ('c, 's, 'op) xcap_manager \<Rightarrow> ('c, 's, 'op) xcap_manager" where
  "CH_initialize p env m =
     (let m1 = (xcap_set_state XInitializing m)\<lparr>xm_timer := None\<rparr>
      in if \<not> xe_root env then retry XInitialize (meanwhile p env m1)
         else let m2 = meanwhile p env (m1\<lparr>xm_client := True\<rparr>)
              in case xe_caps env of
                   CapsFailed \<Rightarrow> retry XInitialize m2
                 | CapsMissing \<Rightarrow> retry XInitialize m2
                 | CapsGot auids \<Rightarrow>
                     if \<not> enough_caps auids then retry XInitialize m2
                     else let r = initialize_documents p auids (xm_docs m2) (xm_storage m2);
                              m3 = with_documents m2 r
                          in case fst r of
                               Inl _ \<Rightarrow> xcap_die m3
                             | Inr _ \<Rightarrow>
                                 let m4 = xcap_send (XFetch (document_names m3) (xe_now env))
                                            (xcap_set_state XFetching (xcap_post (ManagerDidDiscoverServerCapabilities auids) m3))
                                 in if xm_subscriber m4 then m4 else xcap_die m4)"

definition CH_reload ::
  "('c, 's, 'op) xcap_parts \<Rightarrow> string list \<Rightarrow> ('c, 's, 'op) xcap_manager \<Rightarrow> ('c, 's, 'op) xcap_manager" where
  "CH_reload p modified m =
     (if xm_state m = XTerminated then m
      else let m1 = (if ''__id__'' \<in> set modified
                     then save_journal p (m\<lparr>xm_storage := snd (so_purge (xp_ops p) (xm_storage m)), xm_journal := []\<rparr>) else m);
               r = (if {''__id__'', ''xcap.xcap_root''} \<inter> set modified \<noteq> {}
                    then reset_documents p (\<lambda>_. True) (xm_docs m1) (xm_storage m1) else (Inr (), xm_docs m1, xm_storage m1));
               m2 = with_documents m1 r
           in case fst r of
                Inl _ \<Rightarrow> xcap_die m2
              | Inr _ \<Rightarrow>
                  if xm_state m2 = XStopped then m2
                  else if {''__id__'', ''auth.username'', ''auth.password'', ''xcap.xcap_root''} \<inter> set modified \<noteq> {}
                  then xcap_send XInitialize (xcap_set_state XInitializing m2)
                  else if xm_subscriber m2 then m2 else xcap_die m2)"

text \<open>The documents of a command and of one that waits are fetched together.\<close>

definition merge_names :: "string list \<Rightarrow> string list \<Rightarrow> string list" where
  "merge_names a b = a @ filter (\<lambda>n. n \<notin> set a) b"

definition deferred_names :: "('c, 's, 'op) xcap_manager \<Rightarrow> string list" where
  "deferred_names m = (case xm_deferred m of None \<Rightarrow> [] | Some (ns, _) \<Rightarrow> ns)"

text \<open>A timer that is cancelled by a fetch is a fetch timer; another has no documents.\<close>

definition timer_names :: "('c, 's, 'op) xcap_manager \<Rightarrow> string list option" where
  "timer_names m = (case xm_timer m of None \<Rightarrow> Some [] | Some (XFetch ns _) \<Rightarrow> Some ns | Some _ \<Rightarrow> None)"

definition normalize_first :: "'op journal_entry list \<Rightarrow> 'op journal_entry list" where
  "normalize_first j =
     (if j = [] \<or> je_operation (hd j) \<noteq> Normalize then \<lparr>je_operation = Normalize, je_applied = False\<rparr> # j else j)"

definition CH_fetch ::
  "('c, 's, 'op) xcap_parts \<Rightarrow> 'op xcap_env \<Rightarrow> string list \<Rightarrow> nat \<Rightarrow> ('c, 's, 'op) xcap_manager \<Rightarrow> ('c, 's, 'op) xcap_manager" where
  "CH_fetch p env names time m =
     (let ns = merge_names names (deferred_names m)
      in if xm_state m \<notin> {XInsync, XFetching} then m\<lparr>xm_deferred := Some (ns, time)\<rparr>
         else let m1 = xcap_set_state XFetching (m\<lparr>xm_deferred := None\<rparr>)
              in case timer_names m1 of
                   None \<Rightarrow> xcap_die m1
                 | Some ts \<Rightarrow>
                     let all = merge_names ns ts;
                         m2 = meanwhile p env (m1\<lparr>xm_timer := None\<rparr>);
                         r = fetch_documents p env all (xm_docs m2) (xm_storage m2);
                         m3 = with_documents m2 r
                     in case fst r of
                          Inl XCAPError \<Rightarrow> retry (XFetch all (xe_now env)) m3
                        | Inl _ \<Rightarrow> xcap_die m3
                        | Inr _ \<Rightarrow>
                            let m4 = m3\<lparr>xm_last_fetch := xe_now env\<rparr>
                            in if xm_journal m3 = [] \<and> 0 < xm_last_fetch m3 \<and> (\<forall>d \<in> set (xm_docs m3). xd_fetch_time d < time)
                               then xcap_set_state XInsync m4
                               else xcap_send XUpdate
                                      ((xcap_set_state XUpdating m4)\<lparr>xm_journal := normalize_first (xm_journal m4)\<rparr>))"

text \<open>The handlers of the operations that were not applied yet run in the order of the journal.\<close>

definition apply_pending ::
  "('c, 's, 'op) xcap_parts \<Rightarrow> 'op journal_entry list \<Rightarrow> 'c xcap_document list \<Rightarrow> 'c xcap_document list" where
  "apply_pending p j ds = fold (\<lambda>e. if je_applied e then (\<lambda>ds. ds) else xp_apply p (je_operation e)) j ds"

definition mark :: "bool \<Rightarrow> 'op journal_entry list \<Rightarrow> 'op journal_entry list" where
  "mark v = map (je_applied_update (\<lambda>_. v))"

text \<open>A document that was stored or fetched since the data was last loaded.\<close>

definition data_changed :: "('c, 's, 'op) xcap_manager \<Rightarrow> bool" where
  "data_changed m \<longleftrightarrow> (\<exists>d \<in> set (xm_docs m). xm_last_update m < max (xd_update_time d) (xd_fetch_time d))"

definition update_succeeded ::
  "('c, 's, 'op) xcap_parts \<Rightarrow> 'op xcap_env \<Rightarrow> nat \<Rightarrow> ('c, 's, 'op) xcap_manager \<Rightarrow> ('c, 's, 'op) xcap_manager" where
  "update_succeeded p env n m =
     (let m1 = m\<lparr>xm_journal := drop n (xm_journal m)\<rparr>;
          m2 = (if xm_journal m1 = [] then xcap_set_state XInsync m1 else m1);
          m3 = (if xm_journal m1 = [] \<and> data_changed m2
                then (if xp_loads p (xm_docs m2) then xcap_post ManagerDidReloadData m2 else xcap_die m2) else m2)
      in if \<not> xm_alive m3 then m3
         else let m4 = (if xm_journal m1 = [] then m3\<lparr>xm_last_update := xe_now env\<rparr> else m3);
                  m5 = (case xm_deferred m4 of
                          None \<Rightarrow> m4
                        | Some (ns, t) \<Rightarrow> (xcap_send (XFetch ns t) m4)\<lparr>xm_deferred := None\<rparr>)
              in save_journal p m5)"

definition CH_update ::
  "('c, 's, 'op) xcap_parts \<Rightarrow> 'op xcap_env \<Rightarrow> ('c, 's, 'op) xcap_manager \<Rightarrow> ('c, 's, 'op) xcap_manager" where
  "CH_update p env m =
     (if xm_state m \<notin> {XInsync, XUpdating} \<or> xm_transaction m \<noteq> 0 then m
      else let n = length (xm_journal m);
               m1 = (xcap_set_state XUpdating m)\<lparr>xm_timer := None\<rparr>;
               m2 = meanwhile p env (m1\<lparr>xm_docs := apply_pending p (xm_journal m1) (xm_docs m1), xm_journal := mark True (xm_journal m1)\<rparr>);
               r = update_documents p env (xm_docs m2) (xm_storage m2);
               m3 = with_documents m2 r
           in case fst r of
                Inr _ \<Rightarrow> update_succeeded p env n m3
              | Inl XCAPError \<Rightarrow> retry XUpdate m3
              | Inl UncaughtError \<Rightarrow> xcap_die m3
              | Inl FetchRequiredError \<Rightarrow>
                  let r' = reset_documents p needs_update (xm_docs m3) (xm_storage m3);
                      m4 = with_documents m3 r'
                  in case fst r' of
                       Inl _ \<Rightarrow> xcap_die m4
                     | Inr _ \<Rightarrow> xcap_send (XFetch (document_names m4) (xe_now env)) (xcap_set_state XFetching
                         (m4\<lparr>xm_journal := mark False (take n (xm_journal m4)) @ drop n (xm_journal m4)\<rparr>)))"

fun handle_command ::
  "('c, 's, 'op) xcap_parts \<Rightarrow> 'op xcap_env \<Rightarrow> xcap_command \<Rightarrow> ('c, 's, 'op) xcap_manager \<Rightarrow> ('c, 's, 'op) xcap_manager" where
  "handle_command p env XStart m = CH_start m"
| "handle_command p env XStop m = CH_stop p env m"
| "handle_command p env XCleanup m = CH_cleanup p m"
| "handle_command p env XInitialize m = CH_initialize p env m"
| "handle_command p env (XReload modified) m = CH_reload p modified m"
| "handle_command p env (XFetch names time) m = CH_fetch p env names time m"
| "handle_command p env XUpdate m = CH_update p env m"

text \<open>The process takes the next command; something else may happen between two commands.\<close>

datatype 'op xcap_step = ProcessStep "'op xcap_env" | OtherStep "'op xcap_event"

fun step_manager :: "('c, 's, 'op) xcap_parts \<Rightarrow> 'op xcap_step \<Rightarrow> ('c, 's, 'op) xcap_manager \<Rightarrow> ('c, 's, 'op) xcap_manager" where
  "step_manager p (OtherStep e) m = handle_event p e m"
| "step_manager p (ProcessStep env) m =
     (if \<not> xm_alive m then m
      else case xm_queue m of
        [] \<Rightarrow> m
      | c # q \<Rightarrow> handle_command p env c (m\<lparr>xm_queue := q\<rparr>))"

text \<open>A manager that was just made: the documents come from the cache, the operations of the
  saved journal count as not applied.\<close>

definition new_manager :: "'c xcap_document list \<Rightarrow> 'op journal_entry list \<Rightarrow> 's \<Rightarrow> ('c, 's, 'op) xcap_manager" where
  "new_manager docs journal storage =
     \<lparr>xm_state = XStopped, xm_alive = True, xm_queue = [], xm_timer = None, xm_docs = docs, xm_journal = mark False journal,
      xm_storage = storage, xm_client = False, xm_subscriber = False, xm_transaction = 0, xm_deferred = None,
      xm_last_fetch = 0, xm_last_update = 0, xm_notes = []\<rparr>"

definition run_manager ::
  "('c, 's, 'op) xcap_parts \<Rightarrow> 'op xcap_step list \<Rightarrow> ('c, 's, 'op) xcap_manager \<Rightarrow> ('c, 's, 'op) xcap_manager" where
  "run_manager p steps m = fold (step_manager p) steps m"

end
