(* ===== verification/Xcap_Working.thy ===== *)
theory Xcap_Working
  imports Xcap_Manager
begin

text \<open>
  What holds of every run of the XCAP manager: it never rests in a state in which it waits for
  a command nobody will send, an operation stays in the journal until the documents were stored,
  and two runs in which this goes wrong: a stop that comes before the initialization, and
  changes that are dropped when the server changes.
\<close>

section \<open>What the documents and events leave alone\<close>

lemma each_document_all:
  assumes "\<And>d s r d' s'. f d s = (r, d', s') \<Longrightarrow> P d \<Longrightarrow> Q d'"
    and "\<And>d. P d \<Longrightarrow> Q d"
    and "each_document f ds s = (r, ds', s')" and "\<forall>d \<in> set ds. P d"
  shows "\<forall>d \<in> set ds'. Q d"
  using assms(3,4)
proof (induction ds arbitrary: s r ds' s')
  case (Cons d ds)
  obtain r1 d1 s1 where f: "f d s = (r1, d1, s1)" by (metis prod_cases3)
  obtain r2 ds2 s2 where rest: "each_document f ds s1 = (r2, ds2, s2)" by (metis prod_cases3)
  have "Q d1" using assms(1)[OF f] Cons.prems(2) by simp
  moreover have "\<forall>d \<in> set ds2. Q d" using Cons.IH[OF rest] Cons.prems(2) by simp
  moreover have "\<forall>d \<in> set ds. Q d" using assms(2) Cons.prems(2) by simp
  ultimately show ?case using Cons.prems(1) f rest by (auto split: sum.splits)
qed simp

lemma each_document_Inr:
  assumes "\<And>d s d' s'. f d s = (Inr (), d', s') \<Longrightarrow> P d \<Longrightarrow> Q d'"
    and "each_document f ds s = (Inr (), ds', s')" and "\<forall>d \<in> set ds. P d"
  shows "\<forall>d \<in> set ds'. Q d"
  using assms(2,3)
proof (induction ds arbitrary: s ds' s')
  case (Cons d ds)
  obtain r1 d1 s1 where f: "f d s = (r1, d1, s1)" by (metis prod_cases3)
  obtain r2 ds2 s2 where rest: "each_document f ds s1 = (r2, ds2, s2)" by (metis prod_cases3)
  from Cons.prems(1) f rest have r: "r1 = Inr ()" "r2 = Inr ()" "ds' = d1 # ds2"
    by (auto split: sum.splits)
  have "Q d1" using assms(1)[of d s d1 s1] f r Cons.prems(2) by simp
  moreover have "\<forall>d \<in> set ds2. Q d" using Cons.IH[of s1 ds2 s2] rest r Cons.prems(2) by simp
  ultimately show ?case using r by simp
qed simp

lemma each_document_id:
  assumes "\<And>d s. d \<in> set ds \<Longrightarrow> f d s = (Inr (), d, s)"
  shows "each_document f ds s = (Inr (), ds, s)"
  using assms by (induction ds arbitrary: s) simp_all

lemma fetch_documents_all:
  assumes "fetch_documents p env ns ds s = (r, ds', s')" and "\<forall>d \<in> set ds. P (xd_supported d) (xd_dirty d)"
    and "\<And>b. P b True \<Longrightarrow> P b False"
  shows "\<forall>d \<in> set ds'. P (xd_supported d) (xd_dirty d)"
  using assms(1,2)
proof (induction ds arbitrary: s r ds' s')
  case (Cons d ds)
  let ?f = "if xd_name d \<in> set ns \<and> xd_supported d
     then document_fetch (xp_payload p (xd_name d)) (xp_ops p) (xe_answer env (xd_name d)) (xe_now env) d s
     else (Inr (), d, s)"
  obtain r1 d1 s1 where f: "?f = (r1, d1, s1)" by (metis prod_cases3)
  obtain r2 ds2 s2 where rest: "fetch_documents p env ns ds s1 = (r2, ds2, s2)" by (metis prod_cases3)
  have "xd_supported d1 = xd_supported d \<and> (xd_dirty d1 \<longrightarrow> xd_dirty d)"
    using f by (auto split: if_splits dest!: document_fetch_keeps)
  moreover have "P (xd_supported d) (xd_dirty d)" using Cons.prems(2) by simp
  ultimately have "P (xd_supported d1) (xd_dirty d1)" using assms(3) by (cases "xd_dirty d"; cases "xd_dirty d1") auto
  moreover have "\<forall>d \<in> set ds2. P (xd_supported d) (xd_dirty d)" using Cons.IH[OF rest] Cons.prems(2) by simp
  moreover have "ds' = d1 # ds2" using Cons.prems(1) f rest by simp
  ultimately show ?case by simp
qed simp

text \<open>The events of the other thread: the state, the documents and what waits are left alone,
  the channel and the journal only grow.\<close>

definition passes :: "('c, 's, 'op) xcap_manager \<Rightarrow> ('c, 's, 'op) xcap_manager \<Rightarrow> bool" where
  "passes m m' \<longleftrightarrow>
     xm_state m' = xm_state m \<and> xm_alive m' = xm_alive m \<and> xm_docs m' = xm_docs m \<and>
     xm_deferred m' = xm_deferred m \<and> xm_subscriber m' = xm_subscriber m \<and>
     xm_last_fetch m' = xm_last_fetch m \<and> xm_last_update m' = xm_last_update m \<and>
     (\<exists>q. xm_queue m' = xm_queue m @ q \<and>
       (xm_timer m' = xm_timer m \<or> (xm_timer m' = None \<and> (\<exists>c. xm_timer m = Some c \<and> c \<in> set q)))) \<and>
     (\<exists>j. xm_journal m' = xm_journal m @ j)"

lemma passes_refl: "passes m m"
  by (simp add: passes_def)

lemma passes_trans: "passes a b \<Longrightarrow> passes b c \<Longrightarrow> passes a c"
  unfolding passes_def by (elim conjE exE disjE) auto

lemma handle_event_passes: "passes m (handle_event p e m)"
  by (cases e) (auto simp: passes_def schedule_operation_def start_transaction_def commit_transaction_def timer_fires_def
      xcap_send_def save_journal_def Let_def split: option.splits)

lemma meanwhile_passes: "passes m (meanwhile p env m)"
proof -
  have "passes m (fold (handle_event p) es m)" for es
    by (induction es arbitrary: m) (auto intro: passes_refl passes_trans handle_event_passes)
  then show ?thesis by (simp add: meanwhile_def)
qed

text \<open>An operation that is added brings an update command with it, or waits for the end of a
  transaction.\<close>

definition update_due :: "('c, 's, 'op) xcap_manager \<Rightarrow> bool" where
  "update_due m \<longleftrightarrow> XUpdate \<in> set (xm_queue m) \<or> 0 < xm_transaction m"


lemma handle_event_due:
  assumes "update_due m \<or> xm_journal m = J" and "\<exists>j. xm_journal m = J @ j"
  shows "update_due (handle_event p e m) \<or> xm_journal (handle_event p e m) = J"
  using assms
  by (cases e) (auto simp: update_due_def schedule_operation_def start_transaction_def commit_transaction_def timer_fires_def
      xcap_send_def save_journal_def Let_def split: option.splits)

lemma meanwhile_due:
  "update_due (meanwhile p env m) \<or> xm_journal (meanwhile p env m) = xm_journal m"
proof -
  have "update_due (fold (handle_event p) es m') \<or> xm_journal (fold (handle_event p) es m') = xm_journal m"
    if "update_due m' \<or> xm_journal m' = xm_journal m" "\<exists>j. xm_journal m' = xm_journal m @ j" for es m'
    using that
  proof (induction es arbitrary: m')
    case (Cons e es)
    have "passes m' (handle_event p e m')" by (rule handle_event_passes)
    then have "\<exists>j. xm_journal (handle_event p e m') = xm_journal m @ j"
      using Cons.prems(2) by (auto simp: passes_def)
    with Cons.IH[of "handle_event p e m'"] handle_event_due[OF Cons.prems] show ?case by simp
  qed simp
  then show ?thesis by (simp add: meanwhile_def)
qed

section \<open>The invariant\<close>

definition awaits :: "(xcap_command \<Rightarrow> bool) \<Rightarrow> ('c, 's, 'op) xcap_manager \<Rightarrow> bool" where
  "awaits P m \<longleftrightarrow> (\<exists>c \<in> set (xm_queue m). P c) \<or> (\<exists>c. xm_timer m = Some c \<and> P c)"

fun is_fetch :: "xcap_command \<Rightarrow> bool" where
  "is_fetch (XFetch ns t) \<longleftrightarrow> True"
| "is_fetch _ \<longleftrightarrow> False"

text \<open>
  While it lives, the manager waits for a command that was sent or that its timer will send: an
  initialization when it initializes, a fetch when it fetches; with operations in the journal an
  update, unless a transaction is open, whose end sends it. In sync no fetch is kept back.
\<close>

definition manager_works :: "('c, 's, 'op) xcap_manager \<Rightarrow> bool" where
  "manager_works m \<longleftrightarrow> (case xm_state m of
     XInitializing \<Rightarrow> awaits (\<lambda>c. c = XInitialize) m
   | XFetching \<Rightarrow> awaits is_fetch m
   | XUpdating \<Rightarrow> xm_journal m \<noteq> [] \<and> (awaits (\<lambda>c. c = XUpdate) m \<or> 0 < xm_transaction m)
   | XInsync \<Rightarrow> (xm_journal m \<noteq> [] \<longrightarrow> update_due m) \<and> xm_deferred m = None
   | _ \<Rightarrow> True)"

definition docs_clean :: "('c, 's, 'op) xcap_manager \<Rightarrow> bool" where
  "docs_clean m \<longleftrightarrow> (\<forall>d \<in> set (xm_docs m). xd_dirty d \<longrightarrow> xd_supported d \<and> xm_journal m \<noteq> [])"

text \<open>
  The three applications an account cannot do without; once the manager fetches, the server
  supports them. A handler may change only documents that are supported, provided those three
  are, and leaves the list of documents as it is.
\<close>

definition required_supported :: "'c xcap_document list \<Rightarrow> bool" where
  "required_supported ds \<longleftrightarrow> (\<forall>d \<in> set ds.
     xd_application d \<in> {''resource-lists'', ''rls-services'', ''org.openmobilealliance.pres-rules''} \<longrightarrow> xd_supported d)"

definition handlers_sane :: "('c, 's, 'op) xcap_parts \<Rightarrow> bool" where
  "handlers_sane p \<longleftrightarrow> (\<forall>op ds.
     map (\<lambda>d. (xd_application d, xd_supported d)) (xp_apply p op ds) = map (\<lambda>d. (xd_application d, xd_supported d)) ds \<and>
     (required_supported ds \<longrightarrow> (\<forall>d \<in> set ds. xd_dirty d \<longrightarrow> xd_supported d) \<longrightarrow>
       (\<forall>d \<in> set (xp_apply p op ds). xd_dirty d \<longrightarrow> xd_supported d)))"

definition docs_ready :: "('c, 's, 'op) xcap_manager \<Rightarrow> bool" where
  "docs_ready m \<longleftrightarrow> (xm_state m \<in> {XFetching, XUpdating, XInsync} \<longrightarrow> required_supported (xm_docs m))"

lemma required_supported_map:
  fixes ds ds' :: "'c xcap_document list"
  assumes "map (\<lambda>d. (xd_application d, xd_supported d)) ds' = map (\<lambda>d. (xd_application d, xd_supported d)) ds"
  shows "required_supported ds' = required_supported ds"
proof -
  have alt: "required_supported ds \<longleftrightarrow> list_all (\<lambda>(a, b). a \<in> {''resource-lists'', ''rls-services'', ''org.openmobilealliance.pres-rules''} \<longrightarrow> b)
          (map (\<lambda>d. (xd_application d, xd_supported d)) ds)" for ds :: "'c xcap_document list"
    by (simp add: required_supported_def list_all_iff)
  show ?thesis unfolding alt assms ..
qed

lemma each_document_parts:
  assumes "\<And>d s r d' s'. f d s = (r, d', s') \<Longrightarrow> g d' = g d" and "each_document f ds s = (r, ds', s')"
  shows "map g ds' = map g ds"
  using assms(2)
proof (induction ds arbitrary: s r ds' s')
  case (Cons d ds)
  obtain r1 d1 s1 where f: "f d s = (r1, d1, s1)" by (metis prod_cases3)
  obtain r2 ds2 s2 where rest: "each_document f ds s1 = (r2, ds2, s2)" by (metis prod_cases3)
  show ?case
    using Cons.prems f rest Cons.IH[OF rest] assms(1)[OF f] by (auto split: sum.splits)
qed simp

lemma document_parts:
  "document_reset ops d s = (r, d', s') \<Longrightarrow> xd_application d' = xd_application d \<and> xd_supported d' = xd_supported d"
  "document_fetch pt ops a now d s = (r, d', s') \<Longrightarrow> xd_application d' = xd_application d \<and> xd_supported d' = xd_supported d"
  "document_update pt ops a now d s = (r, d', s') \<Longrightarrow> xd_application d' = xd_application d \<and> xd_supported d' = xd_supported d"
proof -
  have reset: "document_reset ops d s = (r, d', s') \<Longrightarrow> xd_application d' = xd_application d \<and> xd_supported d' = xd_supported d"
    for ops d s r d' s'
    by (auto simp: document_reset_def Let_def set_dirty_def split: prod.splits sum.splits if_splits)
  then show "document_reset ops d s = (r, d', s') \<Longrightarrow> xd_application d' = xd_application d \<and> xd_supported d' = xd_supported d" .
  show "document_fetch pt ops a now d s = (r, d', s') \<Longrightarrow> xd_application d' = xd_application d \<and> xd_supported d' = xd_supported d"
    by (auto simp: document_fetch_def Let_def split: http_answer.splits option.splits prod.splits sum.splits if_splits dest!: reset)
  show "document_update pt ops a now d s = (r, d', s') \<Longrightarrow> xd_application d' = xd_application d \<and> xd_supported d' = xd_supported d"
    by (auto simp: document_update_def document_updated_def Let_def set_dirty_def
        split: http_answer.splits option.splits prod.splits if_splits)
qed

lemma reset_documents_parts:
  "reset_documents p P ds s = (r, ds', s') \<Longrightarrow> required_supported ds' = required_supported ds"
  unfolding reset_documents_def
  by (rule required_supported_map, rule each_document_parts[rotated], assumption)
    (auto split: if_splits dest!: document_parts)

lemma update_documents_parts:
  "update_documents p env ds s = (r, ds', s') \<Longrightarrow> required_supported ds' = required_supported ds"
  unfolding update_documents_def
  by (rule required_supported_map, rule each_document_parts[rotated], assumption)
    (auto split: if_splits dest!: document_parts)

lemma fetch_documents_parts:
  "fetch_documents p env ns ds s = (r, ds', s') \<Longrightarrow> required_supported ds' = required_supported ds"
proof (rule required_supported_map)
  show "fetch_documents p env ns ds s = (r, ds', s') \<Longrightarrow>
    map (\<lambda>d. (xd_application d, xd_supported d)) ds' = map (\<lambda>d. (xd_application d, xd_supported d)) ds"
  proof (induction ds arbitrary: s r ds' s')
    case (Cons d ds)
    let ?f = "if xd_name d \<in> set ns \<and> xd_supported d
       then document_fetch (xp_payload p (xd_name d)) (xp_ops p) (xe_answer env (xd_name d)) (xe_now env) d s
       else (Inr (), d, s)"
    obtain r1 d1 s1 where f: "?f = (r1, d1, s1)" by (metis prod_cases3)
    obtain r2 ds2 s2 where rest: "fetch_documents p env ns ds s1 = (r2, ds2, s2)" by (metis prod_cases3)
    have "xd_application d1 = xd_application d \<and> xd_supported d1 = xd_supported d"
      using f by (auto split: if_splits dest!: document_parts)
    moreover have "ds' = d1 # ds2" using Cons.prems f rest by simp
    ultimately show ?case using Cons.IH[OF rest] by simp
  qed simp
qed

lemma initialize_documents_parts:
  assumes "initialize_documents p auids ds s = (Inr (), ds', s')" and "enough_caps auids"
  shows "required_supported ds'"
proof -
  have "\<forall>d \<in> set ds'. xd_supported d = (xd_application d \<in> set auids)"
    using assms(1) unfolding initialize_documents_def
    by (rule each_document_Inr[where P = "\<lambda>_. True", rotated])
      (auto simp: document_initialize_def Let_def split: if_splits dest!: document_parts)
  then show ?thesis using assms(2) by (auto simp: required_supported_def enough_caps_def)
qed

lemma apply_pending_parts:
  "handlers_sane p \<Longrightarrow> required_supported (apply_pending p j ds) = required_supported ds"
proof (induction j arbitrary: ds)
  case (Cons e j)
  have "required_supported (xp_apply p (je_operation e) ds) = required_supported ds"
    using Cons.prems unfolding handlers_sane_def by (intro required_supported_map) blast
  then show ?case using Cons by (simp add: apply_pending_def)
qed (simp add: apply_pending_def)

definition xcap_inv :: "('c, 's, 'op) xcap_manager \<Rightarrow> bool" where
  "xcap_inv m \<longleftrightarrow> (xm_alive m \<longrightarrow> manager_works m \<and> docs_clean m \<and> docs_ready m)"

lemma awaits_passes: "passes m m' \<Longrightarrow> awaits P m \<Longrightarrow> awaits P m'"
  unfolding passes_def awaits_def by (elim conjE exE disjE) auto

lemma handle_event_works:
  assumes "manager_works m"
  shows "manager_works (handle_event p e m)"
proof -
  have pass: "passes m (handle_event p e m)" by (rule handle_event_passes)
  note keep = awaits_passes[OF pass]
  have st: "xm_state (handle_event p e m) = xm_state m" and df: "xm_deferred (handle_event p e m) = xm_deferred m"
    and j: "xm_journal m \<noteq> [] \<Longrightarrow> xm_journal (handle_event p e m) \<noteq> []"
    using pass by (auto simp: passes_def)
  have due: "update_due m \<or> xm_journal m = [] \<Longrightarrow>
      xm_journal (handle_event p e m) \<noteq> [] \<Longrightarrow> update_due (handle_event p e m)"
    using handle_event_due[of m "[]" p e] by auto
  have upd: "awaits (\<lambda>c. c = XUpdate) (handle_event p e m) \<or> 0 < xm_transaction (handle_event p e m)"
    if "xm_journal m \<noteq> []" "0 < xm_transaction m"
  proof -
    have "update_due (handle_event p e m)" using due j that by (simp add: update_due_def)
    then show ?thesis by (auto simp: update_due_def awaits_def)
  qed
  show ?thesis
  proof (cases "xm_state m")
    case XInitializing
    then show ?thesis using assms keep by (simp add: manager_works_def st)
  next
    case XFetching
    then show ?thesis using assms keep by (simp add: manager_works_def st)
  next
    case XUpdating
    then show ?thesis using assms keep upd j by (auto simp: manager_works_def st)
  next
    case XInsync
    then show ?thesis using assms due df by (auto simp: manager_works_def st)
  qed (simp_all add: manager_works_def st)
qed

lemma handle_event_inv: "xcap_inv m \<Longrightarrow> xcap_inv (handle_event p e m)"
proof -
  assume inv: "xcap_inv m"
  have pass: "passes m (handle_event p e m)" by (rule handle_event_passes)
  then have alive: "xm_alive (handle_event p e m) = xm_alive m" and docs: "xm_docs (handle_event p e m) = xm_docs m"
    and j: "xm_journal m \<noteq> [] \<Longrightarrow> xm_journal (handle_event p e m) \<noteq> []"
    by (auto simp: passes_def)
  have "docs_clean m \<Longrightarrow> docs_clean (handle_event p e m)" using j by (simp add: docs_clean_def docs)
  moreover have "docs_ready m \<Longrightarrow> docs_ready (handle_event p e m)" using pass by (simp add: docs_ready_def passes_def)
  ultimately show ?thesis using inv handle_event_works by (auto simp: xcap_inv_def alive)
qed

lemma meanwhile_same:
  "xm_state (meanwhile p env m) = xm_state m" "xm_alive (meanwhile p env m) = xm_alive m"
  "xm_docs (meanwhile p env m) = xm_docs m" "xm_deferred (meanwhile p env m) = xm_deferred m"
  "xm_subscriber (meanwhile p env m) = xm_subscriber m"
  "xm_last_fetch (meanwhile p env m) = xm_last_fetch m" "xm_last_update (meanwhile p env m) = xm_last_update m"
  using meanwhile_passes[of m p env] by (simp_all add: passes_def)

lemma meanwhile_journal: "\<exists>j. xm_journal (meanwhile p env m) = xm_journal m @ j"
  using meanwhile_passes[of m p env] by (simp add: passes_def)

lemma meanwhile_timer: "xm_timer m = None \<Longrightarrow> xm_timer (meanwhile p env m) = None"
  using meanwhile_passes[of m p env] by (auto simp: passes_def)

section \<open>Handlers keep the invariant\<close>

lemma inv_start:
  assumes "xcap_inv (m\<lparr>xm_queue := XStart # q\<rparr>)" and "xm_queue m = q"
  shows "xcap_inv (CH_start m)"
  using assms
  by (cases "xm_state m")
    (auto simp: xcap_inv_def CH_start_def manager_works_def awaits_def update_due_def docs_clean_def docs_ready_def xcap_post_def xcap_send_def xcap_set_state_def)

lemma inv_stop:
  assumes "xcap_inv (m\<lparr>xm_queue := XStop # q\<rparr>)" and "xm_queue m = q"
  shows "xcap_inv (CH_stop p env m)"
proof -
  let ?m = "(xcap_post ManagerWillEnd m)\<lparr>xm_timer := None\<rparr>"
  obtain j where j: "xm_journal (meanwhile p env ?m) = xm_journal ?m @ j" using meanwhile_journal by blast
  have docs: "xm_docs (meanwhile p env ?m) = xm_docs m" by (simp add: meanwhile_same xcap_post_def)
  show ?thesis
  proof (cases "xm_state m \<in> {XStopped, XTerminated}")
    case True
    then show ?thesis
      using assms by (auto simp: xcap_inv_def CH_stop_def manager_works_def docs_clean_def docs_ready_def)
  next
    case False
    then show ?thesis
      using assms j docs
      by (auto simp: xcap_inv_def CH_stop_def Let_def xcap_die_def manager_works_def docs_clean_def docs_ready_def save_journal_def xcap_set_state_def
          xcap_post_def meanwhile_same)
  qed
qed

lemma inv_cleanup:
  assumes "xcap_inv (m\<lparr>xm_queue := XCleanup # q\<rparr>)" and "xm_queue m = q"
  shows "xcap_inv (CH_cleanup p m)"
  using assms
  by (cases "xm_state m") (auto simp: xcap_inv_def CH_cleanup_def manager_works_def awaits_def update_due_def docs_clean_def docs_ready_def xcap_die_def)

lemma docs_clean_grows:
  assumes "docs_clean m" and "xm_docs m' = xm_docs m" and "xm_journal m' = xm_journal m @ j"
  shows "docs_clean m'"
  using assms by (auto simp: docs_clean_def docs_ready_def)

lemma inv_retry_initialize:
  assumes "docs_clean m" and "xm_docs m' = xm_docs m" and "xm_journal m' = xm_journal m @ j" and "xm_state m' = XInitializing"
  shows "xcap_inv (retry XInitialize m')"
  using docs_clean_grows[OF assms(1-3)] assms(4)
  by (simp add: xcap_inv_def manager_works_def awaits_def retry_def docs_clean_def docs_ready_def)

lemma initialize_documents_clean:
  assumes "initialize_documents p auids ds s = (Inr (), ds', s')" and "\<forall>d \<in> set ds. xd_dirty d \<longrightarrow> J"
  shows "\<forall>d \<in> set ds'. xd_dirty d \<longrightarrow> xd_supported d \<and> J"
  using assms(1) unfolding initialize_documents_def
  by (rule each_document_Inr[where P = "\<lambda>d. xd_dirty d \<longrightarrow> J", rotated]) (auto simp: assms(2) dest!: document_initialize_keeps)

lemma inv_initialize:
  assumes "xcap_inv (m\<lparr>xm_queue := XInitialize # q\<rparr>)" and "xm_queue m = q" and "xm_alive m"
  shows "xcap_inv (CH_initialize p env m)"
proof -
  let ?m0 = "(xcap_set_state XInitializing m)\<lparr>xm_timer := None\<rparr>"
  have clean: "docs_clean m" using assms by (simp add: xcap_inv_def docs_clean_def docs_ready_def)
  obtain j0 where j0: "xm_journal (meanwhile p env ?m0) = xm_journal m @ j0"
    using meanwhile_journal[of p env ?m0] by (auto simp: xcap_set_state_def)
  obtain j1 where j1: "xm_journal (meanwhile p env (?m0\<lparr>xm_client := True\<rparr>)) = xm_journal m @ j1"
    using meanwhile_journal[of p env "?m0\<lparr>xm_client := True\<rparr>"] by (auto simp: xcap_set_state_def)
  define m2 where "m2 = meanwhile p env (?m0\<lparr>xm_client := True\<rparr>)"
  have m2: "xm_docs m2 = xm_docs m" "xm_state m2 = XInitializing" "xm_journal m2 = xm_journal m @ j1"
    using j1 by (simp_all add: m2_def meanwhile_same) (simp_all add: xcap_set_state_def)
  have again: "xcap_inv (retry XInitialize m2)" "xcap_inv (retry XInitialize (meanwhile p env ?m0))"
    using inv_retry_initialize[OF clean m2(1,3,2)] inv_retry_initialize[OF clean _ j0]
    by (simp_all add: meanwhile_same) (simp_all add: xcap_set_state_def)
  show ?thesis
  proof (cases "xe_root env")
    case root: True
    show ?thesis
    proof (cases "xe_caps env")
      case (CapsGot auids)
      obtain r ds s where init: "initialize_documents p auids (xm_docs m2) (xm_storage m2) = (r, ds, s)" by (metis prod_cases3)
      show ?thesis
      proof (cases "enough_caps auids \<and> r = Inr () \<and> xm_subscriber m2")
        case True
        have ready: "required_supported ds" using initialize_documents_parts[of p auids "xm_docs m2"] init True by simp
        have "\<forall>d \<in> set (xm_docs m2). xd_dirty d \<longrightarrow> xm_journal m2 \<noteq> []"
          using clean m2 by (auto simp: docs_clean_def docs_ready_def)
        with initialize_documents_clean[of p auids "xm_docs m2" "xm_storage m2" ds s "xm_journal m2 \<noteq> []"] init True
        have "\<forall>d \<in> set ds. xd_dirty d \<longrightarrow> xd_supported d \<and> xm_journal m2 \<noteq> []" by simp
        then show ?thesis
          unfolding CH_initialize_def Let_def m2_def[symmetric]
          using True root CapsGot init ready
          by (simp add: with_documents_def xcap_inv_def manager_works_def awaits_def
              docs_clean_def docs_ready_def xcap_set_state_def xcap_post_def xcap_send_def)
      next
        case False
        then show ?thesis
          unfolding CH_initialize_def Let_def m2_def[symmetric]
          using again root CapsGot init
          by (auto simp: with_documents_def xcap_die_def xcap_inv_def
              xcap_set_state_def xcap_post_def xcap_send_def split: sum.splits)
      qed
    qed (use again root in \<open>simp_all add: CH_initialize_def Let_def m2_def\<close>)
  qed (use again in \<open>simp add: CH_initialize_def Let_def\<close>)
qed

lemma reset_documents_all:
  assumes "reset_documents p (\<lambda>_. True) ds s = (Inr (), ds', s')"
  shows "\<forall>d \<in> set ds'. \<not> xd_dirty d"
  using assms unfolding reset_documents_def
  by (rule each_document_Inr[where P = "\<lambda>_. True", rotated]) (use document_reset_keeps in \<open>fastforce+\<close>)

lemma inv_reload:
  assumes "xcap_inv (m\<lparr>xm_queue := XReload modified # q\<rparr>)" and "xm_queue m = q" and "xm_alive m"
  shows "xcap_inv (CH_reload p modified m)"
proof -
  define m1 where "m1 = (if ''__id__'' \<in> set modified
     then save_journal p (m\<lparr>xm_storage := snd (so_purge (xp_ops p) (xm_storage m)), xm_journal := []\<rparr>) else m)"
  define R where "R \<longleftrightarrow> {''__id__'', ''xcap.xcap_root''} \<inter> set modified \<noteq> {}"
  define r where "r = (if R then reset_documents p (\<lambda>_. True) (xm_docs m1) (xm_storage m1)
     else (Inr (), xm_docs m1, xm_storage m1))"
  have W: "manager_works m" "docs_clean m" "docs_ready m"
    using assms by (auto simp: xcap_inv_def docs_clean_def docs_ready_def manager_works_def awaits_def update_due_def split: xcap_state.splits)
  have m1: "xm_state m1 = xm_state m" "xm_docs m1 = xm_docs m" "xm_queue m1 = xm_queue m" "xm_timer m1 = xm_timer m"
    "xm_transaction m1 = xm_transaction m" "xm_deferred m1 = xm_deferred m" "xm_alive m1 = xm_alive m"
    "''__id__'' \<notin> set modified \<Longrightarrow> xm_journal m1 = xm_journal m"
    by (simp_all add: m1_def save_journal_def)
  have id: "''__id__'' \<in> set modified \<Longrightarrow> R" by (auto simp: R_def)
  have clean: "\<forall>d \<in> set (fst (snd r)). xd_dirty d \<longrightarrow> xd_supported d \<and> xm_journal m1 \<noteq> []" if "fst r = Inr ()"
  proof (cases R)
    case True
    then have "reset_documents p (\<lambda>_. True) (xm_docs m1) (xm_storage m1) = (Inr (), fst (snd r), snd (snd r))"
      using that by (simp add: r_def prod_eq_iff)
    from reset_documents_all[OF this] show ?thesis by blast
  next
    case False
    then have "''__id__'' \<notin> set modified" using id by blast
    then show ?thesis using False W(2) m1 by (simp add: r_def docs_clean_def docs_ready_def)
  qed
  have ready: "required_supported (fst (snd r)) = required_supported (xm_docs m)"
  proof (cases R)
    case True
    have "reset_documents p (\<lambda>_. True) (xm_docs m1) (xm_storage m1) = (fst r, fst (snd r), snd (snd r))"
      using True by (simp add: r_def)
    from reset_documents_parts[OF this] show ?thesis by (simp add: m1)
  qed (simp add: r_def m1)
  have eq: "CH_reload p modified m = (if xm_state m = XTerminated then m else
      (case fst r of Inl _ \<Rightarrow> xcap_die (with_documents m1 r)
       | Inr _ \<Rightarrow> if xm_state (with_documents m1 r) = XStopped then with_documents m1 r
          else if {''__id__'', ''auth.username'', ''auth.password'', ''xcap.xcap_root''} \<inter> set modified \<noteq> {}
          then xcap_send XInitialize (xcap_set_state XInitializing (with_documents m1 r))
          else if xm_subscriber (with_documents m1 r) then with_documents m1 r else xcap_die (with_documents m1 r)))"
    unfolding CH_reload_def Let_def m1_def[symmetric] R_def[symmetric] r_def[symmetric] ..
  show ?thesis
  proof (cases "xm_state m = XTerminated \<or> fst r \<noteq> Inr ()")
    case True
    then show ?thesis
      using W by (cases "fst r") (auto simp: eq xcap_inv_def xcap_die_def with_documents_def)
  next
    case False
    then have ok: "fst r = Inr ()" and nt: "xm_state m \<noteq> XTerminated" by simp_all
    have dc: "docs_clean (with_documents m1 r)"
      using clean[OF ok] by (simp add: docs_clean_def with_documents_def)
    show ?thesis
    proof (cases "xm_state m = XStopped")
      case True
      then show ?thesis using ok dc by (simp add: eq xcap_inv_def manager_works_def docs_ready_def with_documents_def m1)
    next
      case False
      show ?thesis
      proof (cases "{''__id__'', ''auth.username'', ''auth.password'', ''xcap.xcap_root''} \<inter> set modified \<noteq> {}")
        case True
        then show ?thesis
          using ok nt False dc
          by (simp add: eq m1 with_documents_def xcap_inv_def manager_works_def awaits_def xcap_send_def xcap_set_state_def docs_clean_def docs_ready_def)
      next
        case none: False
        then have j: "xm_journal m1 = xm_journal m" using m1(8) by auto
        have "docs_ready (with_documents m1 r)"
          using W(3) ready by (simp add: docs_ready_def with_documents_def m1)
        moreover have "manager_works (with_documents m1 r)"
          using W(1) by (cases "xm_state m") (simp_all add: manager_works_def awaits_def update_due_def with_documents_def m1 j)
        ultimately show ?thesis
          using ok nt False none dc by (simp add: eq m1 xcap_inv_def xcap_die_def with_documents_def)
      qed
    qed
  qed
qed

lemma normalize_first_not_Nil [simp]: "normalize_first j \<noteq> []"
  by (auto simp: normalize_first_def)

lemma fetch_cases:
  assumes "xm_state m \<in> {XInsync, XFetching}" and "timer_names (xcap_set_state XFetching (m\<lparr>xm_deferred := None\<rparr>)) = Some ts"
    and "m2 = meanwhile p env ((xcap_set_state XFetching (m\<lparr>xm_deferred := None\<rparr>))\<lparr>xm_timer := None\<rparr>)"
    and "names = merge_names (merge_names ns (deferred_names m)) ts"
    and "fetch_documents p env names (xm_docs m2) (xm_storage m2) = (r, ds, s)"
  shows "CH_fetch p env ns t m =
      (case r of
         Inl XCAPError \<Rightarrow> retry (XFetch names (xe_now env)) (m2\<lparr>xm_docs := ds, xm_storage := s\<rparr>)
       | Inl _ \<Rightarrow> xcap_die (m2\<lparr>xm_docs := ds, xm_storage := s\<rparr>)
       | Inr _ \<Rightarrow>
           if xm_journal m2 = [] \<and> 0 < xm_last_fetch m2 \<and> (\<forall>d \<in> set ds. xd_fetch_time d < t)
           then xcap_set_state XInsync (m2\<lparr>xm_docs := ds, xm_storage := s, xm_last_fetch := xe_now env\<rparr>)
           else xcap_send XUpdate ((xcap_set_state XUpdating (m2\<lparr>xm_docs := ds, xm_storage := s, xm_last_fetch := xe_now env\<rparr>))
                  \<lparr>xm_journal := normalize_first (xm_journal m2)\<rparr>))"
  using assms(1,2,5) unfolding assms(3,4)
  by (auto simp: CH_fetch_def Let_def with_documents_def split: sum.split xcap_error.split)

lemma inv_fetch:
  assumes "xcap_inv (m\<lparr>xm_queue := XFetch ns t # q\<rparr>)" and "xm_queue m = q" and "xm_alive m"
  shows "xcap_inv (CH_fetch p env ns t m)"
proof (cases "xm_state m \<in> {XInsync, XFetching}")
  case False
  then show ?thesis
    using assms by (cases "xm_state m")
      (auto simp: CH_fetch_def Let_def xcap_inv_def manager_works_def awaits_def docs_clean_def docs_ready_def)
next
  case True
  define m1 where "m1 = xcap_set_state XFetching (m\<lparr>xm_deferred := None\<rparr>)"
  define m2 where "m2 = meanwhile p env (m1\<lparr>xm_timer := None\<rparr>)"
  have clean: "docs_clean m" and ready: "required_supported (xm_docs m)"
    using assms True by (auto simp: xcap_inv_def docs_clean_def docs_ready_def)
  obtain j where j: "xm_journal m2 = xm_journal m @ j"
    using meanwhile_journal[of p env "m1\<lparr>xm_timer := None\<rparr>"] by (auto simp: m1_def m2_def xcap_set_state_def)
  have m2: "xm_docs m2 = xm_docs m" "xm_state m2 = XFetching" "xm_deferred m2 = None"
    by (simp_all add: m2_def meanwhile_same) (simp_all add: m1_def xcap_set_state_def)
  have clean2: "docs_clean m2" by (rule docs_clean_grows[OF clean m2(1) j])
  show ?thesis
  proof (cases "timer_names m1")
    case None
    then show ?thesis
      using True by (simp add: CH_fetch_def Let_def m1_def[symmetric] xcap_inv_def xcap_die_def)
  next
    case (Some ts)
    define names where "names = merge_names (merge_names ns (deferred_names m)) ts"
    obtain r ds s where f: "fetch_documents p env names (xm_docs m2) (xm_storage m2) = (r, ds, s)" by (metis prod_cases3)
    have ds: "\<forall>d \<in> set ds. xd_dirty d \<longrightarrow> xd_supported d \<and> xm_journal m2 \<noteq> []"
      using fetch_documents_all[OF f, of "\<lambda>b d. d \<longrightarrow> b \<and> xm_journal m2 \<noteq> []"] clean2 by (simp add: docs_clean_def docs_ready_def)
    note eq = fetch_cases[OF True Some[unfolded m1_def] m2_def[unfolded m1_def] names_def f]
    have "required_supported ds" using fetch_documents_parts[OF f] ready m2(1) by simp
    then show ?thesis
      unfolding eq using ds m2
      by (auto simp: xcap_inv_def xcap_die_def retry_def manager_works_def awaits_def docs_clean_def docs_ready_def xcap_set_state_def xcap_send_def
          split: sum.split xcap_error.split)
  qed
qed

lemma apply_pending_supported:
  assumes "handlers_sane p" and "required_supported ds" and "\<forall>d \<in> set ds. xd_dirty d \<longrightarrow> xd_supported d"
  shows "\<forall>d \<in> set (apply_pending p j ds). xd_dirty d \<longrightarrow> xd_supported d"
  using assms(2,3)
proof (induction j arbitrary: ds)
  case (Cons e j)
  have "\<forall>d \<in> set (xp_apply p (je_operation e) ds). xd_dirty d \<longrightarrow> xd_supported d"
    using assms(1) Cons.prems unfolding handlers_sane_def by blast
  moreover have "required_supported (xp_apply p (je_operation e) ds)"
    using apply_pending_parts[OF assms(1), of "[\<lparr>je_operation = je_operation e, je_applied = False\<rparr>]" ds] Cons.prems(1)
    by (simp add: apply_pending_def)
  ultimately show ?case using Cons by (simp add: apply_pending_def)
qed (simp add: apply_pending_def)

lemma update_documents_keep:
  assumes "update_documents p env ds s = (r, ds', s')" and "\<forall>d \<in> set ds. xd_dirty d \<longrightarrow> xd_supported d"
  shows "\<forall>d \<in> set ds'. xd_dirty d \<longrightarrow> xd_supported d"
  using assms(1) unfolding update_documents_def
  by (rule each_document_all[where P = "\<lambda>d. xd_dirty d \<longrightarrow> xd_supported d", rotated 2])
    (use assms(2) in \<open>auto simp: needs_update_def split: if_splits dest!: document_update_keeps\<close>)

lemma update_documents_stored:
  assumes "update_documents p env ds s = (Inr (), ds', s')" and "\<forall>d \<in> set ds. xd_dirty d \<longrightarrow> xd_supported d"
  shows "\<forall>d \<in> set ds'. \<not> xd_dirty d"
  using assms(1) unfolding update_documents_def
  by (rule each_document_Inr[where P = "\<lambda>d. xd_dirty d \<longrightarrow> xd_supported d", rotated])
    (use assms(2) in \<open>auto simp: needs_update_def split: if_splits dest!: document_update_keeps\<close>)

lemma update_documents_idle:
  assumes "\<forall>d \<in> set ds. \<not> xd_dirty d"
  shows "update_documents p env ds s = (Inr (), ds, s)"
  unfolding update_documents_def by (rule each_document_id) (simp add: assms needs_update_def)

lemma reset_documents_clean:
  assumes "reset_documents p needs_update ds s = (Inr (), ds', s')" and "\<forall>d \<in> set ds. xd_dirty d \<longrightarrow> xd_supported d"
  shows "\<forall>d \<in> set ds'. \<not> xd_dirty d"
  using assms(1) unfolding reset_documents_def
  by (rule each_document_Inr[where P = "\<lambda>d. xd_dirty d \<longrightarrow> xd_supported d", rotated])
    (use assms(2) in \<open>auto simp: needs_update_def split: if_splits dest!: document_reset_keeps\<close>)

lemma update_cases:
  assumes "xm_state m \<in> {XInsync, XUpdating}" and "xm_transaction m = 0"
    and "m2 = meanwhile p env ((xcap_set_state XUpdating m)\<lparr>xm_timer := None, xm_docs := apply_pending p (xm_journal m) (xm_docs m),
           xm_journal := mark True (xm_journal m)\<rparr>)"
    and "update_documents p env (xm_docs m2) (xm_storage m2) = (r, ds, s)"
    and "reset_documents p needs_update ds s = (r', ds', s')"
  shows "CH_update p env m = (case r of
      Inr _ \<Rightarrow> update_succeeded p env (length (xm_journal m)) (m2\<lparr>xm_docs := ds, xm_storage := s\<rparr>)
    | Inl XCAPError \<Rightarrow> retry XUpdate (m2\<lparr>xm_docs := ds, xm_storage := s\<rparr>)
    | Inl UncaughtError \<Rightarrow> xcap_die (m2\<lparr>xm_docs := ds, xm_storage := s\<rparr>)
    | Inl FetchRequiredError \<Rightarrow>
        (case r' of
           Inl _ \<Rightarrow> xcap_die (m2\<lparr>xm_docs := ds', xm_storage := s'\<rparr>)
         | Inr _ \<Rightarrow> xcap_send (XFetch (map xd_name ds') (xe_now env)) (xcap_set_state XFetching (m2\<lparr>xm_docs := ds', xm_storage := s',
             xm_journal := mark False (take (length (xm_journal m)) (xm_journal m2)) @ drop (length (xm_journal m)) (xm_journal m2)\<rparr>))))"
proof -
  have guard: "\<not> (xm_state m \<notin> {XInsync, XUpdating} \<or> xm_transaction m \<noteq> 0)" using assms(1,2) by simp
  have m2: "meanwhile p env ((xcap_set_state XUpdating m)\<lparr>xm_timer := None, xm_docs := apply_pending p (xm_journal m) (xm_docs m),
           xm_journal := mark True (xm_journal m)\<rparr>) = m2"
    by (rule assms(3)[symmetric])
  have same: "xm_journal ((xcap_set_state XUpdating m)\<lparr>xm_timer := None\<rparr>) = xm_journal m"
    "xm_docs ((xcap_set_state XUpdating m)\<lparr>xm_timer := None\<rparr>) = xm_docs m"
    by (simp_all add: xcap_set_state_def)
  show ?thesis
    unfolding CH_update_def Let_def if_not_P[OF guard] same m2 assms(4) with_documents_def fst_conv snd_conv
    by (simp add: assms(5) document_names_def split: sum.split xcap_error.split)
qed

lemma inv_update_succeeded:
  assumes "\<forall>d \<in> set (xm_docs m). \<not> xd_dirty d" and "xm_state m = XUpdating" and "required_supported (xm_docs m)"
    and "drop n (xm_journal m) = [] \<or> update_due m"
  shows "xcap_inv (update_succeeded p env n m)"
proof (cases "drop n (xm_journal m) = []")
  case True
  then show ?thesis
    using assms(1,3)
    by (auto simp: update_succeeded_def Let_def xcap_set_state_def xcap_post_def xcap_die_def save_journal_def xcap_send_def
        xcap_inv_def manager_works_def docs_clean_def docs_ready_def split: option.split)
next
  case False
  then have "awaits (\<lambda>c. c = XUpdate) m \<or> 0 < xm_transaction m"
    using assms(4) by (auto simp: update_due_def awaits_def)
  with False show ?thesis
    using assms(1-3)
    by (auto simp: update_succeeded_def Let_def save_journal_def xcap_send_def xcap_inv_def manager_works_def docs_clean_def docs_ready_def
        awaits_def split: option.split)
qed

lemma inv_update:
  assumes "xcap_inv (m\<lparr>xm_queue := XUpdate # q\<rparr>)" and "xm_queue m = q" and "xm_alive m" and "handlers_sane p"
  shows "xcap_inv (CH_update p env m)"
proof (cases "xm_state m \<in> {XInsync, XUpdating} \<and> xm_transaction m = 0")
  case False
  then have "CH_update p env m = m" by (auto simp: CH_update_def)
  moreover have "manager_works m" 
    using assms(1-3) False by (cases "xm_state m") (auto simp: xcap_inv_def manager_works_def awaits_def update_due_def)
  moreover have "docs_clean m \<and> docs_ready m" using assms(1-3) by (simp add: xcap_inv_def docs_clean_def docs_ready_def)
  ultimately show ?thesis by (simp add: xcap_inv_def)
next
  case True
  let ?J = "xm_journal m"
  define m2 where "m2 = meanwhile p env ((xcap_set_state XUpdating m)\<lparr>xm_timer := None, xm_docs := apply_pending p ?J (xm_docs m),
    xm_journal := mark True ?J\<rparr>)"
  obtain r ds s where u: "update_documents p env (xm_docs m2) (xm_storage m2) = (r, ds, s)" by (metis prod_cases3)
  obtain r' ds' s' where rd: "reset_documents p needs_update ds s = (r', ds', s')" by (metis prod_cases3)
  obtain j where j: "xm_journal m2 = mark True ?J @ j"
    using meanwhile_journal[of p env "(xcap_set_state XUpdating m)\<lparr>xm_timer := None, xm_docs := apply_pending p ?J (xm_docs m),
    xm_journal := mark True ?J\<rparr>"] by (auto simp: m2_def)
  have st: "xm_state m2 = XUpdating" and d2: "xm_docs m2 = apply_pending p ?J (xm_docs m)"
    by (simp_all add: m2_def meanwhile_same) (simp_all add: xcap_set_state_def)
  have clean: "\<forall>d \<in> set (xm_docs m). xd_dirty d \<longrightarrow> xd_supported d \<and> ?J \<noteq> []"
    using assms(1,3) by (simp add: xcap_inv_def docs_clean_def docs_ready_def)
  have ready: "required_supported (xm_docs m)"
    using assms(1,3) True by (auto simp: xcap_inv_def docs_ready_def)
  then have ready': "required_supported ds" "required_supported ds'"
    using update_documents_parts[OF u] reset_documents_parts[OF rd] apply_pending_parts[OF assms(4), of ?J "xm_docs m"]
    by (simp_all add: d2)
  have sup: "\<forall>d \<in> set (xm_docs m2). xd_dirty d \<longrightarrow> xd_supported d"
    unfolding d2 using clean by (intro apply_pending_supported[OF assms(4) ready]) blast
  have sup': "\<forall>d \<in> set ds. xd_dirty d \<longrightarrow> xd_supported d" by (rule update_documents_keep[OF u sup])
  have some: "?J \<noteq> []" if "r \<noteq> Inr ()"
  proof
    assume "?J = []"
    then have "\<forall>d \<in> set (xm_docs m2). \<not> xd_dirty d" using clean by (auto simp: d2 apply_pending_def)
    from update_documents_idle[OF this, of p env "xm_storage m2"] u that show False by simp
  qed
  have due: "j = [] \<or> update_due m2"
    using meanwhile_due[of p env "(xcap_set_state XUpdating m)\<lparr>xm_timer := None, xm_docs := apply_pending p ?J (xm_docs m),
    xm_journal := mark True ?J\<rparr>"] j by (auto simp: m2_def)
  note eq = update_cases[OF conjunct1[OF True] conjunct2[OF True] m2_def u rd]
  show ?thesis
  proof (cases r)
    case (Inr a)
    have "\<forall>d \<in> set ds. \<not> xd_dirty d" using update_documents_stored[of p env "xm_docs m2"] u sup Inr by simp
    then show ?thesis
      unfolding eq Inr sum.case
      by (intro inv_update_succeeded) (use st j due ready' in \<open>auto simp: mark_def update_due_def\<close>)
  next
    case (Inl e)
    then have J: "xm_journal m2 \<noteq> []" using some j by (auto simp: mark_def)
    show ?thesis
    proof (cases e)
      case XCAPError
      then show ?thesis
        using Inl st J sup' ready' by (simp add: eq xcap_inv_def manager_works_def awaits_def retry_def docs_clean_def docs_ready_def)
    next
      case UncaughtError
      then show ?thesis using Inl by (simp add: eq xcap_inv_def xcap_die_def)
    next
      case FetchRequiredError
      show ?thesis
      proof (cases r')
        case (Inr a)
        then have "\<forall>d \<in> set ds'. \<not> xd_dirty d" using reset_documents_clean[of p ds s] rd sup' by simp
        then show ?thesis
          using Inr Inl FetchRequiredError ready'
          by (simp add: eq xcap_inv_def manager_works_def awaits_def docs_clean_def docs_ready_def xcap_set_state_def xcap_send_def)
      qed (use Inl FetchRequiredError in \<open>simp add: eq xcap_inv_def xcap_die_def\<close>)
    qed
  qed
qed

lemma step_manager_inv:
  assumes "handlers_sane p" and "xcap_inv m"
  shows "xcap_inv (step_manager p s m)"
proof (cases s)
  case (OtherStep e)
  then show ?thesis using handle_event_inv[OF assms(2)] by simp
next
  case (ProcessStep env)
  show ?thesis
  proof (cases "xm_alive m \<and> xm_queue m \<noteq> []")
    case True
    then obtain c q where q: "xm_queue m = c # q" by (cases "xm_queue m") auto
    let ?m = "m\<lparr>xm_queue := q\<rparr>"
    have inv: "xcap_inv (?m\<lparr>xm_queue := c # q\<rparr>)" using assms(2) by (simp add: q[symmetric])
    have alive: "xm_alive ?m" using True by simp
    have "xcap_inv (handle_command p env c ?m)"
      using inv alive assms(1)
      by (cases c) (auto intro!: inv_start inv_stop inv_cleanup inv_initialize inv_reload inv_fetch inv_update)
    then show ?thesis using True q ProcessStep by simp
  next
    case False
    then show ?thesis using assms(2) ProcessStep by (auto split: list.splits)
  qed
qed

lemma run_manager_inv:
  assumes "handlers_sane p" and "xcap_inv m"
  shows "xcap_inv (run_manager p steps m)"
  using assms(2) unfolding run_manager_def
  by (induction steps arbitrary: m) (auto intro: step_manager_inv[OF assms(1)])

lemma new_manager_inv: "\<forall>d \<in> set docs. \<not> xd_dirty d \<Longrightarrow> xcap_inv (new_manager docs journal storage)"
  by (simp add: new_manager_def xcap_inv_def manager_works_def docs_clean_def docs_ready_def)

section \<open>The journal\<close>

definition operations :: "('c, 's, 'op) xcap_manager \<Rightarrow> 'op journal_operation list" where
  "operations m = map je_operation (xm_journal m)"

lemma operations_mark [simp]: "map je_operation (mark v j) = map je_operation j"
  by (simp add: mark_def)

lemma operations_normalize: "set (map je_operation j) \<subseteq> set (map je_operation (normalize_first j))"
  by (auto simp: normalize_first_def)

lemma operations_meanwhile: "set (operations m) \<subseteq> set (operations (meanwhile p env m))"
  using meanwhile_journal[of p env m] by (auto simp: operations_def)

lemma operations_event: "set (operations m) \<subseteq> set (operations (handle_event p e m))"
  using handle_event_passes[of m p e] by (auto simp: operations_def passes_def)

lemma operations_same [simp]:
  "operations (xcap_set_state v m) = operations m" "operations (xcap_post n m) = operations m"
  "operations (xcap_send c m) = operations m" "operations (xcap_die m) = operations m"
  "operations (retry c m) = operations m" "operations (save_journal p m) = operations m"
  "operations (with_documents m r) = operations m"
  "operations (m\<lparr>xm_timer := x\<rparr>) = operations m" "operations (m\<lparr>xm_client := b\<rparr>) = operations m"
  "operations (m\<lparr>xm_subscriber := b\<rparr>) = operations m" "operations (m\<lparr>xm_deferred := y\<rparr>) = operations m"
  "operations (m\<lparr>xm_last_fetch := k\<rparr>) = operations m" "operations (m\<lparr>xm_storage := s\<rparr>) = operations m"
  "operations (m\<lparr>xm_docs := ds\<rparr>) = operations m" "operations (m\<lparr>xm_queue := qs\<rparr>) = operations m"
  by (simp_all add: operations_def xcap_set_state_def xcap_post_def xcap_send_def xcap_die_def retry_def save_journal_def with_documents_def)

lemma operations_journal [simp]: "operations (m\<lparr>xm_journal := j\<rparr>) = map je_operation j"
  by (simp add: operations_def)

lemma operations_fetch: "set (operations m) \<subseteq> set (operations (CH_fetch p env ns t m))"
proof (cases "xm_state m \<in> {XInsync, XFetching}")
  case True
  let ?m1 = "xcap_set_state XFetching (m\<lparr>xm_deferred := None\<rparr>)"
  show ?thesis
  proof (cases "timer_names ?m1")
    case None
    then show ?thesis using True by (simp add: CH_fetch_def Let_def)
  next
    case (Some ts)
    define m2 where "m2 = meanwhile p env (?m1\<lparr>xm_timer := None\<rparr>)"
    define names where "names = merge_names (merge_names ns (deferred_names m)) ts"
    obtain r ds s where f: "fetch_documents p env names (xm_docs m2) (xm_storage m2) = (r, ds, s)" by (metis prod_cases3)
    have "set (operations m) \<subseteq> set (operations m2)"
      using operations_meanwhile[of "?m1\<lparr>xm_timer := None\<rparr>" p env] by (simp add: m2_def)
    moreover from this have "set (operations m) \<subseteq> je_operation ` set (normalize_first (xm_journal m2))"
      using operations_normalize[of "xm_journal m2"] by (simp add: operations_def)
    ultimately show ?thesis
      unfolding fetch_cases[OF True Some m2_def names_def f] by (simp split: sum.split xcap_error.split)
  qed
qed (simp add: CH_fetch_def Let_def)

lemma operations_initialize: "set (operations m) \<subseteq> set (operations (CH_initialize p env m))"
proof -
  have "set (operations m) \<subseteq> set (operations (meanwhile p env ((xcap_set_state XInitializing m)\<lparr>xm_timer := None\<rparr>)))"
    and "set (operations m) \<subseteq> set (operations (meanwhile p env ((xcap_set_state XInitializing m)\<lparr>xm_timer := None, xm_client := True\<rparr>)))"
    using operations_meanwhile[of "(xcap_set_state XInitializing m)\<lparr>xm_timer := None\<rparr>" p env]
      operations_meanwhile[of "(xcap_set_state XInitializing m)\<lparr>xm_timer := None, xm_client := True\<rparr>" p env] by simp_all
  then show ?thesis
    unfolding CH_initialize_def Let_def by (simp split: caps_answer.split sum.split)
qed

lemma operations_reload: "''__id__'' \<notin> set modified \<Longrightarrow> operations (CH_reload p modified m) = operations m"
  by (simp add: CH_reload_def Let_def split: sum.split)

lemma operations_stop: "set (operations m) \<subseteq> set (operations (CH_stop p env m))"
  using operations_meanwhile[of "(xcap_post ManagerWillEnd m)\<lparr>xm_timer := None\<rparr>" p env]
  by (simp add: CH_stop_def Let_def)

lemma operations_start: "operations (CH_start m) = operations m"
  by (simp add: CH_start_def)

text \<open>Only an update whose requests all went through takes operations out of the journal.\<close>

lemma operations_update:
  assumes "docs_clean m \<and> docs_ready m" and "handlers_sane p" and "op \<in> set (operations m)" and "op \<notin> set (operations (CH_update p env m))"
  shows "\<forall>d \<in> set (xm_docs (CH_update p env m)). \<not> xd_dirty d"
proof (cases "xm_state m \<in> {XInsync, XUpdating} \<and> xm_transaction m = 0")
  case True
  let ?J = "xm_journal m"
  define m2 where "m2 = meanwhile p env ((xcap_set_state XUpdating m)\<lparr>xm_timer := None, xm_docs := apply_pending p ?J (xm_docs m),
    xm_journal := mark True ?J\<rparr>)"
  obtain r ds s where u: "update_documents p env (xm_docs m2) (xm_storage m2) = (r, ds, s)" by (metis prod_cases3)
  obtain r' ds' s' where rd: "reset_documents p needs_update ds s = (r', ds', s')" by (metis prod_cases3)
  note eq = update_cases[OF conjunct1[OF True] conjunct2[OF True] m2_def u rd]
  obtain j where j: "xm_journal m2 = mark True ?J @ j"
    using meanwhile_journal[of p env "(xcap_set_state XUpdating m)\<lparr>xm_timer := None, xm_docs := apply_pending p ?J (xm_docs m),
    xm_journal := mark True ?J\<rparr>"] by (auto simp: m2_def)
  then have op: "op \<in> set (operations m2)" using assms(3) by (simp add: operations_def)
  have "map je_operation (mark False (take (length ?J) (xm_journal m2)) @ drop (length ?J) (xm_journal m2)) = operations m2"
    by (simp add: operations_def take_map[symmetric] drop_map[symmetric])
  then have "operations (m2\<lparr>xm_docs := ds', xm_storage := s',
       xm_journal := mark False (take (length ?J) (xm_journal m2)) @ drop (length ?J) (xm_journal m2)\<rparr>) = operations m2"
    by (simp add: operations_def)
  then have r: "r = Inr ()"
    using assms(4) op unfolding eq by (auto split: sum.splits xcap_error.splits)
  have "\<forall>d \<in> set (xm_docs m2). xd_dirty d \<longrightarrow> xd_supported d"
    unfolding m2_def meanwhile_same using apply_pending_supported[OF assms(2), of "xm_docs m" ?J] assms(1) True
    by (auto simp: docs_clean_def docs_ready_def)
  then have "\<forall>d \<in> set ds. \<not> xd_dirty d" using update_documents_stored[of p env "xm_docs m2"] u r by simp
  moreover have "xm_docs (update_succeeded p env n x) = xm_docs x" for n x
    by (simp add: update_succeeded_def Let_def xcap_set_state_def xcap_post_def xcap_die_def save_journal_def xcap_send_def
        split: option.split)
  ultimately show ?thesis unfolding eq by (simp add: r)
next
  case False
  then have "CH_update p env m = m" by (auto simp: CH_update_def)
  then show ?thesis using assms(3,4) by simp
qed

section \<open>Properties\<close>

text \<open>
  C37. The manager never waits for nothing. In every run of a new manager, whatever commands,
  operations, transactions, timers, answers of the server and failures of the storage occur,
  as long as its process lives: initializing, it has an initialization before it or on its
  timer; fetching, a fetch; updating, an update, unless a transaction is open whose commit sends
  it; and in sync with operations in the journal, an update or an open transaction.
\<close>

theorem xcap_manager_keeps_working:
  assumes "handlers_sane p" and "\<forall>d \<in> set docs. \<not> xd_dirty d"
    and "xm_alive (run_manager p steps (new_manager docs journal storage))"
  shows "manager_works (run_manager p steps (new_manager docs journal storage))"
  using run_manager_inv[OF assms(1) new_manager_inv[OF assms(2)]] assms(3) by (simp add: xcap_inv_def)

definition sample_payload :: "string payload_type" where
  "sample_payload = \<lparr>pt_parse = Some, pt_toxml = (\<lambda>c. c)\<rparr>"

definition sample_parts :: "(string, memory_storage, string) xcap_parts" where
  "sample_parts = \<lparr>xp_payload = (\<lambda>_. sample_payload), xp_ops = ops_of xmem_load xmem_save xmem_delete xmem_purge,
     xp_apply = (\<lambda>op ds. ds), xp_loads = (\<lambda>_. True), xp_prepare = (\<lambda>_ c. c), xp_pickle = (\<lambda>_. [])\<rparr>"

definition sample_xcap_env :: "string xcap_env" where
  "sample_xcap_env = \<lparr>xe_now = 1, xe_root = True,
     xe_caps = CapsGot [''resource-lists'', ''rls-services'', ''org.openmobilealliance.pres-rules''],
     xe_answer = (\<lambda>_. HttpStatus 304), xe_meanwhile = []\<rparr>"

lemma sample_handlers_sane: "handlers_sane sample_parts"
  by (simp add: handlers_sane_def sample_parts_def)

lemmas sample_run = run_manager_def new_manager_def CH_start_def CH_initialize_def CH_fetch_def CH_update_def CH_reload_def
  update_succeeded_def Let_def xcap_post_def xcap_send_def xcap_set_state_def save_journal_def meanwhile_def with_documents_def
  sample_xcap_env_def enough_caps_def initialize_documents_def document_names_def deferred_names_def timer_names_def
  merge_names_def normalize_first_def schedule_operation_def update_documents_def apply_pending_def data_changed_def
  mark_def operations_def xcap_die_def reset_documents_def sample_parts_def

theorem xcap_manager_keeps_working_witness:
  "manager_works (run_manager sample_parts [OtherStep (CommandSent XStart), ProcessStep sample_xcap_env, ProcessStep sample_xcap_env]
     (new_manager [] [] []))"
  by (rule xcap_manager_keeps_working) (simp_all add: sample_handlers_sane, simp add: sample_run)

text \<open>
  C38. An operation stays in the journal until the documents are stored. In every run, a step
  after which an operation is no longer in the journal is an update after which no document
  has changes that were not stored, or the account got another id, or the account was deleted.
\<close>

theorem xcap_operation_kept:
  assumes "handlers_sane p" and "\<forall>d \<in> set docs. \<not> xd_dirty d"
    and "m = run_manager p steps (new_manager docs journal storage)"
    and "op \<in> set (operations m)" and "op \<notin> set (operations (step_manager p s m))"
  shows "(hd (xm_queue m) = XUpdate \<and> (\<forall>d \<in> set (xm_docs (step_manager p s m)). \<not> xd_dirty d)) \<or>
         (\<exists>modified. hd (xm_queue m) = XReload modified \<and> ''__id__'' \<in> set modified) \<or>
         hd (xm_queue m) = XCleanup"
proof (cases s)
  case (OtherStep e)
  then show ?thesis using operations_event[of m p e] assms(4,5) by auto
next
  case (ProcessStep env)
  show ?thesis
  proof (cases "xm_alive m \<and> xm_queue m \<noteq> []")
    case False
    then show ?thesis using ProcessStep assms(4,5) by (auto split: list.splits)
  next
    case True
    then obtain c q where q: "xm_queue m = c # q" by (cases "xm_queue m") auto
    let ?m = "m\<lparr>xm_queue := q\<rparr>"
    have inv: "xcap_inv m" unfolding assms(3) by (rule run_manager_inv[OF assms(1) new_manager_inv[OF assms(2)]])
    then have clean: "docs_clean ?m \<and> docs_ready ?m" using True by (simp add: xcap_inv_def docs_clean_def docs_ready_def)
    have op: "op \<in> set (operations ?m)" and gone: "op \<notin> set (operations (handle_command p env c ?m))"
      using assms(4,5) True q ProcessStep by simp_all
    have step: "step_manager p s m = handle_command p env c ?m" using True q ProcessStep by simp
    show ?thesis
    proof (cases c)
      case XUpdate
      then show ?thesis using operations_update[OF clean assms(1) op, of env] gone step q by simp
    next
      case (XReload modified)
      then have "''__id__'' \<in> set modified"
        using operations_reload[of modified p ?m] op gone by (cases "''__id__'' \<in> set modified") simp_all
      with XReload q show ?thesis by simp
    next
      case (XFetch ns t)
      then show ?thesis using operations_fetch[of ?m p env ns t] op gone by auto
    qed (use op gone q operations_start[of ?m] operations_stop[of ?m p env] operations_initialize[of ?m p env] in auto)
  qed
qed

definition sample_updating :: "(string, memory_storage, string) xcap_manager" where
  "sample_updating = run_manager sample_parts [OtherStep (CommandSent XStart), ProcessStep sample_xcap_env, ProcessStep sample_xcap_env,
     ProcessStep sample_xcap_env] (new_manager [] [] [])"

lemma sample_stored:
  "operations (step_manager sample_parts (ProcessStep sample_xcap_env) (run_manager sample_parts
     [OtherStep (CommandSent XStart), ProcessStep sample_xcap_env, ProcessStep sample_xcap_env, ProcessStep sample_xcap_env]
     (new_manager [] [] []))) = []"
  by (simp add: sample_run)

theorem xcap_operation_kept_witness:
  "hd (xm_queue sample_updating) = XUpdate \<and>
   list_all (\<lambda>d. \<not> xd_dirty d) (xm_docs (step_manager sample_parts (ProcessStep sample_xcap_env) sample_updating))"
proof -
  have op: "Normalize \<in> set (operations sample_updating)" and q: "hd (xm_queue sample_updating) = XUpdate"
    by (simp_all add: sample_updating_def sample_run)
  have gone: "Normalize \<notin> set (operations (step_manager sample_parts (ProcessStep sample_xcap_env) sample_updating))"
    using sample_stored by (simp add: sample_updating_def)
  show ?thesis
    using xcap_operation_kept[OF sample_handlers_sane _ sample_updating_def op gone] q by (simp add: list_all_iff)
qed

text \<open>
  A stop that comes before the initialization ends the process. Starting sends the
  manager an initialization; when a stop is handled first, the initialization runs nevertheless
  in the stopped manager, and once the server's capabilities are known it fails on the
  subscriber that is gone. No command is handled from then on.
\<close>

theorem stop_before_initialize_ends_process:
  assumes "xm_alive m" and "xm_state m = XStopped" and "xm_queue m = [XStart, XStop]"
    and "xe_meanwhile e2 = []" and "xe_meanwhile e3 = []"
    and "xe_root e3" and "xe_caps e3 = CapsGot auids" and "enough_caps auids"
  shows "\<not> xm_alive (run_manager p [ProcessStep e1, ProcessStep e2, ProcessStep e3] m)"
  using assms
  by (simp add: run_manager_def CH_start_def CH_stop_def CH_initialize_def Let_def xcap_post_def xcap_send_def xcap_set_state_def
      save_journal_def meanwhile_def with_documents_def xcap_die_def split: sum.split)

theorem stop_before_initialize_ends_process_witness:
  "\<not> xm_alive (run_manager sample_parts [ProcessStep sample_xcap_env, ProcessStep sample_xcap_env, ProcessStep sample_xcap_env]
     ((new_manager [] [] [])\<lparr>xm_queue := [XStart, XStop]\<rparr>))"
  by (rule stop_before_initialize_ends_process[where auids = "[''resource-lists'', ''rls-services'', ''org.openmobilealliance.pres-rules'']"])
    (simp_all add: new_manager_def sample_xcap_env_def enough_caps_def)

text \<open>The way from a new XCAP root to the next update, when nothing else happens meanwhile.\<close>

definition quiet_env :: "'op xcap_env \<Rightarrow> bool" where
  "quiet_env env \<longleftrightarrow> xe_meanwhile env = []"

lemma quiet_meanwhile [simp]: "quiet_env env \<Longrightarrow> meanwhile p env m = m"
  by (simp add: quiet_env_def meanwhile_def)

lemma reload_root_step:
  assumes "xm_alive m" and "xm_queue m = [XReload modified]" and "xm_state m \<notin> {XTerminated, XStopped}"
    and "''xcap.xcap_root'' \<in> set modified" and "''__id__'' \<notin> set modified"
    and "m1 = step_manager p (ProcessStep env) m" and "xm_alive m1"
  shows "xm_state m1 = XInitializing \<and> xm_queue m1 = [XInitialize] \<and> xm_journal m1 = xm_journal m \<and>
    xm_transaction m1 = xm_transaction m \<and>
    list_all (\<lambda>d. xd_content d = None \<and> \<not> xd_dirty d) (xm_docs m1)"
proof -
  let ?m = "m\<lparr>xm_queue := []\<rparr>"
  obtain r ds s where rd: "reset_documents p (\<lambda>_. True) (xm_docs m) (xm_storage m) = (r, ds, s)" by (metis prod_cases3)
  have step: "m1 = CH_reload p modified ?m" using assms(1,2,6) by simp
  have r: "r = Inr ()" and m1: "xm_docs m1 = ds" "xm_journal m1 = xm_journal m" "xm_state m1 = XInitializing"
    "xm_queue m1 = [XInitialize]" "xm_transaction m1 = xm_transaction m"
    using assms(3-5,7) unfolding step
    by (auto simp: CH_reload_def Let_def rd with_documents_def xcap_die_def xcap_send_def xcap_set_state_def split: sum.splits if_splits)
  have "\<forall>d \<in> set ds. xd_content d = None \<and> \<not> xd_dirty d"
    using rd[unfolded r reset_documents_def]
    by (rule each_document_Inr[where P = "\<lambda>_. True", rotated])
      (auto simp: document_reset_def Let_def set_dirty_def xd_dirty_def split: prod.splits sum.splits if_splits)
  then show ?thesis using m1 by (simp add: list_all_iff)
qed

lemma initialize_step:
  assumes "xm_queue m = [XInitialize]" and "quiet_env env"
    and "m' = step_manager p (ProcessStep env) m" and "xm_alive m" "xm_alive m'"
  shows "xm_journal m' = xm_journal m \<and> xm_transaction m' = xm_transaction m \<and>
    (xm_state m' = XInitializing \<and> xm_queue m' = [] \<or>
     xm_state m' = XFetching \<and> xm_timer m' = None \<and> (\<exists>ns t. xm_queue m' = [XFetch ns t]))"
  using assms
  by (auto simp: CH_initialize_def Let_def retry_def with_documents_def xcap_send_def xcap_post_def xcap_set_state_def xcap_die_def
      split: if_splits caps_answer.splits sum.splits)

lemma fetch_step:
  assumes "xm_queue m = [XFetch ns t]" "xm_state m = XFetching" "xm_timer m = None" and "quiet_env env"
    and "m' = step_manager p (ProcessStep env) m" and "xm_alive m" "xm_alive m'" "xm_state m' = XUpdating"
  shows "xm_journal m' = normalize_first (xm_journal m) \<and> xm_transaction m' = xm_transaction m \<and> xm_queue m' = [XUpdate]"
proof -
  let ?m = "m\<lparr>xm_queue := []\<rparr>"
  let ?m2 = "(xcap_set_state XFetching (?m\<lparr>xm_deferred := None\<rparr>))\<lparr>xm_timer := None\<rparr>"
  let ?names = "merge_names (merge_names ns (deferred_names ?m)) []"
  obtain r ds s where f: "fetch_documents p env ?names (xm_docs ?m2) (xm_storage ?m2) = (r, ds, s)" by (metis prod_cases3)
  have st: "xm_state ?m \<in> {XInsync, XFetching}" "timer_names (xcap_set_state XFetching (?m\<lparr>xm_deferred := None\<rparr>)) = Some []"
    using assms(2,3) by (simp_all add: timer_names_def xcap_set_state_def)
  have m2: "?m2 = meanwhile p env ?m2" using assms(4) by simp
  have "m' = CH_fetch p env ns t ?m" using assms(1,5,6) by simp
  then have e: "m' = (case r of
         Inl XCAPError \<Rightarrow> retry (XFetch ?names (xe_now env)) (?m2\<lparr>xm_docs := ds, xm_storage := s\<rparr>)
       | Inl _ \<Rightarrow> xcap_die (?m2\<lparr>xm_docs := ds, xm_storage := s\<rparr>)
       | Inr _ \<Rightarrow>
           if xm_journal ?m2 = [] \<and> 0 < xm_last_fetch ?m2 \<and> (\<forall>d \<in> set ds. xd_fetch_time d < t)
           then xcap_set_state XInsync (?m2\<lparr>xm_docs := ds, xm_storage := s, xm_last_fetch := xe_now env\<rparr>)
           else xcap_send XUpdate ((xcap_set_state XUpdating (?m2\<lparr>xm_docs := ds, xm_storage := s, xm_last_fetch := xe_now env\<rparr>))
                  \<lparr>xm_journal := normalize_first (xm_journal ?m2)\<rparr>))"
    using fetch_cases[OF st m2 refl f] by simp
  show ?thesis
  proof (cases r)
    case (Inl x)
    then show ?thesis using e assms(7,8) by (cases x) (simp_all add: retry_def xcap_die_def xcap_set_state_def)
  next
    case (Inr u)
    then show ?thesis using e assms(8) by (auto simp: xcap_send_def xcap_set_state_def split: if_splits)
  qed
qed

lemma update_step:
  assumes "xm_queue m = [XUpdate]" "xm_state m = XUpdating" "xm_transaction m = 0" and "quiet_env env" and "xm_alive m"
    and "fst (update_documents p env (apply_pending p (xm_journal m) (xm_docs m)) (xm_storage m)) = Inr ()"
    and "m' = step_manager p (ProcessStep env) m"
  shows "operations m' = [] \<and>
    xm_docs m' = fst (snd (update_documents p env (apply_pending p (xm_journal m) (xm_docs m)) (xm_storage m)))"
proof -
  let ?m = "m\<lparr>xm_queue := []\<rparr>"
  let ?m2 = "(xcap_set_state XUpdating ?m)\<lparr>xm_timer := None, xm_docs := apply_pending p (xm_journal ?m) (xm_docs ?m),
    xm_journal := mark True (xm_journal ?m)\<rparr>"
  obtain r ds s where u: "update_documents p env (xm_docs ?m2) (xm_storage ?m2) = (r, ds, s)" by (metis prod_cases3)
  obtain r' ds' s' where rd: "reset_documents p needs_update ds s = (r', ds', s')" by (metis prod_cases3)
  have st: "xm_state ?m \<in> {XInsync, XUpdating}" "xm_transaction ?m = 0" using assms(2,3) by simp_all
  have m2: "?m2 = meanwhile p env ?m2" using assms(4) by simp
  have u': "update_documents p env (apply_pending p (xm_journal m) (xm_docs m)) (xm_storage m) = (r, ds, s)"
    using u by (simp add: xcap_set_state_def)
  then have r: "r = Inr ()" using assms(6) by simp
  have "m' = CH_update p env ?m" using assms(1,5,7) by simp
  then have "m' = update_succeeded p env (length (xm_journal ?m)) (?m2\<lparr>xm_docs := ds, xm_storage := s\<rparr>)"
    using update_cases[OF st m2 u rd] r by simp
  moreover have "xm_docs (update_succeeded p env n x) = xm_docs x" "xm_journal (update_succeeded p env n x) = drop n (xm_journal x)" for n x
    by (simp_all add: update_succeeded_def Let_def xcap_set_state_def xcap_post_def xcap_die_def save_journal_def xcap_send_def
        split: option.split)
  ultimately show ?thesis using u' by (simp add: operations_def mark_def)
qed

lemma pending_applied:
  assumes "\<forall>e \<in> set j. je_applied e"
  shows "apply_pending p j ds = ds"
    and "apply_pending p (normalize_first j) ds =
      (if j = [] \<or> je_operation (hd j) \<noteq> Normalize then xp_apply p Normalize ds else ds)"
proof -
  have *: "apply_pending p j ds = ds" for ds
    using assms by (induction j) (simp_all add: apply_pending_def)
  then show "apply_pending p j ds = ds" .
  show "apply_pending p (normalize_first j) ds =
      (if j = [] \<or> je_operation (hd j) \<noteq> Normalize then xp_apply p Normalize ds else ds)"
    using *[of "xp_apply p Normalize ds"] *[of ds] by (simp add: normalize_first_def apply_pending_def)
qed

text \<open>
  C39. Changes that wait for the server are dropped when the server's address changes. When an
  update could not be sent the operations stay in the journal, marked as applied, and only the
  documents hold them. A new XCAP root resets every document, but the marks stay. So when nothing
  else happens while the manager initializes, fetches the documents of the new server and updates,
  the update applies no operation but the normalization to the fetched documents; once its
  requests have gone through, the journal is empty and the documents are what the server was
  sent: the operations are gone.
\<close>

theorem changed_root_drops_changes:
  assumes "xm_alive m" and "xm_queue m = [XReload modified]" and "xm_state m \<notin> {XTerminated, XStopped}" and "xm_transaction m = 0"
    and "''xcap.xcap_root'' \<in> set modified" and "''__id__'' \<notin> set modified"
    and "xm_journal m \<noteq> []" and "\<forall>e \<in> set (xm_journal m). je_applied e"
    and "m1 = step_manager p (ProcessStep e1) m" and "xm_alive m1"
    and "m2 = step_manager p (ProcessStep e2) m1" and "xm_alive m2" and "quiet_env e2"
    and "m3 = step_manager p (ProcessStep e3) m2" and "xm_alive m3" and "quiet_env e3" and "xm_state m3 = XUpdating"
    and "m4 = step_manager p (ProcessStep e4) m3" and "quiet_env e4"
    and "sent = (if je_operation (hd (xm_journal m)) = Normalize then xm_docs m3 else xp_apply p Normalize (xm_docs m3))"
    and "fst (update_documents p e4 sent (xm_storage m3)) = Inr ()"
  shows "list_all (\<lambda>d. xd_content d = None \<and> \<not> xd_dirty d) (xm_docs m1) \<and> operations m1 = operations m \<and>
    operations m4 = [] \<and> xm_docs m4 = fst (snd (update_documents p e4 sent (xm_storage m3)))"
proof -
  note 1 = reload_root_step[OF assms(1-3,5,6,9,10)]
  note 2 = initialize_step[OF conjunct1[OF conjunct2[OF 1]] assms(13,11,10,12)]
  from 2 obtain ns t where q: "xm_queue m2 = [XFetch ns t]" "xm_state m2 = XFetching" "xm_timer m2 = None"
    using assms(12,14,17) by auto
  note 3 = fetch_step[OF q assms(16,14,12,15,17)]
  have j: "xm_journal m3 = normalize_first (xm_journal m)" and t: "xm_transaction m3 = 0"
    using 1 2 3 assms(4) by simp_all
  have sent: "apply_pending p (xm_journal m3) (xm_docs m3) = sent"
    unfolding j pending_applied(2)[OF assms(8)] assms(20) using assms(7) by simp
  have "operations m4 = [] \<and> xm_docs m4 = fst (snd (update_documents p e4 sent (xm_storage m3)))"
    using update_step[OF _ assms(17) t assms(19,15) _ assms(18)] 3 assms(21) unfolding sent by simp
  with 1 show ?thesis by (simp add: operations_def)
qed

definition pending_manager :: "(string, memory_storage, string) xcap_manager" where
  "pending_manager = (new_manager [\<lparr>xd_name = ''pidf-manipulation'', xd_application = ''pidf-manipulation'', xd_cached = True,
      xd_content = Some \<lparr>ct_body = ''away'', ct_dirty = True\<rparr>, xd_etag = None, xd_fetch_time = 0, xd_update_time = 0,
      xd_flag = True, xd_supported = True\<rparr>] [] [])
     \<lparr>xm_state := XUpdating, xm_journal := [\<lparr>je_operation = Requested ''away'', je_applied = True\<rparr>],
      xm_queue := [XReload [''xcap.xcap_root'']], xm_subscriber := True\<rparr>"

definition new_server_env :: "string xcap_env" where
  "new_server_env = sample_xcap_env\<lparr>xe_answer := (\<lambda>_. HttpOk (Some ''tag'') ''here''),
     xe_caps := CapsGot [''resource-lists'', ''rls-services'', ''org.openmobilealliance.pres-rules'', ''pidf-manipulation'']\<rparr>"

lemmas new_server_run = sample_run pending_manager_def new_server_env_def document_reset_def storage_outcome_def ops_of_def
  document_initialize_def document_fetch_def save_copy_def sample_payload_def needs_update_def xd_dirty_def set_dirty_def
  xmem_save_def xmem_delete_def

lemma new_server_fetched:
  "let m3 = run_manager sample_parts (replicate 3 (ProcessStep new_server_env)) pending_manager
   in xm_alive (run_manager sample_parts [ProcessStep new_server_env] pending_manager) \<and>
      xm_alive (run_manager sample_parts (replicate 2 (ProcessStep new_server_env)) pending_manager) \<and>
      xm_alive m3 \<and> xm_state m3 = XUpdating \<and> map (map_option ct_body \<circ> xd_content) (xm_docs m3) = [Some ''here''] \<and>
      map xd_dirty (xm_docs m3) = [False]"
  by (simp add: new_server_run numeral_eq_Suc)

theorem changed_root_drops_changes_witness:
  "operations pending_manager = [Requested ''away''] \<and>
   operations (run_manager sample_parts (replicate 4 (ProcessStep new_server_env)) pending_manager) = [] \<and>
   map (map_option ct_body \<circ> xd_content)
     (xm_docs (run_manager sample_parts (replicate 4 (ProcessStep new_server_env)) pending_manager)) = [Some ''here'']"
proof -
  define m1 where "m1 = step_manager sample_parts (ProcessStep new_server_env) pending_manager"
  define m2 where "m2 = step_manager sample_parts (ProcessStep new_server_env) m1"
  define m3 where "m3 = step_manager sample_parts (ProcessStep new_server_env) m2"
  define m4 where "m4 = step_manager sample_parts (ProcessStep new_server_env) m3"
  have runs: "run_manager sample_parts [ProcessStep new_server_env] pending_manager = m1"
    "run_manager sample_parts (replicate 2 (ProcessStep new_server_env)) pending_manager = m2"
    "run_manager sample_parts (replicate 3 (ProcessStep new_server_env)) pending_manager = m3"
    "run_manager sample_parts (replicate 4 (ProcessStep new_server_env)) pending_manager = m4"
    by (simp_all add: run_manager_def m1_def m2_def m3_def m4_def numeral_eq_Suc del: step_manager.simps)
  have reached: "xm_alive m1" "xm_alive m2" "xm_alive m3" "xm_state m3 = XUpdating"
    and body: "map (map_option ct_body \<circ> xd_content) (xm_docs m3) = [Some ''here'']" "map xd_dirty (xm_docs m3) = [False]"
    using new_server_fetched unfolding runs Let_def by blast+
  have start: "xm_alive pending_manager" "xm_queue pending_manager = [XReload [''xcap.xcap_root'']]"
    "xm_state pending_manager \<notin> {XTerminated, XStopped}" "xm_transaction pending_manager = 0"
    "''xcap.xcap_root'' \<in> set [''xcap.xcap_root'']" "''__id__'' \<notin> set [''xcap.xcap_root'']"
    "xm_journal pending_manager \<noteq> []" "\<forall>e \<in> set (xm_journal pending_manager). je_applied e"
    by (simp_all add: pending_manager_def new_manager_def)
  have quiet: "quiet_env new_server_env" by (simp add: quiet_env_def new_server_env_def sample_xcap_env_def)
  obtain d where d: "xm_docs m3 = [d]" "\<not> xd_dirty d" using body(2) by auto
  have sent: "xm_docs m3 = (if je_operation (hd (xm_journal pending_manager)) = Normalize then xm_docs m3
      else xp_apply sample_parts Normalize (xm_docs m3))"
    by (simp add: sample_parts_def)
  have idle: "update_documents sample_parts new_server_env (xm_docs m3) s = (Inr (), xm_docs m3, s)" for s
    using d by (simp add: update_documents_def needs_update_def)
  from idle have finished: "fst (update_documents sample_parts new_server_env (xm_docs m3) (xm_storage m3)) = Inr ()" by simp
  have "list_all (\<lambda>d. xd_content d = None \<and> \<not> xd_dirty d) (xm_docs m1) \<and> operations m1 = operations pending_manager \<and>
      operations m4 = [] \<and> xm_docs m4 = fst (snd (update_documents sample_parts new_server_env (xm_docs m3) (xm_storage m3)))"
    by (rule changed_root_drops_changes[OF start m1_def reached(1) m2_def reached(2) quiet m3_def reached(3) quiet reached(4)
          m4_def quiet sent finished])
  then show ?thesis using body idle unfolding runs by (simp add: operations_def pending_manager_def)
qed

end
