(* ===== verification/Spec2Isabelle.thy ===== *)
theory Spec2Isabelle
  imports Settings_Object File_Backend Addresses DNS_Lookup Requests Registrar Publisher Subscriber Session_Offers Audio_Tree Audio_Conference Account Account_Manager Xcap_Access Xcap_Working
begin

text \<open>
  Verification library of the SIP SIMPLE client SDK, the Python package under
  \<open>src/sipsimple\<close>. The SDK sits between an application and PJSIP: a Cython core (\<open>core/_core\<close>)
  turns SIP requests, dialogs and media into notifications, and Python components built on
  notifications, settings and green threads implement accounts, sessions, streams and presence.
  This library models those Python components, from what is stored on disk to what a call does.

  \<^bold>\<open>How code becomes definitions.\<close> An object is a record with the attributes the code assigns,
  an operation is a function from the state to a result and the state left behind (\<open>eff\<close> and \<open>proc\<close> in
  \<open>Effects\<close>), so that what was assigned before an exception survives it, as in Python. Every \<open>raise\<close> is
  a value (\<open>pyerr\<close> in \<open>Prelude\<close>, a type of its own for the sessions). What an object does to others -
  notifications, requests, calls of the core and of streams - is appended to a log in its state.
  Answers from outside (DNS, the core, the clock, random draws, observers) are arguments. A green
  thread that waits on a channel reads a script of what wakes it up; properties quantify over all
  scripts. Loops without a structural bound take as fuel the length of the script they consume: every
  turn reads an item, so the fuel does not run out before the script does, and a script that ends while
  the procedure waits gives \<open>Stuck\<close>, a procedure that never returns.

  \<^bold>\<open>Theories and code.\<close>
  \<^item> \<open>Prelude\<close>, \<open>Effects\<close>: exceptions, Python dictionaries (locale \<open>dictionary\<close>), effects and the
    rules for what they keep (\<open>steps_keep\<close>, \<open>triple\<close>, \<open>stable\<close>).
  \<^item> \<open>Config_Tree\<close>, \<open>Config_Manager\<close>, \<open>File_Backend\<close>: \<open>configuration/__init__.py\<close>
    (\<open>ConfigurationManager\<close>), \<open>configuration/backend\<close>. The tree of settings, its operations by path, and
    the text format. The locale \<open>config_backend\<close> is the interface of a backend; the memory and the
    file backend interpret it. Shown: what is stored is what is read and nothing else changes;
    a saved file is read back as the same tree, as long as the tree is one the format can hold
    (\<open>storable\<close>, which \<open>settings_survive_restart\<close> derives from the operations of a run); a save that fails
    leaves the old file.
  \<^item> \<open>Settings_Object\<close>: the objects of settings themselves, \<open>SettingsObjectID\<close>, \<open>SettingsGroup\<close>,
    \<open>SettingsObject\<close>. Composed with the manager: what an object saved is what its successor loads, whatever
    other objects do, unless a renamed object is saved under an id that something is stored under, and ids
    stay apart.
  \<^item> \<open>Setting\<close>, \<open>Python_Text\<close>, \<open>Config_Types\<close>, \<open>Addresses\<close>: the setting descriptors and
    \<open>configuration/datatypes.py\<close>, with the regular expressions the code uses as terms of a small matcher
    that is proved sound and complete for their languages. Shown: change tracking, the accepted names
    and addresses, and (locale \<open>setting_type\<close>) that printed values are read back.
  \<^item> \<open>Route\<close>, \<open>DNS_Lookup\<close>: \<open>core/_helpers.py\<close>, \<open>lookup.py\<close>. Shown: routes are usable and of the
    transports asked for, records are in the order of the RFCs; a lookup's lifetime is what the clock
    leaves of it; the cache, whose timers belong to the dictionary they were set for, holds what was put
    last and is fresh; the probing of nameservers goes on.
  \<^item> \<open>Account\<close>, \<open>Account_Manager\<close>: \<open>account/__init__.py\<close>. Shown: an account is active, and its agents
    run, exactly while it is started and enabled; the default account is enabled and there is one when
    there can be, as long as it is not deleted or renamed and no disabled account takes its id.
  \<^item> \<open>Requests\<close>: \<open>core/_primitives.py\<close>, the request objects under registrations and publications.
  \<^item> \<open>Agents\<close>, \<open>Registrar\<close>, \<open>Publisher\<close>, \<open>Subscriber\<close>: \<open>account/registration.py\<close>, \<open>publication.py\<close>,
    \<open>subscription.py\<close>. The command processes with their timers and back-off. Shown: an active agent
    that is not registered (published, subscribed) always has a command, a request or a timer that
    will try again; waiting times are bounded; stopping terminates, for the registrar when the core
    accepts or refuses the request that \<open>Registration.end\<close> of \<open>Requests\<close> sends, and an answer comes.
  \<^item> \<open>Session_Base\<close>, \<open>Session_Hold\<close>, \<open>Session_Calls\<close>, \<open>Session_Proposals\<close>, \<open>Session_Events\<close>: the class
    \<open>Session\<close> of \<open>session.py\<close>, procedure by procedure: \<open>connect\<close>, \<open>accept\<close>, \<open>reject\<close>, \<open>end\<close>, the
    proposals in both directions, hold, the notifications handled without a running procedure.
    \<open>Session_Runs\<close> composes them: calls, notifications and scheduled procedures as a step relation
    (\<open>session_step\<close>), in which calls and notifications come at any time and scheduled procedures run in
    order, each from its start to its end (what happens while it waits is in its script) but for the kill
    of another procedure, after which \<open>end\<close> and \<open>cancel_proposal\<close> go on in a later step.
    \<open>Session_Kept\<close> holds the locales \<open>kept\<close>, \<open>kept_open\<close>, \<open>kept_busy\<close> and \<open>kept_any\<close>: which conditions on a
    session every procedure keeps; \<open>Session_Ends\<close> interprets them for the stages of a session's life and
    shows that its end is reported at most once while its procedures run in order (\<open>orderly_session\<close>), and
    twice when \<open>end\<close> is called twice while a procedure runs; \<open>Session_Offers\<close> shows what becomes of the
    remote party's offers.
  \<^item> \<open>Audio_Bridge\<close>, \<open>Audio_Tree\<close>, \<open>Audio_Conference\<close>: \<open>audio.py\<close>. What a bridge connects, whatever happens
    to its ports; bridges inside bridges carry audio as one bridge would; conferences of
    streams, from \<open>AudioConference.__init__\<close> on, with the outcome of every operation.
  \<^item> \<open>Xcap_Book\<close>, \<open>Xcap_Replay\<close>, \<open>Xcap_Access\<close>: \<open>account/xcap/__init__.py\<close> and the elements of
    \<open>payloads/addressbook.py\<close> it works on: the address book kept on the XCAP server, with the dirty flags of
    its elements, and the handlers of the operations the application asks for. \<open>Xcap_Replay\<close> gives the
    abstract address book and shows that every handler, and the replay of a whole journal, does to it what
    was asked; \<open>Xcap_Access\<close> gives the lists of granted and blocked addresses and what is loaded from the document.
  \<^item> \<open>Xcap_Storage\<close>, \<open>Xcap_Document\<close>, \<open>Xcap_Manager\<close>, \<open>Xcap_Working\<close>: \<open>account/xcap/storage\<close> (locale
    \<open>xcap_storage\<close>, interpreted by the memory and the file storage), the cached documents, and the command
    process of \<open>XCAPManager\<close> with its journal, transactions and timer. Shown: the manager always has a
    command or a timer that will go on with its work, and an operation stays in the journal until the
    documents it changed were stored.
  \<^bold>\<open>How the parts interact.\<close> Settings are coerced and printed by \<open>Config_Types\<close> and \<open>Addresses\<close>, stored
  through \<open>Config_Manager\<close> in a backend (\<open>settings_survive_restart\<close>, \<open>sip_proxy_setting_restored\<close>). Registrar,
  publishers and subscribers ask \<open>DNS_Lookup\<close> for routes and drive the requests of \<open>Requests\<close>; the
  publishers are composed with their request object, event by event. Sessions get routes from the
  application and drive an invitation of the core, whose behaviour is arbitrary in the properties.

  \<^bold>\<open>Simplifications.\<close> Header contents, display texts, time stamps and log messages are left out where
  no decision reads them. Sets of indexes are taken in ascending order. Threads other than the reactor's
  are not interleaved inside an operation. Each theory names its own.

  \<^bold>\<open>Not modelled.\<close> The Cython core and PJSIP; of the XML payloads (\<open>payloads/\<close>, bindings to lxml and XML
  Schema) all but the elements the address book uses; the RTP and MSRP streams, which are calls into the
  core and msrplib; of the XCAP manager, the handlers of the default policies, the status icon and the
  offline status; Bonjour (dns_sd); the application object, engine start-up, logging, and the threading
  helpers, which wrap Twisted and eventlib. In \<open>session.py\<close>, the handlers of referrals, conferences and transfers.
\<close>

end
